(* ===== verification/Crf_Prelude.thy ===== *)
theory Crf_Prelude
  imports Main "HOL-Library.Word" "HOL-Library.Multiset" "HOL-Library.Product_Lexorder" "HOL-Library.List_Lexorder"
begin

text \<open>
  Shared vocabulary of the development: the three-way comparisons that the C++ comparators
  return (\<open>-1\<close>, \<open>0\<close>, \<open>1\<close>), the standard algorithms the sources call
  (\<open>std::stable_sort\<close>, \<open>std::unique\<close>, \<open>std::binary_search\<close>), the locale that turns a
  comparator with a key into the facts about sorting with it, and the collections of
  simplification rules the component theories share.
\<close>

unbundle bit_operations_syntax

named_theorems crf_defs \<open>definitions unfolded by component proofs\<close>
named_theorems cmp_key \<open>comparators rewritten to comparisons of keys\<close>
named_theorems codec_rt \<open>round trips of the byte codec\<close>
named_theorems gate_simps \<open>rewrites of early-return chains\<close>

subsection \<open>Machine types\<close>

type_synonym byte = "8 word"
type_synonym u8 = "8 word"
type_synonym u16 = "16 word"
type_synonym u32 = "32 word"
type_synonym u64 = "64 word"
text \<open>\<open>std::int64_t\<close> is kept at its width; it is read with \<^const>\<open>sint\<close>.\<close>
type_synonym i64 = "64 word"

lemma unat_u32_of_nat [simp]: "n < 2 ^ 32 \<Longrightarrow> unat (word_of_nat n :: 32 word) = n"
  by (rule of_nat_inverse [OF refl]) simp

lemma unat_u64_of_nat [simp]: "n < 2 ^ 64 \<Longrightarrow> unat (word_of_nat n :: 64 word) = n"
  by (rule of_nat_inverse [OF refl]) simp

lemma sint_eq_iff [simp]: "sint (a :: 'w::len word) = sint b \<longleftrightarrow> a = b"
  by (auto intro: signed_word_eqI)

lemma uint_eq_iff [simp]: "uint (a :: 'w::len word) = uint b \<longleftrightarrow> a = b"
  by (auto intro: unsigned_word_eqI)

subsection \<open>Three-way comparison\<close>

definition cmp_of :: "'k::linorder \<Rightarrow> 'k \<Rightarrow> int" where
  "cmp_of a b = (if a < b then - 1 else if b < a then 1 else 0)"

lemma cmp_of_refl [simp]: "cmp_of a a = 0"
  by (simp add: cmp_of_def)

lemma cmp_of_eq_0 [simp]: "cmp_of a b = 0 \<longleftrightarrow> a = b"
  by (auto simp: cmp_of_def)

lemma cmp_of_less_0 [simp]: "cmp_of a b < 0 \<longleftrightarrow> a < b"
  by (auto simp: cmp_of_def)

lemma cmp_of_greater_0 [simp]: "0 < cmp_of a b \<longleftrightarrow> b < a"
  by (auto simp: cmp_of_def)

lemma cmp_of_antisym: "cmp_of b a = - cmp_of a b"
  by (auto simp: cmp_of_def)

text \<open>Comparing pairs first by the first component is what a chain of
  \<open>if (a.x != b.x) return a.x < b.x ? -1 : 1;\<close> statements computes.\<close>

lemma cmp_of_Pair [cmp_key]:
  "cmp_of (a, x) (b, y) = (if a \<noteq> b then if a < b then - 1 else 1 else cmp_of x y)"
  by (auto simp: cmp_of_def)

lemma cmp_of_Cons [cmp_key]:
  "cmp_of (a # x) (b # y) = (if a < b then - 1 else if b < a then 1 else cmp_of x y)"
  by (auto simp: cmp_of_def)

lemma cmp_of_Nil [simp]:
  "cmp_of [] (b # y) = - 1" "cmp_of (a # x) [] = 1"
  by (auto simp: cmp_of_def)

subsection \<open>Sorting with a comparator\<close>

text \<open>\<open>std::stable_sort\<close>: equal elements keep their order. The insertion formulation is the
  reference algorithm; the result of a stable sort is determined by its specification.\<close>

fun insert_by :: "('a \<Rightarrow> 'a \<Rightarrow> bool) \<Rightarrow> 'a \<Rightarrow> 'a list \<Rightarrow> 'a list" where
  "insert_by lt x [] = [x]"
| "insert_by lt x (y # ys) = (if lt y x then y # insert_by lt x ys else x # y # ys)"

definition stable_sort :: "('a \<Rightarrow> 'a \<Rightarrow> bool) \<Rightarrow> 'a list \<Rightarrow> 'a list" where
  "stable_sort lt xs = foldr (insert_by lt) xs []"

lemma mset_insert_by [simp]: "mset (insert_by lt x xs) = add_mset x (mset xs)"
  by (induction xs) auto

lemma mset_stable_sort [simp]: "mset (stable_sort lt xs) = mset xs"
  by (induction xs) (auto simp: stable_sort_def)

lemma set_stable_sort [simp]: "set (stable_sort lt xs) = set xs"
  by (metis mset_stable_sort set_mset_mset)

lemma length_stable_sort [simp]: "length (stable_sort lt xs) = length xs"
  by (metis mset_stable_sort size_mset)

lemma distinct_stable_sort [simp]: "distinct (stable_sort lt xs) \<longleftrightarrow> distinct xs"
  by (metis mset_stable_sort mset_eq_imp_distinct_iff)

lemma insert_by_key:
  assumes "\<And>a b. lt a b \<longleftrightarrow> key a < (key b :: 'k::linorder)"
  shows "insert_by lt x xs = insort_key key x xs"
  by (induction xs) (auto simp: assms)

lemma stable_sort_key:
  assumes "\<And>a b. lt a b \<longleftrightarrow> key a < (key b :: 'k::linorder)"
  shows "stable_sort lt xs = sort_key key xs"
proof -
  have "insert_by lt = insort_key key"
    by (intro ext insert_by_key) (rule assms)
  then show ?thesis by (simp add: stable_sort_def sort_key_def)
qed

text \<open>A comparator whose decisions come from a key: what the sources rely on when they hand a
  comparator to a standard algorithm.\<close>

locale keyed_order =
  fixes lt :: "'a \<Rightarrow> 'a \<Rightarrow> bool"
    and key :: "'a \<Rightarrow> 'k::linorder"
  assumes less_key: "lt a b \<longleftrightarrow> key a < key b"
begin

lemma less_irrefl: "\<not> lt a a"
  by (simp add: less_key)

lemma less_trans: "lt a b \<Longrightarrow> lt b c \<Longrightarrow> lt a c"
  by (auto simp: less_key)

lemma less_asym: "lt a b \<Longrightarrow> \<not> lt b a"
  by (auto simp: less_key)

lemma incomparable_trans:
  "\<not> lt a b \<Longrightarrow> \<not> lt b a \<Longrightarrow> \<not> lt b c \<Longrightarrow> \<not> lt c b \<Longrightarrow> \<not> lt a c \<and> \<not> lt c a"
  by (auto simp: less_key)

lemma stable_sort_eq: "stable_sort lt xs = sort_key key xs"
  by (rule stable_sort_key) (rule less_key)

lemma sorted_keys: "sorted (map key (stable_sort lt xs))"
  by (simp add: stable_sort_eq)

lemma stable_sort_sorted: "sorted_wrt (\<lambda>a b. \<not> lt b a) (stable_sort lt xs)"
  using sorted_keys [of xs]
  by (simp add: sorted_map less_key not_less)

lemma stable_sort_stable:
  "filter (\<lambda>x. key x = k) (stable_sort lt xs) = filter (\<lambda>x. key x = k) xs"
  unfolding stable_sort_eq
  by (rule sort_key_stable)

lemma stable_sort_id:
  "sorted_wrt (\<lambda>a b. \<not> lt b a) xs \<Longrightarrow> stable_sort lt xs = xs"
  by (simp add: stable_sort_eq sorted_sort_id sort_key_id_if_sorted sorted_map less_key not_less)

end

locale total_keyed_order = keyed_order lt key
  for lt :: "'a \<Rightarrow> 'a \<Rightarrow> bool" and key :: "'a \<Rightarrow> 'k::linorder" +
  assumes key_inj: "key a = key b \<Longrightarrow> a = b"
begin

lemma less_total: "a \<noteq> b \<Longrightarrow> lt a b \<or> lt b a"
  by (metis key_inj less_key linorder_neqE)

lemma inj_key: "inj_on key A"
  by (auto intro: inj_onI key_inj)

lemma stable_sort_perm:
  assumes "mset xs = mset ys"
  shows "stable_sort lt xs = stable_sort lt ys"
  unfolding stable_sort_eq
  using assms inj_key by (metis properties_for_sort_key sort_key_inj_key_eq sorted_sort_key mset_sort)

lemma strict_sorted_distinct:
  "distinct xs \<Longrightarrow> sorted_wrt lt (stable_sort lt xs)"
proof -
  assume "distinct xs"
  then have "distinct (map key (stable_sort lt xs))"
    by (simp add: distinct_map inj_key)
  then have "sorted_wrt (<) (map key (stable_sort lt xs))"
    using sorted_keys strict_sorted_iff by blast
  moreover have "lt = (\<lambda>a b. key a < key b)"
    by (intro ext) (rule less_key)
  ultimately show ?thesis by (simp add: sorted_wrt_map)
qed

end

subsection \<open>Sorted identity lists\<close>

text \<open>\<open>std::lower_bound\<close> and \<open>std::binary_search\<close>; both require a sorted range.\<close>

definition lower_bound :: "'a::linorder list \<Rightarrow> 'a \<Rightarrow> 'a list" where
  "lower_bound xs v = dropWhile (\<lambda>x. x < v) xs"

definition binary_search :: "'a::linorder list \<Rightarrow> 'a \<Rightarrow> bool" where
  "binary_search xs v = (case lower_bound xs v of [] \<Rightarrow> False | y # _ \<Rightarrow> \<not> v < y)"

lemma binary_search_iff: "sorted xs \<Longrightarrow> binary_search xs v \<longleftrightarrow> v \<in> set xs"
proof (induction xs)
  case Nil
  then show ?case by (simp add: binary_search_def lower_bound_def)
next
  case (Cons x xs)
  then show ?case
    by (cases "x < v") (auto simp: binary_search_def lower_bound_def not_less)
qed

text \<open>\<open>std::sort\<close> followed by \<open>std::unique\<close> and \<open>erase\<close>.\<close>

definition sort_unique :: "'a::linorder list \<Rightarrow> 'a list" where
  "sort_unique xs = remdups_adj (sort xs)"

lemma set_sort_unique [simp]: "set (sort_unique xs) = set xs"
  by (simp add: sort_unique_def)

lemma strict_sorted_remdups_adj:
  "sorted (xs :: 'a::linorder list) \<Longrightarrow> sorted_wrt (<) (remdups_adj xs)"
proof (induction xs rule: remdups_adj.induct)
  case (3 x y xs)
  then show ?case by (cases "x = y") (auto simp: order_less_le)
qed auto

lemma strict_sorted_sort_unique [simp]: "sorted_wrt (<) (sort_unique xs)"
  by (simp add: sort_unique_def strict_sorted_remdups_adj)

lemma strict_sorted_eq:
  assumes "sorted_wrt (<) (xs :: 'a::linorder list)" "sorted_wrt (<) ys" "set xs = set ys"
  shows "xs = ys"
  using assms by (simp add: strict_sorted_equal)

lemma sort_unique_cong: "set xs = set ys \<Longrightarrow> sort_unique xs = sort_unique ys"
  by (rule strict_sorted_eq) simp_all

lemma sort_unique_id: "sorted_wrt (<) xs \<Longrightarrow> sort_unique xs = xs"
  by (rule strict_sorted_eq) simp_all

lemma sort_unique_idem [simp]: "sort_unique (sort_unique xs) = sort_unique xs"
  by (rule sort_unique_id) simp

lemma sort_unique_eq_Nil [simp]: "sort_unique xs = [] \<longleftrightarrow> xs = []"
  by (metis set_empty set_sort_unique)

lemma length_sort_unique_le: "length (sort_unique xs) \<le> length xs"
  by (metis length_sort remdups_adj_length sort_unique_def)

text \<open>Adjacent strict order of a transitive relation is strict order everywhere.\<close>

fun adjacent :: "('a \<Rightarrow> 'a \<Rightarrow> bool) \<Rightarrow> 'a list \<Rightarrow> bool" where
  "adjacent P (x # y # zs) = (P x y \<and> adjacent P (y # zs))"
| "adjacent P _ = True"

lemma adjacent_sorted_wrt: "transp P \<Longrightarrow> adjacent P xs \<longleftrightarrow> sorted_wrt P xs"
proof (induction P xs rule: adjacent.induct)
  case (1 P x y zs)
  then show ?case by (auto dest: transpD)
qed auto

end
