(* ===== verification/Identity.thy ===== *)
theory Identity
  imports Crf_Prelude
begin

text \<open>
  Identities, generations, status codes and resource limits
  (\<open>identity.hpp\<close>, \<open>status.hpp\<close>, \<open>limits.hpp\<close>, \<open>limits.cpp\<close>). Every identity domain is a
  64-bit value for which zero is never valid; a generation is a 64-bit counter that starts
  at 1, increases strictly and stops at \<open>kMaxGeneration\<close> instead of wrapping.
\<close>

subsection \<open>Identities and generations\<close>

type_synonym strong_id = u64
type_synonym generation = u64

type_synonym constraint_id = strong_id
type_synonym constraint_set_id = strong_id
type_synonym evaluation_id = strong_id
type_synonym path_id = strong_id
type_synonym node_id = strong_id
type_synonym link_id = strong_id
type_synonym tier_id = strong_id
type_synonym site_id = strong_id
type_synonym locality_domain_id = strong_id
type_synonym failure_domain_id = strong_id
type_synonym capability_id = strong_id
type_synonym policy_id = strong_id
type_synonym isolation_class_id = strong_id
type_synonym publisher_id = strong_id
type_synonym worker_boot_id = strong_id
type_synonym mutation_attempt_id = strong_id
type_synonym session_id = strong_id
type_synonym coordinator_epoch = generation

definition is_valid :: "u64 \<Rightarrow> bool" where
  "is_valid v \<longleftrightarrow> v \<noteq> 0"

definition kMaxGeneration :: u64 where
  "kMaxGeneration = 0x7fffffffffffffff"

definition is_representable :: "u64 \<Rightarrow> bool" where
  "is_representable v \<longleftrightarrow> v \<noteq> 0 \<and> v \<le> kMaxGeneration"

text \<open>\<open>Generation::next\<close>: \<^const>\<open>None\<close> is the result \<open>false\<close>.\<close>

definition next_gen :: "generation \<Rightarrow> generation option" where
  "next_gen g = (if kMaxGeneration \<le> g then None else Some (g + 1))"

lemma kMaxGeneration_half: "kMaxGeneration = (- 1) div 2"
  unfolding kMaxGeneration_def by simp

lemma next_gen_unat:
  "next_gen g = Some h \<Longrightarrow> unat h = unat g + 1"
proof -
  assume "next_gen g = Some h"
  then have h: "h = g + 1" and lt: "g < 0x7fffffffffffffff"
    by (auto simp: next_gen_def kMaxGeneration_def not_le split: if_splits)
  have "unat g < 0x7fffffffffffffff"
    using lt by (simp add: word_less_nat_alt)
  then show "unat h = unat g + 1"
    unfolding h by (simp add: unat_word_ariths)
qed

lemma next_gen_greater: "next_gen g = Some h \<Longrightarrow> g < h"
  using next_gen_unat by (fastforce simp: word_less_nat_alt)

lemma next_gen_representable: "next_gen g = Some h \<Longrightarrow> is_representable h"
proof -
  assume n: "next_gen g = Some h"
  then have lt: "g < kMaxGeneration"
    by (auto simp: next_gen_def not_le split: if_splits)
  have u: "unat h = unat g + 1" using n by (rule next_gen_unat)
  have "h \<noteq> 0" using u by auto
  moreover have "h \<le> kMaxGeneration"
    using u lt by (simp add: word_less_nat_alt word_le_nat_alt)
  ultimately show ?thesis by (simp add: is_representable_def)
qed

lemma next_gen_None_iff: "next_gen g = None \<longleftrightarrow> kMaxGeneration \<le> g"
  by (simp add: next_gen_def)

subsection \<open>Status codes\<close>

text \<open>\<open>Status\<close> and \<open>Error\<close> carry a code and a human-readable detail that no decision reads;
  the model keeps the code. \<open>Status::success()\<close> is the code \<open>Ok\<close>, \<open>Result<T>\<close> is a sum.\<close>

datatype error_code =
    Ok | InvalidArgument | Malformed | ResourceLimit | ContradictoryConstraintSet
  | DuplicateIdentity | UnknownConstraintKind | InvalidNumericBound | ImpossibleGeneration
  | NotFound | Unauthorized | Fenced | EpochMismatch | StaleGeneration | IdempotentReplay
  | MutationAttemptConflict | PersistenceUnavailable | PersistenceCorrupt | DurableWriteFailed
  | IntegrityMismatch | UnsupportedVersion | Truncated | TrailingBytes | TransportFailure
  | ProtocolViolation | NotSupported | Internal

text \<open>An early return \<open>if (b) return e;\<close> that is not taken.\<close>

lemma early_return_Ok [gate_simps]:
  "e \<noteq> Ok \<Longrightarrow> ((if b then e else s) = Ok) \<longleftrightarrow> \<not> b \<and> s = Ok"
  by simp

type_synonym status = error_code
type_synonym 'a result = "error_code + 'a"

subsection \<open>Limits\<close>

record limits =
  max_constraint_sets :: u32
  max_constraints_per_set :: u32
  max_entity_refs_per_constraint :: u32
  max_failed_constraints_per_evaluation :: u32
  max_candidates_per_evaluation :: u32
  max_nodes_per_candidate :: u32
  max_links_per_candidate :: u32
  max_capabilities_per_entity :: u32
  max_domains_per_entity :: u32
  max_localities_per_entity :: u32
  max_policies_per_candidate :: u32
  max_explanation_reasons :: u32
  max_batch_size :: u32
  max_publishers :: u32
  max_sessions :: u32
  max_frame_bytes :: u32
  max_frame_assembly_bytes :: u32
  max_persistence_record_bytes :: u32
  max_evaluations_retained :: u32
  max_fenced_boots :: u32
  max_mutation_attempts :: u32
  max_name_bytes :: u32
  max_detail_bytes :: u32
  max_decoded_count :: u32

text \<open>The member initialisers of \<open>struct Limits\<close>.\<close>

definition default_limits :: limits where
  "default_limits = \<lparr>
     max_constraint_sets = 64, max_constraints_per_set = 256,
     max_entity_refs_per_constraint = 16, max_failed_constraints_per_evaluation = 256,
     max_candidates_per_evaluation = 64, max_nodes_per_candidate = 64,
     max_links_per_candidate = 64, max_capabilities_per_entity = 32,
     max_domains_per_entity = 16, max_localities_per_entity = 8,
     max_policies_per_candidate = 32, max_explanation_reasons = 64,
     max_batch_size = 64, max_publishers = 32, max_sessions = 32,
     max_frame_bytes = 0x100000, max_frame_assembly_bytes = 0x400000,
     max_persistence_record_bytes = 0x1000000, max_evaluations_retained = 1024,
     max_fenced_boots = 256, max_mutation_attempts = 256,
     max_name_bytes = 128, max_detail_bytes = 512, max_decoded_count = 0x1000000 \<rparr>"

definition kAbsoluteMaxLimit :: u32 where
  "kAbsoluteMaxLimit = 0x8000000"

definition check_limit :: "u32 \<Rightarrow> bool" where
  "check_limit value \<longleftrightarrow> (if value = 0 then False else if value > kAbsoluteMaxLimit then False else True)"

definition limit_entries :: "limits \<Rightarrow> u32 list" where
  "limit_entries l = [max_constraint_sets l, max_constraints_per_set l,
     max_entity_refs_per_constraint l, max_failed_constraints_per_evaluation l,
     max_candidates_per_evaluation l, max_nodes_per_candidate l, max_links_per_candidate l,
     max_capabilities_per_entity l, max_domains_per_entity l, max_localities_per_entity l,
     max_policies_per_candidate l, max_explanation_reasons l, max_batch_size l,
     max_publishers l, max_sessions l, max_frame_bytes l, max_frame_assembly_bytes l,
     max_persistence_record_bytes l, max_evaluations_retained l, max_fenced_boots l,
     max_mutation_attempts l, max_name_bytes l, max_detail_bytes l]"

definition validate_limits :: "limits \<Rightarrow> bool" where
  "validate_limits l \<longleftrightarrow>
     list_all check_limit (limit_entries l) \<and>
     \<not> (max_decoded_count l = 0 \<or> max_decoded_count l > kAbsoluteMaxLimit) \<and>
     \<not> max_frame_assembly_bytes l < max_frame_bytes l \<and>
     \<not> max_nodes_per_candidate l < 2 \<and>
     \<not> max_explanation_reasons l < 4 \<and>
     \<not> max_persistence_record_bytes l < 1024"

lemma validate_default_limits: "validate_limits default_limits"
  by code_simp

lemma validate_limits_reasons:
  "validate_limits l \<Longrightarrow> 4 \<le> unat (max_explanation_reasons l)"
  by (auto simp: validate_limits_def word_less_nat_alt not_less)

lemma check_limit_bound: "check_limit v \<longleftrightarrow> 0 < unat v \<and> unat v \<le> 2 ^ 27"
  by (auto simp: check_limit_def kAbsoluteMaxLimit_def word_less_nat_alt unat_gt_0)

lemma validate_limits_entry:
  "validate_limits l \<Longrightarrow> v \<in> set (limit_entries l) \<Longrightarrow> 0 < unat v \<and> unat v \<le> 2 ^ 27"
  by (simp add: validate_limits_def list_all_iff check_limit_bound)

end
