(* ===== verification/Codec.thy ===== *)
theory Codec
  imports Identity
begin

text \<open>
  The little-endian byte codec (\<open>codec.hpp\<close>, \<open>codec.cpp\<close>). A \<open>ByteWriter\<close> is the byte list it
  has accumulated, so every \<open>put\<close> operation is the list of bytes it appends. A \<open>ByteReader\<close> is
  a record of the data, the position and the \<open>ok\<close> flag; an accessor returns \<^const>\<open>None\<close> where
  the source returns \<open>false\<close>, together with the reader it leaves behind.
\<close>

subsection \<open>ByteWriter\<close>

definition put_u8 :: "u8 \<Rightarrow> byte list" where
  "put_u8 v = [v]"

definition put_u16 :: "u16 \<Rightarrow> byte list" where
  "put_u16 v = put_u8 (ucast (v AND 0xff)) @ put_u8 (ucast (drop_bit 8 v AND 0xff))"

definition put_u32 :: "u32 \<Rightarrow> byte list" where
  "put_u32 v = concat (map (\<lambda>i. put_u8 (ucast (drop_bit (i * 8) v AND 0xff))) [0..<4])"

definition put_u64 :: "u64 \<Rightarrow> byte list" where
  "put_u64 v = concat (map (\<lambda>i. put_u8 (ucast (drop_bit (i * 8) v AND 0xff))) [0..<8])"

text \<open>\<open>std::int64_t\<close> and \<open>std::uint64_t\<close> share their bit pattern, so the cast is the identity.\<close>

definition put_i64 :: "i64 \<Rightarrow> byte list" where
  "put_i64 v = put_u64 v"

definition put_bool :: "bool \<Rightarrow> byte list" where
  "put_bool v = put_u8 (if v then 1 else 0)"

definition put_raw :: "byte list \<Rightarrow> byte list" where
  "put_raw data = data"

definition put_bytes :: "byte list \<Rightarrow> byte list" where
  "put_bytes data = put_u32 (word_of_nat (length data)) @ put_raw data"

text \<open>Strings are byte sequences.\<close>

definition put_string :: "byte list \<Rightarrow> byte list" where
  "put_string text = put_u32 (word_of_nat (length text)) @ put_raw text"

subsection \<open>ByteReader\<close>

record byte_reader =
  rd_data :: "byte list"
  rd_position :: nat
  rd_ok :: bool

type_synonym 'a parser = "byte_reader \<Rightarrow> 'a option \<times> byte_reader"

definition byte_reader_of :: "byte list \<Rightarrow> byte_reader" where
  "byte_reader_of d = \<lparr> rd_data = d, rd_position = 0, rd_ok = True \<rparr>"

definition at_end :: "byte_reader \<Rightarrow> bool" where
  "at_end r \<longleftrightarrow> rd_position r = length (rd_data r)"

definition remaining :: "byte_reader \<Rightarrow> nat" where
  "remaining r = (if rd_ok r then length (rd_data r) - rd_position r else 0)"

definition rd_rest :: "byte_reader \<Rightarrow> byte list" where
  "rd_rest r = (if \<not> rd_ok r \<or> rd_position r > length (rd_data r) then []
                else drop (rd_position r) (rd_data r))"

definition rd_fail :: "byte_reader \<Rightarrow> byte_reader" where
  "rd_fail r = r\<lparr>rd_ok := False\<rparr>"

text \<open>\<open>if (!ensure(n)) return false;\<close> followed by reading and skipping \<open>n\<close> bytes.
  \<open>position_ \<le> data_.size()\<close> holds throughout, so the unsigned difference does not wrap.\<close>

definition rd_ensure :: "nat \<Rightarrow> byte_reader \<Rightarrow> bool \<times> byte_reader" where
  "rd_ensure n r =
     (if \<not> rd_ok r then (False, r)
      else if n > length (rd_data r) - rd_position r then (False, rd_fail r)
      else (True, r))"

definition rd_take :: "nat \<Rightarrow> byte list parser" where
  "rd_take n r = (case rd_ensure n r of
      (False, r') \<Rightarrow> (None, r')
    | (True, r') \<Rightarrow> (Some (take n (drop (rd_position r') (rd_data r'))),
                     r'\<lparr>rd_position := rd_position r' + n\<rparr>))"

text \<open>Sequencing: \<open>if (!p(x)) return false;\<close> before the rest.\<close>

definition rd_bind :: "'a parser \<Rightarrow> ('a \<Rightarrow> 'b parser) \<Rightarrow> 'b parser" where
  "rd_bind p f r = (case p r of (None, r') \<Rightarrow> (None, r') | (Some x, r') \<Rightarrow> f x r')"

definition rd_return :: "'a \<Rightarrow> 'a parser" where
  "rd_return x r = (Some x, r)"

text \<open>\<open>if (!c) { reader.fail(); return false; }\<close>\<close>

definition rd_guard :: "bool \<Rightarrow> 'a parser \<Rightarrow> 'a parser" where
  "rd_guard c p r = (if c then p r else (None, rd_fail r))"

definition rd_u8 :: "u8 parser" where
  "rd_u8 = rd_bind (rd_take 1) (\<lambda>bs. rd_return (bs ! 0))"

definition rd_u16 :: "u16 parser" where
  "rd_u16 = rd_bind (rd_take 2) (\<lambda>bs. rd_return (ucast (bs ! 0) OR push_bit 8 (ucast (bs ! 1))))"

text \<open>The accumulation loops of \<open>u32\<close> and \<open>u64\<close>: \<open>value |= byte << (index * 8)\<close>.\<close>

definition le_accumulate :: "nat \<Rightarrow> byte list \<Rightarrow> 'w::len word" where
  "le_accumulate n bs = foldl (\<lambda>v i. v OR push_bit (i * 8) (ucast (bs ! i))) 0 [0..<n]"

definition rd_u32 :: "u32 parser" where
  "rd_u32 = rd_bind (rd_take 4) (\<lambda>bs. rd_return (le_accumulate 4 bs))"

definition rd_u64 :: "u64 parser" where
  "rd_u64 = rd_bind (rd_take 8) (\<lambda>bs. rd_return (le_accumulate 8 bs))"

definition rd_i64 :: "i64 parser" where
  "rd_i64 = rd_bind rd_u64 (\<lambda>raw. rd_return raw)"

definition rd_boolean :: "bool parser" where
  "rd_boolean = rd_bind rd_u8 (\<lambda>raw. rd_guard (\<not> raw > 1) (rd_return (raw = 1)))"

definition rd_bounded_length :: "u32 \<Rightarrow> u32 parser" where
  "rd_bounded_length max_len = rd_bind rd_u32 (\<lambda>len. rd_guard (\<not> len > max_len) (rd_return len))"

definition rd_raw :: "nat \<Rightarrow> byte list parser" where
  "rd_raw n = rd_take n"

definition rd_bytes :: "byte list parser" where
  "rd_bytes = rd_bind rd_u32 (\<lambda>len. rd_take (unat len))"

definition rd_string :: "byte list parser" where
  "rd_string = rd_bind rd_u32 (\<lambda>len. rd_take (unat len))"

text \<open>A counted loop of a decoder: \<open>n\<close> elements, stopping at the first failure.\<close>

fun rd_repeat :: "nat \<Rightarrow> 'a parser \<Rightarrow> 'a list parser" where
  "rd_repeat 0 p = rd_return []"
| "rd_repeat (Suc n) p = rd_bind p (\<lambda>x. rd_bind (rd_repeat n p) (\<lambda>xs. rd_return (x # xs)))"

subsection \<open>What it means for a parser to read an encoding back\<close>

definition at_reader :: "byte list \<Rightarrow> byte list \<Rightarrow> byte_reader" where
  "at_reader pre rest = \<lparr> rd_data = pre @ rest, rd_position = length pre, rd_ok = True \<rparr>"

definition parses :: "'a parser \<Rightarrow> byte list \<Rightarrow> 'a \<Rightarrow> bool" where
  "parses p bs x \<longleftrightarrow> (\<forall>pre rest. p (at_reader pre (bs @ rest)) = (Some x, at_reader (pre @ bs) rest))"

lemma parsesD: "parses p bs x \<Longrightarrow> p (at_reader pre (bs @ rest)) = (Some x, at_reader (pre @ bs) rest)"
  by (simp add: parses_def)

lemma parses_return [simp, intro, codec_rt]: "parses (rd_return x) [] x"
  by (simp add: parses_def rd_return_def)

lemma parses_bind [codec_rt]:
  assumes "parses p b1 x" "parses (f x) b2 y"
  shows "parses (rd_bind p f) (b1 @ b2) y"
  unfolding parses_def
proof (intro allI)
  fix pre rest
  show "rd_bind p f (at_reader pre ((b1 @ b2) @ rest)) = (Some y, at_reader (pre @ b1 @ b2) rest)"
    using parsesD [OF assms(1), of pre "b2 @ rest"] parsesD [OF assms(2), of "pre @ b1" rest]
    by (simp add: rd_bind_def)
qed

lemma parses_bind_Nil:
  "parses p b x \<Longrightarrow> parses (f x) [] y \<Longrightarrow> parses (rd_bind p f) b y"
  using parses_bind [of p b x f "[]" y] by simp

lemma parses_bind_return:
  assumes "parses p b x" "f x = rd_return y"
  shows "parses (rd_bind p f) b y"
proof -
  have "parses (rd_bind p f) (b @ []) y"
    by (rule parses_bind [OF assms(1)]) (use assms(2) in \<open>simp add: parses_return\<close>)
  then show ?thesis by simp
qed

lemma parses_guard [codec_rt]: "c \<Longrightarrow> parses p bs x \<Longrightarrow> parses (rd_guard c p) bs x"
  by (simp add: parses_def rd_guard_def)

lemma parses_take [codec_rt]: "length bs = n \<Longrightarrow> parses (rd_take n) bs bs"
  by (auto simp: parses_def rd_take_def rd_ensure_def at_reader_def)

lemma parses_repeat [codec_rt]:
  "(\<And>x. x \<in> set xs \<Longrightarrow> parses p (enc x) x) \<Longrightarrow>
   parses (rd_repeat (length xs) p) (concat (map enc xs)) xs"
proof (induction xs)
  case Nil
  then show ?case by (simp add: parses_return)
next
  case (Cons x xs)
  have "parses (rd_bind (rd_repeat (length xs) p) (\<lambda>ys. rd_return (x # ys))) (concat (map enc xs)) (x # xs)"
    by (rule parses_bind_return [where x = xs]) (use Cons in auto)
  then show ?case
    using Cons.prems by (auto intro: parses_bind)
qed

lemma parses_whole:
  "parses p bs x \<Longrightarrow> p (byte_reader_of bs) = (Some x, at_reader bs [])"
  using parsesD [of p bs x "[]" "[]"] by (simp add: byte_reader_of_def at_reader_def)

subsection \<open>Round trips of the primitives\<close>

lemma byte_of_AND_0xff: "(ucast (v AND 0xff) :: byte) = ucast (v :: 'w::len word)"
proof (rule bit_word_eqI)
  fix n assume "n < LENGTH(8)"
  then have "n < 8" by simp
  then have "bit (0xff :: 'w word) n \<or> LENGTH('w) \<le> n"
    using bit_mask_iff [of 8 n, where 'a = "'w word"]
    by (auto simp: mask_numeral possible_bit_word)
  then show "bit (ucast (v AND 0xff) :: byte) n = bit (ucast v :: byte) n"
    by (auto simp: bit_simps dest: bit_imp_le_length)
qed

lemma put_u32_bytes: "put_u32 v =
  [ucast v, ucast (drop_bit 8 v), ucast (drop_bit 16 v), ucast (drop_bit 24 v)]"
  by (simp add: put_u32_def put_u8_def byte_of_AND_0xff upt_rec)

lemma put_u64_bytes: "put_u64 v =
  [ucast v, ucast (drop_bit 8 v), ucast (drop_bit 16 v), ucast (drop_bit 24 v),
   ucast (drop_bit 32 v), ucast (drop_bit 40 v), ucast (drop_bit 48 v), ucast (drop_bit 56 v)]"
  by (simp add: put_u64_def put_u8_def byte_of_AND_0xff upt_rec)

lemma length_put [simp]:
  "length (put_u8 a) = 1" "length (put_u16 b) = 2" "length (put_u32 c) = 4"
  "length (put_u64 d) = 8" "length (put_i64 e) = 8" "length (put_bool f) = 1"
  by (simp_all add: put_u8_def put_u16_def put_u32_bytes put_u64_bytes put_i64_def put_bool_def)

lemma le_u16: "ucast (put_u16 v ! 0) OR push_bit 8 (ucast (put_u16 v ! 1)) = v"
  by (rule bit_word_eqI) (auto simp: put_u16_def put_u8_def byte_of_AND_0xff bit_simps)

lemma le_accumulate_4: "(le_accumulate 4 [a,b,c,d] :: 'w::len word) = ucast a OR push_bit 8 (ucast b) OR push_bit 16 (ucast c) OR push_bit 24 (ucast d)"
proof -
  have "[0..<4] = [0,1,2,3::nat]" by (simp add: upt_rec)
  then show ?thesis by (simp add: le_accumulate_def or.assoc)
qed

lemma le_accumulate_8: "(le_accumulate 8 [a,b,c,d,e,f,g,h] :: 'w::len word) = ucast a OR push_bit 8 (ucast b) OR push_bit 16 (ucast c) OR push_bit 24 (ucast d)
  OR push_bit 32 (ucast e) OR push_bit 40 (ucast f) OR push_bit 48 (ucast g) OR push_bit 56 (ucast h)"
proof -
  have "[0..<8] = [0,1,2,3,4,5,6,7::nat]" by (simp add: upt_rec)
  then show ?thesis by (simp add: le_accumulate_def or.assoc)
qed

lemma bit_byte_at:
  "bit (push_bit k (ucast (ucast (drop_bit k v) :: byte)) :: 'w::len word) n \<longleftrightarrow>
   k \<le> n \<and> n < k + 8 \<and> bit (v :: 'w word) n"
  by (cases "k \<le> n") (auto simp: bit_simps dest: bit_imp_le_length)

lemma bit_byte_0:
  "bit (ucast (ucast v :: byte) :: 'w::len word) n \<longleftrightarrow> n < 8 \<and> bit (v :: 'w word) n"
  by (auto simp: bit_simps dest: bit_imp_le_length)

lemma le_accumulate_u32 [simp]: "le_accumulate 4 (put_u32 v) = v"
  unfolding put_u32_bytes le_accumulate_4
proof (rule bit_word_eqI)
  fix n assume "n < LENGTH(32)"
  then have "n < 8 \<or> 8 \<le> n \<and> n < 16 \<or> 16 \<le> n \<and> n < 24 \<or> 24 \<le> n \<and> n < 32" by auto
  then show "bit ((ucast (ucast v :: byte) :: 32 word) OR push_bit 8 (ucast (ucast (drop_bit 8 v) :: byte)) OR
          push_bit 16 (ucast (ucast (drop_bit 16 v) :: byte)) OR
          push_bit 24 (ucast (ucast (drop_bit 24 v) :: byte))) n = bit v n"
    by (elim disjE) (simp_all only: bit_or_iff bit_byte_at bit_byte_0, auto)
qed

lemma le_accumulate_u64 [simp]: "le_accumulate 8 (put_u64 v) = v"
  unfolding put_u64_bytes le_accumulate_8
proof (rule bit_word_eqI)
  fix n assume "n < LENGTH(64)"
  then have "n < 8 \<or> 8 \<le> n \<and> n < 16 \<or> 16 \<le> n \<and> n < 24 \<or> 24 \<le> n \<and> n < 32 \<or>
     32 \<le> n \<and> n < 40 \<or> 40 \<le> n \<and> n < 48 \<or> 48 \<le> n \<and> n < 56 \<or> 56 \<le> n \<and> n < 64" by auto
  then show "bit ((ucast (ucast v :: byte) :: 64 word) OR push_bit 8 (ucast (ucast (drop_bit 8 v) :: byte)) OR
          push_bit 16 (ucast (ucast (drop_bit 16 v) :: byte)) OR
          push_bit 24 (ucast (ucast (drop_bit 24 v) :: byte)) OR
          push_bit 32 (ucast (ucast (drop_bit 32 v) :: byte)) OR
          push_bit 40 (ucast (ucast (drop_bit 40 v) :: byte)) OR
          push_bit 48 (ucast (ucast (drop_bit 48 v) :: byte)) OR
          push_bit 56 (ucast (ucast (drop_bit 56 v) :: byte))) n = bit v n"
    by (elim disjE) (simp_all only: bit_or_iff bit_byte_at bit_byte_0, auto)
qed

lemma parses_u8 [codec_rt, intro]: "parses rd_u8 (put_u8 v) v"
  unfolding rd_u8_def by (rule parses_bind_return [OF parses_take]) (auto simp: put_u8_def)

lemma parses_u16 [codec_rt, intro]: "parses rd_u16 (put_u16 v) v"
  unfolding rd_u16_def by (rule parses_bind_return [OF parses_take]) (simp_all only: le_u16 length_put)

lemma parses_u32 [codec_rt, intro]: "parses rd_u32 (put_u32 v) v"
  unfolding rd_u32_def by (rule parses_bind_return [OF parses_take]) auto

lemma parses_u64 [codec_rt, intro]: "parses rd_u64 (put_u64 v) v"
  unfolding rd_u64_def by (rule parses_bind_return [OF parses_take]) auto

lemma parses_i64 [codec_rt, intro]: "parses rd_i64 (put_i64 v) v"
  unfolding rd_i64_def put_i64_def by (rule parses_bind_return [OF parses_u64]) simp

lemma parses_boolean [codec_rt, intro]: "parses rd_boolean (put_bool v) v"
proof -
  have "parses (rd_bind rd_u8 (\<lambda>raw. rd_guard (\<not> raw > 1) (rd_return (raw = 1))))
          (put_u8 (if v then 1 else 0) @ []) v"
    by (rule parses_bind [OF parses_u8]) (auto simp: parses_def rd_guard_def rd_return_def)
  then show ?thesis by (simp add: rd_boolean_def put_bool_def)
qed

lemma parses_bounded_length [codec_rt, intro]:
  "\<not> v > m \<Longrightarrow> parses (rd_bounded_length m) (put_u32 v) v"
  unfolding rd_bounded_length_def
  by (rule parses_bind [where ?b2.0 = "[]", simplified]) (auto intro!: parses_guard)

lemma parses_raw [codec_rt, intro]: "length bs = n \<Longrightarrow> parses (rd_raw n) (put_raw bs) bs"
  by (simp add: rd_raw_def put_raw_def parses_take)

lemma parses_string [codec_rt, intro]:
  "length bs < 2 ^ 32 \<Longrightarrow> parses rd_string (put_string bs) bs"
  unfolding rd_string_def put_string_def put_raw_def
  by (intro parses_bind [OF parses_u32] parses_take) (simp add: unat_u32_of_nat)

lemma parses_bytes [codec_rt, intro]:
  "length bs < 2 ^ 32 \<Longrightarrow> parses rd_bytes (put_bytes bs) bs"
  unfolding rd_bytes_def put_bytes_def put_raw_def
  by (intro parses_bind [OF parses_u32] parses_take) (simp add: unat_u32_of_nat)

text \<open>The rules that walk through a decoder in the order of its encoder.\<close>

lemmas codec_steps = parses_bind parses_bind_Nil parses_guard parses_u8 parses_u16 parses_u32
  parses_u64 parses_i64 parses_boolean parses_return

text \<open>Running a parser over a field that is known.\<close>

lemma rd_bind_parses:
  "parses p b x \<Longrightarrow> rd_bind p f (at_reader pre (b @ rest)) = f x (at_reader (pre @ b) rest)"
  by (simp add: rd_bind_def parsesD)

lemmas rd_fields = rd_bind_parses [OF parses_u16] rd_bind_parses [OF parses_u32] rd_bind_parses [OF parses_u64]

lemma byte_reader_start: "byte_reader_of d = at_reader [] d"
  by (simp add: byte_reader_of_def at_reader_def)

subsection \<open>Truncated input is rejected\<close>

text \<open>A parser is regular when it leaves the data alone, never moves past the end, never moves
  backwards, keeps the \<open>ok\<close> flag when it succeeds, and reads the same value when more bytes
  follow.\<close>

definition reader_wf :: "byte_reader \<Rightarrow> bool" where
  "reader_wf r \<longleftrightarrow> rd_position r \<le> length (rd_data r)"

definition rd_extend :: "byte list \<Rightarrow> byte_reader \<Rightarrow> byte_reader" where
  "rd_extend e r = r\<lparr>rd_data := rd_data r @ e\<rparr>"

definition regular :: "'a parser \<Rightarrow> bool" where
  "regular p \<longleftrightarrow> (\<forall>r. reader_wf r \<longrightarrow>
     (case p r of
        (None, r') \<Rightarrow> rd_data r' = rd_data r \<and> reader_wf r'
      | (Some x, r') \<Rightarrow> rd_data r' = rd_data r \<and> reader_wf r' \<and> rd_ok r' = rd_ok r \<and>
           rd_position r \<le> rd_position r' \<and> (\<forall>e. p (rd_extend e r) = (Some x, rd_extend e r'))))"

lemma regular_Some:
  "regular p \<Longrightarrow> reader_wf r \<Longrightarrow> p r = (Some x, r') \<Longrightarrow>
   rd_data r' = rd_data r \<and> reader_wf r' \<and> rd_ok r' = rd_ok r \<and> rd_position r \<le> rd_position r' \<and>
   p (rd_extend e r) = (Some x, rd_extend e r')"
  by (auto simp: regular_def dest!: spec [of _ r])

lemma regular_None:
  "regular p \<Longrightarrow> reader_wf r \<Longrightarrow> p r = (None, r') \<Longrightarrow>
   rd_data r' = rd_data r \<and> reader_wf r'"
  by (auto simp: regular_def dest!: spec [of _ r])

lemma regular_return [intro, simp]: "regular (rd_return x)"
  by (simp add: regular_def rd_return_def)

lemma regular_take [intro, simp]: "regular (rd_take n)"
  by (auto simp: regular_def rd_take_def rd_ensure_def rd_fail_def reader_wf_def rd_extend_def)

lemma regular_guard [intro]: "regular p \<Longrightarrow> regular (rd_guard c p)"
proof (cases c)
  case True
  then have "rd_guard c p = p" by (intro ext) (simp add: rd_guard_def)
  moreover assume "regular p"
  ultimately show ?thesis by simp
qed (simp add: regular_def rd_guard_def rd_fail_def reader_wf_def)

lemma regular_bind [intro]:
  assumes p: "regular p" and f: "\<And>x. regular (f x)"
  shows "regular (rd_bind p f)"
  unfolding regular_def
proof (intro allI impI)
  fix r assume wf: "reader_wf r"
  obtain o1 r1 where pr: "p r = (o1, r1)" by force
  show "case rd_bind p f r of
          (None, r') \<Rightarrow> rd_data r' = rd_data r \<and> reader_wf r'
        | (Some x, r') \<Rightarrow> rd_data r' = rd_data r \<and> reader_wf r' \<and> rd_ok r' = rd_ok r \<and>
           rd_position r \<le> rd_position r' \<and> (\<forall>e. rd_bind p f (rd_extend e r) = (Some x, rd_extend e r'))"
  proof (cases o1)
    case None
    then show ?thesis using regular_None [OF p wf] pr by (simp add: rd_bind_def)
  next
    case (Some x)
    note s = regular_Some [OF p wf, of x r1]
    obtain o2 r2 where fr: "f x r1 = (o2, r2)" by force
    show ?thesis
    proof (cases o2)
      case None
      then show ?thesis
        using s pr fr Some regular_None [OF f, of r1 x r2] by (simp add: rd_bind_def)
    next
      case (Some y)
      then show ?thesis
        using s pr fr \<open>o1 = Some x\<close> regular_Some [OF f, of r1 x y r2]
        by (auto simp: rd_bind_def intro: le_trans)
    qed
  qed
qed

lemma regular_repeat [intro]: "regular p \<Longrightarrow> regular (rd_repeat n p)"
  by (induction n) auto

lemma regular_primitives [intro, simp]:
  "regular rd_u8" "regular rd_u16" "regular rd_u32" "regular rd_u64" "regular rd_i64"
  "regular rd_boolean" "regular (rd_bounded_length m)" "regular (rd_raw n)"
  "regular rd_bytes" "regular rd_string"
  by (auto simp: rd_u8_def rd_u16_def rd_u32_def rd_u64_def rd_i64_def rd_boolean_def
      rd_bounded_length_def rd_raw_def rd_bytes_def rd_string_def)

lemma regular_truncated:
  assumes p: "regular p" and enc: "parses p (bs @ e) x" and e: "e \<noteq> []"
  shows "fst (p (byte_reader_of bs)) = None"
proof (rule ccontr)
  assume "fst (p (byte_reader_of bs)) \<noteq> None"
  then obtain y r' where ok: "p (byte_reader_of bs) = (Some y, r')"
    by (cases "p (byte_reader_of bs)") auto
  have wf: "reader_wf (byte_reader_of bs)" by (simp add: reader_wf_def byte_reader_of_def)
  have "rd_extend e (byte_reader_of bs) = byte_reader_of (bs @ e)"
    by (simp add: rd_extend_def byte_reader_of_def)
  then have "rd_extend e r' = at_reader (bs @ e) []"
    using regular_Some [OF p wf ok, of e] parses_whole [OF enc] by simp
  then have "rd_position r' = length (bs @ e)"
    by (metis append_Nil2 at_reader_def byte_reader.select_convs(2) byte_reader.surjective
        byte_reader.update_convs(1) rd_extend_def)
  moreover have "rd_position r' \<le> length bs"
    using regular_Some [OF p wf ok, of e] by (auto simp: reader_wf_def byte_reader_of_def)
  ultimately show False using e by simp
qed

text \<open>The contract of a decoder for an encoder: it reads the whole encoding back and rejects every
  proper prefix of it.\<close>

lemma codec_exact:
  assumes "parses p bs x" "regular p"
  shows "p (byte_reader_of bs) = (Some x, at_reader bs []) \<and>
    (\<forall>n<length bs. fst (p (byte_reader_of (take n bs))) = None)"
proof -
  have "fst (p (byte_reader_of (take n bs))) = None" if "n < length bs" for n
    using regular_truncated [OF assms(2), of "take n bs" "drop n bs" x] assms(1) that by simp
  then show ?thesis using parses_whole [OF assms(1)] by simp
qed

end
