(* ===== verification/Digest.thy ===== *)
theory Digest
  imports Codec
begin

text \<open>
  Digests and integrity (\<open>digest.hpp\<close>, \<open>digest.cpp\<close>): the streaming SHA-256 with its block
  buffer, CRC-32C with its generated table, the semantic hasher that feeds typed fields, and
  the hexadecimal rendering of a digest. The main fact is that the streaming interface does not
  observe how its input was cut into pieces, so a digest is a function of the concatenated field
  encodings.
\<close>

subsection \<open>SHA-256\<close>

text \<open>The table of the source, row by row.\<close>

definition kRoundConstants :: "u32 list" where
  "kRoundConstants = concat [
     [0x428a2f98, 0x71374491, 0xb5c0fbcf, 0xe9b5dba5, 0x3956c25b, 0x59f111f1, 0x923f82a4],
     [0xab1c5ed5, 0xd807aa98, 0x12835b01, 0x243185be, 0x550c7dc3, 0x72be5d74, 0x80deb1fe],
     [0x9bdc06a7, 0xc19bf174, 0xe49b69c1, 0xefbe4786, 0x0fc19dc6, 0x240ca1cc, 0x2de92c6f],
     [0x4a7484aa, 0x5cb0a9dc, 0x76f988da, 0x983e5152, 0xa831c66d, 0xb00327c8, 0xbf597fc7],
     [0xc6e00bf3, 0xd5a79147, 0x06ca6351, 0x14292967, 0x27b70a85, 0x2e1b2138, 0x4d2c6dfc],
     [0x53380d13, 0x650a7354, 0x766a0abb, 0x81c2c92e, 0x92722c85, 0xa2bfe8a1, 0xa81a664b],
     [0xc24b8b70, 0xc76c51a3, 0xd192e819, 0xd6990624, 0xf40e3585, 0x106aa070, 0x19a4c116],
     [0x1e376c08, 0x2748774c, 0x34b0bcb5, 0x391c0cb3, 0x4ed8aa4a, 0x5b9cca4f, 0x682e6ff3],
     [0x748f82ee, 0x78a5636f, 0x84c87814, 0x8cc70208, 0x90befffa, 0xa4506ceb, 0xbef9a3f7],
     [0xc67178f2]]"

definition rotate_right :: "u32 \<Rightarrow> nat \<Rightarrow> u32" where
  "rotate_right value cnt =
     (let amount = cnt mod 32 in drop_bit amount value OR push_bit ((32 - amount) mod 32) value)"

definition read_big_endian_u32 :: "byte list \<Rightarrow> u32" where
  "read_big_endian_u32 d =
     push_bit 24 (ucast (d ! 0)) OR push_bit 16 (ucast (d ! 1)) OR push_bit 8 (ucast (d ! 2)) OR ucast (d ! 3)"

definition write_big_endian_u32 :: "u32 \<Rightarrow> byte list" where
  "write_big_endian_u32 v =
     [ucast (drop_bit 24 v AND 0xff), ucast (drop_bit 16 v AND 0xff),
      ucast (drop_bit 8 v AND 0xff), ucast (v AND 0xff)]"

text \<open>\<open>buffer_\<close> is the list of its first \<open>buffer_used_\<close> bytes; the others are never read before
  they are overwritten.\<close>

record sha256 =
  sha_state :: "u32 list"
  sha_buffer :: "byte list"
  sha_total_bytes :: u64

definition sha_reset :: sha256 where
  "sha_reset = \<lparr> sha_state = [0x6a09e667, 0xbb67ae85, 0x3c6ef372, 0xa54ff53a,
                              0x510e527f, 0x9b05688c, 0x1f83d9ab, 0x5be0cd19],
                 sha_buffer = [], sha_total_bytes = 0 \<rparr>"

definition sha_schedule_step :: "u32 list \<Rightarrow> nat \<Rightarrow> u32 list" where
  "sha_schedule_step w index =
     (let s0 = rotate_right (w ! (index - 15)) 7 XOR rotate_right (w ! (index - 15)) 18 XOR
               drop_bit 3 (w ! (index - 15));
          s1 = rotate_right (w ! (index - 2)) 17 XOR rotate_right (w ! (index - 2)) 19 XOR
               drop_bit 10 (w ! (index - 2))
      in w @ [w ! (index - 16) + s0 + w ! (index - 7) + s1])"

definition sha_schedule :: "byte list \<Rightarrow> u32 list" where
  "sha_schedule block =
     foldl sha_schedule_step (map (\<lambda>i. read_big_endian_u32 (drop (i * 4) block)) [0..<16]) [16..<64]"

type_synonym sha_vars = "u32 \<times> u32 \<times> u32 \<times> u32 \<times> u32 \<times> u32 \<times> u32 \<times> u32"

fun sha_round :: "sha_vars \<Rightarrow> u32 \<times> u32 \<Rightarrow> sha_vars" where
  "sha_round (a, b, c, d, e, f, g, h) (k, w) =
     (let s1 = rotate_right e 6 XOR rotate_right e 11 XOR rotate_right e 25;
          chosen = (e AND f) XOR (NOT e AND g);
          temp1 = h + s1 + chosen + k + w;
          s0 = rotate_right a 2 XOR rotate_right a 13 XOR rotate_right a 22;
          majority = (a AND b) XOR (a AND c) XOR (b AND c);
          temp2 = s0 + majority
      in (temp1 + temp2, a, b, c, d + temp1, e, f, g))"

definition sha_compress :: "u32 list \<Rightarrow> byte list \<Rightarrow> u32 list" where
  "sha_compress st block =
     (case foldl sha_round (st ! 0, st ! 1, st ! 2, st ! 3, st ! 4, st ! 5, st ! 6, st ! 7)
                 (zip kRoundConstants (sha_schedule block)) of
        (a, b, c, d, e, f, g, h) \<Rightarrow>
          [st ! 0 + a, st ! 1 + b, st ! 2 + c, st ! 3 + d,
           st ! 4 + e, st ! 5 + f, st ! 6 + g, st ! 7 + h])"

text \<open>The loop \<open>while (data.size() - offset >= 64)\<close>: the state and the bytes left over.\<close>

function sha_absorb :: "u32 list \<Rightarrow> byte list \<Rightarrow> u32 list \<times> byte list" where
  "sha_absorb st d = (if length d \<ge> 64 then sha_absorb (sha_compress st (take 64 d)) (drop 64 d) else (st, d))"
  by pat_completeness auto
termination by (relation "measure (\<lambda>(st, d). length d)") auto

declare sha_absorb.simps [simp del]

definition sha_update :: "sha256 \<Rightarrow> byte list \<Rightarrow> sha256" where
  "sha_update s d =
     (let total = sha_total_bytes s + word_of_nat (length d);
          needed = 64 - length (sha_buffer s);
          filled = sha_buffer s @ take needed d;
          (st1, buf1, rest) =
            (if sha_buffer s \<noteq> [] then
               if length filled = 64 then (sha_compress (sha_state s) filled, [], drop needed d)
               else (sha_state s, filled, drop needed d)
             else (sha_state s, [], d));
          (st2, left) = sha_absorb st1 rest
      in \<lparr> sha_state = st2, sha_buffer = buf1 @ left, sha_total_bytes = total \<rparr>)"

text \<open>The loop \<open>while (buffer_used_ != 56) update(zero)\<close>, with a bound on the iterations.\<close>

fun sha_pad :: "nat \<Rightarrow> sha256 \<Rightarrow> sha256" where
  "sha_pad 0 s = s"
| "sha_pad (Suc n) s = (if length (sha_buffer s) = 56 then s else sha_pad n (sha_update s [0]))"

type_synonym digest256 = "byte list"

definition zero_digest :: digest256 where
  "zero_digest = replicate 32 0"

definition is_zero_digest :: "digest256 \<Rightarrow> bool" where
  "is_zero_digest d \<longleftrightarrow> list_all (\<lambda>b. b = 0) d"

definition sha_finish :: "sha256 \<Rightarrow> digest256" where
  "sha_finish s =
     (let bit_length = sha_total_bytes s * 8;
          s1 = sha_update s [0x80];
          s2 = sha_pad 64 s1;
          length_bytes = map (\<lambda>i. ucast (drop_bit ((7 - i) * 8) bit_length AND 0xff)) [0..<8];
          s3 = sha_update s2 length_bytes
      in concat (map (\<lambda>i. write_big_endian_u32 (sha_state s3 ! i)) [0..<8]))"

definition leading_u64 :: "digest256 \<Rightarrow> u64" where
  "leading_u64 d = foldl (\<lambda>v i. push_bit 8 v OR ucast (d ! i)) 0 [0..<8]"

subsection \<open>Semantic hasher\<close>

text \<open>Every field of the hasher is one \<open>update\<close>; \<open>begin\<close> feeds the domain label.\<close>

definition hash_u8 :: "u8 \<Rightarrow> byte list" where
  "hash_u8 v = [v]"

definition hash_bool :: "bool \<Rightarrow> byte list" where
  "hash_bool v = hash_u8 (if v then 1 else 0)"

definition hash_u16 :: "u16 \<Rightarrow> byte list" where
  "hash_u16 v = [ucast (v AND 0xff), ucast (drop_bit 8 v AND 0xff)]"

definition hash_u32 :: "u32 \<Rightarrow> byte list" where
  "hash_u32 v = map (\<lambda>i. ucast (drop_bit (i * 8) v AND 0xff)) [0..<4]"

definition hash_u64 :: "u64 \<Rightarrow> byte list" where
  "hash_u64 v = map (\<lambda>i. ucast (drop_bit (i * 8) v AND 0xff)) [0..<8]"

definition hash_i64 :: "i64 \<Rightarrow> byte list" where
  "hash_i64 v = hash_u64 v"

definition hash_bytes :: "byte list \<Rightarrow> byte list" where
  "hash_bytes d = hash_u64 (word_of_nat (length d)) @ d"

definition hash_string :: "byte list \<Rightarrow> byte list" where
  "hash_string t = hash_bytes t"

definition hash_digest :: "digest256 \<Rightarrow> byte list" where
  "hash_digest d = d"

text \<open>A sequence of updates followed by \<open>finish\<close>.\<close>

definition hasher_run :: "byte list list \<Rightarrow> digest256" where
  "hasher_run fs = sha_finish (foldl sha_update sha_reset fs)"

definition sha256_of :: "byte list \<Rightarrow> digest256" where
  "sha256_of d = sha_finish (sha_update sha_reset d)"

text \<open>String literals as bytes.\<close>

definition ascii :: "string \<Rightarrow> byte list" where
  "ascii t = map (\<lambda>c. word_of_nat (of_char c)) t"

definition digest_of :: "string \<Rightarrow> byte list list \<Rightarrow> digest256" where
  "digest_of label fs = hasher_run (hash_string (ascii label) # fs)"

subsection \<open>CRC-32C\<close>

definition crc32c_bit :: "u32 \<Rightarrow> u32" where
  "crc32c_bit v = (if v AND 1 \<noteq> 0 then drop_bit 1 v XOR 0x82f63b78 else drop_bit 1 v)"

definition crc32c_table :: "u32 list" where
  "crc32c_table = map (\<lambda>i. (crc32c_bit ^^ 8) (word_of_nat i AND 0xff)) [0..<256]"

definition crc32c :: "byte list \<Rightarrow> u32" where
  "crc32c d =
     foldl (\<lambda>crc value. crc32c_table ! unat ((crc XOR ucast value) AND 0xff) XOR drop_bit 8 crc) 0xffffffff d
       XOR 0xffffffff"

subsection \<open>Hexadecimal\<close>

definition kHex :: string where
  "kHex = ''0123456789abcdef''"

definition to_hex :: "digest256 \<Rightarrow> string" where
  "to_hex d = concat (map (\<lambda>raw. [kHex ! unat (drop_bit 4 raw AND 0x0f), kHex ! unat (raw AND 0x0f)]) d)"

definition hex_digit :: "char \<Rightarrow> nat option" where
  "hex_digit c = (let n = of_char c :: nat in
     if 48 \<le> n \<and> n \<le> 57 then Some (n - 48)
     else if 97 \<le> n \<and> n \<le> 102 then Some (n - 97 + 10)
     else if 65 \<le> n \<and> n \<le> 70 then Some (n - 65 + 10)
     else None)"

fun from_hex_loop :: "string \<Rightarrow> byte list option" where
  "from_hex_loop (a # b # t) = (case hex_digit a of None \<Rightarrow> None | Some x \<Rightarrow>
     (case hex_digit b of None \<Rightarrow> None | Some y \<Rightarrow>
       (case from_hex_loop t of None \<Rightarrow> None | Some bs \<Rightarrow>
          Some (word_of_nat ((x * 16) + y) # bs))))"
| "from_hex_loop _ = Some []"

definition from_hex :: "string \<Rightarrow> digest256 option" where
  "from_hex t = (if length t \<noteq> 64 then None else from_hex_loop t)"

subsection \<open>The streaming interface does not observe chunk boundaries\<close>

lemma sha_absorb_short: "length d < 64 \<Longrightarrow> sha_absorb st d = (st, d)"
  by (simp add: sha_absorb.simps)

lemma sha_absorb_left: "length (snd (sha_absorb st d)) < 64"
  by (induction st d rule: sha_absorb.induct) (subst sha_absorb.simps, simp)

lemma sha_absorb_append:
  "sha_absorb st (a @ b) = (case sha_absorb st a of (st', r) \<Rightarrow> sha_absorb st' (r @ b))"
proof (induction st a rule: sha_absorb.induct)
  case (1 st d)
  show ?case
  proof (cases "length d \<ge> 64")
    case True
    then have "sha_absorb st (d @ b) = sha_absorb (sha_compress st (take 64 d)) (drop 64 d @ b)"
      by (subst sha_absorb.simps) simp
    also have "\<dots> = (case sha_absorb st d of (st', r) \<Rightarrow> sha_absorb st' (r @ b))"
      using 1 True by (subst (2) sha_absorb.simps) simp
    finally show ?thesis .
  qed (simp add: sha_absorb_short)
qed

definition sha_wf :: "sha256 \<Rightarrow> bool" where
  "sha_wf s \<longleftrightarrow> length (sha_buffer s) < 64"

lemma sha_wf_reset [simp]: "sha_wf sha_reset"
  by (simp add: sha_wf_def sha_reset_def)

lemma sha_update_absorb:
  assumes "sha_wf s"
  shows "sha_update s d =
    (case sha_absorb (sha_state s) (sha_buffer s @ d) of (st, left) \<Rightarrow>
       \<lparr> sha_state = st, sha_buffer = left, sha_total_bytes = sha_total_bytes s + word_of_nat (length d) \<rparr>)"
proof (cases "sha_buffer s = [] \<or> length (sha_buffer s) + length d < 64")
  case True
  then show ?thesis
    using assms by (auto simp: sha_update_def Let_def sha_absorb_short split: prod.splits)
next
  case False
  let ?n = "64 - length (sha_buffer s)"
  have "length (sha_buffer s @ take ?n d) = 64" and long: "64 \<le> length (sha_buffer s @ d)"
    using assms False by (auto simp: sha_wf_def)
  moreover have "take 64 (sha_buffer s @ d) = sha_buffer s @ take ?n d"
    and "drop 64 (sha_buffer s @ d) = drop ?n d"
    using assms by (auto simp: sha_wf_def)
  ultimately show ?thesis
    using False by (subst sha_absorb.simps) (simp add: sha_update_def Let_def split: prod.splits)
qed

lemma sha_wf_update [simp]: "sha_wf s \<Longrightarrow> sha_wf (sha_update s d)"
  using sha_absorb_left [of "sha_state s" "sha_buffer s @ d"]
  by (auto simp: sha_update_absorb sha_wf_def split: prod.splits)

lemma sha_update_append:
  assumes "sha_wf s"
  shows "sha_update (sha_update s a) b = sha_update s (a @ b)"
proof -
  obtain st r where ab: "sha_absorb (sha_state s) (sha_buffer s @ a) = (st, r)" by force
  then have u: "sha_update s a =
      \<lparr> sha_state = st, sha_buffer = r, sha_total_bytes = sha_total_bytes s + word_of_nat (length a) \<rparr>"
    using sha_update_absorb [OF assms, of a] by simp
  have "sha_absorb (sha_state s) (sha_buffer s @ a @ b) = sha_absorb st (r @ b)"
    using sha_absorb_append [of "sha_state s" "sha_buffer s @ a" b] ab by simp
  then show ?thesis
    using sha_update_absorb [OF sha_wf_update [OF assms], of a b] sha_update_absorb [OF assms, of "a @ b"] u
    by (simp add: algebra_simps)
qed

lemma sha_update_Nil: "sha_wf s \<Longrightarrow> sha_update s [] = s"
  by (simp add: sha_update_absorb sha_absorb_short sha_wf_def)

lemma foldl_sha_update:
  "sha_wf s \<Longrightarrow> foldl sha_update s ds = sha_update s (concat ds)"
  by (induction ds arbitrary: s) (simp_all add: sha_update_Nil sha_update_append)

lemma hasher_run_concat: "hasher_run fs = sha256_of (concat fs)"
  by (simp add: hasher_run_def sha256_of_def foldl_sha_update)

lemma length_sha_finish [simp]: "length (sha_finish s) = 32"
  by (simp add: sha_finish_def Let_def write_big_endian_u32_def upt_rec)

lemma length_hasher_run [simp]: "length (hasher_run fs) = 32"
  by (simp add: hasher_run_def)

lemma length_digest_of [simp]: "length (digest_of l fs) = 32"
  by (simp add: digest_of_def)

text \<open>The padding loop ends within its bound with exactly 56 bytes buffered.\<close>

lemma sha_update_one_buffer:
  "sha_wf s \<Longrightarrow> length (sha_buffer (sha_update s [b])) =
     (if length (sha_buffer s) = 63 then 0 else length (sha_buffer s) + 1)"
  by (auto simp: sha_update_absorb sha_wf_def sha_absorb_short sha_absorb.simps [of _ "_ @ [b]"] split: prod.splits)

lemma sha_pad_56:
  "sha_wf s \<Longrightarrow> (if length (sha_buffer s) \<le> 56 then 56 else 120) - length (sha_buffer s) \<le> n \<Longrightarrow>
   length (sha_buffer (sha_pad n s)) = 56 \<and> sha_wf (sha_pad n s)"
proof (induction n arbitrary: s)
  case 0
  then show ?case by (auto simp: sha_wf_def split: if_splits)
next
  case (Suc n)
  show ?case
  proof (cases "length (sha_buffer s) = 56")
    case False
    have "length (sha_buffer s) < 64" using Suc.prems by (simp add: sha_wf_def)
    then show ?thesis
      using Suc.IH [of "sha_update s [0]"] Suc.prems False sha_update_one_buffer [of s 0]
      by (auto split: if_splits)
  qed (use Suc.prems in simp)
qed

text \<open>The hasher's encodings are those of the byte codec, except that byte strings are
  prefixed with 64-bit lengths.\<close>

lemma hash_codec:
  "hash_u8 a = put_u8 a" "hash_u16 b = put_u16 b" "hash_u32 c = put_u32 c" "hash_u64 d = put_u64 d"
  "hash_i64 d = put_i64 d" "hash_bool f = put_bool f"
  by (simp_all add: hash_u8_def hash_u16_def hash_u32_def hash_u64_def hash_i64_def hash_bool_def
      put_u8_def put_u16_def put_u32_def put_u64_def put_i64_def put_bool_def concat_map_singleton)

subsection \<open>Hexadecimal round trip\<close>

lemma hex_digit_kHex: "n < 16 \<Longrightarrow> hex_digit (kHex ! n) = Some n"
proof -
  assume "n < 16"
  then have "n \<in> set [0..<16]" by simp
  then show ?thesis
    by (simp add: upt_rec kHex_def) (elim disjE, simp_all add: hex_digit_def Let_def)
qed

lemma low_nibble: "unat (b AND 0x0f :: byte) = unat b mod 16"
proof -
  have "(0x0f :: byte) = mask 4" by (simp add: mask_eq_exp_minus_1)
  then have "b AND 0x0f = take_bit 4 b" by (simp add: take_bit_eq_mask)
  then have "unat (b AND 0x0f) = take_bit 4 (unat b)" by (simp add: unsigned_take_bit_eq)
  then show ?thesis by (simp add: take_bit_eq_mod)
qed

lemma high_nibble: "unat (drop_bit 4 (b :: byte)) mod 16 = unat b div 16"
proof -
  have "unat (drop_bit 4 b) = drop_bit 4 (unat b)" by (rule unat_drop_bit_eq)
  then have "unat (drop_bit 4 b) = unat b div 16" by (simp add: drop_bit_eq_div)
  moreover have "unat b < 256" using unsigned_less [where ?'a = nat and w = b] by simp
  ultimately show ?thesis by simp
qed

lemma from_hex_loop_to_hex: "from_hex_loop (to_hex d) = Some d"
proof (induction d)
  case (Cons b d)
  have "unat b < 256" using unsigned_less [where ?'a = nat and w = b] by simp
  then have "hex_digit (kHex ! (unat b div 16)) = Some (unat b div 16)"
    and "hex_digit (kHex ! (unat b mod 16)) = Some (unat b mod 16)"
    by (auto intro!: hex_digit_kHex)
  then show ?case using Cons
    by (simp add: to_hex_def low_nibble high_nibble del: of_nat_add)
qed (simp add: to_hex_def)

lemma length_to_hex: "length (to_hex d) = 2 * length d"
  by (induction d) (simp_all add: to_hex_def)

lemma from_hex_to_hex: "length d = 32 \<Longrightarrow> from_hex (to_hex d) = Some d"
  by (simp add: from_hex_def length_to_hex from_hex_loop_to_hex)

end
