(* ===== verification/Constraint.thy ===== *)
theory Constraint
  imports Digest
begin

text \<open>
  The typed constraint model (\<open>constraint.hpp\<close>, \<open>constraint.cpp\<close>): the enumerations with their
  protocol values, the constraint record, structural validation, the canonical order, and the
  wire encoding. An enumeration is a datatype with its underlying value; decoders check the
  range of a raw value before they cast it. The main results are that the canonical order is a
  strict total order that compares payloads before identities, that equal payload encodings are
  equal payloads, and that decoding inverts encoding on validated constraints.
\<close>

subsection \<open>Enumerations\<close>

datatype constraint_kind =
    CK_Unset | CK_MaxLatency | CK_MinBandwidthCapability | CK_RequiredNode
  | CK_ForbiddenNode | CK_RequiredLink | CK_ForbiddenLink | CK_RequiredTier
  | CK_ForbiddenTier | CK_RequiredSite | CK_ForbiddenSite | CK_LocalityScope
  | CK_IsolationClass | CK_RequiredCapability | CK_ForbiddenCapability
  | CK_RequiredFailureDomainRelation | CK_ForbiddenFailureDomainRelation
  | CK_AdministrativePolicy | CK_MaxHopCount

primrec constraint_kind_value :: "constraint_kind \<Rightarrow> u16" where
  "constraint_kind_value CK_Unset = 0"
| "constraint_kind_value CK_MaxLatency = 1"
| "constraint_kind_value CK_MinBandwidthCapability = 2"
| "constraint_kind_value CK_RequiredNode = 3"
| "constraint_kind_value CK_ForbiddenNode = 4"
| "constraint_kind_value CK_RequiredLink = 5"
| "constraint_kind_value CK_ForbiddenLink = 6"
| "constraint_kind_value CK_RequiredTier = 7"
| "constraint_kind_value CK_ForbiddenTier = 8"
| "constraint_kind_value CK_RequiredSite = 9"
| "constraint_kind_value CK_ForbiddenSite = 10"
| "constraint_kind_value CK_LocalityScope = 11"
| "constraint_kind_value CK_IsolationClass = 12"
| "constraint_kind_value CK_RequiredCapability = 13"
| "constraint_kind_value CK_ForbiddenCapability = 14"
| "constraint_kind_value CK_RequiredFailureDomainRelation = 15"
| "constraint_kind_value CK_ForbiddenFailureDomainRelation = 16"
| "constraint_kind_value CK_AdministrativePolicy = 17"
| "constraint_kind_value CK_MaxHopCount = 18"

definition constraint_kind_of :: "u16 \<Rightarrow> constraint_kind" where
  "constraint_kind_of v =
     (if v = 0 then CK_Unset else if v = 1 then CK_MaxLatency else if v = 2 then CK_MinBandwidthCapability else 
      if v = 3 then CK_RequiredNode else if v = 4 then CK_ForbiddenNode else if v = 5 then CK_RequiredLink else 
      if v = 6 then CK_ForbiddenLink else if v = 7 then CK_RequiredTier else if v = 8 then CK_ForbiddenTier else 
      if v = 9 then CK_RequiredSite else if v = 10 then CK_ForbiddenSite else if v = 11 then CK_LocalityScope else 
      if v = 12 then CK_IsolationClass else if v = 13 then CK_RequiredCapability else if v = 14 then CK_ForbiddenCapability else 
      if v = 15 then CK_RequiredFailureDomainRelation else if v = 16 then CK_ForbiddenFailureDomainRelation else if v = 17 then CK_AdministrativePolicy else 
      CK_MaxHopCount)"

lemma constraint_kind_of_value [simp]: "constraint_kind_of (constraint_kind_value x) = x"
  by (cases x) (simp_all add: constraint_kind_of_def)

lemma constraint_kind_value_inj [simp]: "constraint_kind_value x = constraint_kind_value y \<longleftrightarrow> x = y"
  by (metis constraint_kind_of_value)

lemma constraint_kind_value_max [simp]: "\<not> 18 < constraint_kind_value x"
  by (cases x) simp_all

instantiation constraint_kind :: linorder
begin

definition less_eq_constraint_kind :: "constraint_kind \<Rightarrow> constraint_kind \<Rightarrow> bool" where
  "x \<le> y \<longleftrightarrow> constraint_kind_value x \<le> constraint_kind_value y"

definition less_constraint_kind :: "constraint_kind \<Rightarrow> constraint_kind \<Rightarrow> bool" where
  "x < y \<longleftrightarrow> constraint_kind_value x < constraint_kind_value y"

instance
  by standard (auto simp: less_eq_constraint_kind_def less_constraint_kind_def order_less_le linear)

end

datatype constraint_scope =
    Mandatory | Preference

primrec constraint_scope_value :: "constraint_scope \<Rightarrow> u8" where
  "constraint_scope_value Mandatory = 1"
| "constraint_scope_value Preference = 2"

definition constraint_scope_of :: "u8 \<Rightarrow> constraint_scope" where
  "constraint_scope_of v =
     (if v = 1 then Mandatory else Preference)"

lemma constraint_scope_of_value [simp]: "constraint_scope_of (constraint_scope_value x) = x"
  by (cases x) (simp_all add: constraint_scope_of_def)

lemma constraint_scope_value_inj [simp]: "constraint_scope_value x = constraint_scope_value y \<longleftrightarrow> x = y"
  by (metis constraint_scope_of_value)

lemma constraint_scope_value_max [simp]: "\<not> 2 < constraint_scope_value x"
  by (cases x) simp_all

lemma constraint_scope_value_pos [simp]: "constraint_scope_value x \<noteq> 0"
  by (cases x) simp_all

instantiation constraint_scope :: linorder
begin

definition less_eq_constraint_scope :: "constraint_scope \<Rightarrow> constraint_scope \<Rightarrow> bool" where
  "x \<le> y \<longleftrightarrow> constraint_scope_value x \<le> constraint_scope_value y"

definition less_constraint_scope :: "constraint_scope \<Rightarrow> constraint_scope \<Rightarrow> bool" where
  "x < y \<longleftrightarrow> constraint_scope_value x < constraint_scope_value y"

instance
  by standard (auto simp: less_eq_constraint_scope_def less_constraint_scope_def order_less_le linear)

end

datatype latency_source =
    LS_Unset | LS_PlannerCost | LS_ObservedLatency

primrec latency_source_value :: "latency_source \<Rightarrow> u8" where
  "latency_source_value LS_Unset = 0"
| "latency_source_value LS_PlannerCost = 1"
| "latency_source_value LS_ObservedLatency = 2"

definition latency_source_of :: "u8 \<Rightarrow> latency_source" where
  "latency_source_of v =
     (if v = 0 then LS_Unset else if v = 1 then LS_PlannerCost else LS_ObservedLatency)"

lemma latency_source_of_value [simp]: "latency_source_of (latency_source_value x) = x"
  by (cases x) (simp_all add: latency_source_of_def)

lemma latency_source_value_inj [simp]: "latency_source_value x = latency_source_value y \<longleftrightarrow> x = y"
  by (metis latency_source_of_value)

lemma latency_source_value_max [simp]: "\<not> 2 < latency_source_value x"
  by (cases x) simp_all

instantiation latency_source :: linorder
begin

definition less_eq_latency_source :: "latency_source \<Rightarrow> latency_source \<Rightarrow> bool" where
  "x \<le> y \<longleftrightarrow> latency_source_value x \<le> latency_source_value y"

definition less_latency_source :: "latency_source \<Rightarrow> latency_source \<Rightarrow> bool" where
  "x < y \<longleftrightarrow> latency_source_value x < latency_source_value y"

instance
  by standard (auto simp: less_eq_latency_source_def less_latency_source_def order_less_le linear)

end

datatype domain_kind =
    DK_Unset | DK_Node | DK_Rack | DK_Site | DK_PowerZone | DK_CoolingZone | DK_Plane
  | DK_FailureDomain

primrec domain_kind_value :: "domain_kind \<Rightarrow> u8" where
  "domain_kind_value DK_Unset = 0"
| "domain_kind_value DK_Node = 1"
| "domain_kind_value DK_Rack = 2"
| "domain_kind_value DK_Site = 3"
| "domain_kind_value DK_PowerZone = 4"
| "domain_kind_value DK_CoolingZone = 5"
| "domain_kind_value DK_Plane = 6"
| "domain_kind_value DK_FailureDomain = 7"

definition domain_kind_of :: "u8 \<Rightarrow> domain_kind" where
  "domain_kind_of v =
     (if v = 0 then DK_Unset else if v = 1 then DK_Node else if v = 2 then DK_Rack else 
      if v = 3 then DK_Site else if v = 4 then DK_PowerZone else if v = 5 then DK_CoolingZone else 
      if v = 6 then DK_Plane else DK_FailureDomain)"

lemma domain_kind_of_value [simp]: "domain_kind_of (domain_kind_value x) = x"
  by (cases x) (simp_all add: domain_kind_of_def)

lemma domain_kind_value_inj [simp]: "domain_kind_value x = domain_kind_value y \<longleftrightarrow> x = y"
  by (metis domain_kind_of_value)

lemma domain_kind_value_max [simp]: "\<not> 7 < domain_kind_value x"
  by (cases x) simp_all

instantiation domain_kind :: linorder
begin

definition less_eq_domain_kind :: "domain_kind \<Rightarrow> domain_kind \<Rightarrow> bool" where
  "x \<le> y \<longleftrightarrow> domain_kind_value x \<le> domain_kind_value y"

definition less_domain_kind :: "domain_kind \<Rightarrow> domain_kind \<Rightarrow> bool" where
  "x < y \<longleftrightarrow> domain_kind_value x < domain_kind_value y"

instance
  by standard (auto simp: less_eq_domain_kind_def less_domain_kind_def order_less_le linear)

end

datatype domain_relation =
    DR_Unset | DR_Distinct | DR_Shared

primrec domain_relation_value :: "domain_relation \<Rightarrow> u8" where
  "domain_relation_value DR_Unset = 0"
| "domain_relation_value DR_Distinct = 1"
| "domain_relation_value DR_Shared = 2"

definition domain_relation_of :: "u8 \<Rightarrow> domain_relation" where
  "domain_relation_of v =
     (if v = 0 then DR_Unset else if v = 1 then DR_Distinct else DR_Shared)"

lemma domain_relation_of_value [simp]: "domain_relation_of (domain_relation_value x) = x"
  by (cases x) (simp_all add: domain_relation_of_def)

lemma domain_relation_value_inj [simp]: "domain_relation_value x = domain_relation_value y \<longleftrightarrow> x = y"
  by (metis domain_relation_of_value)

lemma domain_relation_value_max [simp]: "\<not> 2 < domain_relation_value x"
  by (cases x) simp_all

instantiation domain_relation :: linorder
begin

definition less_eq_domain_relation :: "domain_relation \<Rightarrow> domain_relation \<Rightarrow> bool" where
  "x \<le> y \<longleftrightarrow> domain_relation_value x \<le> domain_relation_value y"

definition less_domain_relation :: "domain_relation \<Rightarrow> domain_relation \<Rightarrow> bool" where
  "x < y \<longleftrightarrow> domain_relation_value x < domain_relation_value y"

instance
  by standard (auto simp: less_eq_domain_relation_def less_domain_relation_def order_less_le linear)

end

datatype unknown_policy =
    FailClosed | PermitUnknownNegative

primrec unknown_policy_value :: "unknown_policy \<Rightarrow> u8" where
  "unknown_policy_value FailClosed = 1"
| "unknown_policy_value PermitUnknownNegative = 2"

definition unknown_policy_of :: "u8 \<Rightarrow> unknown_policy" where
  "unknown_policy_of v =
     (if v = 1 then FailClosed else PermitUnknownNegative)"

lemma unknown_policy_of_value [simp]: "unknown_policy_of (unknown_policy_value x) = x"
  by (cases x) (simp_all add: unknown_policy_of_def)

lemma unknown_policy_value_inj [simp]: "unknown_policy_value x = unknown_policy_value y \<longleftrightarrow> x = y"
  by (metis unknown_policy_of_value)

lemma unknown_policy_value_max [simp]: "\<not> 2 < unknown_policy_value x"
  by (cases x) simp_all

lemma unknown_policy_value_pos [simp]: "unknown_policy_value x \<noteq> 0"
  by (cases x) simp_all

instantiation unknown_policy :: linorder
begin

definition less_eq_unknown_policy :: "unknown_policy \<Rightarrow> unknown_policy \<Rightarrow> bool" where
  "x \<le> y \<longleftrightarrow> unknown_policy_value x \<le> unknown_policy_value y"

definition less_unknown_policy :: "unknown_policy \<Rightarrow> unknown_policy \<Rightarrow> bool" where
  "x < y \<longleftrightarrow> unknown_policy_value x < unknown_policy_value y"

instance
  by standard (auto simp: less_eq_unknown_policy_def less_unknown_policy_def order_less_le linear)

end

datatype evidence_provenance =
    EP_None | EP_FabricCapabilityRegistry | EP_FabricTopologyAuthority
  | EP_FabricLinkStateAuthority | EP_FabricFailureDomainAuthority | EP_FabricPolicyRegistry
  | EP_PlannerModel | EP_SyntheticFixture | EP_OperatorDeclaration

primrec evidence_provenance_value :: "evidence_provenance \<Rightarrow> u8" where
  "evidence_provenance_value EP_None = 0"
| "evidence_provenance_value EP_FabricCapabilityRegistry = 1"
| "evidence_provenance_value EP_FabricTopologyAuthority = 2"
| "evidence_provenance_value EP_FabricLinkStateAuthority = 3"
| "evidence_provenance_value EP_FabricFailureDomainAuthority = 4"
| "evidence_provenance_value EP_FabricPolicyRegistry = 5"
| "evidence_provenance_value EP_PlannerModel = 6"
| "evidence_provenance_value EP_SyntheticFixture = 7"
| "evidence_provenance_value EP_OperatorDeclaration = 8"

definition evidence_provenance_of :: "u8 \<Rightarrow> evidence_provenance" where
  "evidence_provenance_of v =
     (if v = 0 then EP_None else if v = 1 then EP_FabricCapabilityRegistry else if v = 2 then EP_FabricTopologyAuthority else 
      if v = 3 then EP_FabricLinkStateAuthority else if v = 4 then EP_FabricFailureDomainAuthority else if v = 5 then EP_FabricPolicyRegistry else 
      if v = 6 then EP_PlannerModel else if v = 7 then EP_SyntheticFixture else EP_OperatorDeclaration)"

lemma evidence_provenance_of_value [simp]: "evidence_provenance_of (evidence_provenance_value x) = x"
  by (cases x) (simp_all add: evidence_provenance_of_def)

lemma evidence_provenance_value_inj [simp]: "evidence_provenance_value x = evidence_provenance_value y \<longleftrightarrow> x = y"
  by (metis evidence_provenance_of_value)

lemma evidence_provenance_value_max [simp]: "\<not> 8 < evidence_provenance_value x"
  by (cases x) simp_all

datatype capability_model =
    CM_None | CM_DeclaredCapabilityRegistry | CM_SyntheticFixture

primrec capability_model_value :: "capability_model \<Rightarrow> u8" where
  "capability_model_value CM_None = 0"
| "capability_model_value CM_DeclaredCapabilityRegistry = 1"
| "capability_model_value CM_SyntheticFixture = 2"

definition capability_model_of :: "u8 \<Rightarrow> capability_model" where
  "capability_model_of v =
     (if v = 0 then CM_None else if v = 1 then CM_DeclaredCapabilityRegistry else CM_SyntheticFixture)"

lemma capability_model_of_value [simp]: "capability_model_of (capability_model_value x) = x"
  by (cases x) (simp_all add: capability_model_of_def)

lemma capability_model_value_inj [simp]: "capability_model_value x = capability_model_value y \<longleftrightarrow> x = y"
  by (metis capability_model_of_value)

lemma capability_model_value_max [simp]: "\<not> 2 < capability_model_value x"
  by (cases x) simp_all

datatype planner_cost_model =
    PM_None | PM_HopCountUnits | PM_ModelledLatencyMicros | PM_AdministrativeMetric

primrec planner_cost_model_value :: "planner_cost_model \<Rightarrow> u8" where
  "planner_cost_model_value PM_None = 0"
| "planner_cost_model_value PM_HopCountUnits = 1"
| "planner_cost_model_value PM_ModelledLatencyMicros = 2"
| "planner_cost_model_value PM_AdministrativeMetric = 3"

definition planner_cost_model_of :: "u8 \<Rightarrow> planner_cost_model" where
  "planner_cost_model_of v =
     (if v = 0 then PM_None else if v = 1 then PM_HopCountUnits else if v = 2 then PM_ModelledLatencyMicros else 
      PM_AdministrativeMetric)"

lemma planner_cost_model_of_value [simp]: "planner_cost_model_of (planner_cost_model_value x) = x"
  by (cases x) (simp_all add: planner_cost_model_of_def)

lemma planner_cost_model_value_inj [simp]: "planner_cost_model_value x = planner_cost_model_value y \<longleftrightarrow> x = y"
  by (metis planner_cost_model_of_value)

lemma planner_cost_model_value_max [simp]: "\<not> 3 < planner_cost_model_value x"
  by (cases x) simp_all

datatype evidence_family =
    EF_None | EF_ConstraintSet | EF_Topology | EF_LinkState | EF_Capability
  | EF_FailureDomain | EF_Policy | EF_Planner | EF_PathAuthority

primrec evidence_family_value :: "evidence_family \<Rightarrow> u8" where
  "evidence_family_value EF_None = 0"
| "evidence_family_value EF_ConstraintSet = 1"
| "evidence_family_value EF_Topology = 2"
| "evidence_family_value EF_LinkState = 3"
| "evidence_family_value EF_Capability = 4"
| "evidence_family_value EF_FailureDomain = 5"
| "evidence_family_value EF_Policy = 6"
| "evidence_family_value EF_Planner = 7"
| "evidence_family_value EF_PathAuthority = 8"

definition evidence_family_of :: "u8 \<Rightarrow> evidence_family" where
  "evidence_family_of v =
     (if v = 0 then EF_None else if v = 1 then EF_ConstraintSet else if v = 2 then EF_Topology else 
      if v = 3 then EF_LinkState else if v = 4 then EF_Capability else if v = 5 then EF_FailureDomain else 
      if v = 6 then EF_Policy else if v = 7 then EF_Planner else EF_PathAuthority)"

lemma evidence_family_of_value [simp]: "evidence_family_of (evidence_family_value x) = x"
  by (cases x) (simp_all add: evidence_family_of_def)

lemma evidence_family_value_inj [simp]: "evidence_family_value x = evidence_family_value y \<longleftrightarrow> x = y"
  by (metis evidence_family_of_value)

lemma evidence_family_value_max [simp]: "\<not> 8 < evidence_family_value x"
  by (cases x) simp_all

instantiation evidence_family :: linorder
begin

definition less_eq_evidence_family :: "evidence_family \<Rightarrow> evidence_family \<Rightarrow> bool" where
  "x \<le> y \<longleftrightarrow> evidence_family_value x \<le> evidence_family_value y"

definition less_evidence_family :: "evidence_family \<Rightarrow> evidence_family \<Rightarrow> bool" where
  "x < y \<longleftrightarrow> evidence_family_value x < evidence_family_value y"

instance
  by standard (auto simp: less_eq_evidence_family_def less_evidence_family_def order_less_le linear)

end

type_synonym evidence_family_mask = u32

definition family_bit :: "evidence_family \<Rightarrow> evidence_family_mask" where
  "family_bit family = push_bit (unat (evidence_family_value family)) 1"

subsection \<open>Constraints\<close>

record constraint =
  c_id :: constraint_id
  c_generation :: generation
  c_kind :: constraint_kind
  c_scope :: constraint_scope
  c_unknown_policy :: unknown_policy
  c_bound :: i64
  c_latency_source :: latency_source
  c_domain_kind :: domain_kind
  c_domain_relation :: domain_relation
  c_locality_domain :: locality_domain_id
  c_isolation_class :: isolation_class_id
  c_nodes :: "node_id list"
  c_links :: "link_id list"
  c_tiers :: "tier_id list"
  c_sites :: "site_id list"
  c_capabilities :: "capability_id list"
  c_policies :: "policy_id list"
  c_preference_rank :: u32
  c_preference_weight :: u32

definition default_constraint :: constraint where
  "default_constraint = \<lparr> c_id = 0, c_generation = 0, c_kind = CK_Unset, c_scope = Mandatory,
     c_unknown_policy = FailClosed, c_bound = 0, c_latency_source = LS_Unset,
     c_domain_kind = DK_Unset, c_domain_relation = DR_Unset, c_locality_domain = 0,
     c_isolation_class = 0, c_nodes = [], c_links = [], c_tiers = [], c_sites = [],
     c_capabilities = [], c_policies = [], c_preference_rank = 0, c_preference_weight = 0 \<rparr>"

definition kMaxFixedPointBound :: i64 where
  "kMaxFixedPointBound = 0x4000000000000000"

definition is_positive_requirement :: "constraint_kind \<Rightarrow> bool" where
  "is_positive_requirement k \<longleftrightarrow>
     k = CK_RequiredNode \<or> k = CK_RequiredLink \<or> k = CK_RequiredTier \<or> k = CK_RequiredSite \<or>
     k = CK_RequiredCapability \<or> k = CK_RequiredFailureDomainRelation \<or>
     k = CK_LocalityScope \<or> k = CK_IsolationClass \<or>
     k = CK_AdministrativePolicy \<or> k = CK_MaxLatency \<or>
     k = CK_MinBandwidthCapability \<or> k = CK_MaxHopCount"

definition evidence_families :: "constraint_kind \<Rightarrow> evidence_family_mask" where
  "evidence_families k = (case k of
      CK_MaxLatency \<Rightarrow> family_bit EF_Planner OR family_bit EF_LinkState
    | CK_MinBandwidthCapability \<Rightarrow> family_bit EF_Capability
    | CK_RequiredCapability \<Rightarrow> family_bit EF_Capability
    | CK_ForbiddenCapability \<Rightarrow> family_bit EF_Capability
    | CK_RequiredNode \<Rightarrow> family_bit EF_Topology
    | CK_ForbiddenNode \<Rightarrow> family_bit EF_Topology
    | CK_RequiredLink \<Rightarrow> family_bit EF_Topology
    | CK_ForbiddenLink \<Rightarrow> family_bit EF_Topology
    | CK_RequiredTier \<Rightarrow> family_bit EF_Topology
    | CK_ForbiddenTier \<Rightarrow> family_bit EF_Topology
    | CK_RequiredSite \<Rightarrow> family_bit EF_Topology
    | CK_ForbiddenSite \<Rightarrow> family_bit EF_Topology
    | CK_LocalityScope \<Rightarrow> family_bit EF_Topology
    | CK_IsolationClass \<Rightarrow> family_bit EF_FailureDomain
    | CK_RequiredFailureDomainRelation \<Rightarrow> family_bit EF_FailureDomain
    | CK_ForbiddenFailureDomainRelation \<Rightarrow> family_bit EF_FailureDomain
    | CK_AdministrativePolicy \<Rightarrow> family_bit EF_Policy
    | CK_MaxHopCount \<Rightarrow> family_bit EF_Planner
    | CK_Unset \<Rightarrow> 0)"

definition all_valid :: "u64 list \<Rightarrow> bool" where
  "all_valid values \<longleftrightarrow> list_all is_valid values"

text \<open>The loop over adjacent elements, shared by every component.\<close>

definition sorted_unique :: "'a::linorder list \<Rightarrow> bool" where
  "sorted_unique values \<longleftrightarrow> adjacent (<) values"

definition list_within :: "'a list \<Rightarrow> u32 \<Rightarrow> bool" where
  "list_within values max_size \<longleftrightarrow> length values \<le> unat max_size"

definition any_entity_list :: "constraint \<Rightarrow> bool" where
  "any_entity_list c \<longleftrightarrow>
     c_nodes c \<noteq> [] \<or> c_links c \<noteq> [] \<or> c_tiers c \<noteq> [] \<or> c_sites c \<noteq> [] \<or>
     c_capabilities c \<noteq> [] \<or> c_policies c \<noteq> []"

subsection \<open>Validation\<close>

definition validate_common :: "constraint \<Rightarrow> limits \<Rightarrow> status" where
  "validate_common c l =
     (if \<not> is_valid (c_id c) then InvalidArgument
      else if \<not> is_valid (c_generation c) then InvalidArgument
      else if c_kind c = CK_Unset \<or> constraint_kind_value (c_kind c) > 18 then UnknownConstraintKind
      else if c_scope c \<noteq> Mandatory \<and> c_scope c \<noteq> Preference then Malformed
      else if c_unknown_policy c \<noteq> FailClosed \<and> c_unknown_policy c \<noteq> PermitUnknownNegative then Malformed
      else if c_unknown_policy c = PermitUnknownNegative \<and> is_positive_requirement (c_kind c) then InvalidArgument
      else if \<not> list_within (c_nodes c) (max_entity_refs_per_constraint l) \<or>
              \<not> list_within (c_links c) (max_entity_refs_per_constraint l) \<or>
              \<not> list_within (c_tiers c) (max_entity_refs_per_constraint l) \<or>
              \<not> list_within (c_sites c) (max_entity_refs_per_constraint l) \<or>
              \<not> list_within (c_capabilities c) (max_entity_refs_per_constraint l) \<or>
              \<not> list_within (c_policies c) (max_entity_refs_per_constraint l) then ResourceLimit
      else if \<not> all_valid (c_nodes c) \<or> \<not> all_valid (c_links c) \<or> \<not> all_valid (c_tiers c) \<or>
              \<not> all_valid (c_sites c) \<or> \<not> all_valid (c_capabilities c) \<or>
              \<not> all_valid (c_policies c) then InvalidArgument
      else if c_scope c = Mandatory then
        (if c_preference_rank c \<noteq> 0 \<or> c_preference_weight c \<noteq> 0 then Malformed else Ok)
      else
        (if c_preference_weight c = 0 \<or> c_preference_weight c > 1000 then InvalidNumericBound else Ok))"

definition validate_payload :: "constraint \<Rightarrow> status" where
  "validate_payload c = (case c_kind c of
      CK_MaxLatency \<Rightarrow>
        (if c_latency_source c \<noteq> LS_PlannerCost \<and> c_latency_source c \<noteq> LS_ObservedLatency then Malformed
         else if sint (c_bound c) \<le> 0 \<or> sint (c_bound c) > sint kMaxFixedPointBound then InvalidNumericBound
         else if any_entity_list c \<or> c_domain_kind c \<noteq> DK_Unset \<or> c_domain_relation c \<noteq> DR_Unset \<or>
                 is_valid (c_locality_domain c) \<or> is_valid (c_isolation_class c) then Malformed
         else Ok)
    | CK_MinBandwidthCapability \<Rightarrow>
        (if sint (c_bound c) \<le> 0 \<or> sint (c_bound c) > sint kMaxFixedPointBound then InvalidNumericBound
         else if any_entity_list c \<or> c_latency_source c \<noteq> LS_Unset \<or> c_domain_kind c \<noteq> DK_Unset \<or>
                 c_domain_relation c \<noteq> DR_Unset \<or> is_valid (c_locality_domain c) \<or>
                 is_valid (c_isolation_class c) then Malformed
         else Ok)
    | CK_MaxHopCount \<Rightarrow>
        (if sint (c_bound c) \<le> 0 \<or> sint (c_bound c) > 65535 then InvalidNumericBound
         else if any_entity_list c \<or> c_latency_source c \<noteq> LS_Unset \<or> c_domain_kind c \<noteq> DK_Unset \<or>
                 c_domain_relation c \<noteq> DR_Unset \<or> is_valid (c_locality_domain c) \<or>
                 is_valid (c_isolation_class c) then Malformed
         else Ok)
    | CK_RequiredNode \<Rightarrow>
        (if c_nodes c = [] \<or> c_links c \<noteq> [] \<or> c_tiers c \<noteq> [] \<or> c_sites c \<noteq> [] \<or>
            c_capabilities c \<noteq> [] \<or> c_policies c \<noteq> [] then Malformed else Ok)
    | CK_ForbiddenNode \<Rightarrow>
        (if c_nodes c = [] \<or> c_links c \<noteq> [] \<or> c_tiers c \<noteq> [] \<or> c_sites c \<noteq> [] \<or>
            c_capabilities c \<noteq> [] \<or> c_policies c \<noteq> [] then Malformed else Ok)
    | CK_RequiredLink \<Rightarrow>
        (if c_links c = [] \<or> c_nodes c \<noteq> [] \<or> c_tiers c \<noteq> [] \<or> c_sites c \<noteq> [] \<or>
            c_capabilities c \<noteq> [] \<or> c_policies c \<noteq> [] then Malformed else Ok)
    | CK_ForbiddenLink \<Rightarrow>
        (if c_links c = [] \<or> c_nodes c \<noteq> [] \<or> c_tiers c \<noteq> [] \<or> c_sites c \<noteq> [] \<or>
            c_capabilities c \<noteq> [] \<or> c_policies c \<noteq> [] then Malformed else Ok)
    | CK_RequiredTier \<Rightarrow>
        (if c_tiers c = [] \<or> c_nodes c \<noteq> [] \<or> c_links c \<noteq> [] \<or> c_sites c \<noteq> [] \<or>
            c_capabilities c \<noteq> [] \<or> c_policies c \<noteq> [] then Malformed else Ok)
    | CK_ForbiddenTier \<Rightarrow>
        (if c_tiers c = [] \<or> c_nodes c \<noteq> [] \<or> c_links c \<noteq> [] \<or> c_sites c \<noteq> [] \<or>
            c_capabilities c \<noteq> [] \<or> c_policies c \<noteq> [] then Malformed else Ok)
    | CK_RequiredSite \<Rightarrow>
        (if c_sites c = [] \<or> c_nodes c \<noteq> [] \<or> c_links c \<noteq> [] \<or> c_tiers c \<noteq> [] \<or>
            c_capabilities c \<noteq> [] \<or> c_policies c \<noteq> [] then Malformed else Ok)
    | CK_ForbiddenSite \<Rightarrow>
        (if c_sites c = [] \<or> c_nodes c \<noteq> [] \<or> c_links c \<noteq> [] \<or> c_tiers c \<noteq> [] \<or>
            c_capabilities c \<noteq> [] \<or> c_policies c \<noteq> [] then Malformed else Ok)
    | CK_LocalityScope \<Rightarrow>
        (let locality_kind = (c_domain_kind c = DK_Rack \<or> c_domain_kind c = DK_Site \<or>
               c_domain_kind c = DK_PowerZone \<or> c_domain_kind c = DK_CoolingZone \<or>
               c_domain_kind c = DK_Plane)
         in if \<not> locality_kind \<or> \<not> is_valid (c_locality_domain c) then Malformed
            else if any_entity_list c \<or> c_bound c \<noteq> 0 \<or> c_domain_relation c \<noteq> DR_Unset \<or>
                    is_valid (c_isolation_class c) \<or> c_latency_source c \<noteq> LS_Unset then Malformed
            else Ok)
    | CK_IsolationClass \<Rightarrow>
        (if \<not> is_valid (c_isolation_class c) then Malformed
         else if any_entity_list c \<or> c_bound c \<noteq> 0 \<or> c_domain_kind c \<noteq> DK_Unset \<or>
                 c_domain_relation c \<noteq> DR_Unset \<or> is_valid (c_locality_domain c) \<or>
                 c_latency_source c \<noteq> LS_Unset then Malformed
         else Ok)
    | CK_RequiredCapability \<Rightarrow>
        (if c_capabilities c = [] \<or> c_nodes c \<noteq> [] \<or> c_links c \<noteq> [] \<or> c_tiers c \<noteq> [] \<or>
            c_sites c \<noteq> [] \<or> c_policies c \<noteq> [] then Malformed else Ok)
    | CK_ForbiddenCapability \<Rightarrow>
        (if c_capabilities c = [] \<or> c_nodes c \<noteq> [] \<or> c_links c \<noteq> [] \<or> c_tiers c \<noteq> [] \<or>
            c_sites c \<noteq> [] \<or> c_policies c \<noteq> [] then Malformed else Ok)
    | CK_RequiredFailureDomainRelation \<Rightarrow>
        (if c_domain_kind c = DK_Unset \<or> c_domain_relation c \<noteq> DR_Distinct then Malformed
         else if sint (c_bound c) < 1 \<or> sint (c_bound c) > sint kMaxFixedPointBound then InvalidNumericBound
         else if any_entity_list c \<or> is_valid (c_locality_domain c) \<or> is_valid (c_isolation_class c) \<or>
                 c_latency_source c \<noteq> LS_Unset then Malformed
         else Ok)
    | CK_ForbiddenFailureDomainRelation \<Rightarrow>
        (if c_domain_kind c = DK_Unset then Malformed
         else let relation = (if c_domain_relation c = DR_Shared then
                                (if c_bound c \<noteq> 0 then Malformed else Ok)
                              else if c_domain_relation c = DR_Distinct then
                                (if sint (c_bound c) < 1 then InvalidNumericBound else Ok)
                              else Malformed)
              in if relation \<noteq> Ok then relation
                 else if any_entity_list c \<or> is_valid (c_locality_domain c) \<or>
                         is_valid (c_isolation_class c) \<or> c_latency_source c \<noteq> LS_Unset then Malformed
                 else Ok)
    | CK_AdministrativePolicy \<Rightarrow>
        (if c_policies c = [] \<or> c_nodes c \<noteq> [] \<or> c_links c \<noteq> [] \<or> c_tiers c \<noteq> [] \<or>
            c_sites c \<noteq> [] \<or> c_capabilities c \<noteq> [] then Malformed else Ok)
    | CK_Unset \<Rightarrow> UnknownConstraintKind)"

definition validate_constraint :: "constraint \<Rightarrow> limits \<Rightarrow> status" where
  "validate_constraint c l =
     (let common = validate_common c l in if common \<noteq> Ok then common else validate_payload c)"

subsection \<open>Canonical order\<close>

definition equivalent_payload :: "constraint \<Rightarrow> constraint \<Rightarrow> bool" where
  "equivalent_payload a b \<longleftrightarrow>
     c_kind a = c_kind b \<and> c_scope a = c_scope b \<and> c_unknown_policy a = c_unknown_policy b \<and>
     c_bound a = c_bound b \<and> c_latency_source a = c_latency_source b \<and>
     c_domain_kind a = c_domain_kind b \<and> c_domain_relation a = c_domain_relation b \<and>
     c_locality_domain a = c_locality_domain b \<and> c_isolation_class a = c_isolation_class b \<and>
     c_nodes a = c_nodes b \<and> c_links a = c_links b \<and> c_tiers a = c_tiers b \<and>
     c_sites a = c_sites b \<and> c_capabilities a = c_capabilities b \<and> c_policies a = c_policies b \<and>
     c_preference_rank a = c_preference_rank b \<and> c_preference_weight a = c_preference_weight b"

definition semantically_equal :: "constraint \<Rightarrow> constraint \<Rightarrow> bool" where
  "semantically_equal a b \<longleftrightarrow>
     c_id a = c_id b \<and> c_generation a = c_generation b \<and> equivalent_payload a b"

fun compare_lists :: "'a::linorder list \<Rightarrow> 'a list \<Rightarrow> int" where
  "compare_lists (x # xs) (y # ys) =
     (if x < y then - 1 else if y < x then 1 else compare_lists xs ys)"
| "compare_lists [] (y # ys) = - 1"
| "compare_lists (x # xs) [] = 1"
| "compare_lists [] [] = 0"

definition compare_payload :: "constraint \<Rightarrow> constraint \<Rightarrow> int" where
  "compare_payload a b =
     (if c_kind a \<noteq> c_kind b then if c_kind a < c_kind b then - 1 else 1
      else if c_scope a \<noteq> c_scope b then if c_scope a < c_scope b then - 1 else 1
      else if sint (c_bound a) \<noteq> sint (c_bound b) then if sint (c_bound a) < sint (c_bound b) then - 1 else 1
      else if c_latency_source a \<noteq> c_latency_source b then if c_latency_source a < c_latency_source b then - 1 else 1
      else if c_domain_kind a \<noteq> c_domain_kind b then if c_domain_kind a < c_domain_kind b then - 1 else 1
      else if c_domain_relation a \<noteq> c_domain_relation b then if c_domain_relation a < c_domain_relation b then - 1 else 1
      else if c_locality_domain a \<noteq> c_locality_domain b then if c_locality_domain a < c_locality_domain b then - 1 else 1
      else if c_isolation_class a \<noteq> c_isolation_class b then if c_isolation_class a < c_isolation_class b then - 1 else 1
      else if c_unknown_policy a \<noteq> c_unknown_policy b then if c_unknown_policy a < c_unknown_policy b then - 1 else 1
      else if c_preference_rank a \<noteq> c_preference_rank b then if c_preference_rank a < c_preference_rank b then - 1 else 1
      else if c_preference_weight a \<noteq> c_preference_weight b then if c_preference_weight a < c_preference_weight b then - 1 else 1
      else if compare_lists (c_nodes a) (c_nodes b) \<noteq> 0 then compare_lists (c_nodes a) (c_nodes b)
      else if compare_lists (c_links a) (c_links b) \<noteq> 0 then compare_lists (c_links a) (c_links b)
      else if compare_lists (c_tiers a) (c_tiers b) \<noteq> 0 then compare_lists (c_tiers a) (c_tiers b)
      else if compare_lists (c_sites a) (c_sites b) \<noteq> 0 then compare_lists (c_sites a) (c_sites b)
      else if compare_lists (c_capabilities a) (c_capabilities b) \<noteq> 0 then compare_lists (c_capabilities a) (c_capabilities b)
      else compare_lists (c_policies a) (c_policies b))"

definition canonical_less :: "constraint \<Rightarrow> constraint \<Rightarrow> bool" where
  "canonical_less a b =
     (let payload = compare_payload a b in
      if payload \<noteq> 0 then payload < 0
      else if c_id a \<noteq> c_id b then c_id a < c_id b
      else c_generation a < c_generation b)"

subsection \<open>Encodings\<close>

definition feed_list :: "u64 list \<Rightarrow> byte list list" where
  "feed_list values = hash_u32 (word_of_nat (length values)) # map hash_u64 values"

definition write_list :: "u64 list \<Rightarrow> byte list" where
  "write_list values = put_u32 (word_of_nat (length values)) @ concat (map put_u64 values)"

definition read_list :: "u32 \<Rightarrow> u64 list parser" where
  "read_list max_size = rd_bind (rd_bounded_length max_size) (\<lambda>count.
     rd_repeat (unat count) (rd_bind rd_u64 (\<lambda>raw. rd_guard (\<not> raw = 0) (rd_return raw))))"

definition enum_in_range :: "'w::len word \<Rightarrow> 'w word \<Rightarrow> bool" where
  "enum_in_range raw maximum \<longleftrightarrow> raw \<ge> 1 \<and> raw \<le> maximum"

definition encode_constraint_payload :: "constraint \<Rightarrow> byte list" where
  "encode_constraint_payload c =
     put_u16 (constraint_kind_value (c_kind c)) @ put_u8 (constraint_scope_value (c_scope c)) @
     put_u8 (unknown_policy_value (c_unknown_policy c)) @ put_i64 (c_bound c) @
     put_u8 (latency_source_value (c_latency_source c)) @ put_u8 (domain_kind_value (c_domain_kind c)) @
     put_u8 (domain_relation_value (c_domain_relation c)) @ put_u64 (c_locality_domain c) @
     put_u64 (c_isolation_class c) @ put_u32 (c_preference_rank c) @ put_u32 (c_preference_weight c) @
     write_list (c_nodes c) @ write_list (c_links c) @ write_list (c_tiers c) @
     write_list (c_sites c) @ write_list (c_capabilities c) @ write_list (c_policies c)"

definition feed_constraint :: "constraint \<Rightarrow> byte list list" where
  "feed_constraint c =
     [hash_u64 (c_id c), hash_u64 (c_generation c), hash_u16 (constraint_kind_value (c_kind c)),
      hash_u8 (constraint_scope_value (c_scope c)), hash_u8 (unknown_policy_value (c_unknown_policy c)),
      hash_i64 (c_bound c), hash_u8 (latency_source_value (c_latency_source c)),
      hash_u8 (domain_kind_value (c_domain_kind c)), hash_u8 (domain_relation_value (c_domain_relation c)),
      hash_u64 (c_locality_domain c), hash_u64 (c_isolation_class c),
      hash_u32 (c_preference_rank c), hash_u32 (c_preference_weight c)] @
     feed_list (c_nodes c) @ feed_list (c_links c) @ feed_list (c_tiers c) @
     feed_list (c_sites c) @ feed_list (c_capabilities c) @ feed_list (c_policies c)"

definition encode_constraint :: "constraint \<Rightarrow> byte list" where
  "encode_constraint c =
     put_u64 (c_id c) @ put_u64 (c_generation c) @ put_u16 (constraint_kind_value (c_kind c)) @
     put_u8 (constraint_scope_value (c_scope c)) @ put_u8 (unknown_policy_value (c_unknown_policy c)) @
     put_i64 (c_bound c) @ put_u8 (latency_source_value (c_latency_source c)) @
     put_u8 (domain_kind_value (c_domain_kind c)) @ put_u8 (domain_relation_value (c_domain_relation c)) @
     put_u8 0 @ put_u64 (c_locality_domain c) @ put_u64 (c_isolation_class c) @
     put_u32 (c_preference_rank c) @ put_u32 (c_preference_weight c) @
     write_list (c_nodes c) @ write_list (c_links c) @ write_list (c_tiers c) @
     write_list (c_sites c) @ write_list (c_capabilities c) @ write_list (c_policies c)"

definition decode_constraint :: "limits \<Rightarrow> constraint parser" where
  "decode_constraint l =
     rd_bind rd_u64 (\<lambda>id_raw. rd_bind rd_u64 (\<lambda>generation_raw. rd_bind rd_u16 (\<lambda>kind_raw.
     rd_bind rd_u8 (\<lambda>scope_raw. rd_bind rd_u8 (\<lambda>unknown_raw. rd_bind rd_i64 (\<lambda>bound.
     rd_bind rd_u8 (\<lambda>latency_raw. rd_bind rd_u8 (\<lambda>domain_kind_raw. rd_bind rd_u8 (\<lambda>relation_raw.
     rd_bind rd_u8 (\<lambda>reserved. rd_bind rd_u64 (\<lambda>locality_raw. rd_bind rd_u64 (\<lambda>isolation_raw.
     rd_bind rd_u32 (\<lambda>rank_raw. rd_bind rd_u32 (\<lambda>weight_raw.
     rd_guard (\<not> (id_raw = 0 \<or> \<not> is_representable generation_raw \<or> reserved \<noteq> 0 \<or>
        \<not> enum_in_range kind_raw 18 \<or> \<not> enum_in_range scope_raw 2 \<or> \<not> enum_in_range unknown_raw 2 \<or>
        latency_raw > 2 \<or> domain_kind_raw > 7 \<or> relation_raw > 2))
     (rd_bind (read_list (max_entity_refs_per_constraint l)) (\<lambda>nodes.
      rd_bind (read_list (max_entity_refs_per_constraint l)) (\<lambda>links.
      rd_bind (read_list (max_entity_refs_per_constraint l)) (\<lambda>tiers.
      rd_bind (read_list (max_entity_refs_per_constraint l)) (\<lambda>sites.
      rd_bind (read_list (max_entity_refs_per_constraint l)) (\<lambda>capabilities.
      rd_bind (read_list (max_entity_refs_per_constraint l)) (\<lambda>policies.
      let out = \<lparr> c_id = id_raw, c_generation = generation_raw,
            c_kind = constraint_kind_of kind_raw, c_scope = constraint_scope_of scope_raw,
            c_unknown_policy = unknown_policy_of unknown_raw, c_bound = bound,
            c_latency_source = latency_source_of latency_raw,
            c_domain_kind = domain_kind_of domain_kind_raw,
            c_domain_relation = domain_relation_of relation_raw,
            c_locality_domain = locality_raw, c_isolation_class = isolation_raw,
            c_nodes = nodes, c_links = links, c_tiers = tiers, c_sites = sites,
            c_capabilities = capabilities, c_policies = policies,
            c_preference_rank = rank_raw, c_preference_weight = weight_raw \<rparr>
      in rd_guard (\<not> (\<not> sorted_unique nodes \<or> \<not> sorted_unique links \<or> \<not> sorted_unique tiers \<or>
              \<not> sorted_unique sites \<or> \<not> sorted_unique capabilities \<or> \<not> sorted_unique policies))
        (rd_guard (validate_constraint out l = Ok) (rd_return out)))))))))))))))))))))))"

subsection \<open>The canonical order is a strict total order\<close>

lemma compare_lists_cmp [cmp_key]: "compare_lists xs ys = cmp_of xs ys"
  by (induction xs ys rule: compare_lists.induct) (simp_all add: cmp_of_Cons)

definition payload_key where
  "payload_key (c :: constraint) = (c_kind c, c_scope c, sint (c_bound c), c_latency_source c, c_domain_kind c,
     c_domain_relation c, c_locality_domain c, c_isolation_class c, c_unknown_policy c,
     c_preference_rank c, c_preference_weight c, c_nodes c, c_links c, c_tiers c, c_sites c,
     c_capabilities c, c_policies c)"

definition canonical_key where
  "canonical_key (c :: constraint) = (payload_key c, c_id c, c_generation c)"

lemma compare_payload_key: "compare_payload a b = cmp_of (payload_key a) (payload_key b)"
  unfolding compare_payload_def payload_key_def
  by (simp only: cmp_of_Pair compare_lists_cmp cmp_of_eq_0 simp_thms) (simp add: cmp_of_def)

lemma payload_key_eq: "payload_key a = payload_key b \<longleftrightarrow> equivalent_payload a b"
  by (auto simp: payload_key_def equivalent_payload_def)

lemma compare_payload_eq_0: "compare_payload a b = 0 \<longleftrightarrow> equivalent_payload a b"
  by (simp add: compare_payload_key payload_key_eq)

lemma canonical_less_key: "canonical_less a b \<longleftrightarrow> canonical_key a < canonical_key b"
  by (auto simp: canonical_less_def canonical_key_def Let_def compare_payload_key)

lemma canonical_key_eq: "canonical_key a = canonical_key b \<Longrightarrow> a = b"
  by (rule constraint.equality) (simp_all add: canonical_key_def payload_key_def)

interpretation canonical: total_keyed_order canonical_less canonical_key
  by unfold_locales (use canonical_less_key canonical_key_eq in blast)+

lemma equivalent_payload_refl [simp]: "equivalent_payload a a"
  by (simp add: equivalent_payload_def)

lemma equivalent_payload_sym: "equivalent_payload a b \<Longrightarrow> equivalent_payload b a"
  by (simp add: equivalent_payload_def)

lemma equivalent_payload_trans:
  "equivalent_payload a b \<Longrightarrow> equivalent_payload b c \<Longrightarrow> equivalent_payload a c"
  by (simp add: equivalent_payload_def)

lemma semantically_equal_eq: "semantically_equal a b \<longleftrightarrow> a = b"
  by (auto simp: semantically_equal_def equivalent_payload_def intro: constraint.equality)

lemma sorted_unique_iff [simp]: "sorted_unique xs \<longleftrightarrow> sorted_wrt (<) xs"
  by (simp add: sorted_unique_def adjacent_sorted_wrt)

subsection \<open>Consequences of validation\<close>

lemma validate_constraint_Ok:
  "validate_constraint c l = Ok \<longleftrightarrow> validate_common c l = Ok \<and> validate_payload c = Ok"
  by (simp add: validate_constraint_def Let_def)

lemma validate_common_OkD:
  assumes "validate_common c l = Ok"
  shows "c_id c \<noteq> 0" "c_generation c \<noteq> 0" "c_kind c \<noteq> CK_Unset"
    "c_unknown_policy c = PermitUnknownNegative \<Longrightarrow> \<not> is_positive_requirement (c_kind c)"
    "\<forall>xs\<in>{c_nodes c, c_links c, c_tiers c, c_sites c, c_capabilities c, c_policies c}.
       length xs \<le> unat (max_entity_refs_per_constraint l) \<and> all_valid xs"
    "c_scope c = Mandatory \<Longrightarrow> c_preference_rank c = 0 \<and> c_preference_weight c = 0"
    "c_scope c = Preference \<Longrightarrow> c_preference_weight c \<noteq> 0 \<and> c_preference_weight c \<le> 1000"
proof -
  have *: "is_valid (c_id c) \<and> is_valid (c_generation c) \<and> c_kind c \<noteq> CK_Unset \<and>
    \<not> (c_unknown_policy c = PermitUnknownNegative \<and> is_positive_requirement (c_kind c))"
    "\<forall>xs\<in>{c_nodes c, c_links c, c_tiers c, c_sites c, c_capabilities c, c_policies c}.
       list_within xs (max_entity_refs_per_constraint l) \<and> all_valid xs"
    "if c_scope c = Mandatory then c_preference_rank c = 0 \<and> c_preference_weight c = 0
     else c_preference_weight c \<noteq> 0 \<and> \<not> c_preference_weight c > 1000"
    using assms unfolding validate_common_def
    by (simp_all add: gate_simps split: if_splits)
  show "c_id c \<noteq> 0" "c_generation c \<noteq> 0" "c_kind c \<noteq> CK_Unset"
    "c_unknown_policy c = PermitUnknownNegative \<Longrightarrow> \<not> is_positive_requirement (c_kind c)"
    using *(1) by (auto simp: is_valid_def)
  show "\<forall>xs\<in>{c_nodes c, c_links c, c_tiers c, c_sites c, c_capabilities c, c_policies c}.
       length xs \<le> unat (max_entity_refs_per_constraint l) \<and> all_valid xs"
    using *(2) by (simp add: list_within_def)
  show "c_scope c = Mandatory \<Longrightarrow> c_preference_rank c = 0 \<and> c_preference_weight c = 0"
    "c_scope c = Preference \<Longrightarrow> c_preference_weight c \<noteq> 0 \<and> c_preference_weight c \<le> 1000"
    using *(3) by (auto simp: not_less)
qed

lemma validate_bound_range:
  assumes "validate_constraint c l = Ok"
    and "c_kind c \<in> {CK_MaxLatency, CK_MinBandwidthCapability, CK_MaxHopCount, CK_RequiredFailureDomainRelation}"
  shows "1 \<le> sint (c_bound c)" "sint (c_bound c) \<le> 2 ^ 62"
  using assms
  by (auto simp: validate_constraint_Ok validate_payload_def kMaxFixedPointBound_def gate_simps)

subsection \<open>Encodings are injective and decodable\<close>

lemma parses_inj: "parses p bs x \<Longrightarrow> parses p bs y \<Longrightarrow> x = y"
  by (auto simp: parses_def)

lemma put_inj [simp]:
  "put_u8 a = put_u8 a' \<longleftrightarrow> a = a'" "put_u16 b = put_u16 b' \<longleftrightarrow> b = b'"
  "put_u32 c = put_u32 c' \<longleftrightarrow> c = c'" "put_u64 d = put_u64 d' \<longleftrightarrow> d = d'"
  "put_i64 d = put_i64 d' \<longleftrightarrow> d = d'"
  by (metis parses_inj parses_u8) (metis parses_inj parses_u16, metis parses_inj parses_u32,
    metis parses_inj parses_u64, metis parses_inj parses_i64)

lemma put_append_inj [simp]:
  "put_u8 a @ x = put_u8 a' @ y \<longleftrightarrow> a = a' \<and> x = y"
  "put_u16 b @ x = put_u16 b' @ y \<longleftrightarrow> b = b' \<and> x = y"
  "put_u32 c @ x = put_u32 c' @ y \<longleftrightarrow> c = c' \<and> x = y"
  "put_u64 d @ x = put_u64 d' @ y \<longleftrightarrow> d = d' \<and> x = y"
  "put_i64 d @ x = put_i64 d' @ y \<longleftrightarrow> d = d' \<and> x = y"
  by (simp_all add: append_eq_append_conv)

lemma concat_put_u64_inj:
  "length xs = length ys \<Longrightarrow> concat (map put_u64 xs) @ x = concat (map put_u64 ys) @ y \<longleftrightarrow> xs = ys \<and> x = y"
  by (induction xs ys rule: list_induct2) auto

lemma write_list_inj:
  assumes "length xs < 2 ^ 32" "length ys < 2 ^ 32"
  shows "write_list xs @ x = write_list ys @ y \<longleftrightarrow> xs = ys \<and> x = y"
proof
  assume eq: "write_list xs @ x = write_list ys @ y"
  then have "(word_of_nat (length xs) :: u32) = word_of_nat (length ys)"
    by (simp add: write_list_def)
  then have "length xs = length ys"
    by (metis assms unat_u32_of_nat)
  then show "xs = ys \<and> x = y"
    using eq by (simp add: write_list_def concat_put_u64_inj)
qed simp

definition lists_fit :: "constraint \<Rightarrow> bool" where
  "lists_fit c \<longleftrightarrow> (\<forall>xs\<in>{c_nodes c, c_links c, c_tiers c, c_sites c, c_capabilities c, c_policies c}.
     length xs < 2 ^ 32)"

lemma encode_constraint_payload_iff:
  assumes "lists_fit a" "lists_fit b"
  shows "encode_constraint_payload a = encode_constraint_payload b \<longleftrightarrow> equivalent_payload a b"
  using assms write_list_inj [where x = "[]" and y = "[]"]
  by (auto simp: encode_constraint_payload_def equivalent_payload_def lists_fit_def write_list_inj)

lemma unat_u32_less: "n \<le> unat (m :: u32) \<Longrightarrow> n < 2 ^ 32"
  using unsigned_less [where ?'a = nat and w = m] by simp

lemma validate_lists_fit: "validate_common c l = Ok \<Longrightarrow> lists_fit c"
  using validate_common_OkD(5) [of c l] unat_u32_less by (auto simp: lists_fit_def)

lemma u32_of_nat_le: "n \<le> unat (m :: u32) \<Longrightarrow> word_of_nat n \<le> m"
  by (simp add: word_le_nat_alt unat_u32_less [THEN unat_u32_of_nat])

lemma parses_read_list [codec_rt]:
  assumes "length xs \<le> unat m" "all_valid xs"
  shows "parses (read_list m) (write_list xs) xs"
proof -
  have "parses (rd_bind rd_u64 (\<lambda>raw. rd_guard (\<not> raw = 0) (rd_return raw))) (put_u64 x) x"
    if "x \<in> set xs" for x
    using that assms
    by (auto simp: all_valid_def list_all_iff is_valid_def intro!: parses_bind_Nil [OF parses_u64] parses_guard)
  then have "parses (rd_repeat (length xs) (rd_bind rd_u64 (\<lambda>raw. rd_guard (\<not> raw = 0) (rd_return raw))))
      (concat (map put_u64 xs)) xs"
    by (rule parses_repeat)
  moreover have "\<not> m < (word_of_nat (length xs) :: u32)"
    using assms u32_of_nat_le by (simp add: not_less)
  ultimately show ?thesis
    unfolding read_list_def write_list_def
    using unat_u32_of_nat [OF unat_u32_less [OF assms(1)]]
    by (intro parses_bind [OF parses_bounded_length]) simp_all
qed

lemma enum_in_range_kind [simp]: "x \<noteq> CK_Unset \<Longrightarrow> enum_in_range (constraint_kind_value x) 18"
  by (cases x) (simp_all add: enum_in_range_def)

lemma enum_in_range_scope [simp]: "enum_in_range (constraint_scope_value x) 2"
  by (cases x) (simp_all add: enum_in_range_def)

lemma enum_in_range_unknown [simp]: "enum_in_range (unknown_policy_value x) 2"
  by (cases x) (simp_all add: enum_in_range_def)

definition wire_constraint :: "constraint \<Rightarrow> limits \<Rightarrow> bool" where
  "wire_constraint c l \<longleftrightarrow> validate_constraint c l = Ok \<and> is_representable (c_generation c) \<and>
     sorted_unique (c_nodes c) \<and> sorted_unique (c_links c) \<and> sorted_unique (c_tiers c) \<and>
     sorted_unique (c_sites c) \<and> sorted_unique (c_capabilities c) \<and> sorted_unique (c_policies c)"

lemma constraint_eta [simp]:
  "\<lparr> c_id = c_id c, c_generation = c_generation c, c_kind = c_kind c, c_scope = c_scope c, c_unknown_policy = c_unknown_policy c, c_bound = c_bound c, c_latency_source = c_latency_source c, c_domain_kind = c_domain_kind c, c_domain_relation = c_domain_relation c, c_locality_domain = c_locality_domain c, c_isolation_class = c_isolation_class c, c_nodes = c_nodes c, c_links = c_links c, c_tiers = c_tiers c, c_sites = c_sites c, c_capabilities = c_capabilities c, c_policies = c_policies c, c_preference_rank = c_preference_rank c, c_preference_weight = c_preference_weight c \<rparr> = c"
  by simp

lemma parses_decode_constraint [codec_rt]:
  assumes "wire_constraint c l"
  shows "parses (decode_constraint l) (encode_constraint c) c"
proof -
  have common: "validate_common c l = Ok"
    using assms by (simp add: wire_constraint_def validate_constraint_Ok)
  note d = validate_common_OkD [OF common]
  note d = validate_common_OkD [OF common]
  have g: "\<not> (c_id c = 0 \<or> \<not> is_representable (c_generation c) \<or> (0::u8) \<noteq> 0 \<or>
      \<not> enum_in_range (constraint_kind_value (c_kind c)) 18 \<or>
      \<not> enum_in_range (constraint_scope_value (c_scope c)) 2 \<or>
      \<not> enum_in_range (unknown_policy_value (c_unknown_policy c)) 2 \<or>
      latency_source_value (c_latency_source c) > 2 \<or> domain_kind_value (c_domain_kind c) > 7 \<or>
      domain_relation_value (c_domain_relation c) > 2)"
    using d(1,3) assms by (simp add: wire_constraint_def)
  have rl: "\<And>xs. xs \<in> {c_nodes c, c_links c, c_tiers c, c_sites c, c_capabilities c, c_policies c} \<Longrightarrow>
      parses (read_list (max_entity_refs_per_constraint l)) (write_list xs) xs"
    using d(5) by (intro parses_read_list) blast+
  show ?thesis
    unfolding decode_constraint_def encode_constraint_def Let_def
    by (rule codec_steps g rl insertI1 insertI2 | use assms in \<open>simp add: wire_constraint_def; fail\<close>)+
qed

lemma regular_decode_constraint [simp, intro]: "regular (decode_constraint l)"
  unfolding decode_constraint_def read_list_def Let_def
  by (intro regular_bind regular_guard regular_repeat regular_primitives regular_return)

end
