(* ===== verification/Candidate.thy ===== *)
theory Candidate
  imports Constraint
begin

text \<open>
  Candidate paths and the authoritative evidence they carry (\<open>candidate.hpp\<close>,
  \<open>candidate.cpp\<close>): the evidence records, canonicalisation and structural validation, the
  bottleneck bandwidth, the node-sequence comparison, the digest and the wire encoding.
\<close>

subsection \<open>Evidence types\<close>

datatype path_authority_verdict =
    PV_NotEvaluated | PV_Legal | PV_Rejected

primrec path_authority_verdict_value :: "path_authority_verdict \<Rightarrow> u8" where
  "path_authority_verdict_value PV_NotEvaluated = 0"
| "path_authority_verdict_value PV_Legal = 1"
| "path_authority_verdict_value PV_Rejected = 2"

definition path_authority_verdict_of :: "u8 \<Rightarrow> path_authority_verdict" where
  "path_authority_verdict_of v =
     (if v = 0 then PV_NotEvaluated else if v = 1 then PV_Legal else PV_Rejected)"

lemma path_authority_verdict_of_value [simp]: "path_authority_verdict_of (path_authority_verdict_value x) = x"
  by (cases x) (simp_all add: path_authority_verdict_of_def)

lemma path_authority_verdict_value_inj [simp]: "path_authority_verdict_value x = path_authority_verdict_value y \<longleftrightarrow> x = y"
  by (metis path_authority_verdict_of_value)

lemma path_authority_verdict_value_max [simp]: "\<not> 2 < path_authority_verdict_value x"
  by (cases x) simp_all

text \<open>References are ordered by identity first, as \<open>operator<\<close> is in the source.\<close>

datatype locality_ref = LocalityRef (lr_kind: domain_kind) (lr_domain: u64)

instantiation locality_ref :: linorder
begin

definition less_eq_locality_ref :: "locality_ref \<Rightarrow> locality_ref \<Rightarrow> bool" where
  "a \<le> b \<longleftrightarrow> (if lr_kind a \<noteq> lr_kind b then lr_kind a < lr_kind b else lr_domain a \<le> lr_domain b)"

definition less_locality_ref :: "locality_ref \<Rightarrow> locality_ref \<Rightarrow> bool" where
  "a < b \<longleftrightarrow> (if lr_kind a \<noteq> lr_kind b then lr_kind a < lr_kind b else lr_domain a < lr_domain b)"

instance
  by standard (auto simp: less_eq_locality_ref_def less_locality_ref_def locality_ref.expand split: if_splits)

end

datatype failure_domain_ref = FailureDomainRef (fr_kind: domain_kind) (fr_domain: u64)

instantiation failure_domain_ref :: linorder
begin

definition less_eq_failure_domain_ref :: "failure_domain_ref \<Rightarrow> failure_domain_ref \<Rightarrow> bool" where
  "a \<le> b \<longleftrightarrow> (if fr_kind a \<noteq> fr_kind b then fr_kind a < fr_kind b else fr_domain a \<le> fr_domain b)"

definition less_failure_domain_ref :: "failure_domain_ref \<Rightarrow> failure_domain_ref \<Rightarrow> bool" where
  "a < b \<longleftrightarrow> (if fr_kind a \<noteq> fr_kind b then fr_kind a < fr_kind b else fr_domain a < fr_domain b)"

instance
  by standard (auto simp: less_eq_failure_domain_ref_def less_failure_domain_ref_def failure_domain_ref.expand split: if_splits)

end

datatype capability_ref = CapabilityRef (cr_capability: u64) (cr_generation: u64)

instantiation capability_ref :: linorder
begin

definition less_eq_capability_ref :: "capability_ref \<Rightarrow> capability_ref \<Rightarrow> bool" where
  "a \<le> b \<longleftrightarrow> (if cr_capability a \<noteq> cr_capability b then cr_capability a < cr_capability b else cr_generation a \<le> cr_generation b)"

definition less_capability_ref :: "capability_ref \<Rightarrow> capability_ref \<Rightarrow> bool" where
  "a < b \<longleftrightarrow> (if cr_capability a \<noteq> cr_capability b then cr_capability a < cr_capability b else cr_generation a < cr_generation b)"

instance
  by standard (auto simp: less_eq_capability_ref_def less_capability_ref_def capability_ref.expand split: if_splits)

end

datatype policy_attestation = PolicyAttestation (pa_policy: u64) (pa_generation: u64)

instantiation policy_attestation :: linorder
begin

definition less_eq_policy_attestation :: "policy_attestation \<Rightarrow> policy_attestation \<Rightarrow> bool" where
  "a \<le> b \<longleftrightarrow> (if pa_policy a \<noteq> pa_policy b then pa_policy a < pa_policy b else pa_generation a \<le> pa_generation b)"

definition less_policy_attestation :: "policy_attestation \<Rightarrow> policy_attestation \<Rightarrow> bool" where
  "a < b \<longleftrightarrow> (if pa_policy a \<noteq> pa_policy b then pa_policy a < pa_policy b else pa_generation a < pa_generation b)"

instance
  by standard (auto simp: less_eq_policy_attestation_def less_policy_attestation_def policy_attestation.expand split: if_splits)

end

datatype isolation_attestation = IsolationAttestation (ia_class: u64) (ia_generation: u64)

instantiation isolation_attestation :: linorder
begin

definition less_eq_isolation_attestation :: "isolation_attestation \<Rightarrow> isolation_attestation \<Rightarrow> bool" where
  "a \<le> b \<longleftrightarrow> (if ia_class a \<noteq> ia_class b then ia_class a < ia_class b else ia_generation a \<le> ia_generation b)"

definition less_isolation_attestation :: "isolation_attestation \<Rightarrow> isolation_attestation \<Rightarrow> bool" where
  "a < b \<longleftrightarrow> (if ia_class a \<noteq> ia_class b then ia_class a < ia_class b else ia_generation a < ia_generation b)"

instance
  by standard (auto simp: less_eq_isolation_attestation_def less_isolation_attestation_def isolation_attestation.expand split: if_splits)

end

record latency_evidence =
  le_source :: latency_source
  le_provenance :: evidence_provenance
  le_micros :: i64
  le_planner_generation :: generation
  le_observed_generation :: generation
  le_observed_tick :: u64

record bandwidth_evidence =
  bw_model :: capability_model
  bw_provenance :: evidence_provenance
  bw_bits_per_second :: i64
  bw_generation :: generation
  bw_observed_tick :: u64

record node_fact =
  nf_node :: node_id
  nf_tier :: tier_id
  nf_site :: site_id
  nf_localities :: "locality_ref list"
  nf_domains :: "failure_domain_ref list"
  nf_capabilities :: "capability_ref list"
  nf_isolation :: "isolation_attestation list"

record link_fact =
  lf_link :: link_id
  lf_endpoint0 :: node_id
  lf_endpoint1 :: node_id
  lf_bandwidth :: bandwidth_evidence
  lf_domains :: "failure_domain_ref list"
  lf_capabilities :: "capability_ref list"
  lf_isolation :: "isolation_attestation list"

record evidence_generation_set =
  eg_topology :: generation
  eg_link_state :: generation
  eg_capability :: generation
  eg_failure_domain :: generation
  eg_policy :: generation
  eg_planner :: generation
  eg_path_authority :: generation
  eg_consulted :: evidence_family_mask
  eg_captured_tick :: u64

record evidence_requirements =
  er_topology :: generation
  er_link_state :: generation
  er_capability :: generation
  er_failure_domain :: generation
  er_policy :: generation
  er_planner :: generation
  er_path_authority :: generation
  er_max_evidence_age_ticks :: u64

record candidate_path =
  cp_path :: path_id
  cp_authority_generation :: generation
  cp_authority_verdict :: path_authority_verdict
  cp_planner_generation :: generation
  cp_has_planner_rank :: bool
  cp_planner_rank :: u32
  cp_has_planner_cost :: bool
  cp_planner_cost :: i64
  cp_cost_model :: planner_cost_model
  cp_hop_count :: u32
  cp_nodes :: "node_fact list"
  cp_links :: "link_fact list"
  cp_latency :: latency_evidence
  cp_policies :: "policy_attestation list"
  cp_evidence :: evidence_generation_set

subsection \<open>Canonicalisation and validation\<close>

fun canonicalize_refs_loop :: "('r \<Rightarrow> 'k) \<Rightarrow> 'r list \<Rightarrow> 'r list \<Rightarrow> 'r list result" where
  "canonicalize_refs_loop key canonical [] = Inr canonical"
| "canonicalize_refs_loop key canonical (value # values) =
     (if canonical \<noteq> [] \<and> last canonical = value then canonicalize_refs_loop key canonical values
      else if canonical \<noteq> [] \<and> key (last canonical) = key value then Inl Malformed
      else canonicalize_refs_loop key (canonical @ [value]) values)"

definition canonicalize_refs :: "('r::linorder \<Rightarrow> 'k) \<Rightarrow> 'r list \<Rightarrow> 'r list result" where
  "canonicalize_refs key values = canonicalize_refs_loop key [] (sort values)"

definition canonicalize_node :: "limits \<Rightarrow> node_fact \<Rightarrow> node_fact result" where
  "canonicalize_node l node =
     (if length (nf_localities node) > unat (max_localities_per_entity l) then Inl ResourceLimit
      else if length (nf_domains node) > unat (max_domains_per_entity l) then Inl ResourceLimit
      else if length (nf_capabilities node) > unat (max_capabilities_per_entity l) then Inl ResourceLimit
      else case canonicalize_refs cr_capability (nf_capabilities node) of
          Inl e \<Rightarrow> Inl e
        | Inr caps \<Rightarrow> Inr (node\<lparr> nf_localities := sort_unique (nf_localities node),
                               nf_domains := sort_unique (nf_domains node),
                               nf_isolation := sort_unique (nf_isolation node),
                               nf_capabilities := caps \<rparr>))"

definition canonicalize_link :: "limits \<Rightarrow> link_fact \<Rightarrow> link_fact result" where
  "canonicalize_link l link =
     (if length (lf_domains link) > unat (max_domains_per_entity l) then Inl ResourceLimit
      else if length (lf_capabilities link) > unat (max_capabilities_per_entity l) then Inl ResourceLimit
      else case canonicalize_refs cr_capability (lf_capabilities link) of
          Inl e \<Rightarrow> Inl e
        | Inr caps \<Rightarrow> Inr (link\<lparr> lf_domains := sort_unique (lf_domains link),
                               lf_isolation := sort_unique (lf_isolation link),
                               lf_capabilities := caps \<rparr>))"

definition same_endpoints :: "link_fact \<Rightarrow> node_id \<Rightarrow> node_id \<Rightarrow> bool" where
  "same_endpoints link a b \<longleftrightarrow>
     (lf_endpoint0 link = a \<and> lf_endpoint1 link = b) \<or> (lf_endpoint0 link = b \<and> lf_endpoint1 link = a)"

text \<open>The node loop of \<open>validate_candidate\<close>; \<open>previous\<close> holds the identities already seen.\<close>

fun validate_nodes :: "limits \<Rightarrow> node_id list \<Rightarrow> node_fact list \<Rightarrow> status" where
  "validate_nodes l previous [] = Ok"
| "validate_nodes l previous (node # nodes) =
     (if \<not> is_valid (nf_node node) then InvalidArgument
      else if nf_node node \<in> set previous then Malformed
      else if length (nf_localities node) > unat (max_localities_per_entity l) \<or>
              length (nf_domains node) > unat (max_domains_per_entity l) \<or>
              length (nf_capabilities node) > unat (max_capabilities_per_entity l) then ResourceLimit
      else if \<not> sorted_unique (nf_localities node) \<or> \<not> sorted_unique (nf_domains node) \<or>
              \<not> sorted_unique (nf_capabilities node) \<or> \<not> sorted_unique (nf_isolation node) then Malformed
      else if list_ex (\<lambda>ref. lr_kind ref = DK_Unset \<or> \<not> is_valid (lr_domain ref)) (nf_localities node) then Malformed
      else if list_ex (\<lambda>ref. fr_kind ref = DK_Unset \<or> \<not> is_valid (fr_domain ref)) (nf_domains node) then Malformed
      else validate_nodes l (previous @ [nf_node node]) nodes)"

text \<open>The link loop; link \<open>i\<close> joins node \<open>i\<close> and node \<open>i + 1\<close>.\<close>

fun validate_links :: "limits \<Rightarrow> node_fact list \<Rightarrow> link_fact list \<Rightarrow> status" where
  "validate_links l (a # b # nodes) (link # links) =
     (if \<not> is_valid (lf_link link) then InvalidArgument
      else if \<not> same_endpoints link (nf_node a) (nf_node b) then Malformed
      else if length (lf_domains link) > unat (max_domains_per_entity l) \<or>
              length (lf_capabilities link) > unat (max_capabilities_per_entity l) then ResourceLimit
      else if \<not> sorted_unique (lf_domains link) \<or> \<not> sorted_unique (lf_capabilities link) \<or>
              \<not> sorted_unique (lf_isolation link) then Malformed
      else if bw_model (lf_bandwidth link) \<noteq> CM_None \<and>
              (sint (bw_bits_per_second (lf_bandwidth link)) < 0 \<or>
               \<not> is_valid (bw_generation (lf_bandwidth link))) then Malformed
      else validate_links l (b # nodes) links)"
| "validate_links l _ _ = Ok"

definition validate_latency :: "candidate_path \<Rightarrow> status" where
  "validate_latency c =
     (let lat = cp_latency c in
      if le_source lat \<noteq> LS_Unset then
        if sint (le_micros lat) < 0 \<or> sint (le_micros lat) > sint kMaxFixedPointBound then InvalidNumericBound
        else if le_source lat = LS_PlannerCost \<and> \<not> is_valid (le_planner_generation lat) then Malformed
        else if le_source lat = LS_ObservedLatency \<and> \<not> is_valid (le_observed_generation lat) then Malformed
        else if le_source lat = LS_PlannerCost \<and> le_planner_generation lat \<noteq> eg_planner (cp_evidence c) then Malformed
        else if le_source lat = LS_ObservedLatency \<and> le_observed_generation lat \<noteq> eg_link_state (cp_evidence c) then Malformed
        else Ok
      else Ok)"

definition validate_candidate :: "candidate_path \<Rightarrow> limits \<Rightarrow> status" where
  "validate_candidate c l =
     (if \<not> is_valid (cp_path c) then InvalidArgument
      else if \<not> is_valid (cp_authority_generation c) then InvalidArgument
      else if eg_path_authority (cp_evidence c) \<noteq> cp_authority_generation c then Malformed
      else if length (cp_nodes c) < 2 then Malformed
      else if length (cp_nodes c) > unat (max_nodes_per_candidate l) then ResourceLimit
      else if length (cp_links c) \<noteq> length (cp_nodes c) - 1 then Malformed
      else if length (cp_links c) > unat (max_links_per_candidate l) then ResourceLimit
      else if unat (cp_hop_count c) \<noteq> length (cp_links c) then Malformed
      else if length (cp_policies c) > unat (max_policies_per_candidate l) then ResourceLimit
      else if validate_nodes l [] (cp_nodes c) \<noteq> Ok then validate_nodes l [] (cp_nodes c)
      else if validate_links l (cp_nodes c) (cp_links c) \<noteq> Ok then validate_links l (cp_nodes c) (cp_links c)
      else if validate_latency c \<noteq> Ok then validate_latency c
      else if cp_has_planner_cost c \<and> cp_cost_model c = PM_None then Malformed
      else if \<not> cp_has_planner_cost c \<and> cp_cost_model c \<noteq> PM_None then Malformed
      else if \<not> sorted_unique (cp_policies c) then Malformed
      else Ok)"

text \<open>A loop that canonicalises every element and stops at the first failure.\<close>

fun traverse :: "('a \<Rightarrow> 'b result) \<Rightarrow> 'a list \<Rightarrow> 'b list result" where
  "traverse f [] = Inr []"
| "traverse f (x # xs) = (case f x of Inl e \<Rightarrow> Inl e
     | Inr y \<Rightarrow> (case traverse f xs of Inl e \<Rightarrow> Inl e | Inr ys \<Rightarrow> Inr (y # ys)))"

definition canonicalize_candidate :: "candidate_path \<Rightarrow> limits \<Rightarrow> candidate_path result" where
  "canonicalize_candidate c l =
     (if \<not> is_valid (cp_path c) \<or> \<not> is_valid (cp_authority_generation c) then Inl InvalidArgument
      else if length (cp_nodes c) < 2 \<or> length (cp_nodes c) > unat (max_nodes_per_candidate l) then Inl ResourceLimit
      else if length (cp_links c) + 1 \<noteq> length (cp_nodes c) \<or>
              length (cp_links c) > unat (max_links_per_candidate l) then Inl Malformed
      else case traverse (canonicalize_node l) (cp_nodes c) of
          Inl e \<Rightarrow> Inl e
        | Inr nodes \<Rightarrow> (case traverse (canonicalize_link l) (cp_links c) of
          Inl e \<Rightarrow> Inl e
        | Inr links \<Rightarrow> (case canonicalize_refs pa_policy (cp_policies c) of
          Inl e \<Rightarrow> Inl e
        | Inr policies \<Rightarrow>
            let out = c\<lparr> cp_hop_count := word_of_nat (length (cp_links c)),
                         cp_nodes := nodes, cp_links := links, cp_policies := policies \<rparr>
            in if validate_candidate out l \<noteq> Ok then Inl (validate_candidate out l) else Inr out)))"

subsection \<open>Derived figures and orders\<close>

fun bandwidth_loop :: "generation \<Rightarrow> i64 option \<Rightarrow> link_fact list \<Rightarrow> i64 option" where
  "bandwidth_loop required bottleneck [] = bottleneck"
| "bandwidth_loop required bottleneck (link # links) =
     (if bw_model (lf_bandwidth link) = CM_None \<or> bw_generation (lf_bandwidth link) \<noteq> required then None
      else if sint (bw_bits_per_second (lf_bandwidth link)) < 0 then None
      else bandwidth_loop required
        (case bottleneck of
           None \<Rightarrow> Some (bw_bits_per_second (lf_bandwidth link))
         | Some b \<Rightarrow> (if sint (bw_bits_per_second (lf_bandwidth link)) < sint b
                      then Some (bw_bits_per_second (lf_bandwidth link)) else Some b)) links)"

definition path_bandwidth_capability :: "candidate_path \<Rightarrow> generation \<Rightarrow> i64 option" where
  "path_bandwidth_capability c required =
     (if cp_links c = [] \<or> \<not> is_valid required then None
      else bandwidth_loop required None (cp_links c))"

definition candidate_canonical_less :: "candidate_path \<Rightarrow> candidate_path \<Rightarrow> bool" where
  "candidate_canonical_less a b \<longleftrightarrow> cp_path a < cp_path b"

definition compare_node_sequences :: "candidate_path \<Rightarrow> candidate_path \<Rightarrow> int" where
  "compare_node_sequences a b = compare_lists (map nf_node (cp_nodes a)) (map nf_node (cp_nodes b))"

subsection \<open>Digest\<close>

definition feed_locality :: "locality_ref \<Rightarrow> byte list list" where
  "feed_locality ref = [hash_u8 (domain_kind_value (lr_kind ref)), hash_u64 (lr_domain ref)]"

definition feed_domain :: "failure_domain_ref \<Rightarrow> byte list list" where
  "feed_domain ref = [hash_u8 (domain_kind_value (fr_kind ref)), hash_u64 (fr_domain ref)]"

definition feed_capability :: "capability_ref \<Rightarrow> byte list list" where
  "feed_capability ref = [hash_u64 (cr_capability ref), hash_u64 (cr_generation ref)]"

definition feed_isolation :: "isolation_attestation \<Rightarrow> byte list list" where
  "feed_isolation ref = [hash_u64 (ia_class ref), hash_u64 (ia_generation ref)]"

definition feed_counted :: "('a \<Rightarrow> byte list list) \<Rightarrow> 'a list \<Rightarrow> byte list list" where
  "feed_counted f xs = hash_u32 (word_of_nat (length xs)) # concat (map f xs)"

definition feed_evidence :: "evidence_generation_set \<Rightarrow> byte list list" where
  "feed_evidence e =
     [hash_u64 (eg_topology e), hash_u64 (eg_link_state e), hash_u64 (eg_capability e),
      hash_u64 (eg_failure_domain e), hash_u64 (eg_policy e), hash_u64 (eg_planner e),
      hash_u64 (eg_path_authority e), hash_u32 (eg_consulted e)]"

definition feed_node :: "node_fact \<Rightarrow> byte list list" where
  "feed_node node =
     [hash_u64 (nf_node node), hash_u64 (nf_tier node), hash_u64 (nf_site node)] @
     feed_counted feed_locality (nf_localities node) @ feed_counted feed_domain (nf_domains node) @
     feed_counted feed_capability (nf_capabilities node) @ feed_counted feed_isolation (nf_isolation node)"

definition feed_link :: "link_fact \<Rightarrow> byte list list" where
  "feed_link link =
     [hash_u64 (lf_link link), hash_u64 (lf_endpoint0 link), hash_u64 (lf_endpoint1 link),
      hash_u8 (capability_model_value (bw_model (lf_bandwidth link))),
      hash_u8 (evidence_provenance_value (bw_provenance (lf_bandwidth link))),
      hash_i64 (bw_bits_per_second (lf_bandwidth link)), hash_u64 (bw_generation (lf_bandwidth link))] @
     feed_counted feed_domain (lf_domains link) @ feed_counted feed_capability (lf_capabilities link) @
     feed_counted feed_isolation (lf_isolation link)"

definition candidate_digest :: "candidate_path \<Rightarrow> digest256" where
  "candidate_digest c = digest_of ''crf.candidate.v1''
     ([hash_u64 (cp_path c), hash_u64 (cp_authority_generation c),
       hash_u8 (path_authority_verdict_value (cp_authority_verdict c)),
       hash_u64 (cp_planner_generation c), hash_bool (cp_has_planner_rank c),
       hash_u32 (cp_planner_rank c), hash_bool (cp_has_planner_cost c), hash_i64 (cp_planner_cost c),
       hash_u8 (planner_cost_model_value (cp_cost_model c)), hash_u32 (cp_hop_count c)] @
      feed_counted feed_node (cp_nodes c) @ feed_counted feed_link (cp_links c) @
      [hash_u8 (latency_source_value (le_source (cp_latency c))),
       hash_u8 (evidence_provenance_value (le_provenance (cp_latency c))),
       hash_i64 (le_micros (cp_latency c)), hash_u64 (le_planner_generation (cp_latency c)),
       hash_u64 (le_observed_generation (cp_latency c))] @
      feed_counted (\<lambda>ref. [hash_u64 (pa_policy ref), hash_u64 (pa_generation ref)]) (cp_policies c) @
      feed_evidence (cp_evidence c))"

subsection \<open>Wire encoding\<close>

definition write_locality :: "locality_ref \<Rightarrow> byte list" where
  "write_locality ref = put_u8 (domain_kind_value (lr_kind ref)) @ put_u8 0 @ put_u16 0 @ put_u32 0 @
     put_u64 (lr_domain ref)"

text \<open>\<open>return domain != 0\<close> fails without marking the reader; every caller gives up.\<close>

definition rd_require :: "bool \<Rightarrow> 'a parser \<Rightarrow> 'a parser" where
  "rd_require c p r = (if c then p r else (None, r))"

definition read_locality :: "locality_ref parser" where
  "read_locality = rd_bind rd_u8 (\<lambda>kind. rd_bind rd_u8 (\<lambda>padding. rd_bind rd_u16 (\<lambda>padding16.
     rd_bind rd_u32 (\<lambda>padding32. rd_bind rd_u64 (\<lambda>domain.
     rd_guard (\<not> (padding \<noteq> 0 \<or> padding16 \<noteq> 0 \<or> padding32 \<noteq> 0 \<or> kind = 0 \<or> kind > 7))
       (rd_require (domain \<noteq> 0) (rd_return (LocalityRef (domain_kind_of kind) domain))))))))"

definition write_domain :: "failure_domain_ref \<Rightarrow> byte list" where
  "write_domain ref = put_u8 (domain_kind_value (fr_kind ref)) @ put_u8 0 @ put_u16 0 @ put_u32 0 @
     put_u64 (fr_domain ref)"

definition read_domain :: "failure_domain_ref parser" where
  "read_domain = rd_bind rd_u8 (\<lambda>kind. rd_bind rd_u8 (\<lambda>padding. rd_bind rd_u16 (\<lambda>padding16.
     rd_bind rd_u32 (\<lambda>padding32. rd_bind rd_u64 (\<lambda>domain.
     rd_guard (\<not> (padding \<noteq> 0 \<or> padding16 \<noteq> 0 \<or> padding32 \<noteq> 0 \<or> kind = 0 \<or> kind > 7))
       (rd_require (domain \<noteq> 0) (rd_return (FailureDomainRef (domain_kind_of kind) domain))))))))"

definition write_capability :: "capability_ref \<Rightarrow> byte list" where
  "write_capability ref = put_u64 (cr_capability ref) @ put_u64 (cr_generation ref)"

definition read_capability :: "capability_ref parser" where
  "read_capability = rd_bind rd_u64 (\<lambda>capability. rd_bind rd_u64 (\<lambda>generation.
     rd_guard (\<not> (capability = 0 \<or> \<not> is_representable generation))
       (rd_return (CapabilityRef capability generation))))"

definition write_isolation :: "isolation_attestation \<Rightarrow> byte list" where
  "write_isolation ref = put_u64 (ia_class ref) @ put_u64 (ia_generation ref)"

definition read_isolation :: "isolation_attestation parser" where
  "read_isolation = rd_bind rd_u64 (\<lambda>isolation_class. rd_bind rd_u64 (\<lambda>generation.
     rd_guard (\<not> (isolation_class = 0 \<or> \<not> is_representable generation))
       (rd_return (IsolationAttestation isolation_class generation))))"

definition write_policy :: "policy_attestation \<Rightarrow> byte list" where
  "write_policy ref = put_u64 (pa_policy ref) @ put_u64 (pa_generation ref)"

definition read_policy :: "policy_attestation parser" where
  "read_policy = rd_bind rd_u64 (\<lambda>policy. rd_bind rd_u64 (\<lambda>generation.
     rd_guard (\<not> (policy = 0 \<or> \<not> is_representable generation))
       (rd_return (PolicyAttestation policy generation))))"

definition read_generation_field :: "generation parser" where
  "read_generation_field = rd_bind rd_u64 (\<lambda>raw.
     if raw = 0 then rd_return 0 else rd_guard (is_representable raw) (rd_return raw))"

definition write_counted :: "('a \<Rightarrow> byte list) \<Rightarrow> 'a list \<Rightarrow> byte list" where
  "write_counted w xs = put_u32 (word_of_nat (length xs)) @ concat (map w xs)"

definition read_counted :: "u32 \<Rightarrow> 'a parser \<Rightarrow> 'a list parser" where
  "read_counted m p = rd_bind (rd_bounded_length m) (\<lambda>count. rd_repeat (unat count) p)"

definition write_node :: "node_fact \<Rightarrow> byte list" where
  "write_node node =
     put_u64 (nf_node node) @ put_u64 (nf_tier node) @ put_u64 (nf_site node) @
     write_counted write_locality (nf_localities node) @ write_counted write_domain (nf_domains node) @
     write_counted write_capability (nf_capabilities node) @ write_counted write_isolation (nf_isolation node)"

definition read_node :: "limits \<Rightarrow> node_fact parser" where
  "read_node l = rd_bind rd_u64 (\<lambda>node_id. rd_bind rd_u64 (\<lambda>tier. rd_bind rd_u64 (\<lambda>site.
     rd_guard (\<not> node_id = 0)
     (rd_bind (read_counted (max_localities_per_entity l) read_locality) (\<lambda>localities.
      rd_bind (read_counted (max_domains_per_entity l) read_domain) (\<lambda>domains.
      rd_bind (read_counted (max_capabilities_per_entity l) read_capability) (\<lambda>capabilities.
      rd_bind (read_counted (max_capabilities_per_entity l) read_isolation) (\<lambda>isolation.
      rd_return \<lparr> nf_node = node_id, nf_tier = tier, nf_site = site, nf_localities = localities,
        nf_domains = domains, nf_capabilities = capabilities, nf_isolation = isolation \<rparr>))))))))"

definition write_link :: "link_fact \<Rightarrow> byte list" where
  "write_link link =
     put_u64 (lf_link link) @ put_u64 (lf_endpoint0 link) @ put_u64 (lf_endpoint1 link) @
     put_u8 (capability_model_value (bw_model (lf_bandwidth link))) @
     put_u8 (evidence_provenance_value (bw_provenance (lf_bandwidth link))) @ put_u16 0 @ put_u32 0 @
     put_i64 (bw_bits_per_second (lf_bandwidth link)) @ put_u64 (bw_generation (lf_bandwidth link)) @
     put_u64 (bw_observed_tick (lf_bandwidth link)) @
     write_counted write_domain (lf_domains link) @ write_counted write_capability (lf_capabilities link) @
     write_counted write_isolation (lf_isolation link)"

definition read_link :: "limits \<Rightarrow> link_fact parser" where
  "read_link l = rd_bind rd_u64 (\<lambda>link_id. rd_bind rd_u64 (\<lambda>endpoint_a. rd_bind rd_u64 (\<lambda>endpoint_b.
     rd_bind rd_u8 (\<lambda>model. rd_bind rd_u8 (\<lambda>provenance. rd_bind rd_u16 (\<lambda>padding16.
     rd_bind rd_u32 (\<lambda>padding32.
     rd_guard (\<not> (link_id = 0 \<or> endpoint_a = 0 \<or> endpoint_b = 0 \<or> model > 2 \<or> provenance > 8 \<or>
        padding16 \<noteq> 0 \<or> padding32 \<noteq> 0))
     (rd_bind rd_i64 (\<lambda>bits. rd_bind read_generation_field (\<lambda>generation. rd_bind rd_u64 (\<lambda>tick.
      rd_bind (read_counted (max_domains_per_entity l) read_domain) (\<lambda>domains.
      rd_bind (read_counted (max_capabilities_per_entity l) read_capability) (\<lambda>capabilities.
      rd_bind (read_counted (max_capabilities_per_entity l) read_isolation) (\<lambda>isolation.
      rd_return \<lparr> lf_link = link_id, lf_endpoint0 = endpoint_a, lf_endpoint1 = endpoint_b,
        lf_bandwidth = \<lparr> bw_model = capability_model_of model,
          bw_provenance = evidence_provenance_of provenance, bw_bits_per_second = bits,
          bw_generation = generation, bw_observed_tick = tick \<rparr>,
        lf_domains = domains, lf_capabilities = capabilities, lf_isolation = isolation \<rparr>))))))))))))))"

definition write_latency :: "latency_evidence \<Rightarrow> byte list" where
  "write_latency lat =
     put_u8 (latency_source_value (le_source lat)) @ put_u8 (evidence_provenance_value (le_provenance lat)) @
     put_u16 0 @ put_u32 0 @ put_i64 (le_micros lat) @ put_u64 (le_planner_generation lat) @
     put_u64 (le_observed_generation lat) @ put_u64 (le_observed_tick lat)"

definition read_latency :: "latency_evidence parser" where
  "read_latency = rd_bind rd_u8 (\<lambda>source. rd_bind rd_u8 (\<lambda>provenance. rd_bind rd_u16 (\<lambda>padding16.
     rd_bind rd_u32 (\<lambda>padding32.
     rd_guard (\<not> (source > 2 \<or> provenance > 8 \<or> padding16 \<noteq> 0 \<or> padding32 \<noteq> 0))
     (rd_bind rd_i64 (\<lambda>micros. rd_bind read_generation_field (\<lambda>planner.
      rd_bind read_generation_field (\<lambda>observed. rd_bind rd_u64 (\<lambda>tick.
      rd_return \<lparr> le_source = latency_source_of source, le_provenance = evidence_provenance_of provenance,
        le_micros = micros, le_planner_generation = planner, le_observed_generation = observed,
        le_observed_tick = tick \<rparr>)))))))))"

definition write_evidence_set :: "evidence_generation_set \<Rightarrow> byte list" where
  "write_evidence_set e =
     put_u64 (eg_topology e) @ put_u64 (eg_link_state e) @ put_u64 (eg_capability e) @
     put_u64 (eg_failure_domain e) @ put_u64 (eg_policy e) @ put_u64 (eg_planner e) @
     put_u64 (eg_path_authority e) @ put_u32 (eg_consulted e) @ put_u64 (eg_captured_tick e)"

definition read_evidence_set :: "evidence_generation_set parser" where
  "read_evidence_set = rd_bind read_generation_field (\<lambda>topology. rd_bind read_generation_field (\<lambda>link_state.
     rd_bind read_generation_field (\<lambda>capability. rd_bind read_generation_field (\<lambda>failure_domain.
     rd_bind read_generation_field (\<lambda>policy. rd_bind read_generation_field (\<lambda>planner.
     rd_bind read_generation_field (\<lambda>path_authority. rd_bind rd_u32 (\<lambda>consulted. rd_bind rd_u64 (\<lambda>tick.
     rd_return \<lparr> eg_topology = topology, eg_link_state = link_state, eg_capability = capability,
       eg_failure_domain = failure_domain, eg_policy = policy, eg_planner = planner,
       eg_path_authority = path_authority, eg_consulted = consulted, eg_captured_tick = tick \<rparr>)))))))))"

definition encode_candidate :: "candidate_path \<Rightarrow> byte list" where
  "encode_candidate c =
     put_u64 (cp_path c) @ put_u64 (cp_authority_generation c) @
     put_u8 (path_authority_verdict_value (cp_authority_verdict c)) @ put_u8 0 @ put_u16 0 @ put_u32 0 @
     put_u64 (cp_planner_generation c) @ put_bool (cp_has_planner_rank c) @ put_u32 (cp_planner_rank c) @
     put_bool (cp_has_planner_cost c) @ put_i64 (cp_planner_cost c) @
     put_u8 (planner_cost_model_value (cp_cost_model c)) @ put_u8 0 @ put_u16 0 @ put_u32 (cp_hop_count c) @
     write_counted write_node (cp_nodes c) @ write_counted write_link (cp_links c) @
     write_latency (cp_latency c) @ write_counted write_policy (cp_policies c) @
     write_evidence_set (cp_evidence c)"

definition decode_candidate :: "limits \<Rightarrow> candidate_path parser" where
  "decode_candidate l =
     rd_bind rd_u64 (\<lambda>path. rd_bind rd_u64 (\<lambda>authority_generation. rd_bind rd_u8 (\<lambda>verdict.
     rd_bind rd_u8 (\<lambda>padding8. rd_bind rd_u16 (\<lambda>padding16. rd_bind rd_u32 (\<lambda>padding32.
     rd_guard (\<not> (path = 0 \<or> \<not> is_representable authority_generation \<or> verdict > 2 \<or>
        padding8 \<noteq> 0 \<or> padding16 \<noteq> 0 \<or> padding32 \<noteq> 0))
     (rd_bind read_generation_field (\<lambda>planner_generation. rd_bind rd_boolean (\<lambda>has_rank.
      rd_bind rd_u32 (\<lambda>rank. rd_bind rd_boolean (\<lambda>has_cost. rd_bind rd_i64 (\<lambda>cost.
      rd_bind rd_u8 (\<lambda>cost_model. rd_bind rd_u8 (\<lambda>cost_padding8. rd_bind rd_u16 (\<lambda>cost_padding16.
      rd_bind rd_u32 (\<lambda>hop_count.
      rd_guard (\<not> (cost_model > 3 \<or> cost_padding8 \<noteq> 0 \<or> cost_padding16 \<noteq> 0))
      (rd_bind (read_counted (max_nodes_per_candidate l) (read_node l)) (\<lambda>nodes.
       rd_bind (read_counted (max_links_per_candidate l) (read_link l)) (\<lambda>links.
       rd_bind read_latency (\<lambda>latency.
       rd_bind (read_counted (max_policies_per_candidate l) read_policy) (\<lambda>policies.
       rd_bind read_evidence_set (\<lambda>evidence.
       let out = \<lparr> cp_path = path, cp_authority_generation = authority_generation,
             cp_authority_verdict = path_authority_verdict_of verdict,
             cp_planner_generation = planner_generation, cp_has_planner_rank = has_rank,
             cp_planner_rank = rank, cp_has_planner_cost = has_cost, cp_planner_cost = cost,
             cp_cost_model = planner_cost_model_of cost_model, cp_hop_count = hop_count,
             cp_nodes = nodes, cp_links = links, cp_latency = latency, cp_policies = policies,
             cp_evidence = evidence \<rparr>
       in rd_guard (validate_candidate out l = Ok) (rd_return out)))))))))))))))))))))))"

subsection \<open>Canonical references\<close>

definition key_changes :: "('r \<Rightarrow> 'k) \<Rightarrow> 'r list \<Rightarrow> bool" where
  "key_changes key xs \<longleftrightarrow> adjacent (\<lambda>a b. key a \<noteq> key b) xs"

lemma adjacent_snoc:
  "adjacent P (xs @ [y]) \<longleftrightarrow> adjacent P xs \<and> (xs \<noteq> [] \<longrightarrow> P (last xs) y)"
  by (induction P xs rule: adjacent.induct) auto

lemma adjacent_append_Cons:
  "adjacent P (xs @ y # ys) \<longleftrightarrow> adjacent P (xs @ [y]) \<and> adjacent P (y # ys)"
  by (induction P xs rule: adjacent.induct) auto

lemma canonicalize_refs_loop_Inr:
  assumes "canonicalize_refs_loop key acc vs = Inr out" "key_changes key acc"
  shows "key_changes key out \<and> set out = set acc \<union> set vs \<and> length out \<le> length acc + length vs"
  using assms
proof (induction key acc vs rule: canonicalize_refs_loop.induct)
  case (2 key acc v vs)
  show ?case
  proof (cases "acc \<noteq> [] \<and> last acc = v")
    case True
    then have "v \<in> set acc" by auto
    then show ?thesis using 2 True by auto
  next
    case False
    then have "key_changes key (acc @ [v])" and nk: "\<not> (acc \<noteq> [] \<and> key (last acc) = key v)"
      using 2 by (auto simp: key_changes_def adjacent_snoc split: if_splits)
    then show ?thesis using 2 False by auto
  qed
qed simp

lemma strict_sorted_le_last:
  "sorted_wrt (<) xs \<Longrightarrow> x \<in> set xs \<Longrightarrow> x \<le> (last xs :: 'r::linorder)"
  by (induction xs) (auto intro: less_imp_le)

lemma canonicalize_refs_loop_sorted:
  "canonicalize_refs_loop key acc vs = Inr out \<Longrightarrow> sorted (acc @ vs) \<Longrightarrow> sorted_wrt (<) acc \<Longrightarrow>
   sorted_wrt (<) (out :: 'r::linorder list)"
proof (induction vs arbitrary: acc)
  case (Cons v vs)
  show ?case
  proof (cases "acc \<noteq> [] \<and> last acc = v")
    case True
    then show ?thesis using Cons.IH [of acc] Cons.prems by (simp add: sorted_append)
  next
    case False
    then have loop: "canonicalize_refs_loop key (acc @ [v]) vs = Inr out"
      using Cons.prems(1) by (auto split: if_splits)
    have "x < v" if x: "x \<in> set acc" for x
    proof -
      have ne: "acc \<noteq> []" using x by auto
      have "x \<le> last acc" using Cons.prems(3) x by (rule strict_sorted_le_last)
      also have "last acc < v"
        using ne False Cons.prems(2) last_in_set [OF ne] by (auto simp: sorted_append order_less_le)
      finally show ?thesis .
    qed
    then have "sorted_wrt (<) (acc @ [v])" using Cons.prems(3) by (simp add: sorted_wrt_append)
    then show ?thesis using Cons.IH [OF loop] Cons.prems(2) by simp
  qed
qed simp

lemma canonicalize_refs_loop_id:
  "key_changes key (acc @ vs) \<Longrightarrow> canonicalize_refs_loop key acc vs = Inr (acc @ vs)"
proof (induction vs arbitrary: acc)
  case (Cons v vs)
  have "acc \<noteq> [] \<Longrightarrow> key (last acc) \<noteq> key v"
    using Cons.prems adjacent_append_Cons [of _ acc v vs] by (auto simp: key_changes_def adjacent_snoc)
  then show ?case using Cons.IH [of "acc @ [v]"] Cons.prems by auto
qed simp

lemma canonicalize_refs_Inr:
  assumes "canonicalize_refs key xs = Inr out"
  shows "sorted_wrt (<) out" "set out = set xs" "length out \<le> length xs"
    "canonicalize_refs key out = Inr out"
proof -
  have loop: "canonicalize_refs_loop key [] (sort xs) = Inr out"
    using assms by (simp add: canonicalize_refs_def)
  note l = canonicalize_refs_loop_Inr [OF loop]
  show s: "sorted_wrt (<) out"
    using canonicalize_refs_loop_sorted [OF loop] by simp
  show "set out = set xs" "length out \<le> length xs"
    using l by (auto simp: key_changes_def)
  have "sort out = out"
    using s by (simp add: strict_sorted_iff sorted_sort_id)
  then show "canonicalize_refs key out = Inr out"
    using l canonicalize_refs_loop_id [of key "[]" out] by (simp add: canonicalize_refs_def key_changes_def)
qed

lemma canonicalize_refs_mset:
  "mset xs = mset ys \<Longrightarrow> canonicalize_refs key xs = canonicalize_refs key ys"
  unfolding canonicalize_refs_def by (metis properties_for_sort sorted_sort mset_sort)

lemma canonicalize_node_idem:
  assumes "canonicalize_node l n = Inr m"
  shows "canonicalize_node l m = Inr m" and "nf_node m = nf_node n"
  using assms canonicalize_refs_Inr [of cr_capability "nf_capabilities n"]
    length_sort_unique_le [of "nf_localities n"] length_sort_unique_le [of "nf_domains n"]
  by (auto simp: canonicalize_node_def split: if_splits sum.splits)

lemma canonicalize_link_idem:
  assumes "canonicalize_link l n = Inr m"
  shows "canonicalize_link l m = Inr m" and "lf_link m = lf_link n"
  using assms canonicalize_refs_Inr [of cr_capability "lf_capabilities n"]
    length_sort_unique_le [of "lf_domains n"]
  by (auto simp: canonicalize_link_def split: if_splits sum.splits)

lemma traverse_Inr:
  "traverse f xs = Inr ys \<longleftrightarrow> list_all2 (\<lambda>x y. f x = Inr y) xs ys"
  by (induction f xs arbitrary: ys rule: traverse.induct)
     (auto simp: list_all2_Cons1 split: sum.splits)

lemma traverse_total: "(\<And>x. x \<in> set xs \<Longrightarrow> \<exists>y. f x = Inr y) \<Longrightarrow> \<exists>ys. traverse f xs = Inr ys"
proof (induction xs)
  case (Cons x xs)
  then obtain y ys where "f x = Inr y" "traverse f xs = Inr ys" by force
  then show ?case by simp
qed simp

lemma traverse_idem:
  assumes "traverse f xs = Inr ys" "\<And>x y. f x = Inr y \<Longrightarrow> f y = Inr y"
  shows "traverse f ys = Inr ys"
  using assms by (auto simp: traverse_Inr list_all2_conv_all_nth)

lemma traverse_map:
  assumes "traverse f xs = Inr ys" "\<And>x y. f x = Inr y \<Longrightarrow> g y = h x"
  shows "map g ys = map h xs"
proof -
  have "list_all2 (\<lambda>x y. f x = Inr y) xs ys" using assms(1) by (simp add: traverse_Inr)
  then show ?thesis by (induction rule: list_all2_induct) (simp_all add: assms(2))
qed

lemma canonicalize_candidate_Inr:
  assumes "canonicalize_candidate c l = Inr out"
  shows "validate_candidate out l = Ok"
    and "canonicalize_candidate out l = Inr out"
    and "map nf_node (cp_nodes out) = map nf_node (cp_nodes c)"
    and "map lf_link (cp_links out) = map lf_link (cp_links c)"
proof -
  obtain nodes links policies where
    n: "traverse (canonicalize_node l) (cp_nodes c) = Inr nodes" and
    k: "traverse (canonicalize_link l) (cp_links c) = Inr links" and
    p: "canonicalize_refs pa_policy (cp_policies c) = Inr policies" and
    out: "out = c\<lparr> cp_hop_count := word_of_nat (length (cp_links c)), cp_nodes := nodes,
                  cp_links := links, cp_policies := policies \<rparr>" and
    v: "validate_candidate out l = Ok" and
    g: "is_valid (cp_path c)" "is_valid (cp_authority_generation c)" "\<not> length (cp_nodes c) < 2"
       "length (cp_nodes c) \<le> unat (max_nodes_per_candidate l)" "length (cp_links c) + 1 = length (cp_nodes c)"
       "length (cp_links c) \<le> unat (max_links_per_candidate l)"
    using assms by (auto simp: canonicalize_candidate_def Let_def not_less split: if_splits sum.splits)
  show "validate_candidate out l = Ok" by (rule v)
  have len: "length nodes = length (cp_nodes c)" "length links = length (cp_links c)"
    using n k by (auto simp: traverse_Inr list_all2_lengthD)
  show "map nf_node (cp_nodes out) = map nf_node (cp_nodes c)"
    using traverse_map [OF n canonicalize_node_idem(2)] by (simp add: out)
  show "map lf_link (cp_links out) = map lf_link (cp_links c)"
    using traverse_map [OF k canonicalize_link_idem(2)] by (simp add: out)
  have "traverse (canonicalize_node l) nodes = Inr nodes"
    by (rule traverse_idem [OF n]) (rule canonicalize_node_idem)
  moreover have "traverse (canonicalize_link l) links = Inr links"
    by (rule traverse_idem [OF k]) (rule canonicalize_link_idem)
  moreover have "canonicalize_refs pa_policy policies = Inr policies"
    by (rule canonicalize_refs_Inr [OF p])
  ultimately show "canonicalize_candidate out l = Inr out"
    using g v len by (simp add: canonicalize_candidate_def out Let_def)
qed

subsection \<open>The bottleneck is the smallest link capability\<close>

definition link_capable :: "generation \<Rightarrow> link_fact \<Rightarrow> bool" where
  "link_capable required link \<longleftrightarrow> bw_model (lf_bandwidth link) \<noteq> CM_None \<and>
     bw_generation (lf_bandwidth link) = required \<and> 0 \<le> sint (bw_bits_per_second (lf_bandwidth link))"

abbreviation link_bits :: "link_fact \<Rightarrow> int" where
  "link_bits link \<equiv> sint (bw_bits_per_second (lf_bandwidth link))"

lemma bandwidth_loop_step:
  "bandwidth_loop required (Some b) (link # links) =
     (if link_capable required link
      then bandwidth_loop required
        (Some (if link_bits link < sint b then bw_bits_per_second (lf_bandwidth link) else b)) links
      else None)"
  by (auto simp: link_capable_def not_less)

lemma Min_insert_min:
  "finite S \<Longrightarrow> Min (insert (min x y) S) = Min (insert y (insert x (S :: int set)))"
  by (cases "S = {}") (simp_all add: min.assoc min.left_commute min.commute)

lemma bandwidth_loop_Some:
  "bandwidth_loop required (Some b) links = Some r \<longleftrightarrow>
     list_all (link_capable required) links \<and> sint r = Min (insert (sint b) (link_bits ` set links))"
proof (induction links arbitrary: b)
  case Nil
  then show ?case by auto
next
  case (Cons link links)
  let ?b = "if link_bits link < sint b then bw_bits_per_second (lf_bandwidth link) else b"
  have "sint ?b = min (link_bits link) (sint b)" by simp
  then have "Min (insert (sint ?b) (link_bits ` set links)) =
      Min (insert (sint b) (link_bits ` set (link # links)))"
    using Min_insert_min [of "link_bits ` set links" "link_bits link" "sint b"] by simp
  then show ?case
    unfolding bandwidth_loop_step using Cons.IH [of ?b] by simp
qed

lemma path_bandwidth_capability_Some:
  "path_bandwidth_capability c required = Some r \<longleftrightarrow>
     cp_links c \<noteq> [] \<and> required \<noteq> 0 \<and> list_all (link_capable required) (cp_links c) \<and>
     sint r = Min (link_bits ` set (cp_links c))"
proof (cases "cp_links c")
  case (Cons link links)
  then show ?thesis
    using bandwidth_loop_Some [of required "bw_bits_per_second (lf_bandwidth link)" links r]
    by (auto simp: path_bandwidth_capability_def is_valid_def link_capable_def not_less)
qed (simp add: path_bandwidth_capability_def)

subsection \<open>Orders\<close>

interpretation path_order: keyed_order candidate_canonical_less cp_path
  by unfold_locales (simp add: candidate_canonical_less_def)

lemma compare_node_sequences_cmp [cmp_key]:
  "compare_node_sequences a b = cmp_of (map nf_node (cp_nodes a)) (map nf_node (cp_nodes b))"
  by (simp add: compare_node_sequences_def compare_lists_cmp)

subsection \<open>Decoding inverts encoding\<close>

lemma parses_require [codec_rt]: "c \<Longrightarrow> parses p bs x \<Longrightarrow> parses (rd_require c p) bs x"
  by (simp add: parses_def rd_require_def)

lemma regular_require [intro]: "regular p \<Longrightarrow> regular (rd_require c p)"
proof (cases c)
  case True
  then have "rd_require c p = p" by (intro ext) (simp add: rd_require_def)
  moreover assume "regular p"
  ultimately show ?thesis by simp
qed (simp add: regular_def rd_require_def)

lemma parses_counted [codec_rt]:
  assumes "length xs \<le> unat m" "\<And>x. x \<in> set xs \<Longrightarrow> parses p (w x) x"
  shows "parses (read_counted m p) (write_counted w xs) xs"
proof -
  have "\<not> m < (word_of_nat (length xs) :: u32)"
    using assms(1) u32_of_nat_le by (simp add: not_less)
  moreover have "parses (rd_repeat (length xs) p) (concat (map w xs)) xs"
    using assms(2) by (rule parses_repeat)
  ultimately show ?thesis
    unfolding read_counted_def write_counted_def
    using unat_u32_of_nat [OF unat_u32_less [OF assms(1)]]
    by (intro parses_bind [OF parses_bounded_length]) simp_all
qed

definition gen_ok :: "generation \<Rightarrow> bool" where
  "gen_ok g \<longleftrightarrow> g = 0 \<or> is_representable g"

lemma parses_generation_field [codec_rt]: "gen_ok g \<Longrightarrow> parses read_generation_field (put_u64 g) g"
  unfolding read_generation_field_def gen_ok_def
  by (rule parses_bind_Nil [OF parses_u64]) (auto intro: parses_guard)

lemma domain_kind_value_zero [simp]: "domain_kind_value k = 0 \<longleftrightarrow> k = DK_Unset"
  by (cases k) simp_all

lemma parses_locality [codec_rt]:
  "lr_kind r \<noteq> DK_Unset \<Longrightarrow> lr_domain r \<noteq> 0 \<Longrightarrow> parses read_locality (write_locality r) r"
  unfolding read_locality_def write_locality_def
  by (rule codec_steps parses_require | simp; fail)+

lemma parses_domain [codec_rt]:
  "fr_kind r \<noteq> DK_Unset \<Longrightarrow> fr_domain r \<noteq> 0 \<Longrightarrow> parses read_domain (write_domain r) r"
  unfolding read_domain_def write_domain_def
  by (rule codec_steps parses_require | simp; fail)+

lemma parses_capability [codec_rt]:
  "cr_capability r \<noteq> 0 \<Longrightarrow> is_representable (cr_generation r) \<Longrightarrow> parses read_capability (write_capability r) r"
  unfolding read_capability_def write_capability_def by (rule codec_steps | simp; fail)+

lemma parses_isolation [codec_rt]:
  "ia_class r \<noteq> 0 \<Longrightarrow> is_representable (ia_generation r) \<Longrightarrow> parses read_isolation (write_isolation r) r"
  unfolding read_isolation_def write_isolation_def by (rule codec_steps | simp; fail)+

lemma parses_policy [codec_rt]:
  "pa_policy r \<noteq> 0 \<Longrightarrow> is_representable (pa_generation r) \<Longrightarrow> parses read_policy (write_policy r) r"
  unfolding read_policy_def write_policy_def by (rule codec_steps | simp; fail)+

definition caps_wire :: "limits \<Rightarrow> capability_ref list \<Rightarrow> isolation_attestation list \<Rightarrow> failure_domain_ref list \<Rightarrow> bool" where
  "caps_wire l caps isos doms \<longleftrightarrow>
     length caps \<le> unat (max_capabilities_per_entity l) \<and> length isos \<le> unat (max_capabilities_per_entity l) \<and>
     length doms \<le> unat (max_domains_per_entity l) \<and>
     list_all (\<lambda>r. cr_capability r \<noteq> 0 \<and> is_representable (cr_generation r)) caps \<and>
     list_all (\<lambda>r. ia_class r \<noteq> 0 \<and> is_representable (ia_generation r)) isos \<and>
     list_all (\<lambda>r. fr_kind r \<noteq> DK_Unset \<and> fr_domain r \<noteq> 0) doms"

definition node_wire :: "limits \<Rightarrow> node_fact \<Rightarrow> bool" where
  "node_wire l n \<longleftrightarrow> nf_node n \<noteq> 0 \<and> length (nf_localities n) \<le> unat (max_localities_per_entity l) \<and>
     list_all (\<lambda>r. lr_kind r \<noteq> DK_Unset \<and> lr_domain r \<noteq> 0) (nf_localities n) \<and>
     caps_wire l (nf_capabilities n) (nf_isolation n) (nf_domains n)"

definition link_wire :: "limits \<Rightarrow> link_fact \<Rightarrow> bool" where
  "link_wire l k \<longleftrightarrow> lf_link k \<noteq> 0 \<and> lf_endpoint0 k \<noteq> 0 \<and> lf_endpoint1 k \<noteq> 0 \<and>
     gen_ok (bw_generation (lf_bandwidth k)) \<and>
     caps_wire l (lf_capabilities k) (lf_isolation k) (lf_domains k)"

definition evidence_wire :: "evidence_generation_set \<Rightarrow> bool" where
  "evidence_wire e \<longleftrightarrow> gen_ok (eg_topology e) \<and> gen_ok (eg_link_state e) \<and> gen_ok (eg_capability e) \<and>
     gen_ok (eg_failure_domain e) \<and> gen_ok (eg_policy e) \<and> gen_ok (eg_planner e) \<and> gen_ok (eg_path_authority e)"

lemma caps_wireD:
  assumes "caps_wire l caps isos doms"
  shows "parses (read_counted (max_capabilities_per_entity l) read_capability) (write_counted write_capability caps) caps"
    and "parses (read_counted (max_capabilities_per_entity l) read_isolation) (write_counted write_isolation isos) isos"
    and "parses (read_counted (max_domains_per_entity l) read_domain) (write_counted write_domain doms) doms"
  using assms
  by (auto simp: caps_wire_def list_all_iff intro!: parses_counted parses_capability parses_isolation parses_domain)

lemma node_fact_eta [simp]:
  "\<lparr> nf_node = nf_node n, nf_tier = nf_tier n, nf_site = nf_site n, nf_localities = nf_localities n, nf_domains = nf_domains n, nf_capabilities = nf_capabilities n, nf_isolation = nf_isolation n \<rparr> = n"
  by simp

lemma parses_node [codec_rt]:
  assumes "node_wire l n"
  shows "parses (read_node l) (write_node n) n"
proof -
  have c: "caps_wire l (nf_capabilities n) (nf_isolation n) (nf_domains n)" and nz: "\<not> nf_node n = 0"
    and "parses (read_counted (max_localities_per_entity l) read_locality)
           (write_counted write_locality (nf_localities n)) (nf_localities n)"
    using assms by (auto simp: node_wire_def list_all_iff intro!: parses_counted parses_locality)
  note steps = codec_steps nz this(3) caps_wireD [OF c]
  show ?thesis unfolding read_node_def write_node_def by (rule steps | simp; fail)+
qed

lemma bandwidth_evidence_eta [simp]:
  "\<lparr> bw_model = bw_model b, bw_provenance = bw_provenance b, bw_bits_per_second = bw_bits_per_second b, bw_generation = bw_generation b, bw_observed_tick = bw_observed_tick b \<rparr> = b"
  by simp

lemma link_fact_eta [simp]:
  "\<lparr> lf_link = lf_link k, lf_endpoint0 = lf_endpoint0 k, lf_endpoint1 = lf_endpoint1 k, lf_bandwidth = lf_bandwidth k, lf_domains = lf_domains k, lf_capabilities = lf_capabilities k, lf_isolation = lf_isolation k \<rparr> = k"
  by simp

lemma parses_link [codec_rt]:
  assumes "link_wire l k"
  shows "parses (read_link l) (write_link k) k"
proof -
  have c: "caps_wire l (lf_capabilities k) (lf_isolation k) (lf_domains k)"
    and g: "parses read_generation_field (put_u64 (bw_generation (lf_bandwidth k))) (bw_generation (lf_bandwidth k))"
    and nz: "lf_link k \<noteq> 0" "lf_endpoint0 k \<noteq> 0" "lf_endpoint1 k \<noteq> 0"
    using assms by (auto simp: link_wire_def intro: parses_generation_field)
  note steps = codec_steps g caps_wireD [OF c]
  show ?thesis unfolding read_link_def write_link_def by (rule steps | simp add: nz; fail)+
qed

lemma latency_evidence_eta [simp]:
  "\<lparr> le_source = le_source lat, le_provenance = le_provenance lat, le_micros = le_micros lat, le_planner_generation = le_planner_generation lat, le_observed_generation = le_observed_generation lat, le_observed_tick = le_observed_tick lat \<rparr> = lat"
  by simp

lemma parses_latency [codec_rt]:
  assumes "gen_ok (le_planner_generation lat)" "gen_ok (le_observed_generation lat)"
  shows "parses read_latency (write_latency lat) lat"
  unfolding read_latency_def write_latency_def
  by (rule codec_steps parses_generation_field assms | simp; fail)+

lemma evidence_generation_set_eta [simp]:
  "\<lparr> eg_topology = eg_topology e, eg_link_state = eg_link_state e, eg_capability = eg_capability e, eg_failure_domain = eg_failure_domain e, eg_policy = eg_policy e, eg_planner = eg_planner e, eg_path_authority = eg_path_authority e, eg_consulted = eg_consulted e, eg_captured_tick = eg_captured_tick e \<rparr> = e"
  by simp

lemma parses_evidence_set [codec_rt]:
  assumes "evidence_wire e"
  shows "parses read_evidence_set (write_evidence_set e) e"
proof -
  note w = assms [unfolded evidence_wire_def]
  show ?thesis
    unfolding read_evidence_set_def write_evidence_set_def
    by (rule codec_steps | rule parses_generation_field, use w in \<open>simp; fail\<close> | simp; fail)+
qed

text \<open>What a candidate must satisfy to travel: beyond \<open>validate_candidate\<close>, the decoder asks for
  representable generations, non-zero reference identities, and a bound on the isolation lists.\<close>

definition wire_candidate :: "candidate_path \<Rightarrow> limits \<Rightarrow> bool" where
  "wire_candidate c l \<longleftrightarrow> validate_candidate c l = Ok \<and> is_representable (cp_authority_generation c) \<and>
     gen_ok (cp_planner_generation c) \<and> list_all (node_wire l) (cp_nodes c) \<and> list_all (link_wire l) (cp_links c) \<and>
     gen_ok (le_planner_generation (cp_latency c)) \<and> gen_ok (le_observed_generation (cp_latency c)) \<and>
     list_all (\<lambda>r. pa_policy r \<noteq> 0 \<and> is_representable (pa_generation r)) (cp_policies c) \<and>
     evidence_wire (cp_evidence c)"

lemma validate_candidate_bounds:
  assumes "validate_candidate c l = Ok"
  shows "cp_path c \<noteq> 0" "length (cp_nodes c) \<le> unat (max_nodes_per_candidate l)"
    "length (cp_links c) \<le> unat (max_links_per_candidate l)"
    "length (cp_policies c) \<le> unat (max_policies_per_candidate l)"
    "2 \<le> length (cp_nodes c)" "length (cp_links c) = length (cp_nodes c) - 1"
    "unat (cp_hop_count c) = length (cp_links c)"
    "validate_nodes l [] (cp_nodes c) = Ok" "validate_links l (cp_nodes c) (cp_links c) = Ok"
    "validate_latency c = Ok" "eg_path_authority (cp_evidence c) = cp_authority_generation c"
    "cp_authority_generation c \<noteq> 0"
  using assms unfolding validate_candidate_def
  by (simp_all add: gate_simps is_valid_def split: if_splits)

lemma candidate_path_eta [simp]:
  "\<lparr> cp_path = cp_path c, cp_authority_generation = cp_authority_generation c, cp_authority_verdict = cp_authority_verdict c, cp_planner_generation = cp_planner_generation c, cp_has_planner_rank = cp_has_planner_rank c, cp_planner_rank = cp_planner_rank c, cp_has_planner_cost = cp_has_planner_cost c, cp_planner_cost = cp_planner_cost c, cp_cost_model = cp_cost_model c, cp_hop_count = cp_hop_count c, cp_nodes = cp_nodes c, cp_links = cp_links c, cp_latency = cp_latency c, cp_policies = cp_policies c, cp_evidence = cp_evidence c \<rparr> = c"
  by simp

lemma parses_decode_candidate [codec_rt]:
  assumes "wire_candidate c l"
  shows "parses (decode_candidate l) (encode_candidate c) c"
proof -
  have v: "validate_candidate c l = Ok" using assms by (simp add: wire_candidate_def)
  note b = validate_candidate_bounds [OF v]
  have p: "parses (read_counted (max_nodes_per_candidate l) (read_node l)) (write_counted write_node (cp_nodes c)) (cp_nodes c)"
    "parses (read_counted (max_links_per_candidate l) (read_link l)) (write_counted write_link (cp_links c)) (cp_links c)"
    "parses (read_counted (max_policies_per_candidate l) read_policy) (write_counted write_policy (cp_policies c)) (cp_policies c)"
    "parses read_latency (write_latency (cp_latency c)) (cp_latency c)"
    "parses read_evidence_set (write_evidence_set (cp_evidence c)) (cp_evidence c)"
    "parses read_generation_field (put_u64 (cp_planner_generation c)) (cp_planner_generation c)"
    using assms b(2-4) unfolding wire_candidate_def list_all_iff
    by (auto intro!: parses_counted parses_node parses_link parses_policy parses_latency
        parses_evidence_set parses_generation_field)
  note steps = codec_steps p
  show ?thesis
    unfolding decode_candidate_def encode_candidate_def Let_def
    by (rule steps | use assms b(1) v in \<open>simp add: wire_candidate_def; fail\<close>)+
qed

lemma regular_decode_candidate [simp, intro]: "regular (decode_candidate l)"
  unfolding decode_candidate_def Let_def read_counted_def read_node_def read_link_def read_latency_def
    read_evidence_set_def read_generation_field_def read_locality_def read_domain_def
    read_capability_def read_isolation_def read_policy_def
  by (auto intro!: regular_bind regular_guard regular_require regular_repeat)

end
