(* ===== verification/Evaluation.thy ===== *)
theory Evaluation
  imports Candidate
begin

text \<open>
  Outcomes, reasons and evaluation records (\<open>evaluation.hpp\<close>, \<open>evaluation.cpp\<close>). A reason code is
  its 16-bit protocol value: the decoder casts any value, so the type of codes has all of them.
  The reason order compares class, canonical ordinal and code before the remaining identities;
  the digest, the derived identity and the wire encoding of a record follow the source field by
  field.
\<close>

subsection \<open>Enumerations\<close>

datatype outcome =
    Out_Admissible | Out_AdmissibleWithPreferences | Out_HardConstraintFailed
  | Out_UnknownRequiredEvidence | Out_StalePathAuthority | Out_StaleConstraintSet
  | Out_StaleEvidence | Out_RevalidationRequired | Out_Unauthorized | Out_ResourceLimit
  | Out_Malformed

primrec outcome_value :: "outcome \<Rightarrow> u16" where
  "outcome_value Out_Admissible = 0"
| "outcome_value Out_AdmissibleWithPreferences = 1"
| "outcome_value Out_HardConstraintFailed = 2"
| "outcome_value Out_UnknownRequiredEvidence = 3"
| "outcome_value Out_StalePathAuthority = 4"
| "outcome_value Out_StaleConstraintSet = 5"
| "outcome_value Out_StaleEvidence = 6"
| "outcome_value Out_RevalidationRequired = 7"
| "outcome_value Out_Unauthorized = 8"
| "outcome_value Out_ResourceLimit = 9"
| "outcome_value Out_Malformed = 10"

definition outcome_of :: "u16 \<Rightarrow> outcome" where
  "outcome_of v =
     (if v = 0 then Out_Admissible else if v = 1 then Out_AdmissibleWithPreferences else if v = 2 then Out_HardConstraintFailed else 
      if v = 3 then Out_UnknownRequiredEvidence else if v = 4 then Out_StalePathAuthority else if v = 5 then Out_StaleConstraintSet else 
      if v = 6 then Out_StaleEvidence else if v = 7 then Out_RevalidationRequired else if v = 8 then Out_Unauthorized else 
      if v = 9 then Out_ResourceLimit else Out_Malformed)"

lemma outcome_of_value [simp]: "outcome_of (outcome_value x) = x"
  by (cases x) (simp_all add: outcome_of_def)

lemma outcome_value_inj [simp]: "outcome_value x = outcome_value y \<longleftrightarrow> x = y"
  by (metis outcome_of_value)

lemma outcome_value_max [simp]: "\<not> 10 < outcome_value x"
  by (cases x) simp_all

datatype reason_class =
    RK_ResourceAdmission | RK_WireDecode | RK_CallerIdentity | RK_EpochBootScope
  | RK_ConstraintSetLifecycle | RK_PathAuthority | RK_EvidenceCurrentness
  | RK_MandatoryConstraint | RK_Preference

primrec reason_class_value :: "reason_class \<Rightarrow> u8" where
  "reason_class_value RK_ResourceAdmission = 0"
| "reason_class_value RK_WireDecode = 1"
| "reason_class_value RK_CallerIdentity = 2"
| "reason_class_value RK_EpochBootScope = 3"
| "reason_class_value RK_ConstraintSetLifecycle = 4"
| "reason_class_value RK_PathAuthority = 5"
| "reason_class_value RK_EvidenceCurrentness = 6"
| "reason_class_value RK_MandatoryConstraint = 7"
| "reason_class_value RK_Preference = 8"

definition reason_class_of_raw :: "u8 \<Rightarrow> reason_class" where
  "reason_class_of_raw v =
     (if v = 0 then RK_ResourceAdmission else if v = 1 then RK_WireDecode else if v = 2 then RK_CallerIdentity else 
      if v = 3 then RK_EpochBootScope else if v = 4 then RK_ConstraintSetLifecycle else if v = 5 then RK_PathAuthority else 
      if v = 6 then RK_EvidenceCurrentness else if v = 7 then RK_MandatoryConstraint else RK_Preference)"

lemma reason_class_of_value [simp]: "reason_class_of_raw (reason_class_value x) = x"
  by (cases x) (simp_all add: reason_class_of_raw_def)

lemma reason_class_value_inj [simp]: "reason_class_value x = reason_class_value y \<longleftrightarrow> x = y"
  by (metis reason_class_of_value)

lemma reason_class_value_max [simp]: "\<not> 8 < reason_class_value x"
  by (cases x) simp_all

instantiation reason_class :: linorder
begin

definition less_eq_reason_class :: "reason_class \<Rightarrow> reason_class \<Rightarrow> bool" where
  "x \<le> y \<longleftrightarrow> reason_class_value x \<le> reason_class_value y"

definition less_reason_class :: "reason_class \<Rightarrow> reason_class \<Rightarrow> bool" where
  "x < y \<longleftrightarrow> reason_class_value x < reason_class_value y"

instance
  by standard (auto simp: less_eq_reason_class_def less_reason_class_def order_less_le linear)

end

datatype subject_kind =
    SK_None | SK_Constraint | SK_CandidatePath | SK_ConstraintSet | SK_Node | SK_Link
  | SK_Tier | SK_Site | SK_Capability | SK_Policy | SK_FailureDomain | SK_LocalityDomain
  | SK_IsolationClass | SK_Publisher | SK_WorkerBoot | SK_Coordinator

primrec subject_kind_value :: "subject_kind \<Rightarrow> u8" where
  "subject_kind_value SK_None = 0"
| "subject_kind_value SK_Constraint = 1"
| "subject_kind_value SK_CandidatePath = 2"
| "subject_kind_value SK_ConstraintSet = 3"
| "subject_kind_value SK_Node = 4"
| "subject_kind_value SK_Link = 5"
| "subject_kind_value SK_Tier = 6"
| "subject_kind_value SK_Site = 7"
| "subject_kind_value SK_Capability = 8"
| "subject_kind_value SK_Policy = 9"
| "subject_kind_value SK_FailureDomain = 10"
| "subject_kind_value SK_LocalityDomain = 11"
| "subject_kind_value SK_IsolationClass = 12"
| "subject_kind_value SK_Publisher = 13"
| "subject_kind_value SK_WorkerBoot = 14"
| "subject_kind_value SK_Coordinator = 15"

definition subject_kind_of :: "u8 \<Rightarrow> subject_kind" where
  "subject_kind_of v =
     (if v = 0 then SK_None else if v = 1 then SK_Constraint else if v = 2 then SK_CandidatePath else 
      if v = 3 then SK_ConstraintSet else if v = 4 then SK_Node else if v = 5 then SK_Link else 
      if v = 6 then SK_Tier else if v = 7 then SK_Site else if v = 8 then SK_Capability else 
      if v = 9 then SK_Policy else if v = 10 then SK_FailureDomain else if v = 11 then SK_LocalityDomain else 
      if v = 12 then SK_IsolationClass else if v = 13 then SK_Publisher else if v = 14 then SK_WorkerBoot else 
      SK_Coordinator)"

lemma subject_kind_of_value [simp]: "subject_kind_of (subject_kind_value x) = x"
  by (cases x) (simp_all add: subject_kind_of_def)

lemma subject_kind_value_inj [simp]: "subject_kind_value x = subject_kind_value y \<longleftrightarrow> x = y"
  by (metis subject_kind_of_value)

lemma subject_kind_value_max [simp]: "\<not> 15 < subject_kind_value x"
  by (cases x) simp_all

instantiation subject_kind :: linorder
begin

definition less_eq_subject_kind :: "subject_kind \<Rightarrow> subject_kind \<Rightarrow> bool" where
  "x \<le> y \<longleftrightarrow> subject_kind_value x \<le> subject_kind_value y"

definition less_subject_kind :: "subject_kind \<Rightarrow> subject_kind \<Rightarrow> bool" where
  "x < y \<longleftrightarrow> subject_kind_value x < subject_kind_value y"

instance
  by standard (auto simp: less_eq_subject_kind_def less_subject_kind_def order_less_le linear)

end

datatype result_state =
    RS_Current | RS_Superseded | RS_RevalidationRequired | RS_RecoveredUnproven
  | RS_StaleAtCommit

primrec result_state_value :: "result_state \<Rightarrow> u8" where
  "result_state_value RS_Current = 1"
| "result_state_value RS_Superseded = 2"
| "result_state_value RS_RevalidationRequired = 3"
| "result_state_value RS_RecoveredUnproven = 4"
| "result_state_value RS_StaleAtCommit = 5"

definition result_state_of :: "u8 \<Rightarrow> result_state" where
  "result_state_of v =
     (if v = 1 then RS_Current else if v = 2 then RS_Superseded else if v = 3 then RS_RevalidationRequired else 
      if v = 4 then RS_RecoveredUnproven else RS_StaleAtCommit)"

lemma result_state_of_value [simp]: "result_state_of (result_state_value x) = x"
  by (cases x) (simp_all add: result_state_of_def)

lemma result_state_value_inj [simp]: "result_state_value x = result_state_value y \<longleftrightarrow> x = y"
  by (metis result_state_of_value)

lemma result_state_value_max [simp]: "\<not> 5 < result_state_value x"
  by (cases x) simp_all

lemma result_state_value_pos [simp]: "result_state_value x \<noteq> 0"
  by (cases x) simp_all

datatype batch_outcome =
    BO_AdmissibleCandidatesAvailable | BO_NoAdmissibleCandidate | BO_BatchRejected

primrec batch_outcome_value :: "batch_outcome \<Rightarrow> u16" where
  "batch_outcome_value BO_AdmissibleCandidatesAvailable = 0"
| "batch_outcome_value BO_NoAdmissibleCandidate = 1"
| "batch_outcome_value BO_BatchRejected = 2"

definition batch_outcome_of :: "u16 \<Rightarrow> batch_outcome" where
  "batch_outcome_of v =
     (if v = 0 then BO_AdmissibleCandidatesAvailable else if v = 1 then BO_NoAdmissibleCandidate else BO_BatchRejected)"

lemma batch_outcome_of_value [simp]: "batch_outcome_of (batch_outcome_value x) = x"
  by (cases x) (simp_all add: batch_outcome_of_def)

lemma batch_outcome_value_inj [simp]: "batch_outcome_value x = batch_outcome_value y \<longleftrightarrow> x = y"
  by (metis batch_outcome_of_value)

lemma batch_outcome_value_max [simp]: "\<not> 2 < batch_outcome_value x"
  by (cases x) simp_all

subsection \<open>Reason codes\<close>

type_synonym reason_code = u16

abbreviation RC_None :: reason_code where "RC_None \<equiv> 0"
abbreviation RC_ResourceLimitExceeded :: reason_code where "RC_ResourceLimitExceeded \<equiv> 100"
abbreviation RC_BatchTooLarge :: reason_code where "RC_BatchTooLarge \<equiv> 101"
abbreviation RC_TooManyConstraints :: reason_code where "RC_TooManyConstraints \<equiv> 102"
abbreviation RC_TooManyCandidates :: reason_code where "RC_TooManyCandidates \<equiv> 103"
abbreviation RC_TooManyEntityRefs :: reason_code where "RC_TooManyEntityRefs \<equiv> 104"
abbreviation RC_ExplanationTruncated :: reason_code where "RC_ExplanationTruncated \<equiv> 105"
abbreviation RC_HistoryLimitReached :: reason_code where "RC_HistoryLimitReached \<equiv> 106"
abbreviation RC_MalformedFrame :: reason_code where "RC_MalformedFrame \<equiv> 200"
abbreviation RC_UnsupportedProtocolVersion :: reason_code where "RC_UnsupportedProtocolVersion \<equiv> 201"
abbreviation RC_UnknownMessageId :: reason_code where "RC_UnknownMessageId \<equiv> 202"
abbreviation RC_TrailingBytes :: reason_code where "RC_TrailingBytes \<equiv> 203"
abbreviation RC_OversizedVector :: reason_code where "RC_OversizedVector \<equiv> 204"
abbreviation RC_IntegrityMismatch :: reason_code where "RC_IntegrityMismatch \<equiv> 205"
abbreviation RC_MalformedConstraint :: reason_code where "RC_MalformedConstraint \<equiv> 206"
abbreviation RC_MalformedCandidate :: reason_code where "RC_MalformedCandidate \<equiv> 207"
abbreviation RC_UnsupportedVersion :: reason_code where "RC_UnsupportedVersion \<equiv> 208"
abbreviation RC_UnknownPublisher :: reason_code where "RC_UnknownPublisher \<equiv> 300"
abbreviation RC_PublisherNotRegistered :: reason_code where "RC_PublisherNotRegistered \<equiv> 301"
abbreviation RC_SessionFenced :: reason_code where "RC_SessionFenced \<equiv> 302"
abbreviation RC_ScopeNotAuthorized :: reason_code where "RC_ScopeNotAuthorized \<equiv> 303"
abbreviation RC_MissingAuthorityContext :: reason_code where "RC_MissingAuthorityContext \<equiv> 304"
abbreviation RC_MutationAttemptConflict :: reason_code where "RC_MutationAttemptConflict \<equiv> 305"
abbreviation RC_StaleCoordinatorEpoch :: reason_code where "RC_StaleCoordinatorEpoch \<equiv> 400"
abbreviation RC_FutureCoordinatorEpoch :: reason_code where "RC_FutureCoordinatorEpoch \<equiv> 401"
abbreviation RC_FencedWorkerBoot :: reason_code where "RC_FencedWorkerBoot \<equiv> 402"
abbreviation RC_UnknownWorkerBoot :: reason_code where "RC_UnknownWorkerBoot \<equiv> 403"
abbreviation RC_WorkerBootReused :: reason_code where "RC_WorkerBootReused \<equiv> 404"
abbreviation RC_ConstraintSetNotFound :: reason_code where "RC_ConstraintSetNotFound \<equiv> 500"
abbreviation RC_ConstraintSetNotActive :: reason_code where "RC_ConstraintSetNotActive \<equiv> 501"
abbreviation RC_ConstraintSetSuspended :: reason_code where "RC_ConstraintSetSuspended \<equiv> 502"
abbreviation RC_ConstraintSetRevalidationRequired :: reason_code where "RC_ConstraintSetRevalidationRequired \<equiv> 503"
abbreviation RC_ConstraintSetRevoked :: reason_code where "RC_ConstraintSetRevoked \<equiv> 504"
abbreviation RC_ConstraintSetSuperseded :: reason_code where "RC_ConstraintSetSuperseded \<equiv> 505"
abbreviation RC_ConstraintSetRetired :: reason_code where "RC_ConstraintSetRetired \<equiv> 506"
abbreviation RC_StaleConstraintSetGeneration :: reason_code where "RC_StaleConstraintSetGeneration \<equiv> 507"
abbreviation RC_ContradictoryConstraintSet :: reason_code where "RC_ContradictoryConstraintSet \<equiv> 508"
abbreviation RC_PathAuthorityNotEvaluated :: reason_code where "RC_PathAuthorityNotEvaluated \<equiv> 600"
abbreviation RC_PathNotLegal :: reason_code where "RC_PathNotLegal \<equiv> 601"
abbreviation RC_StalePathAuthority :: reason_code where "RC_StalePathAuthority \<equiv> 602"
abbreviation RC_PathAuthorityGenerationMissing :: reason_code where "RC_PathAuthorityGenerationMissing \<equiv> 603"
abbreviation RC_StaleTopologyEvidence :: reason_code where "RC_StaleTopologyEvidence \<equiv> 700"
abbreviation RC_StaleLinkStateEvidence :: reason_code where "RC_StaleLinkStateEvidence \<equiv> 701"
abbreviation RC_StaleCapabilityEvidence :: reason_code where "RC_StaleCapabilityEvidence \<equiv> 702"
abbreviation RC_StaleFailureDomainEvidence :: reason_code where "RC_StaleFailureDomainEvidence \<equiv> 703"
abbreviation RC_StalePolicyEvidence :: reason_code where "RC_StalePolicyEvidence \<equiv> 704"
abbreviation RC_StalePlannerEvidence :: reason_code where "RC_StalePlannerEvidence \<equiv> 705"
abbreviation RC_EvidenceAgeExceeded :: reason_code where "RC_EvidenceAgeExceeded \<equiv> 706"
abbreviation RC_EvidenceNotBound :: reason_code where "RC_EvidenceNotBound \<equiv> 707"
abbreviation RC_PlannerCostModelMismatch :: reason_code where "RC_PlannerCostModelMismatch \<equiv> 708"
abbreviation RC_UnknownRequiredEvidence :: reason_code where "RC_UnknownRequiredEvidence \<equiv> 709"
abbreviation RC_MaxLatencyExceeded :: reason_code where "RC_MaxLatencyExceeded \<equiv> 800"
abbreviation RC_LatencyEvidenceUnavailable :: reason_code where "RC_LatencyEvidenceUnavailable \<equiv> 801"
abbreviation RC_MinBandwidthCapabilityNotMet :: reason_code where "RC_MinBandwidthCapabilityNotMet \<equiv> 802"
abbreviation RC_BandwidthCapabilityUnavailable :: reason_code where "RC_BandwidthCapabilityUnavailable \<equiv> 803"
abbreviation RC_RequiredNodeAbsent :: reason_code where "RC_RequiredNodeAbsent \<equiv> 804"
abbreviation RC_ForbiddenNodePresent :: reason_code where "RC_ForbiddenNodePresent \<equiv> 805"
abbreviation RC_RequiredLinkAbsent :: reason_code where "RC_RequiredLinkAbsent \<equiv> 806"
abbreviation RC_ForbiddenLinkPresent :: reason_code where "RC_ForbiddenLinkPresent \<equiv> 807"
abbreviation RC_RequiredTierNotMet :: reason_code where "RC_RequiredTierNotMet \<equiv> 808"
abbreviation RC_ForbiddenTierPresent :: reason_code where "RC_ForbiddenTierPresent \<equiv> 809"
abbreviation RC_RequiredSiteNotMet :: reason_code where "RC_RequiredSiteNotMet \<equiv> 810"
abbreviation RC_ForbiddenSitePresent :: reason_code where "RC_ForbiddenSitePresent \<equiv> 811"
abbreviation RC_LocalityScopeViolated :: reason_code where "RC_LocalityScopeViolated \<equiv> 812"
abbreviation RC_IsolationClassNotProven :: reason_code where "RC_IsolationClassNotProven \<equiv> 813"
abbreviation RC_RequiredCapabilityMissing :: reason_code where "RC_RequiredCapabilityMissing \<equiv> 814"
abbreviation RC_ForbiddenCapabilityPresent :: reason_code where "RC_ForbiddenCapabilityPresent \<equiv> 815"
abbreviation RC_RequiredFailureDomainRelationNotMet :: reason_code where "RC_RequiredFailureDomainRelationNotMet \<equiv> 816"
abbreviation RC_ForbiddenFailureDomainRelationMet :: reason_code where "RC_ForbiddenFailureDomainRelationMet \<equiv> 817"
abbreviation RC_AdministrativePolicyNotSatisfied :: reason_code where "RC_AdministrativePolicyNotSatisfied \<equiv> 818"
abbreviation RC_MaxHopCountExceeded :: reason_code where "RC_MaxHopCountExceeded \<equiv> 819"
abbreviation RC_TierEvidenceUnavailable :: reason_code where "RC_TierEvidenceUnavailable \<equiv> 820"
abbreviation RC_SiteEvidenceUnavailable :: reason_code where "RC_SiteEvidenceUnavailable \<equiv> 821"
abbreviation RC_LocalityEvidenceUnavailable :: reason_code where "RC_LocalityEvidenceUnavailable \<equiv> 822"
abbreviation RC_IsolationEvidenceUnavailable :: reason_code where "RC_IsolationEvidenceUnavailable \<equiv> 823"
abbreviation RC_CapabilityEvidenceUnavailable :: reason_code where "RC_CapabilityEvidenceUnavailable \<equiv> 824"
abbreviation RC_FailureDomainEvidenceUnavailable :: reason_code where "RC_FailureDomainEvidenceUnavailable \<equiv> 825"
abbreviation RC_PolicyEvidenceUnavailable :: reason_code where "RC_PolicyEvidenceUnavailable \<equiv> 826"

definition reason_class_of :: "reason_code \<Rightarrow> reason_class" where
  "reason_class_of value =
     (if value \<ge> 100 \<and> value < 200 then RK_ResourceAdmission
      else if value \<ge> 200 \<and> value < 300 then RK_WireDecode
      else if value \<ge> 300 \<and> value < 400 then RK_CallerIdentity
      else if value \<ge> 400 \<and> value < 500 then RK_EpochBootScope
      else if value \<ge> 500 \<and> value < 600 then RK_ConstraintSetLifecycle
      else if value \<ge> 600 \<and> value < 700 then RK_PathAuthority
      else if value \<ge> 700 \<and> value < 800 then RK_EvidenceCurrentness
      else if value \<ge> 800 \<and> value < 900 then RK_MandatoryConstraint
      else RK_Preference)"

definition outcome_of_reason :: "reason_code \<Rightarrow> outcome" where
  "outcome_of_reason code =
     (if code = RC_None then Out_Admissible
      else if code \<in> {RC_ResourceLimitExceeded, RC_BatchTooLarge, RC_TooManyConstraints,
          RC_TooManyCandidates, RC_TooManyEntityRefs, RC_ExplanationTruncated, RC_HistoryLimitReached}
        then Out_ResourceLimit
      else if code \<in> {RC_MalformedFrame, RC_UnsupportedProtocolVersion, RC_UnknownMessageId,
          RC_TrailingBytes, RC_OversizedVector, RC_IntegrityMismatch, RC_MalformedConstraint,
          RC_MalformedCandidate, RC_UnsupportedVersion}
        then Out_Malformed
      else if code \<in> {RC_UnknownPublisher, RC_PublisherNotRegistered, RC_SessionFenced,
          RC_ScopeNotAuthorized, RC_MissingAuthorityContext, RC_MutationAttemptConflict,
          RC_PathNotLegal, RC_ConstraintSetRevoked}
        then Out_Unauthorized
      else if code \<in> {RC_StaleCoordinatorEpoch, RC_FutureCoordinatorEpoch, RC_FencedWorkerBoot,
          RC_UnknownWorkerBoot, RC_WorkerBootReused}
        then Out_Unauthorized
      else if code \<in> {RC_PathAuthorityNotEvaluated, RC_PathAuthorityGenerationMissing}
        then Out_UnknownRequiredEvidence
      else if code = RC_StalePathAuthority then Out_StalePathAuthority
      else if code \<in> {RC_ConstraintSetNotFound, RC_ConstraintSetNotActive, RC_ConstraintSetSuspended,
          RC_ConstraintSetSuperseded, RC_ConstraintSetRetired, RC_StaleConstraintSetGeneration,
          RC_ContradictoryConstraintSet}
        then Out_StaleConstraintSet
      else if code = RC_ConstraintSetRevalidationRequired then Out_RevalidationRequired
      else if code \<in> {RC_StaleTopologyEvidence, RC_StaleLinkStateEvidence, RC_StaleCapabilityEvidence,
          RC_StaleFailureDomainEvidence, RC_StalePolicyEvidence, RC_StalePlannerEvidence,
          RC_EvidenceAgeExceeded, RC_EvidenceNotBound}
        then Out_StaleEvidence
      else if code \<in> {RC_PlannerCostModelMismatch, RC_UnknownRequiredEvidence,
          RC_LatencyEvidenceUnavailable, RC_BandwidthCapabilityUnavailable,
          RC_TierEvidenceUnavailable, RC_SiteEvidenceUnavailable, RC_LocalityEvidenceUnavailable,
          RC_IsolationEvidenceUnavailable, RC_CapabilityEvidenceUnavailable,
          RC_FailureDomainEvidenceUnavailable, RC_PolicyEvidenceUnavailable}
        then Out_UnknownRequiredEvidence
      else Out_HardConstraintFailed)"

subsection \<open>Records\<close>

record reason =
  r_code :: reason_code
  r_class :: reason_class
  r_constraint :: constraint_id
  r_constraint_kind :: constraint_kind
  r_constraint_ordinal :: u32
  r_family :: evidence_family
  r_subject_kind :: subject_kind
  r_subject :: u64
  r_expected :: u64
  r_actual :: u64

record preference_slot =
  ps_constraint :: constraint_id
  ps_kind :: constraint_kind
  ps_constraint_ordinal :: u32
  ps_rank :: u32
  ps_weight :: u32
  ps_satisfied :: bool
  ps_margin :: i64

record provenance =
  pv_epoch :: coordinator_epoch
  pv_publisher :: publisher_id
  pv_worker_boot :: worker_boot_id
  pv_attempt :: mutation_attempt_id
  pv_request :: u64

record evaluation_record =
  ev_id :: evaluation_id
  ev_generation :: generation
  ev_set_id :: constraint_set_id
  ev_set_generation :: generation
  ev_path :: path_id
  ev_authority_generation :: generation
  ev_outcome :: outcome
  ev_primary_reason :: reason_code
  ev_reasons :: "reason list"
  ev_preferences :: "preference_slot list"
  ev_evidence :: evidence_generation_set
  ev_consulted :: evidence_family_mask
  ev_provenance :: provenance
  ev_state :: result_state
  ev_reasons_truncated :: bool
  ev_committed_tick :: u64
  ev_digest :: digest256

record route_fabric_handoff =
  ho_set_id :: constraint_set_id
  ho_set_generation :: generation
  ho_path :: path_id
  ho_authority_generation :: generation
  ho_evaluation_id :: evaluation_id
  ho_evaluation_generation :: generation
  ho_outcome :: outcome
  ho_evidence :: evidence_generation_set
  ho_digest :: digest256

record ranked_candidate =
  rc_path :: path_id
  rc_record_index :: nat

record evaluation_batch =
  eb_set_id :: constraint_set_id
  eb_set_generation :: generation
  eb_generation :: generation
  eb_batch_outcome :: batch_outcome
  eb_has_admissible :: bool
  eb_records :: "evaluation_record list"
  eb_admissible_order :: "ranked_candidate list"
  eb_primary_batch_reason :: reason_code

definition handoff_of :: "evaluation_record \<Rightarrow> route_fabric_handoff" where
  "handoff_of r = \<lparr> ho_set_id = ev_set_id r, ho_set_generation = ev_set_generation r,
     ho_path = ev_path r, ho_authority_generation = ev_authority_generation r,
     ho_evaluation_id = ev_id r, ho_evaluation_generation = ev_generation r,
     ho_outcome = ev_outcome r, ho_evidence = ev_evidence r, ho_digest = ev_digest r \<rparr>"

definition same_evidence_binding :: "evidence_generation_set \<Rightarrow> evidence_generation_set \<Rightarrow> bool" where
  "same_evidence_binding a b \<longleftrightarrow>
     eg_topology a = eg_topology b \<and> eg_link_state a = eg_link_state b \<and>
     eg_capability a = eg_capability b \<and> eg_failure_domain a = eg_failure_domain b \<and>
     eg_policy a = eg_policy b \<and> eg_planner a = eg_planner b \<and>
     eg_path_authority a = eg_path_authority b"

subsection \<open>Reason order\<close>

definition compare_reason :: "reason \<Rightarrow> reason \<Rightarrow> int" where
  "compare_reason a b =
     (if r_class a \<noteq> r_class b then if r_class a < r_class b then - 1 else 1
      else if r_constraint_ordinal a \<noteq> r_constraint_ordinal b then
        if r_constraint_ordinal a < r_constraint_ordinal b then - 1 else 1
      else if r_code a \<noteq> r_code b then if r_code a < r_code b then - 1 else 1
      else if r_constraint a \<noteq> r_constraint b then if r_constraint a < r_constraint b then - 1 else 1
      else if r_family a \<noteq> r_family b then if r_family a < r_family b then - 1 else 1
      else if r_subject_kind a \<noteq> r_subject_kind b then if r_subject_kind a < r_subject_kind b then - 1 else 1
      else if r_subject a \<noteq> r_subject b then if r_subject a < r_subject b then - 1 else 1
      else if r_expected a \<noteq> r_expected b then if r_expected a < r_expected b then - 1 else 1
      else if r_actual a \<noteq> r_actual b then if r_actual a < r_actual b then - 1 else 1
      else 0)"

definition reason_less :: "reason \<Rightarrow> reason \<Rightarrow> bool" where
  "reason_less a b \<longleftrightarrow> compare_reason a b < 0"

definition reason_key where
  "reason_key (r :: reason) = (r_class r, r_constraint_ordinal r, r_code r, r_constraint r, r_family r,
     r_subject_kind r, r_subject r, r_expected r, r_actual r)"

lemma compare_reason_key: "compare_reason a b = cmp_of (reason_key a) (reason_key b)"
  unfolding compare_reason_def reason_key_def
  by (simp only: cmp_of_Pair) (simp add: cmp_of_def)

interpretation reason_order: keyed_order reason_less reason_key
  by unfold_locales (simp add: reason_less_def compare_reason_key)

text \<open>Two reasons that compare equal differ at most in the constraint kind.\<close>

lemma reason_key_eq:
  "reason_key a = reason_key b \<Longrightarrow> r_constraint_kind a = r_constraint_kind b \<Longrightarrow> a = b"
  by (rule reason.equality) (simp_all add: reason_key_def)

lemma outcome_of_reason_admissible:
  "outcome_of_reason code \<in> {Out_Admissible, Out_AdmissibleWithPreferences} \<longleftrightarrow> code = RC_None"
  by (simp add: outcome_of_reason_def)

subsection \<open>Digest and identity\<close>

definition feed_reason :: "reason \<Rightarrow> byte list list" where
  "feed_reason r = [hash_u16 (r_code r), hash_u8 (reason_class_value (r_class r)), hash_u64 (r_constraint r),
     hash_u16 (constraint_kind_value (r_constraint_kind r)), hash_u32 (r_constraint_ordinal r),
     hash_u8 (evidence_family_value (r_family r)), hash_u8 (subject_kind_value (r_subject_kind r)),
     hash_u64 (r_subject r), hash_u64 (r_expected r), hash_u64 (r_actual r)]"

definition feed_slot :: "preference_slot \<Rightarrow> byte list list" where
  "feed_slot s = [hash_u64 (ps_constraint s), hash_u16 (constraint_kind_value (ps_kind s)),
     hash_u32 (ps_constraint_ordinal s), hash_u32 (ps_rank s), hash_u32 (ps_weight s),
     hash_bool (ps_satisfied s), hash_i64 (ps_margin s)]"

definition evaluation_digest :: "evaluation_record \<Rightarrow> digest256" where
  "evaluation_digest r = digest_of ''crf.evaluation.v1''
     ([hash_u64 (ev_id r), hash_u64 (ev_generation r), hash_u64 (ev_set_id r),
       hash_u64 (ev_set_generation r), hash_u64 (ev_path r), hash_u64 (ev_authority_generation r),
       hash_u16 (outcome_value (ev_outcome r)), hash_u16 (ev_primary_reason r),
       hash_u8 (result_state_value (ev_state r)), hash_bool (ev_reasons_truncated r)] @
      feed_counted feed_reason (ev_reasons r) @ feed_counted feed_slot (ev_preferences r) @
      feed_evidence (ev_evidence r) @ [hash_u32 (ev_consulted r)])"

definition derived_evaluation_id ::
  "constraint_set_id \<Rightarrow> generation \<Rightarrow> path_id \<Rightarrow> generation \<Rightarrow> evidence_generation_set \<Rightarrow> evaluation_id" where
  "derived_evaluation_id set_id set_generation path authority_generation evidence =
     (let derived = leading_u64 (digest_of ''crf.evaluation-id.v1''
            ([hash_u64 set_id, hash_u64 set_generation, hash_u64 path, hash_u64 authority_generation] @
             feed_evidence evidence))
      in if derived = 0 then 1 else derived)"

text \<open>Provenance and the commit tick take no part in the digest.\<close>

lemma evaluation_digest_provenance:
  "evaluation_digest (r\<lparr>ev_provenance := p, ev_committed_tick := t, ev_digest := d\<rparr>) = evaluation_digest r"
  by (simp add: evaluation_digest_def)

lemma derived_evaluation_id_valid: "is_valid (derived_evaluation_id s g p a e)"
  by (simp add: derived_evaluation_id_def is_valid_def Let_def)

subsection \<open>Wire encoding\<close>

definition encode_provenance :: "provenance \<Rightarrow> byte list" where
  "encode_provenance p = put_u64 (pv_epoch p) @ put_u64 (pv_publisher p) @ put_u64 (pv_worker_boot p) @
     put_u64 (pv_attempt p) @ put_u64 (pv_request p)"

definition decode_provenance :: "provenance parser" where
  "decode_provenance = rd_bind rd_u64 (\<lambda>epoch. rd_bind rd_u64 (\<lambda>publisher. rd_bind rd_u64 (\<lambda>boot.
     rd_bind rd_u64 (\<lambda>attempt. rd_bind rd_u64 (\<lambda>request.
     rd_guard (\<not> (epoch \<noteq> 0 \<and> \<not> is_representable epoch))
     (rd_return \<lparr> pv_epoch = (if epoch = 0 then 0 else epoch), pv_publisher = publisher,
        pv_worker_boot = boot, pv_attempt = attempt, pv_request = request \<rparr>))))))"

definition write_evidence :: "evidence_generation_set \<Rightarrow> byte list" where
  "write_evidence e =
     put_u64 (eg_topology e) @ put_u64 (eg_link_state e) @ put_u64 (eg_capability e) @
     put_u64 (eg_failure_domain e) @ put_u64 (eg_policy e) @ put_u64 (eg_planner e) @
     put_u64 (eg_path_authority e) @ put_u32 (eg_consulted e) @ put_u64 (eg_captured_tick e)"

definition read_evidence :: "evidence_generation_set parser" where
  "read_evidence = rd_bind rd_u64 (\<lambda>topology. rd_bind rd_u64 (\<lambda>link_state. rd_bind rd_u64 (\<lambda>capability.
     rd_bind rd_u64 (\<lambda>failure_domain. rd_bind rd_u64 (\<lambda>policy. rd_bind rd_u64 (\<lambda>planner.
     rd_bind rd_u64 (\<lambda>path_authority. rd_bind rd_u32 (\<lambda>consulted. rd_bind rd_u64 (\<lambda>tick.
     rd_guard (gen_ok topology) (rd_guard (gen_ok link_state) (rd_guard (gen_ok capability)
     (rd_guard (gen_ok failure_domain) (rd_guard (gen_ok policy) (rd_guard (gen_ok planner)
     (rd_guard (gen_ok path_authority)
     (rd_return \<lparr> eg_topology = topology, eg_link_state = link_state, eg_capability = capability,
       eg_failure_domain = failure_domain, eg_policy = policy, eg_planner = planner,
       eg_path_authority = path_authority, eg_consulted = consulted, eg_captured_tick = tick \<rparr>))))))))))))))))"

definition write_reason :: "reason \<Rightarrow> byte list" where
  "write_reason r = put_u16 (r_code r) @ put_u8 (reason_class_value (r_class r)) @
     put_u8 (evidence_family_value (r_family r)) @ put_u8 (subject_kind_value (r_subject_kind r)) @ put_u8 0 @
     put_u64 (r_constraint r) @ put_u16 (constraint_kind_value (r_constraint_kind r)) @ put_u16 0 @
     put_u32 (r_constraint_ordinal r) @ put_u64 (r_subject r) @ put_u64 (r_expected r) @ put_u64 (r_actual r)"

definition read_reason :: "reason parser" where
  "read_reason = rd_bind rd_u16 (\<lambda>code. rd_bind rd_u8 (\<lambda>klass. rd_bind rd_u8 (\<lambda>family.
     rd_bind rd_u8 (\<lambda>subject_kind. rd_bind rd_u8 (\<lambda>padding. rd_bind rd_u64 (\<lambda>constraint.
     rd_bind rd_u16 (\<lambda>constraint_kind. rd_bind rd_u16 (\<lambda>constraint_padding. rd_bind rd_u32 (\<lambda>ordinal.
     rd_bind rd_u64 (\<lambda>subject. rd_bind rd_u64 (\<lambda>expected. rd_bind rd_u64 (\<lambda>actual.
     rd_guard (\<not> (padding \<noteq> 0 \<or> constraint_padding \<noteq> 0 \<or> \<not> klass \<le> 8 \<or> \<not> subject_kind \<le> 15 \<or>
        \<not> family \<le> 8 \<or> \<not> constraint_kind \<le> 18))
     (rd_guard (reason_class_of code = reason_class_of_raw klass)
     (rd_return \<lparr> r_code = code, r_class = reason_class_of_raw klass, r_constraint = constraint,
        r_constraint_kind = constraint_kind_of constraint_kind, r_constraint_ordinal = ordinal,
        r_family = evidence_family_of family, r_subject_kind = subject_kind_of subject_kind,
        r_subject = subject, r_expected = expected, r_actual = actual \<rparr>))))))))))))))"

text \<open>The reason loop of \<open>decode_evaluation\<close>: reasons must be strictly ascending.\<close>

fun read_reasons :: "nat \<Rightarrow> reason option \<Rightarrow> reason list parser" where
  "read_reasons 0 previous = rd_return []"
| "read_reasons (Suc n) previous = rd_bind read_reason (\<lambda>reason.
     rd_guard (case previous of None \<Rightarrow> True | Some p \<Rightarrow> reason_less p reason)
       (rd_bind (read_reasons n (Some reason)) (\<lambda>rest. rd_return (reason # rest))))"

definition write_slot :: "preference_slot \<Rightarrow> byte list" where
  "write_slot s = put_u64 (ps_constraint s) @ put_u16 (constraint_kind_value (ps_kind s)) @ put_u16 0 @
     put_u32 (ps_constraint_ordinal s) @ put_u32 (ps_rank s) @ put_u32 (ps_weight s) @
     put_bool (ps_satisfied s) @ put_i64 (ps_margin s)"

definition read_slot :: "preference_slot parser" where
  "read_slot = rd_bind rd_u64 (\<lambda>constraint. rd_bind rd_u16 (\<lambda>kind. rd_bind rd_u16 (\<lambda>padding.
     rd_bind rd_u32 (\<lambda>ordinal. rd_bind rd_u32 (\<lambda>rank. rd_bind rd_u32 (\<lambda>weight.
     rd_bind rd_boolean (\<lambda>satisfied. rd_bind rd_i64 (\<lambda>margin.
     rd_guard (\<not> (padding \<noteq> 0 \<or> \<not> kind \<le> 18))
     (rd_return \<lparr> ps_constraint = constraint, ps_kind = constraint_kind_of kind,
        ps_constraint_ordinal = ordinal, ps_rank = rank, ps_weight = weight,
        ps_satisfied = satisfied, ps_margin = margin \<rparr>)))))))))"

definition encode_evaluation :: "evaluation_record \<Rightarrow> byte list" where
  "encode_evaluation r =
     put_u64 (ev_id r) @ put_u64 (ev_generation r) @ put_u64 (ev_set_id r) @ put_u64 (ev_set_generation r) @
     put_u64 (ev_path r) @ put_u64 (ev_authority_generation r) @ put_u16 (outcome_value (ev_outcome r)) @
     put_u16 (ev_primary_reason r) @ put_u8 (result_state_value (ev_state r)) @
     put_bool (ev_reasons_truncated r) @ put_u64 (ev_committed_tick r) @
     encode_provenance (ev_provenance r) @ write_evidence (ev_evidence r) @
     write_counted write_reason (ev_reasons r) @ write_counted write_slot (ev_preferences r) @
     put_u32 (ev_consulted r) @ put_raw (ev_digest r)"

definition decode_evaluation :: "limits \<Rightarrow> evaluation_record parser" where
  "decode_evaluation l =
     rd_bind rd_u64 (\<lambda>id. rd_bind rd_u64 (\<lambda>generation. rd_bind rd_u64 (\<lambda>set_id.
     rd_bind rd_u64 (\<lambda>set_generation. rd_bind rd_u64 (\<lambda>path. rd_bind rd_u64 (\<lambda>authority_generation.
     rd_bind rd_u16 (\<lambda>outcome. rd_bind rd_u16 (\<lambda>primary. rd_bind rd_u8 (\<lambda>state.
     rd_bind rd_boolean (\<lambda>truncated. rd_bind rd_u64 (\<lambda>tick.
     rd_guard (\<not> (id = 0 \<or> \<not> is_representable generation \<or> set_id = 0 \<or>
        \<not> is_representable set_generation \<or> path = 0 \<or> \<not> is_representable authority_generation \<or>
        \<not> outcome \<le> 10 \<or> \<not> (state \<ge> 1 \<and> state \<le> 5)))
     (rd_bind decode_provenance (\<lambda>prov. rd_bind read_evidence (\<lambda>evidence.
      rd_bind (rd_bounded_length (max_explanation_reasons l)) (\<lambda>reason_count.
      rd_bind (read_reasons (unat reason_count) None) (\<lambda>reasons.
      rd_guard (\<not> (reason_count \<noteq> 0 \<and> primary \<noteq> r_code (hd reasons)))
      (rd_guard (\<not> (reasons = [] \<and> primary \<noteq> RC_None))
      (rd_bind (read_counted (max_constraints_per_set l) read_slot) (\<lambda>preferences.
       rd_bind rd_u32 (\<lambda>consulted. rd_bind (rd_raw 32) (\<lambda>digest.
       rd_return \<lparr> ev_id = id, ev_generation = generation, ev_set_id = set_id,
         ev_set_generation = set_generation, ev_path = path,
         ev_authority_generation = authority_generation, ev_outcome = outcome_of outcome,
         ev_primary_reason = primary, ev_reasons = reasons, ev_preferences = preferences,
         ev_evidence = evidence, ev_consulted = consulted, ev_provenance = prov,
         ev_state = result_state_of state, ev_reasons_truncated = truncated,
         ev_committed_tick = tick, ev_digest = digest \<rparr>)))))))))))))))))))))"

subsection \<open>Decoding inverts encoding\<close>

lemma provenance_eta [simp]:
  "\<lparr> pv_epoch = pv_epoch p, pv_publisher = pv_publisher p, pv_worker_boot = pv_worker_boot p, pv_attempt = pv_attempt p, pv_request = pv_request p \<rparr> = p"
  by simp

lemma reason_eta [simp]:
  "\<lparr> r_code = r_code r, r_class = r_class r, r_constraint = r_constraint r, r_constraint_kind = r_constraint_kind r, r_constraint_ordinal = r_constraint_ordinal r, r_family = r_family r, r_subject_kind = r_subject_kind r, r_subject = r_subject r, r_expected = r_expected r, r_actual = r_actual r \<rparr> = r"
  by simp

lemma preference_slot_eta [simp]:
  "\<lparr> ps_constraint = ps_constraint s, ps_kind = ps_kind s, ps_constraint_ordinal = ps_constraint_ordinal s, ps_rank = ps_rank s, ps_weight = ps_weight s, ps_satisfied = ps_satisfied s, ps_margin = ps_margin s \<rparr> = s"
  by simp

lemma evaluation_record_eta [simp]:
  "\<lparr> ev_id = ev_id r, ev_generation = ev_generation r, ev_set_id = ev_set_id r, ev_set_generation = ev_set_generation r, ev_path = ev_path r, ev_authority_generation = ev_authority_generation r, ev_outcome = ev_outcome r, ev_primary_reason = ev_primary_reason r, ev_reasons = ev_reasons r, ev_preferences = ev_preferences r, ev_evidence = ev_evidence r, ev_consulted = ev_consulted r, ev_provenance = ev_provenance r, ev_state = ev_state r, ev_reasons_truncated = ev_reasons_truncated r, ev_committed_tick = ev_committed_tick r, ev_digest = ev_digest r \<rparr> = r"
  by simp

lemma enum_values_le [simp]:
  "outcome_value o1 \<le> 10" "reason_class_value k \<le> 8" "subject_kind_value sk \<le> 15"
  "evidence_family_value f \<le> 8" "constraint_kind_value ck \<le> 18" "result_state_value st \<le> 5"
  by (simp_all only: not_less [symmetric]) simp_all

lemma result_state_value_ge [simp]: "1 \<le> result_state_value st"
  by (cases st) simp_all

lemma parses_provenance [codec_rt]:
  assumes "gen_ok (pv_epoch p)"
  shows "parses decode_provenance (encode_provenance p) p"
proof -
  have e: "(if pv_epoch p = 0 then 0 else pv_epoch p) = pv_epoch p" by simp
  have g: "\<not> (pv_epoch p \<noteq> 0 \<and> \<not> is_representable (pv_epoch p))" using assms by (simp add: gen_ok_def)
  show ?thesis
    unfolding decode_provenance_def encode_provenance_def
    by (rule codec_steps g | simp add: e; fail)+
qed

lemma parses_evidence [codec_rt]:
  assumes "evidence_wire e"
  shows "parses read_evidence (write_evidence e) e"
proof -
  note w = assms [unfolded evidence_wire_def]
  show ?thesis
    unfolding read_evidence_def write_evidence_def
    by (rule codec_steps | use w in \<open>simp; fail\<close>)+
qed

lemma parses_reason [codec_rt]:
  assumes "reason_class_of (r_code r) = r_class r"
  shows "parses read_reason (write_reason r) r"
  unfolding read_reason_def write_reason_def
  by (rule codec_steps | simp add: assms; fail)+

lemma parses_slot [codec_rt]: "parses read_slot (write_slot s) s"
  unfolding read_slot_def write_slot_def
  by (rule codec_steps | simp; fail)+

lemma parses_reasons [codec_rt]:
  "adjacent reason_less (case prev of None \<Rightarrow> rs | Some p \<Rightarrow> p # rs) \<Longrightarrow>
   \<forall>r\<in>set rs. reason_class_of (r_code r) = r_class r \<Longrightarrow>
   parses (read_reasons (length rs) prev) (concat (map write_reason rs)) rs"
proof (induction rs arbitrary: prev)
  case (Cons r rs)
  have adj: "case prev of None \<Rightarrow> True | Some p \<Rightarrow> reason_less p r" "adjacent reason_less (r # rs)"
    using Cons.prems(1) by (cases prev; simp)+
  have "parses (read_reasons (length rs) (Some r)) (concat (map write_reason rs)) rs"
    using Cons adj(2) by simp
  then have "parses (rd_bind (read_reasons (length rs) (Some r)) (\<lambda>rest. rd_return (r # rest)))
      (concat (map write_reason rs)) (r # rs)"
    by (rule parses_bind_Nil) simp
  with adj(1) show ?case
    using parses_reason [of r] Cons.prems(2)
    by (auto intro!: parses_bind parses_guard)
qed simp

definition wire_evaluation :: "evaluation_record \<Rightarrow> limits \<Rightarrow> bool" where
  "wire_evaluation r l \<longleftrightarrow> ev_id r \<noteq> 0 \<and> is_representable (ev_generation r) \<and> ev_set_id r \<noteq> 0 \<and>
     is_representable (ev_set_generation r) \<and> ev_path r \<noteq> 0 \<and> is_representable (ev_authority_generation r) \<and>
     gen_ok (pv_epoch (ev_provenance r)) \<and> evidence_wire (ev_evidence r) \<and>
     length (ev_reasons r) \<le> unat (max_explanation_reasons l) \<and> adjacent reason_less (ev_reasons r) \<and>
     list_all (\<lambda>x. reason_class_of (r_code x) = r_class x) (ev_reasons r) \<and>
     ev_primary_reason r = (if ev_reasons r = [] then RC_None else r_code (hd (ev_reasons r))) \<and>
     length (ev_preferences r) \<le> unat (max_constraints_per_set l) \<and> length (ev_digest r) = 32"

lemma write_counted_append:
  "write_counted w xs @ rest = put_u32 (word_of_nat (length xs)) @ concat (map w xs) @ rest"
  by (simp add: write_counted_def)

lemma parses_decode_evaluation [codec_rt]:
  assumes w: "wire_evaluation r l"
  shows "parses (decode_evaluation l) (encode_evaluation r) r"
proof -
  have len: "length (ev_reasons r) \<le> unat (max_explanation_reasons l)"
    using w by (simp add: wire_evaluation_def)
  have u: "unat (word_of_nat (length (ev_reasons r)) :: u32) = length (ev_reasons r)"
    by (rule unat_u32_of_nat) (rule unat_u32_less [OF len])
  have bl: "parses (rd_bounded_length (max_explanation_reasons l))
      (put_u32 (word_of_nat (length (ev_reasons r)))) (word_of_nat (length (ev_reasons r)))"
    by (rule parses_bounded_length) (simp add: not_less u32_of_nat_le [OF len])
  have rs: "parses (read_reasons (unat (word_of_nat (length (ev_reasons r)) :: u32)) None)
      (concat (map write_reason (ev_reasons r))) (ev_reasons r)"
    unfolding u by (rule parses_reasons) (use w in \<open>simp_all add: wire_evaluation_def list_all_iff\<close>)
  have pr: "parses (read_counted (max_constraints_per_set l) read_slot)
      (write_counted write_slot (ev_preferences r)) (ev_preferences r)"
    by (rule parses_counted [OF _ parses_slot]) (use w in \<open>simp add: wire_evaluation_def\<close>)
  have pe: "parses decode_provenance (encode_provenance (ev_provenance r)) (ev_provenance r)"
    "parses read_evidence (write_evidence (ev_evidence r)) (ev_evidence r)"
    "parses (rd_raw 32) (put_raw (ev_digest r)) (ev_digest r)"
    using w by (simp_all add: wire_evaluation_def parses_provenance parses_evidence parses_raw)
  have g: "\<not> ((word_of_nat (length (ev_reasons r)) :: u32) \<noteq> 0 \<and> ev_primary_reason r \<noteq> r_code (hd (ev_reasons r)))"
    "\<not> (ev_reasons r = [] \<and> ev_primary_reason r \<noteq> RC_None)"
    using w by (auto simp: wire_evaluation_def)
  note steps = codec_steps bl rs pr pe g
  show ?thesis
    unfolding decode_evaluation_def encode_evaluation_def write_counted_append [of write_reason]
    by (rule steps | simp; fail | use w in \<open>simp add: wire_evaluation_def; fail\<close>)+
qed

lemma regular_read_reasons [simp, intro]: "regular (read_reasons n prev)"
  by (induction n arbitrary: prev) (auto simp: read_reason_def intro!: regular_bind regular_guard)

lemma regular_decode_evaluation [simp, intro]: "regular (decode_evaluation l)"
  unfolding decode_evaluation_def decode_provenance_def read_evidence_def read_counted_def read_slot_def
  by (auto intro!: regular_bind regular_guard regular_repeat)

end
