(* ===== verification/Ordering.thy ===== *)
theory Ordering
  imports Evaluation
begin

text \<open>
  Deterministic candidate ordering (\<open>ordering.hpp\<close>, \<open>ordering.cpp\<close>): the ranking policy, the
  lexicographic preference comparison, the ranked comparison with its documented tie-breaks, and
  the stable sort of the admissible records. Every comparison is the comparison of a key, so the
  ranking is a linear preorder whose ties are candidates of the same path.
\<close>

datatype candidate_tiebreak =
    PathIdAscending | NodeSequenceLexicographic

primrec candidate_tiebreak_value :: "candidate_tiebreak \<Rightarrow> u8" where
  "candidate_tiebreak_value PathIdAscending = 1"
| "candidate_tiebreak_value NodeSequenceLexicographic = 2"

definition candidate_tiebreak_of :: "u8 \<Rightarrow> candidate_tiebreak" where
  "candidate_tiebreak_of v =
     (if v = 1 then PathIdAscending else NodeSequenceLexicographic)"

lemma candidate_tiebreak_of_value [simp]: "candidate_tiebreak_of (candidate_tiebreak_value x) = x"
  by (cases x) (simp_all add: candidate_tiebreak_of_def)

lemma candidate_tiebreak_value_inj [simp]: "candidate_tiebreak_value x = candidate_tiebreak_value y \<longleftrightarrow> x = y"
  by (metis candidate_tiebreak_of_value)

lemma candidate_tiebreak_value_max [simp]: "\<not> 2 < candidate_tiebreak_value x"
  by (cases x) simp_all

lemma candidate_tiebreak_value_pos [simp]: "candidate_tiebreak_value x \<noteq> 0"
  by (cases x) simp_all

record ranking_policy =
  rp_consume_planner_rank :: bool
  rp_consume_planner_cost :: bool
  rp_prefer_lower_cost :: bool
  rp_expected_cost_model :: planner_cost_model
  rp_tiebreak :: candidate_tiebreak

definition default_ranking_policy :: ranking_policy where
  "default_ranking_policy = \<lparr> rp_consume_planner_rank = False, rp_consume_planner_cost = False,
     rp_prefer_lower_cost = True, rp_expected_cost_model = PM_None, rp_tiebreak = PathIdAscending \<rparr>"

fun compare_preferences :: "preference_slot list \<Rightarrow> preference_slot list \<Rightarrow> int" where
  "compare_preferences (a # as) (b # bs) =
     (if ps_satisfied a \<noteq> ps_satisfied b then if ps_satisfied a then - 1 else 1
      else if sint (ps_margin a) \<noteq> sint (ps_margin b) then
        if sint (ps_margin a) > sint (ps_margin b) then - 1 else 1
      else if ps_weight a \<noteq> ps_weight b then if ps_weight a > ps_weight b then - 1 else 1
      else compare_preferences as bs)"
| "compare_preferences [] (b # bs) = - 1"
| "compare_preferences (a # as) [] = 1"
| "compare_preferences [] [] = 0"

definition compare_ranked ::
  "evaluation_record \<Rightarrow> candidate_path \<Rightarrow> evaluation_record \<Rightarrow> candidate_path \<Rightarrow> ranking_policy \<Rightarrow> int" where
  "compare_ranked a ca b cb policy =
     (let preference = compare_preferences (ev_preferences a) (ev_preferences b);
          rank = (if rp_consume_planner_rank policy then
                    if cp_has_planner_rank ca \<noteq> cp_has_planner_rank cb then
                      if cp_has_planner_rank ca then - 1 else 1
                    else if cp_has_planner_rank ca \<and> cp_planner_rank ca \<noteq> cp_planner_rank cb then
                      if cp_planner_rank ca < cp_planner_rank cb then - 1 else 1
                    else 0
                  else 0);
          cost = (if rp_consume_planner_cost policy then
                    if cp_has_planner_cost ca \<noteq> cp_has_planner_cost cb then
                      if cp_has_planner_cost ca then - 1 else 1
                    else if cp_has_planner_cost ca \<and> sint (cp_planner_cost ca) \<noteq> sint (cp_planner_cost cb) then
                      let lower_is_better = (sint (cp_planner_cost ca) < sint (cp_planner_cost cb));
                          first_wins = (if rp_prefer_lower_cost policy then lower_is_better else \<not> lower_is_better)
                      in if first_wins then - 1 else 1
                    else 0
                  else 0);
          nodes = (if rp_tiebreak policy = NodeSequenceLexicographic then compare_node_sequences ca cb else 0)
      in if preference \<noteq> 0 then preference
         else if rank \<noteq> 0 then rank
         else if cost \<noteq> 0 then cost
         else if nodes \<noteq> 0 then nodes
         else if cp_path ca \<noteq> cp_path cb then if cp_path ca < cp_path cb then - 1 else 1
         else 0)"

definition is_admissible :: "outcome \<Rightarrow> bool" where
  "is_admissible outc \<longleftrightarrow> outc = Out_Admissible \<or> outc = Out_AdmissibleWithPreferences"

definition order_admissible ::
  "evaluation_record list \<Rightarrow> candidate_path list \<Rightarrow> ranking_policy \<Rightarrow> ranked_candidate list" where
  "order_admissible records candidates policy =
     (if length records \<noteq> length candidates then []
      else stable_sort
        (\<lambda>a b. compare_ranked (records ! rc_record_index a) (candidates ! rc_record_index a)
                              (records ! rc_record_index b) (candidates ! rc_record_index b) policy < 0)
        (map (\<lambda>i. \<lparr> rc_path = ev_path (records ! i), rc_record_index = i \<rparr>)
             (filter (\<lambda>i. is_admissible (ev_outcome (records ! i))) [0..<length records])))"

definition encode_ranking_policy :: "ranking_policy \<Rightarrow> byte list" where
  "encode_ranking_policy p =
     put_bool (rp_consume_planner_rank p) @ put_bool (rp_consume_planner_cost p) @
     put_bool (rp_prefer_lower_cost p) @ put_u8 (planner_cost_model_value (rp_expected_cost_model p)) @
     put_u8 (candidate_tiebreak_value (rp_tiebreak p)) @ put_u16 0"

definition decode_ranking_policy :: "ranking_policy parser" where
  "decode_ranking_policy = rd_bind rd_boolean (\<lambda>rank. rd_bind rd_boolean (\<lambda>cost.
     rd_bind rd_boolean (\<lambda>lower. rd_bind rd_u8 (\<lambda>cost_model. rd_bind rd_u8 (\<lambda>tiebreak.
     rd_bind rd_u16 (\<lambda>padding.
     rd_guard (\<not> (cost_model > 3 \<or> tiebreak = 0 \<or> tiebreak > 2 \<or> padding \<noteq> 0))
     (rd_return \<lparr> rp_consume_planner_rank = rank, rp_consume_planner_cost = cost,
        rp_prefer_lower_cost = lower, rp_expected_cost_model = planner_cost_model_of cost_model,
        rp_tiebreak = candidate_tiebreak_of tiebreak \<rparr>)))))))"

definition feed_ranking :: "ranking_policy \<Rightarrow> byte list list" where
  "feed_ranking p = [hash_bool (rp_consume_planner_rank p), hash_bool (rp_consume_planner_cost p),
     hash_bool (rp_prefer_lower_cost p), hash_u8 (planner_cost_model_value (rp_expected_cost_model p)),
     hash_u8 (candidate_tiebreak_value (rp_tiebreak p))]"

lemma ranking_policy_eta [simp]:
  "\<lparr> rp_consume_planner_rank = rp_consume_planner_rank p, rp_consume_planner_cost = rp_consume_planner_cost p,
     rp_prefer_lower_cost = rp_prefer_lower_cost p, rp_expected_cost_model = rp_expected_cost_model p,
     rp_tiebreak = rp_tiebreak p \<rparr> = p"
  by simp

lemma parses_ranking_policy [codec_rt, intro]: "parses decode_ranking_policy (encode_ranking_policy p) p"
  unfolding decode_ranking_policy_def encode_ranking_policy_def
  by (rule codec_steps | simp; fail)+

lemma regular_ranking_policy [simp, intro]: "regular decode_ranking_policy"
  unfolding decode_ranking_policy_def by (auto intro!: regular_bind regular_guard)

subsection \<open>Ranking is the comparison of keys\<close>

lemma cmp_of_lex:
  "cmp_of (a, x) (b, y) = (if cmp_of a b \<noteq> 0 then cmp_of a b else cmp_of x y)"
  by (simp add: cmp_of_Pair) (simp add: cmp_of_def)

lemma cmp_of_Cons_lex:
  "cmp_of (a # x) (b # y) = (if cmp_of a b \<noteq> 0 then cmp_of a b else cmp_of x y)"
  by (simp add: cmp_of_Cons) (auto simp: cmp_of_def)

definition slot_key :: "preference_slot \<Rightarrow> bool \<times> int \<times> int" where
  "slot_key s = (\<not> ps_satisfied s, - sint (ps_margin s), - uint (ps_weight s))"

lemma slot_key_cmp:
  "cmp_of (slot_key a) (slot_key b) =
     (if ps_satisfied a \<noteq> ps_satisfied b then if ps_satisfied a then - 1 else 1
      else if sint (ps_margin a) \<noteq> sint (ps_margin b) then
        if sint (ps_margin a) > sint (ps_margin b) then - 1 else 1
      else if ps_weight a \<noteq> ps_weight b then if ps_weight a > ps_weight b then - 1 else 1
      else 0)"
  by (auto simp: slot_key_def cmp_of_Pair cmp_of_def word_less_def)

lemma compare_preferences_key:
  "compare_preferences as bs = cmp_of (map slot_key as) (map slot_key bs)"
proof (induction as bs rule: compare_preferences.induct)
  case (1 a as b bs)
  then show ?case
    unfolding list.map cmp_of_Cons_lex slot_key_cmp by simp
qed simp_all

definition rank_key :: "ranking_policy \<Rightarrow> candidate_path \<Rightarrow> bool \<times> int" where
  "rank_key policy c = (if rp_consume_planner_rank policy
     then (\<not> cp_has_planner_rank c, if cp_has_planner_rank c then uint (cp_planner_rank c) else 0)
     else (False, 0))"

definition cost_key :: "ranking_policy \<Rightarrow> candidate_path \<Rightarrow> bool \<times> int" where
  "cost_key policy c = (if rp_consume_planner_cost policy
     then (\<not> cp_has_planner_cost c,
           if cp_has_planner_cost c
           then if rp_prefer_lower_cost policy then sint (cp_planner_cost c) else - sint (cp_planner_cost c)
           else 0)
     else (False, 0))"

definition ranked_key ::
  "ranking_policy \<Rightarrow> evaluation_record \<Rightarrow> candidate_path \<Rightarrow>
   (bool \<times> int \<times> int) list \<times> (bool \<times> int) \<times> (bool \<times> int) \<times> u64 list \<times> u64" where
  "ranked_key policy r c = (map slot_key (ev_preferences r), rank_key policy c, cost_key policy c,
     (if rp_tiebreak policy = NodeSequenceLexicographic then map nf_node (cp_nodes c) else []), cp_path c)"

lemma rank_key_cmp:
  "cmp_of (rank_key policy ca) (rank_key policy cb) =
     (if rp_consume_planner_rank policy then
        if cp_has_planner_rank ca \<noteq> cp_has_planner_rank cb then if cp_has_planner_rank ca then - 1 else 1
        else if cp_has_planner_rank ca \<and> cp_planner_rank ca \<noteq> cp_planner_rank cb then
          if cp_planner_rank ca < cp_planner_rank cb then - 1 else 1
        else 0
      else 0)"
  by (cases "rp_consume_planner_rank policy"; cases "cp_has_planner_rank ca"; cases "cp_has_planner_rank cb")
     (simp_all add: rank_key_def cmp_of_Pair cmp_of_def word_less_def)

lemma cost_key_cmp:
  "cmp_of (cost_key policy ca) (cost_key policy cb) =
     (if rp_consume_planner_cost policy then
        if cp_has_planner_cost ca \<noteq> cp_has_planner_cost cb then if cp_has_planner_cost ca then - 1 else 1
        else if cp_has_planner_cost ca \<and> sint (cp_planner_cost ca) \<noteq> sint (cp_planner_cost cb) then
          let lower_is_better = (sint (cp_planner_cost ca) < sint (cp_planner_cost cb));
              first_wins = (if rp_prefer_lower_cost policy then lower_is_better else \<not> lower_is_better)
          in if first_wins then - 1 else 1
        else 0
      else 0)"
  by (cases "rp_consume_planner_cost policy"; cases "cp_has_planner_cost ca"; cases "cp_has_planner_cost cb";
      cases "rp_prefer_lower_cost policy")
     (simp_all add: cost_key_def cmp_of_Pair cmp_of_def)

lemma compare_ranked_key:
  "compare_ranked a ca b cb policy = cmp_of (ranked_key policy a ca) (ranked_key policy b cb)"
proof -
  have n: "(if rp_tiebreak policy = NodeSequenceLexicographic then compare_node_sequences ca cb else 0) =
      cmp_of (if rp_tiebreak policy = NodeSequenceLexicographic then map nf_node (cp_nodes ca) else [])
             (if rp_tiebreak policy = NodeSequenceLexicographic then map nf_node (cp_nodes cb) else [])"
    by (simp add: compare_node_sequences_cmp)
  have p: "(if cp_path ca \<noteq> cp_path cb then if cp_path ca < cp_path cb then - 1 else 1 else 0) =
      cmp_of (cp_path ca) (cp_path cb)"
    by (auto simp: cmp_of_def)
  show ?thesis
    unfolding compare_ranked_def Let_def [of "compare_preferences _ _"] rank_key_cmp [symmetric]
      cost_key_cmp [symmetric] n p compare_preferences_key
    by (simp only: ranked_key_def cmp_of_lex Let_def)
qed

text \<open>For fixed records and candidates the ranking is a keyed order on the ranked entries.\<close>

definition ranked_less where
  "ranked_less records candidates policy a b \<longleftrightarrow>
     compare_ranked (records ! rc_record_index a) (candidates ! rc_record_index a)
       (records ! rc_record_index b) (candidates ! rc_record_index b) policy < 0"

interpretation ranked: keyed_order "ranked_less records candidates policy"
    "\<lambda>a. ranked_key policy (records ! rc_record_index a) (candidates ! rc_record_index a)"
  for records candidates policy
  by unfold_locales (simp add: ranked_less_def compare_ranked_key)

lemma order_admissible_eq:
  "length records = length candidates \<Longrightarrow>
   order_admissible records candidates policy =
     stable_sort (ranked_less records candidates policy)
       (map (\<lambda>i. \<lparr> rc_path = ev_path (records ! i), rc_record_index = i \<rparr>)
         (filter (\<lambda>i. is_admissible (ev_outcome (records ! i))) [0..<length records]))"
  unfolding order_admissible_def ranked_less_def [abs_def] by simp

lemma order_admissible_set:
  assumes "length records = length candidates"
  shows "set (map rc_record_index (order_admissible records candidates policy)) =
           {i. i < length records \<and> is_admissible (ev_outcome (records ! i))}"
    and "distinct (map rc_record_index (order_admissible records candidates policy))"
proof -
  let ?xs = "map (\<lambda>i. \<lparr> rc_path = ev_path (records ! i), rc_record_index = i \<rparr>)
         (filter (\<lambda>i. is_admissible (ev_outcome (records ! i))) [0..<length records])"
  have idx: "map rc_record_index ?xs = filter (\<lambda>i. is_admissible (ev_outcome (records ! i))) [0..<length records]"
    by (simp add: comp_def)
  have m: "mset (map rc_record_index (order_admissible records candidates policy)) = mset (map rc_record_index ?xs)"
    by (simp only: order_admissible_eq [OF assms] mset_map mset_stable_sort)
  show "set (map rc_record_index (order_admissible records candidates policy)) =
      {i. i < length records \<and> is_admissible (ev_outcome (records ! i))}"
    using mset_eq_setD [OF m] unfolding idx by auto
  show "distinct (map rc_record_index (order_admissible records candidates policy))"
    using mset_eq_imp_distinct_iff [OF m] unfolding idx by simp
qed

end
