(* ===== verification/Lifecycle.thy ===== *)
theory Lifecycle
  imports Identity
begin

text \<open>
  The constraint-set lifecycle (\<open>lifecycle.hpp\<close>, \<open>lifecycle.cpp\<close>): the states, the events,
  the 63-entry transition table, and the step relation the table induces on histories of
  events. A rejected event changes nothing.
\<close>

datatype constraint_set_state =
    Declared | Active | Suspended | RevalidationRequired | Revoked | Superseded | Retired

datatype lifecycle_event =
    Activate | Suspend | Resume | RequireRevalidation | Revalidated | Revoke | Supersede
  | Retire | Reinstate

primrec constraint_set_state_value :: "constraint_set_state \<Rightarrow> u8" where
  "constraint_set_state_value Declared = 1"
| "constraint_set_state_value Active = 2"
| "constraint_set_state_value Suspended = 3"
| "constraint_set_state_value RevalidationRequired = 4"
| "constraint_set_state_value Revoked = 5"
| "constraint_set_state_value Superseded = 6"
| "constraint_set_state_value Retired = 7"

text \<open>The cast from a decoded byte; the callers have checked \<open>1 \<le> v \<le> 7\<close>.\<close>

definition constraint_set_state_of :: "u8 \<Rightarrow> constraint_set_state" where
  "constraint_set_state_of v =
     (if v = 1 then Declared else if v = 2 then Active else if v = 3 then Suspended
      else if v = 4 then RevalidationRequired else if v = 5 then Revoked
      else if v = 6 then Superseded else Retired)"

lemma constraint_set_state_of_value [simp]:
  "constraint_set_state_of (constraint_set_state_value s) = s"
  by (cases s) (simp_all add: constraint_set_state_of_def)

lemma constraint_set_state_value_range [simp]:
  "constraint_set_state_value s \<noteq> 0" "\<not> 7 < constraint_set_state_value s"
  by (cases s; simp)+

text \<open>\<open>TransitionOutcome\<close>: \<open>Accept next\<close> or a rejection (the reason text is not modelled).\<close>

datatype transition_outcome = Accept constraint_set_state | Reject

fun apply_lifecycle_event :: "constraint_set_state \<Rightarrow> lifecycle_event \<Rightarrow> transition_outcome" where
  "apply_lifecycle_event Declared ev = (case ev of
      Activate \<Rightarrow> Accept Active
    | Revoke \<Rightarrow> Accept Revoked
    | Supersede \<Rightarrow> Accept Superseded
    | Retire \<Rightarrow> Accept Retired
    | _ \<Rightarrow> Reject)"
| "apply_lifecycle_event Active ev = (case ev of
      Suspend \<Rightarrow> Accept Suspended
    | RequireRevalidation \<Rightarrow> Accept RevalidationRequired
    | Revoke \<Rightarrow> Accept Revoked
    | Supersede \<Rightarrow> Accept Superseded
    | Retire \<Rightarrow> Accept Retired
    | _ \<Rightarrow> Reject)"
| "apply_lifecycle_event Suspended ev = (case ev of
      Resume \<Rightarrow> Accept Active
    | RequireRevalidation \<Rightarrow> Accept RevalidationRequired
    | Revoke \<Rightarrow> Accept Revoked
    | Supersede \<Rightarrow> Accept Superseded
    | Retire \<Rightarrow> Accept Retired
    | _ \<Rightarrow> Reject)"
| "apply_lifecycle_event RevalidationRequired ev = (case ev of
      Revalidated \<Rightarrow> Accept Active
    | Suspend \<Rightarrow> Accept Suspended
    | Revoke \<Rightarrow> Accept Revoked
    | Supersede \<Rightarrow> Accept Superseded
    | Retire \<Rightarrow> Accept Retired
    | _ \<Rightarrow> Reject)"
| "apply_lifecycle_event Revoked ev = (case ev of
      Retire \<Rightarrow> Accept Retired
    | Supersede \<Rightarrow> Accept Superseded
    | Reinstate \<Rightarrow> Accept RevalidationRequired
    | _ \<Rightarrow> Reject)"
| "apply_lifecycle_event Superseded ev = (case ev of
      Retire \<Rightarrow> Accept Retired
    | _ \<Rightarrow> Reject)"
| "apply_lifecycle_event Retired ev = Reject"

definition admits_admissibility :: "constraint_set_state \<Rightarrow> bool" where
  "admits_admissibility s \<longleftrightarrow> s = Active"

text \<open>A step of the state machine, and its histories.\<close>

inductive lifecycle_step :: "constraint_set_state \<Rightarrow> lifecycle_event \<Rightarrow> constraint_set_state \<Rightarrow> bool" where
  accepted: "apply_lifecycle_event s ev = Accept s' \<Longrightarrow> lifecycle_step s ev s'"
| rejected: "apply_lifecycle_event s ev = Reject \<Longrightarrow> lifecycle_step s ev s"

inductive_cases lifecycle_stepE: "lifecycle_step s ev s'"

inductive lifecycle_run :: "constraint_set_state \<Rightarrow> lifecycle_event list \<Rightarrow> constraint_set_state \<Rightarrow> bool" where
  run_Nil: "lifecycle_run s [] s"
| run_Cons: "lifecycle_step s ev s' \<Longrightarrow> lifecycle_run s' evs s'' \<Longrightarrow> lifecycle_run s (ev # evs) s''"

inductive_cases lifecycle_run_ConsE: "lifecycle_run s (ev # evs) s'"

lemma lifecycle_step_det: "lifecycle_step s ev s1 \<Longrightarrow> lifecycle_step s ev s2 \<Longrightarrow> s1 = s2"
  by (auto elim!: lifecycle_stepE)

lemma superseded_step: "lifecycle_step s ev s' \<Longrightarrow> s \<in> {Superseded, Retired} \<Longrightarrow> s' \<in> {Superseded, Retired}"
  by (cases ev) (auto elim!: lifecycle_stepE)

lemma retired_step: "lifecycle_step Retired ev s' \<Longrightarrow> s' = Retired"
  by (auto elim!: lifecycle_stepE)

lemma superseded_run: "lifecycle_run s evs s' \<Longrightarrow> s \<in> {Superseded, Retired} \<Longrightarrow> s' \<in> {Superseded, Retired}"
  by (induction rule: lifecycle_run.induct) (blast dest: superseded_step)+

lemma into_active:
  "apply_lifecycle_event s ev = Accept Active \<Longrightarrow>
   (s, ev) \<in> {(Declared, Activate), (Suspended, Resume), (RevalidationRequired, Revalidated)}"
  by (cases s; cases ev) auto

text \<open>After a revocation, every history that makes the set active again contains a
  revalidation.\<close>

lemma revoked_step:
  "lifecycle_step s ev s' \<Longrightarrow> s \<in> {Revoked, Superseded, Retired} \<Longrightarrow>
   s' \<in> {Revoked, Superseded, Retired} \<or> s' = RevalidationRequired"
  by (cases ev) (auto elim!: lifecycle_stepE)

definition revoked_like :: "constraint_set_state \<Rightarrow> bool" where
  "revoked_like s \<longleftrightarrow> s \<in> {Revoked, Superseded, Retired, RevalidationRequired}"

lemma revoked_like_step:
  "lifecycle_step s ev s' \<Longrightarrow> revoked_like s \<Longrightarrow> ev \<noteq> Revalidated \<Longrightarrow> ev \<noteq> Suspend \<Longrightarrow> revoked_like s'"
  by (cases s; cases ev) (auto elim!: lifecycle_stepE simp: revoked_like_def)

end
