(* ===== verification/Constraint_Set.thy ===== *)
theory Constraint_Set
  imports Ordering Lifecycle
begin

text \<open>
  Constraint sets (\<open>constraint_set.hpp\<close>, \<open>constraint_set.cpp\<close>): contradiction detection,
  canonicalisation with its defect report, the semantic digest, verification of a stored set,
  the diff of two definitions, and the wire encoding. The main results: canonicalisation is
  idempotent and does not observe the order in which constraints were declared, a finalised set
  passes verification, and rejection leaves the caller's set alone.
\<close>

subsection \<open>Data\<close>

datatype contradiction_kind =
    RequiredAndForbiddenSameEntity | ConflictingLocalityScopes | ConflictingIsolationClasses
  | FailureDomainRelationConflict | ImpossibleHopBudget

primrec contradiction_kind_value :: "contradiction_kind \<Rightarrow> u8" where
  "contradiction_kind_value RequiredAndForbiddenSameEntity = 1"
| "contradiction_kind_value ConflictingLocalityScopes = 2"
| "contradiction_kind_value ConflictingIsolationClasses = 3"
| "contradiction_kind_value FailureDomainRelationConflict = 4"
| "contradiction_kind_value ImpossibleHopBudget = 5"

definition contradiction_kind_of :: "u8 \<Rightarrow> contradiction_kind" where
  "contradiction_kind_of v =
     (if v = 1 then RequiredAndForbiddenSameEntity else if v = 2 then ConflictingLocalityScopes else if v = 3 then ConflictingIsolationClasses else 
      if v = 4 then FailureDomainRelationConflict else ImpossibleHopBudget)"

lemma contradiction_kind_of_value [simp]: "contradiction_kind_of (contradiction_kind_value x) = x"
  by (cases x) (simp_all add: contradiction_kind_of_def)

lemma contradiction_kind_value_inj [simp]: "contradiction_kind_value x = contradiction_kind_value y \<longleftrightarrow> x = y"
  by (metis contradiction_kind_of_value)

lemma contradiction_kind_value_max [simp]: "\<not> 5 < contradiction_kind_value x"
  by (cases x) simp_all

lemma contradiction_kind_value_pos [simp]: "contradiction_kind_value x \<noteq> 0"
  by (cases x) simp_all

datatype set_defect_kind =
    EquivalentDuplicateCollapsed | EntityListReordered | DuplicateEntityCollapsed
  | ConstraintsReordered

primrec set_defect_kind_value :: "set_defect_kind \<Rightarrow> u8" where
  "set_defect_kind_value EquivalentDuplicateCollapsed = 1"
| "set_defect_kind_value EntityListReordered = 2"
| "set_defect_kind_value DuplicateEntityCollapsed = 3"
| "set_defect_kind_value ConstraintsReordered = 4"

definition set_defect_kind_of :: "u8 \<Rightarrow> set_defect_kind" where
  "set_defect_kind_of v =
     (if v = 1 then EquivalentDuplicateCollapsed else if v = 2 then EntityListReordered else if v = 3 then DuplicateEntityCollapsed else 
      ConstraintsReordered)"

lemma set_defect_kind_of_value [simp]: "set_defect_kind_of (set_defect_kind_value x) = x"
  by (cases x) (simp_all add: set_defect_kind_of_def)

lemma set_defect_kind_value_inj [simp]: "set_defect_kind_value x = set_defect_kind_value y \<longleftrightarrow> x = y"
  by (metis set_defect_kind_of_value)

lemma set_defect_kind_value_max [simp]: "\<not> 4 < set_defect_kind_value x"
  by (cases x) simp_all

lemma set_defect_kind_value_pos [simp]: "set_defect_kind_value x \<noteq> 0"
  by (cases x) simp_all

datatype constraint_change_kind =
    Change_Added | Change_Removed | Change_Changed

primrec constraint_change_kind_value :: "constraint_change_kind \<Rightarrow> u8" where
  "constraint_change_kind_value Change_Added = 1"
| "constraint_change_kind_value Change_Removed = 2"
| "constraint_change_kind_value Change_Changed = 3"

definition constraint_change_kind_of :: "u8 \<Rightarrow> constraint_change_kind" where
  "constraint_change_kind_of v =
     (if v = 1 then Change_Added else if v = 2 then Change_Removed else Change_Changed)"

lemma constraint_change_kind_of_value [simp]: "constraint_change_kind_of (constraint_change_kind_value x) = x"
  by (cases x) (simp_all add: constraint_change_kind_of_def)

lemma constraint_change_kind_value_inj [simp]: "constraint_change_kind_value x = constraint_change_kind_value y \<longleftrightarrow> x = y"
  by (metis constraint_change_kind_of_value)

lemma constraint_change_kind_value_max [simp]: "\<not> 3 < constraint_change_kind_value x"
  by (cases x) simp_all

lemma constraint_change_kind_value_pos [simp]: "constraint_change_kind_value x \<noteq> 0"
  by (cases x) simp_all

instantiation constraint_change_kind :: linorder
begin

definition less_eq_constraint_change_kind :: "constraint_change_kind \<Rightarrow> constraint_change_kind \<Rightarrow> bool" where
  "x \<le> y \<longleftrightarrow> constraint_change_kind_value x \<le> constraint_change_kind_value y"

definition less_constraint_change_kind :: "constraint_change_kind \<Rightarrow> constraint_change_kind \<Rightarrow> bool" where
  "x < y \<longleftrightarrow> constraint_change_kind_value x < constraint_change_kind_value y"

instance
  by standard (auto simp: less_eq_constraint_change_kind_def less_constraint_change_kind_def order_less_le linear)

end

record contradiction =
  ct_kind :: contradiction_kind
  ct_first :: constraint_id
  ct_second :: constraint_id
  ct_subject_kind :: subject_kind
  ct_subject :: u64

record set_defect =
  sd_kind :: set_defect_kind
  sd_constraint :: constraint_id
  sd_count :: u32

record constraint_set =
  cs_id :: constraint_set_id
  cs_generation :: generation
  cs_state :: constraint_set_state
  cs_name :: "byte list"
  cs_constraints :: "constraint list"
  cs_evidence :: evidence_requirements
  cs_ranking :: ranking_policy
  cs_digest :: digest256
  cs_declared_tick :: u64

subsection \<open>Contradictions\<close>

definition bucket_of :: "constraint_set \<Rightarrow> constraint_kind \<Rightarrow> constraint list" where
  "bucket_of s kind = filter (\<lambda>c. c_kind c = kind) (cs_constraints s)"

definition same_entity_contradictions ::
  "constraint list \<Rightarrow> constraint list \<Rightarrow> subject_kind \<Rightarrow> (constraint \<Rightarrow> u64 list) \<Rightarrow> contradiction list" where
  "same_entity_contradictions required forbidden subject_kind member =
     concat (map (\<lambda>positive. concat (map (\<lambda>negative.
       map (\<lambda>value. \<lparr> ct_kind = RequiredAndForbiddenSameEntity, ct_first = c_id positive,
                      ct_second = c_id negative, ct_subject_kind = subject_kind, ct_subject = value \<rparr>)
           (filter (\<lambda>value. binary_search (member negative) value) (member positive))) forbidden)) required)"

fun locality_conflicts :: "constraint list \<Rightarrow> contradiction list" where
  "locality_conflicts [] = []"
| "locality_conflicts (a # rest) =
     map (\<lambda>b. \<lparr> ct_kind = ConflictingLocalityScopes, ct_first = c_id a, ct_second = c_id b,
                ct_subject_kind = SK_LocalityDomain, ct_subject = c_locality_domain b \<rparr>)
       (filter (\<lambda>b. c_domain_kind a = c_domain_kind b \<and> c_locality_domain a \<noteq> c_locality_domain b) rest) @
     locality_conflicts rest"

fun isolation_conflicts :: "constraint list \<Rightarrow> contradiction list" where
  "isolation_conflicts [] = []"
| "isolation_conflicts (a # rest) =
     map (\<lambda>b. \<lparr> ct_kind = ConflictingIsolationClasses, ct_first = c_id a, ct_second = c_id b,
                ct_subject_kind = SK_IsolationClass, ct_subject = c_isolation_class b \<rparr>)
       (filter (\<lambda>b. c_isolation_class a \<noteq> c_isolation_class b) rest) @
     isolation_conflicts rest"

definition relation_conflict :: "constraint \<Rightarrow> constraint \<Rightarrow> bool" where
  "relation_conflict required forbidden \<longleftrightarrow>
     c_domain_kind required = c_domain_kind forbidden \<and>
     (if c_domain_relation forbidden = DR_Shared then sint (c_bound required) \<ge> 2
      else if c_domain_relation forbidden = DR_Distinct then sint (c_bound forbidden) \<le> sint (c_bound required)
      else False)"

definition relation_conflicts :: "constraint list \<Rightarrow> constraint list \<Rightarrow> contradiction list" where
  "relation_conflicts required_relations forbidden_relations =
     concat (map (\<lambda>required. map (\<lambda>forbidden.
         \<lparr> ct_kind = FailureDomainRelationConflict, ct_first = c_id required, ct_second = c_id forbidden,
           ct_subject_kind = SK_FailureDomain, ct_subject = ucast (domain_kind_value (c_domain_kind required)) \<rparr>)
       (filter (relation_conflict required) forbidden_relations)) required_relations)"

definition required_node_set :: "constraint_set \<Rightarrow> node_id list" where
  "required_node_set s = sort_unique (concat (map c_nodes (bucket_of s CK_RequiredNode)))"

definition hop_conflicts :: "constraint_set \<Rightarrow> contradiction list" where
  "hop_conflicts s =
     (let needed = int (length (required_node_set s)) - 1
      in map (\<lambda>c. \<lparr> ct_kind = ImpossibleHopBudget, ct_first = c_id c, ct_second = 0,
                    ct_subject_kind = SK_Constraint, ct_subject = word_of_int needed \<rparr>)
           (filter (\<lambda>c. needed > sint (c_bound c)) (bucket_of s CK_MaxHopCount)))"

definition contradictions_of :: "constraint_set \<Rightarrow> contradiction list" where
  "contradictions_of s =
     same_entity_contradictions (bucket_of s CK_RequiredNode) (bucket_of s CK_ForbiddenNode) SK_Node c_nodes @
     same_entity_contradictions (bucket_of s CK_RequiredLink) (bucket_of s CK_ForbiddenLink) SK_Link c_links @
     same_entity_contradictions (bucket_of s CK_RequiredTier) (bucket_of s CK_ForbiddenTier) SK_Tier c_tiers @
     same_entity_contradictions (bucket_of s CK_RequiredSite) (bucket_of s CK_ForbiddenSite) SK_Site c_sites @
     same_entity_contradictions (bucket_of s CK_RequiredCapability) (bucket_of s CK_ForbiddenCapability)
       SK_Capability c_capabilities @
     locality_conflicts (bucket_of s CK_LocalityScope) @
     isolation_conflicts (bucket_of s CK_IsolationClass) @
     relation_conflicts (bucket_of s CK_RequiredFailureDomainRelation)
       (bucket_of s CK_ForbiddenFailureDomainRelation) @
     hop_conflicts s"

definition detect_contradictions :: "constraint_set \<Rightarrow> limits \<Rightarrow> status \<times> contradiction list" where
  "detect_contradictions s l =
     (if length (cs_constraints s) > unat (max_constraints_per_set l) then (ResourceLimit, [])
      else if contradictions_of s \<noteq> [] then (ContradictoryConstraintSet, contradictions_of s)
      else (Ok, []))"

subsection \<open>Digest\<close>

definition feed_evidence_requirements :: "evidence_requirements \<Rightarrow> byte list list" where
  "feed_evidence_requirements e =
     [hash_u64 (er_topology e), hash_u64 (er_link_state e), hash_u64 (er_capability e),
      hash_u64 (er_failure_domain e), hash_u64 (er_policy e), hash_u64 (er_planner e),
      hash_u64 (er_path_authority e), hash_u64 (er_max_evidence_age_ticks e)]"

definition constraint_set_digest :: "constraint_set \<Rightarrow> digest256" where
  "constraint_set_digest s = digest_of ''crf.constraint-set.v1''
     ([hash_u64 (cs_id s), hash_u64 (cs_generation s)] @
      feed_counted feed_constraint (cs_constraints s) @
      feed_evidence_requirements (cs_evidence s) @ feed_ranking (cs_ranking s))"

subsection \<open>Canonicalisation\<close>

definition canonicalize_entity_list :: "constraint_id \<Rightarrow> u64 list \<Rightarrow> u64 list \<times> set_defect list" where
  "canonicalize_entity_list i before =
     (let sorted_list = sort before; list = remdups_adj sorted_list in
      (list,
       if length list \<noteq> length sorted_list then
         [\<lparr> sd_kind = DuplicateEntityCollapsed, sd_constraint = i, sd_count = 1 \<rparr>]
       else if list \<noteq> before then [\<lparr> sd_kind = EntityListReordered, sd_constraint = i, sd_count = 1 \<rparr>]
       else []))"

definition canonicalize_entities :: "constraint \<Rightarrow> constraint" where
  "canonicalize_entities c = c\<lparr>
     c_nodes := fst (canonicalize_entity_list (c_id c) (c_nodes c)),
     c_links := fst (canonicalize_entity_list (c_id c) (c_links c)),
     c_tiers := fst (canonicalize_entity_list (c_id c) (c_tiers c)),
     c_sites := fst (canonicalize_entity_list (c_id c) (c_sites c)),
     c_capabilities := fst (canonicalize_entity_list (c_id c) (c_capabilities c)),
     c_policies := fst (canonicalize_entity_list (c_id c) (c_policies c)) \<rparr>"

definition entity_defects :: "constraint \<Rightarrow> set_defect list" where
  "entity_defects c =
     snd (canonicalize_entity_list (c_id c) (c_nodes c)) @ snd (canonicalize_entity_list (c_id c) (c_links c)) @
     snd (canonicalize_entity_list (c_id c) (c_tiers c)) @ snd (canonicalize_entity_list (c_id c) (c_sites c)) @
     snd (canonicalize_entity_list (c_id c) (c_capabilities c)) @ snd (canonicalize_entity_list (c_id c) (c_policies c))"

text \<open>The loop that validates each constraint before it canonicalises its lists.\<close>

fun canonicalize_constraints :: "limits \<Rightarrow> constraint list \<Rightarrow> (constraint list \<times> set_defect list) result" where
  "canonicalize_constraints l [] = Inr ([], [])"
| "canonicalize_constraints l (c # cs) =
     (if validate_constraint c l \<noteq> Ok then Inl (validate_constraint c l)
      else case canonicalize_constraints l cs of
          Inl e \<Rightarrow> Inl e
        | Inr (out, defects) \<Rightarrow> Inr (canonicalize_entities c # out, entity_defects c @ defects))"

text \<open>The same identity may not describe two different payloads.\<close>

fun check_identities :: "(constraint_id \<Rightarrow> byte list option) \<Rightarrow> constraint list \<Rightarrow> bool" where
  "check_identities payloads [] = True"
| "check_identities payloads (c # cs) =
     (case payloads (c_id c) of
        None \<Rightarrow> check_identities (payloads(c_id c := Some (encode_constraint_payload c))) cs
      | Some payload \<Rightarrow> if payload \<noteq> encode_constraint_payload c then False else check_identities payloads cs)"

fun collapse_loop :: "constraint list \<Rightarrow> set_defect list \<Rightarrow> constraint list \<Rightarrow> constraint list \<times> set_defect list" where
  "collapse_loop collapsed defects [] = (collapsed, defects)"
| "collapse_loop collapsed defects (c # cs) =
     (if collapsed \<noteq> [] \<and> equivalent_payload (last collapsed) c then
        collapse_loop collapsed
          (defects @ [\<lparr> sd_kind = EquivalentDuplicateCollapsed, sd_constraint = c_id (last collapsed), sd_count = 1 \<rparr>]) cs
      else collapse_loop (collapsed @ [c]) defects cs)"

definition reorder_defects :: "constraint list \<Rightarrow> constraint list \<Rightarrow> set_defect list \<Rightarrow> set_defect list" where
  "reorder_defects before after defects =
     (let reordered = [\<lparr> sd_kind = ConstraintsReordered, sd_constraint = 0, sd_count = word_of_nat (length before) \<rparr>]
      in if length after \<noteq> length before then
           if list_ex (\<lambda>d. sd_kind d = ConstraintsReordered) defects then [] else reordered
         else if map c_id before \<noteq> map c_id after then reordered else [])"

definition canonicalize_constraint_set :: "constraint_set \<Rightarrow> limits \<Rightarrow> (constraint_set \<times> set_defect list) result" where
  "canonicalize_constraint_set s l =
     (if \<not> validate_limits l then Inl InvalidArgument
      else if \<not> is_valid (cs_id s) then Inl InvalidArgument
      else if \<not> is_valid (cs_generation s) then Inl InvalidArgument
      else if length (cs_constraints s) > unat (max_constraints_per_set l) then Inl ResourceLimit
      else if length (cs_name s) > unat (max_name_bytes l) then Inl ResourceLimit
      else case canonicalize_constraints l (cs_constraints s) of
          Inl e \<Rightarrow> Inl e
        | Inr (before, defects) \<Rightarrow>
            if \<not> check_identities (\<lambda>_. None) before then Inl DuplicateIdentity
            else let (collapsed, defects2) = collapse_loop [] defects (stable_sort canonical_less before);
                     out = s\<lparr> cs_constraints := collapsed \<rparr>
                 in Inr (out\<lparr> cs_digest := constraint_set_digest out \<rparr>,
                         defects2 @ reorder_defects before collapsed defects2))"

text \<open>\<open>validate_and_finalize_constraint_set\<close> works on a copy; a failure returns the caller's set.\<close>

definition validate_and_finalize_constraint_set ::
  "constraint_set \<Rightarrow> limits \<Rightarrow> status \<times> constraint_set \<times> contradiction list" where
  "validate_and_finalize_constraint_set s l =
     (case canonicalize_constraint_set s l of
        Inl e \<Rightarrow> (e, s, [])
      | Inr (working, defects) \<Rightarrow>
          (case detect_contradictions working l of (st, cts) \<Rightarrow>
             if st \<noteq> Ok then (st, s, cts) else (Ok, working, [])))"

subsection \<open>Verification of a stored set\<close>

fun verify_constraints :: "limits \<Rightarrow> constraint option \<Rightarrow> constraint list \<Rightarrow> status" where
  "verify_constraints l previous [] = Ok"
| "verify_constraints l previous (c # cs) =
     (if validate_constraint c l \<noteq> Ok then validate_constraint c l
      else if \<not> sorted_unique (c_nodes c) \<or> \<not> sorted_unique (c_links c) \<or> \<not> sorted_unique (c_tiers c) \<or>
              \<not> sorted_unique (c_sites c) \<or> \<not> sorted_unique (c_capabilities c) \<or> \<not> sorted_unique (c_policies c) then Malformed
      else if (case previous of None \<Rightarrow> False | Some p \<Rightarrow> \<not> canonical_less p c) then Malformed
      else if (case previous of None \<Rightarrow> False | Some p \<Rightarrow> c_id p = c_id c) then DuplicateIdentity
      else verify_constraints l (Some c) cs)"

definition verify_canonical_constraint_set :: "constraint_set \<Rightarrow> limits \<Rightarrow> status" where
  "verify_canonical_constraint_set s l =
     (if \<not> is_valid (cs_id s) \<or> \<not> is_valid (cs_generation s) then InvalidArgument
      else if length (cs_constraints s) > unat (max_constraints_per_set l) then ResourceLimit
      else if verify_constraints l None (cs_constraints s) \<noteq> Ok then verify_constraints l None (cs_constraints s)
      else if constraint_set_digest s \<noteq> cs_digest s then IntegrityMismatch
      else fst (detect_contradictions s l))"

subsection \<open>Diff\<close>

record constraint_change =
  cc_kind :: constraint_change_kind
  cc_constraint :: constraint_id
  cc_constraint_kind :: constraint_kind

record constraint_set_diff =
  df_set_id :: constraint_set_id
  df_from_generation :: generation
  df_to_generation :: generation
  df_evidence_requirements_changed :: bool
  df_ranking_policy_changed :: bool
  df_lifecycle_changed :: bool
  df_from_state :: constraint_set_state
  df_to_state :: constraint_set_state
  df_changes :: "constraint_change list"
  df_from_digest :: digest256
  df_to_digest :: digest256

text \<open>\<open>std::map::emplace\<close> keeps the first constraint of an identity; iteration is by identity.\<close>

definition lookup_constraint :: "constraint list \<Rightarrow> constraint_id \<Rightarrow> constraint option" where
  "lookup_constraint cs i = find (\<lambda>c. c_id c = i) cs"

definition change_less :: "constraint_change \<Rightarrow> constraint_change \<Rightarrow> bool" where
  "change_less a b \<longleftrightarrow>
     (if cc_kind a \<noteq> cc_kind b then cc_kind a < cc_kind b
      else if cc_constraint a \<noteq> cc_constraint b then cc_constraint a < cc_constraint b
      else cc_constraint_kind a < cc_constraint_kind b)"

definition constraint_changes :: "constraint list \<Rightarrow> constraint list \<Rightarrow> constraint_change list" where
  "constraint_changes from to =
     concat (map (\<lambda>i. case lookup_constraint from i of None \<Rightarrow> [] | Some c \<Rightarrow>
        (case lookup_constraint to i of
           None \<Rightarrow> [\<lparr> cc_kind = Change_Removed, cc_constraint = i, cc_constraint_kind = c_kind c \<rparr>]
         | Some d \<Rightarrow> if \<not> semantically_equal c d
                     then [\<lparr> cc_kind = Change_Changed, cc_constraint = i, cc_constraint_kind = c_kind d \<rparr>] else []))
       (sort_unique (map c_id from))) @
     concat (map (\<lambda>i. case lookup_constraint to i of None \<Rightarrow> [] | Some d \<Rightarrow>
        (if lookup_constraint from i = None
         then [\<lparr> cc_kind = Change_Added, cc_constraint = i, cc_constraint_kind = c_kind d \<rparr>] else []))
       (sort_unique (map c_id to)))"

definition diff_constraint_sets :: "constraint_set \<Rightarrow> constraint_set \<Rightarrow> constraint_set_diff" where
  "diff_constraint_sets from to = \<lparr>
     df_set_id = cs_id to, df_from_generation = cs_generation from, df_to_generation = cs_generation to,
     df_evidence_requirements_changed =
       (er_topology (cs_evidence from) \<noteq> er_topology (cs_evidence to) \<or>
        er_link_state (cs_evidence from) \<noteq> er_link_state (cs_evidence to) \<or>
        er_capability (cs_evidence from) \<noteq> er_capability (cs_evidence to) \<or>
        er_failure_domain (cs_evidence from) \<noteq> er_failure_domain (cs_evidence to) \<or>
        er_policy (cs_evidence from) \<noteq> er_policy (cs_evidence to) \<or>
        er_planner (cs_evidence from) \<noteq> er_planner (cs_evidence to) \<or>
        er_path_authority (cs_evidence from) \<noteq> er_path_authority (cs_evidence to) \<or>
        er_max_evidence_age_ticks (cs_evidence from) \<noteq> er_max_evidence_age_ticks (cs_evidence to)),
     df_ranking_policy_changed = (cs_ranking from \<noteq> cs_ranking to),
     df_lifecycle_changed = (cs_state from \<noteq> cs_state to),
     df_from_state = cs_state from, df_to_state = cs_state to,
     df_changes = stable_sort change_less (constraint_changes (cs_constraints from) (cs_constraints to)),
     df_from_digest = cs_digest from, df_to_digest = cs_digest to \<rparr>"

subsection \<open>Wire encoding\<close>

definition write_requirements :: "evidence_requirements \<Rightarrow> byte list" where
  "write_requirements e =
     put_u64 (er_topology e) @ put_u64 (er_link_state e) @ put_u64 (er_capability e) @
     put_u64 (er_failure_domain e) @ put_u64 (er_policy e) @ put_u64 (er_planner e) @
     put_u64 (er_path_authority e) @ put_u64 (er_max_evidence_age_ticks e)"

definition read_requirements :: "evidence_requirements parser" where
  "read_requirements = rd_bind read_generation_field (\<lambda>topology. rd_bind read_generation_field (\<lambda>link_state.
     rd_bind read_generation_field (\<lambda>capability. rd_bind read_generation_field (\<lambda>failure_domain.
     rd_bind read_generation_field (\<lambda>policy. rd_bind read_generation_field (\<lambda>planner.
     rd_bind read_generation_field (\<lambda>path_authority. rd_bind rd_u64 (\<lambda>max_age.
     rd_return \<lparr> er_topology = topology, er_link_state = link_state, er_capability = capability,
       er_failure_domain = failure_domain, er_policy = policy, er_planner = planner,
       er_path_authority = path_authority, er_max_evidence_age_ticks = max_age \<rparr>))))))))"

definition encode_constraint_set :: "constraint_set \<Rightarrow> byte list" where
  "encode_constraint_set s =
     put_u64 (cs_id s) @ put_u64 (cs_generation s) @ put_u8 (constraint_set_state_value (cs_state s)) @
     put_u8 0 @ put_u16 0 @ put_u32 0 @ put_string (cs_name s) @ put_u64 (cs_declared_tick s) @
     write_requirements (cs_evidence s) @ encode_ranking_policy (cs_ranking s) @
     write_counted encode_constraint (cs_constraints s) @ put_raw (cs_digest s)"

definition decode_constraint_set :: "limits \<Rightarrow> constraint_set parser" where
  "decode_constraint_set l =
     rd_bind rd_u64 (\<lambda>id. rd_bind rd_u64 (\<lambda>generation. rd_bind rd_u8 (\<lambda>state. rd_bind rd_u8 (\<lambda>padding8.
     rd_bind rd_u16 (\<lambda>padding16. rd_bind rd_u32 (\<lambda>padding32.
     rd_guard (\<not> (id = 0 \<or> \<not> is_representable generation \<or> state = 0 \<or> state > 7 \<or>
        padding8 \<noteq> 0 \<or> padding16 \<noteq> 0 \<or> padding32 \<noteq> 0))
     (rd_bind rd_string (\<lambda>name. rd_guard (\<not> length name > unat (max_name_bytes l))
     (rd_bind rd_u64 (\<lambda>declared_tick. rd_bind read_requirements (\<lambda>evidence.
      rd_bind decode_ranking_policy (\<lambda>ranking.
      rd_bind (read_counted (max_constraints_per_set l) (decode_constraint l)) (\<lambda>constraints.
      rd_bind (rd_raw 32) (\<lambda>digest.
      let out = \<lparr> cs_id = id, cs_generation = generation, cs_state = constraint_set_state_of state,
            cs_name = name, cs_constraints = constraints, cs_evidence = evidence, cs_ranking = ranking,
            cs_digest = digest, cs_declared_tick = declared_tick \<rparr>
      in rd_guard (verify_canonical_constraint_set out l = Ok) (rd_return out)))))))))))))))"

subsection \<open>Canonicalisation as sorting and collapsing\<close>

lemma fst_canonicalize_entity_list [simp]: "fst (canonicalize_entity_list i xs) = sort_unique xs"
  by (simp add: canonicalize_entity_list_def sort_unique_def Let_def)

lemma remdups_adj_length_eq: "length (remdups_adj xs) = length xs \<Longrightarrow> remdups_adj xs = xs"
proof (induction xs rule: remdups_adj.induct)
  case (3 x y xs)
  then show ?case
    using remdups_adj_length [of "y # xs"] by (cases "x = y") auto
qed auto

lemma canonicalize_entity_list_sorted:
  "sorted_wrt (<) xs \<Longrightarrow> snd (canonicalize_entity_list i xs) = []"
  using sort_unique_id [of xs]
  by (simp add: canonicalize_entity_list_def Let_def sort_unique_def strict_sorted_iff sorted_sort_id)

definition canonical_entities :: "constraint \<Rightarrow> bool" where
  "canonical_entities c \<longleftrightarrow> (\<forall>xs\<in>{c_nodes c, c_links c, c_tiers c, c_sites c, c_capabilities c, c_policies c}.
     sorted_wrt (<) xs)"

lemma canonical_entities_canonicalize [simp]: "canonical_entities (canonicalize_entities c)"
  by (simp add: canonical_entities_def canonicalize_entities_def)

lemma canonicalize_entities_id: "canonical_entities c \<Longrightarrow> canonicalize_entities c = c"
  by (simp add: canonical_entities_def canonicalize_entities_def sort_unique_id)

lemma entity_defects_canonical: "canonical_entities c \<Longrightarrow> entity_defects c = []"
  by (simp add: canonical_entities_def entity_defects_def canonicalize_entity_list_sorted)

lemma canonicalize_entities_id_gen [simp]:
  "c_id (canonicalize_entities c) = c_id c" "c_generation (canonicalize_entities c) = c_generation c"
  "c_kind (canonicalize_entities c) = c_kind c" "c_scope (canonicalize_entities c) = c_scope c"
  by (simp_all add: canonicalize_entities_def)

lemma validate_canonicalize_entities:
  assumes "validate_constraint c l = Ok"
  shows "validate_constraint (canonicalize_entities c) l = Ok"
proof -
  have w: "list_within (sort_unique xs) m" if "list_within xs m" for xs :: "u64 list" and m
    using that length_sort_unique_le [of xs] by (simp add: list_within_def)
  have v: "all_valid (sort_unique xs) = all_valid xs" for xs
    by (simp add: all_valid_def list_all_iff)
  have "validate_common c l = Ok" "validate_payload c = Ok"
    using assms by (simp_all add: validate_constraint_Ok)
  then have "validate_common (canonicalize_entities c) l = Ok"
    unfolding validate_common_def by (simp add: gate_simps canonicalize_entities_def w v split: if_splits)
  moreover have "validate_payload (canonicalize_entities c) = validate_payload c"
    by (cases "c_kind c") (simp_all add: validate_payload_def canonicalize_entities_def any_entity_list_def)
  ultimately show ?thesis using \<open>validate_payload c = Ok\<close> by (simp add: validate_constraint_Ok)
qed

lemma canonicalize_constraints_Inr:
  "canonicalize_constraints l cs = Inr (out, d) \<longleftrightarrow>
     (\<forall>c\<in>set cs. validate_constraint c l = Ok) \<and> out = map canonicalize_entities cs \<and>
     d = concat (map entity_defects cs)"
proof (cases "\<forall>c\<in>set cs. validate_constraint c l = Ok")
  case True
  then have "canonicalize_constraints l cs = Inr (map canonicalize_entities cs, concat (map entity_defects cs))"
    by (induction cs) simp_all
  then show ?thesis using True by auto
next
  case False
  have "canonicalize_constraints l cs = Inr p \<Longrightarrow> \<forall>c\<in>set cs. validate_constraint c l = Ok" for p
    by (induction cs arbitrary: p) (auto split: sum.splits if_splits)
  then show ?thesis using False by blast
qed

definition agrees :: "(constraint_id \<Rightarrow> byte list option) \<Rightarrow> constraint \<Rightarrow> bool" where
  "agrees m c \<longleftrightarrow> (\<forall>p. m (c_id c) = Some p \<longrightarrow> p = encode_constraint_payload c)"

lemma check_identities_iff:
  "check_identities m cs \<longleftrightarrow>
     (\<forall>c\<in>set cs. \<forall>b\<in>set cs. c_id c = c_id b \<longrightarrow> encode_constraint_payload c = encode_constraint_payload b) \<and>
     (\<forall>c\<in>set cs. agrees m c)"
proof (induction cs arbitrary: m)
  case (Cons c cs)
  let ?e = encode_constraint_payload
  let ?pairs = "\<lambda>cs. \<forall>c\<in>set cs. \<forall>b\<in>set cs. c_id c = c_id b \<longrightarrow> ?e c = ?e b"
  have pairs: "?pairs (c # cs) \<longleftrightarrow> ?pairs cs \<and> (\<forall>b\<in>set cs. c_id b = c_id c \<longrightarrow> ?e b = ?e c)"
  proof -
    define Q where "Q a b \<longleftrightarrow> (c_id a = c_id b \<longrightarrow> ?e a = ?e b)" for a b
    have "Q a b \<longleftrightarrow> Q b a" "Q a a" for a b by (auto simp: Q_def)
    then have "(\<forall>a\<in>set (c # cs). \<forall>b\<in>set (c # cs). Q a b) \<longleftrightarrow>
        (\<forall>a\<in>set cs. \<forall>b\<in>set cs. Q a b) \<and> (\<forall>b\<in>set cs. Q b c)"
      by auto
    then show ?thesis by (simp only: Q_def)
  qed
  have agr: "(\<forall>b\<in>set (c # cs). agrees m b) \<longleftrightarrow> agrees m c \<and> (\<forall>b\<in>set cs. agrees m b)" by simp
  show ?case
  proof (cases "m (c_id c)")
    case None
    then have "(\<forall>b\<in>set cs. agrees (m(c_id c := Some (?e c))) b) \<longleftrightarrow>
        (\<forall>b\<in>set cs. agrees m b \<and> (c_id b = c_id c \<longrightarrow> ?e b = ?e c))"
      by (auto simp: agrees_def)
    moreover have "agrees m c" using None by (simp add: agrees_def)
    moreover have "check_identities m (c # cs) = check_identities (m(c_id c := Some (?e c))) cs"
      using None by simp
    ultimately show ?thesis unfolding pairs agr Cons.IH by blast
  next
    case (Some p)
    then have "agrees m c \<longleftrightarrow> p = ?e c"
      and "p = ?e c \<Longrightarrow> agrees m b \<Longrightarrow> c_id b = c_id c \<Longrightarrow> ?e b = ?e c" for b
      by (auto simp: agrees_def)
    moreover have "check_identities m (c # cs) \<longleftrightarrow> p = ?e c \<and> check_identities m cs"
      using Some by simp
    ultimately show ?thesis unfolding pairs agr Cons.IH by blast
  qed
qed simp

definition consistent_ids :: "constraint list \<Rightarrow> bool" where
  "consistent_ids cs \<longleftrightarrow> (\<forall>c\<in>set cs. \<forall>b\<in>set cs. c_id c = c_id b \<longrightarrow> equivalent_payload c b)"

lemma check_identities_consistent:
  assumes "\<forall>c\<in>set cs. lists_fit c"
  shows "check_identities (\<lambda>_. None) cs \<longleftrightarrow> consistent_ids cs"
  using assms encode_constraint_payload_iff
  by (simp add: check_identities_iff consistent_ids_def agrees_def)

text \<open>The collapse loop keeps the first constraint of every run of equal payloads.\<close>

fun first_of_runs :: "constraint \<Rightarrow> constraint list \<Rightarrow> constraint list" where
  "first_of_runs p [] = []"
| "first_of_runs p (c # cs) = (if equivalent_payload p c then first_of_runs p cs else c # first_of_runs c cs)"

definition collapse :: "constraint list \<Rightarrow> constraint list" where
  "collapse cs = (case cs of [] \<Rightarrow> [] | c # rest \<Rightarrow> c # first_of_runs c rest)"

lemma collapse_loop_runs:
  "acc \<noteq> [] \<Longrightarrow> fst (collapse_loop acc d cs) = acc @ first_of_runs (last acc) cs"
  by (induction cs arbitrary: acc d) auto

lemma collapse_loop_collapse: "fst (collapse_loop [] d cs) = collapse cs"
  by (cases cs) (simp_all add: collapse_def collapse_loop_runs)

lemma set_first_of_runs: "set (first_of_runs p cs) \<subseteq> set cs"
  by (induction p cs rule: first_of_runs.induct) auto

lemma set_collapse: "set (collapse cs) \<subseteq> set cs"
  using set_first_of_runs by (cases cs) (force simp: collapse_def)+

lemma length_first_of_runs: "length (first_of_runs p cs) \<le> length cs"
  by (induction p cs rule: first_of_runs.induct) auto

lemma length_collapse: "length (collapse cs) \<le> length cs"
  using length_first_of_runs by (cases cs) (simp_all add: collapse_def)

lemma first_of_runs_covers:
  "c \<in> set cs \<Longrightarrow> \<exists>d\<in>set (p # first_of_runs p cs). equivalent_payload d c"
  by (induction p cs rule: first_of_runs.induct) (auto split: if_splits)

lemma collapse_covers: "c \<in> set cs \<Longrightarrow> \<exists>d\<in>set (collapse cs). equivalent_payload d c"
  by (cases cs) (use first_of_runs_covers in \<open>auto simp: collapse_def\<close>)

abbreviation canonical_sorted :: "constraint list \<Rightarrow> bool" where
  "canonical_sorted cs \<equiv> sorted (map canonical_key cs)"

lemma canonical_key_le_payload: "canonical_key a \<le> canonical_key b \<Longrightarrow> payload_key a \<le> payload_key b"
  by (auto simp: canonical_key_def)

lemma first_of_runs_strict:
  "canonical_sorted (p # cs) \<Longrightarrow> sorted_wrt (<) (map payload_key (p # first_of_runs p cs))"
proof (induction p cs rule: first_of_runs.induct)
  case (2 p c cs)
  show ?case
  proof (cases "equivalent_payload p c")
    case True
    then show ?thesis using 2(1) [OF True] 2(3) by simp
  next
    case False
    have "payload_key p \<le> payload_key c"
      using 2(3) by (auto intro: canonical_key_le_payload)
    then have lt: "payload_key p < payload_key c"
      using False by (simp add: order_less_le payload_key_eq)
    have IH: "sorted_wrt (<) (map payload_key (c # first_of_runs c cs))"
      using 2(2) [OF False] 2(3) by simp
    then show ?thesis using lt False by (auto intro: less_trans)
  qed
qed simp

lemma collapse_strict: "canonical_sorted cs \<Longrightarrow> sorted_wrt (<) (map payload_key (collapse cs))"
  by (cases cs) (use first_of_runs_strict in \<open>auto simp: collapse_def\<close>)

lemma payload_less_canonical: "payload_key a < payload_key b \<Longrightarrow> canonical_less a b"
  by (simp add: canonical_less_key canonical_key_def)

lemma strict_payload_canonical:
  "sorted_wrt (<) (map payload_key cs) \<Longrightarrow> sorted_wrt canonical_less cs"
  by (induction cs) (auto simp: payload_less_canonical)

lemma collapse_id: "sorted_wrt (<) (map payload_key cs) \<Longrightarrow> collapse cs = cs"
proof (cases cs)
  case (Cons c rest)
  assume "sorted_wrt (<) (map payload_key cs)"
  then have "sorted_wrt (<) (map payload_key (c # rest))" using Cons by simp
  then have "first_of_runs c rest = rest"
    by (induction c rest rule: first_of_runs.induct) (auto simp: payload_key_eq [symmetric])
  then show ?thesis by (simp add: collapse_def Cons)
qed (simp add: collapse_def)

lemma distinct_ids_of_strict:
  assumes "sorted_wrt (<) (map payload_key cs)" "consistent_ids cs"
  shows "distinct (map c_id cs)"
proof -
  have d: "distinct (map payload_key cs)" using assms(1) strict_sorted_iff by blast
  have "inj_on c_id (set cs)"
  proof (rule inj_onI)
    fix a b assume ab: "a \<in> set cs" "b \<in> set cs" "c_id a = c_id b"
    then have "payload_key a = payload_key b"
      using assms(2) by (simp add: consistent_ids_def payload_key_eq)
    then show "a = b" using d ab by (simp add: distinct_map inj_on_def)
  qed
  moreover have "distinct cs" using d by (simp add: distinct_map)
  ultimately show ?thesis by (simp add: distinct_map)
qed

lemma consistent_ids_subset: "consistent_ids cs \<Longrightarrow> set ds \<subseteq> set cs \<Longrightarrow> consistent_ids ds"
  by (auto simp: consistent_ids_def)

text \<open>The canonical form of a list of constraints.\<close>

definition canonical_form :: "constraint list \<Rightarrow> constraint list" where
  "canonical_form cs = collapse (stable_sort canonical_less (map canonicalize_entities cs))"

lemma canonical_form_perm: "mset cs = mset ds \<Longrightarrow> canonical_form cs = canonical_form ds"
  unfolding canonical_form_def by (metis canonical.stable_sort_perm mset_map)

lemma canonical_form_strict: "sorted_wrt (<) (map payload_key (canonical_form cs))"
  unfolding canonical_form_def by (rule collapse_strict) (rule canonical.sorted_keys)

lemma set_canonical_form: "set (canonical_form cs) \<subseteq> canonicalize_entities ` set cs"
  using set_collapse unfolding canonical_form_def by fastforce

lemma canonical_form_covers:
  "c \<in> set cs \<Longrightarrow> \<exists>d\<in>set (canonical_form cs). equivalent_payload d (canonicalize_entities c)"
  unfolding canonical_form_def by (rule collapse_covers) simp

lemma length_canonical_form: "length (canonical_form cs) \<le> length cs"
  using length_collapse [of "stable_sort canonical_less (map canonicalize_entities cs)"]
  by (simp add: canonical_form_def)

lemma canonicalize_constraint_set_Inr:
  "(\<exists>d. canonicalize_constraint_set s l = Inr (out, d)) \<longleftrightarrow>
     validate_limits l \<and> cs_id s \<noteq> 0 \<and> cs_generation s \<noteq> 0 \<and>
     length (cs_constraints s) \<le> unat (max_constraints_per_set l) \<and>
     length (cs_name s) \<le> unat (max_name_bytes l) \<and>
     (\<forall>c\<in>set (cs_constraints s). validate_constraint c l = Ok) \<and>
     consistent_ids (map canonicalize_entities (cs_constraints s)) \<and>
     out = (let t = s\<lparr>cs_constraints := canonical_form (cs_constraints s)\<rparr>
            in t\<lparr>cs_digest := constraint_set_digest t\<rparr>)"
  (is "?L \<longleftrightarrow> ?R")
proof (cases "\<forall>c\<in>set (cs_constraints s). validate_constraint c l = Ok")
  case True
  let ?cs = "map canonicalize_entities (cs_constraints s)"
  let ?d = "concat (map entity_defects (cs_constraints s))"
  have loop: "canonicalize_constraints l (cs_constraints s) = Inr (?cs, ?d)"
    using True by (simp add: canonicalize_constraints_Inr)
  have "\<forall>c\<in>set ?cs. lists_fit c"
    using True validate_canonicalize_entities validate_lists_fit by (force simp: validate_constraint_Ok)
  then have ids: "check_identities (\<lambda>_. None) ?cs \<longleftrightarrow> consistent_ids ?cs"
    by (rule check_identities_consistent)
  obtain defects where col: "collapse_loop [] ?d (stable_sort canonical_less ?cs) =
      (canonical_form (cs_constraints s), defects)"
    using collapse_loop_collapse by (metis canonical_form_def prod.collapse)
  show ?thesis
    unfolding canonicalize_constraint_set_def loop
    using True by (auto simp: ids col is_valid_def Let_def not_less)
next
  case False
  have no: "canonicalize_constraints l (cs_constraints s) \<noteq> Inr p" for p
    using False canonicalize_constraints_Inr [of l "cs_constraints s"] by (cases p) auto
  then have "\<not> ?L"
    unfolding canonicalize_constraint_set_def
    by (auto split: if_splits sum.splits)
  then show ?thesis using False by blast
qed

lemma verify_constraints_Ok:
  "verify_constraints l prev cs = Ok \<longleftrightarrow>
     (\<forall>c\<in>set cs. validate_constraint c l = Ok \<and> canonical_entities c) \<and>
     adjacent (\<lambda>a b. canonical_less a b \<and> c_id a \<noteq> c_id b) (case prev of None \<Rightarrow> cs | Some p \<Rightarrow> p # cs)"
  by (induction l prev cs rule: verify_constraints.induct)
     (auto simp: canonical_entities_def split: option.splits if_splits)

subsection \<open>Finalised sets\<close>

lemma digest_cong:
  "cs_id a = cs_id b \<Longrightarrow> cs_generation a = cs_generation b \<Longrightarrow> cs_constraints a = cs_constraints b \<Longrightarrow>
   cs_evidence a = cs_evidence b \<Longrightarrow> cs_ranking a = cs_ranking b \<Longrightarrow>
   constraint_set_digest a = constraint_set_digest b"
  by (simp add: constraint_set_digest_def)

lemma digest_stored [simp]: "constraint_set_digest (s\<lparr>cs_digest := d\<rparr>) = constraint_set_digest s"
  by (rule digest_cong) simp_all

text \<open>What canonicalisation establishes.\<close>

definition canonical_constraints :: "limits \<Rightarrow> constraint list \<Rightarrow> bool" where
  "canonical_constraints l cs \<longleftrightarrow>
     (\<forall>c\<in>set cs. validate_constraint c l = Ok \<and> canonical_entities c) \<and>
     sorted_wrt (<) (map payload_key cs) \<and> distinct (map c_id cs)"

lemma canonical_form_canonical:
  assumes v: "\<forall>c\<in>set cs. validate_constraint c l = Ok"
    and ids: "consistent_ids (map canonicalize_entities cs)"
  shows "canonical_constraints l (canonical_form cs)"
proof -
  have sub: "set (canonical_form cs) \<subseteq> set (map canonicalize_entities cs)"
    using set_canonical_form by simp
  have "distinct (map c_id (canonical_form cs))"
    by (rule distinct_ids_of_strict [OF canonical_form_strict consistent_ids_subset [OF ids sub]])
  moreover have "validate_constraint c l = Ok \<and> canonical_entities c" if "c \<in> set (canonical_form cs)" for c
    using subsetD [OF sub that] v by (auto intro: validate_canonicalize_entities)
  ultimately show ?thesis by (simp add: canonical_constraints_def canonical_form_strict)
qed

lemma canonical_constraints_verified:
  assumes "canonical_constraints l cs"
  shows "verify_constraints l None cs = Ok"
proof -
  have s: "sorted_wrt canonical_less cs" and d: "distinct (map c_id cs)"
    using assms strict_payload_canonical by (auto simp: canonical_constraints_def)
  have "adjacent (\<lambda>a b. canonical_less a b \<and> c_id a \<noteq> c_id b) cs"
    using s d by (induction cs rule: induct_list012) auto
  then show ?thesis
    using assms by (simp add: verify_constraints_Ok canonical_constraints_def)
qed

lemma canonical_form_fixed:
  assumes "canonical_constraints l cs"
  shows "canonical_form cs = cs"
proof -
  have "map canonicalize_entities cs = cs"
    using assms by (simp add: canonical_constraints_def canonicalize_entities_id map_idI)
  moreover have "stable_sort canonical_less cs = cs"
  proof (rule canonical.stable_sort_id)
    have "sorted_wrt canonical_less cs"
      using assms strict_payload_canonical by (simp add: canonical_constraints_def)
    then show "sorted_wrt (\<lambda>a b. \<not> canonical_less b a) cs"
      by (rule sorted_wrt_mono_rel [rotated]) (rule canonical.less_asym)
  qed
  ultimately show ?thesis
    using assms by (simp add: canonical_form_def collapse_id canonical_constraints_def)
qed

lemma collapse_loop_defects:
  "sorted_wrt (<) (map payload_key (acc @ cs)) \<Longrightarrow> snd (collapse_loop acc d cs) = d"
proof (induction cs arbitrary: acc)
  case (Cons c cs)
  have "acc \<noteq> [] \<Longrightarrow> payload_key (last acc) < payload_key c"
    using Cons.prems by (auto simp: sorted_wrt_append)
  then have "\<not> (acc \<noteq> [] \<and> equivalent_payload (last acc) c)"
    by (auto simp: payload_key_eq [symmetric])
  then have "collapse_loop acc d (c # cs) = collapse_loop (acc @ [c]) d cs"
    by (simp only: collapse_loop.simps if_False)
  then show ?case using Cons.IH [of "acc @ [c]"] Cons.prems by simp
qed simp

lemma canonical_entities_defects:
  "\<forall>c\<in>set cs. canonical_entities c \<Longrightarrow> concat (map entity_defects cs) = []"
  by (simp add: entity_defects_canonical)

lemma canonicalize_constraints_Inl: "canonicalize_constraints l cs \<noteq> Inl Ok"
  by (induction cs) (auto split: sum.splits)

lemma canonicalize_constraint_set_Inl: "canonicalize_constraint_set s l \<noteq> Inl Ok"
  using canonicalize_constraints_Inl [of l "cs_constraints s"]
  by (auto simp: canonicalize_constraint_set_def Let_def split: sum.splits prod.splits)

lemma finalize_Ok:
  assumes "fst (validate_and_finalize_constraint_set s l) = Ok"
  shows "\<exists>d. canonicalize_constraint_set s l = Inr (fst (snd (validate_and_finalize_constraint_set s l)), d)"
    and "detect_contradictions (fst (snd (validate_and_finalize_constraint_set s l))) l = (Ok, [])"
proof -
  obtain out d where c: "canonicalize_constraint_set s l = Inr (out, d)"
    using assms canonicalize_constraint_set_Inl [of s l]
    by (cases "canonicalize_constraint_set s l") (auto simp: validate_and_finalize_constraint_set_def)
  then have "fst (detect_contradictions out l) = Ok" and
    f: "fst (snd (validate_and_finalize_constraint_set s l)) = out"
    using assms by (auto simp: validate_and_finalize_constraint_set_def split: prod.splits if_splits)
  then show "\<exists>d. canonicalize_constraint_set s l = Inr (fst (snd (validate_and_finalize_constraint_set s l)), d)"
    and "detect_contradictions (fst (snd (validate_and_finalize_constraint_set s l))) l = (Ok, [])"
    using c by (auto simp: detect_contradictions_def split: if_splits)
qed

lemma requirements_eta [simp]:
  "\<lparr> er_topology = er_topology e, er_link_state = er_link_state e, er_capability = er_capability e,
     er_failure_domain = er_failure_domain e, er_policy = er_policy e, er_planner = er_planner e,
     er_path_authority = er_path_authority e, er_max_evidence_age_ticks = er_max_evidence_age_ticks e \<rparr> = e"
  by simp

lemma constraint_set_eta [simp]:
  "\<lparr> cs_id = cs_id s, cs_generation = cs_generation s, cs_state = cs_state s, cs_name = cs_name s,
     cs_constraints = cs_constraints s, cs_evidence = cs_evidence s, cs_ranking = cs_ranking s,
     cs_digest = cs_digest s, cs_declared_tick = cs_declared_tick s \<rparr> = s"
  by simp

definition requirements_wire :: "evidence_requirements \<Rightarrow> bool" where
  "requirements_wire e \<longleftrightarrow> gen_ok (er_topology e) \<and> gen_ok (er_link_state e) \<and> gen_ok (er_capability e) \<and>
     gen_ok (er_failure_domain e) \<and> gen_ok (er_policy e) \<and> gen_ok (er_planner e) \<and> gen_ok (er_path_authority e)"

lemma parses_requirements [codec_rt]:
  assumes "requirements_wire e"
  shows "parses read_requirements (write_requirements e) e"
proof -
  note w = assms [unfolded requirements_wire_def]
  show ?thesis
    unfolding read_requirements_def write_requirements_def
    by (rule codec_steps | rule parses_generation_field, use w in \<open>simp; fail\<close> | simp; fail)+
qed

definition wire_constraint_set :: "constraint_set \<Rightarrow> limits \<Rightarrow> bool" where
  "wire_constraint_set s l \<longleftrightarrow> verify_canonical_constraint_set s l = Ok \<and>
     is_representable (cs_generation s) \<and> length (cs_name s) \<le> unat (max_name_bytes l) \<and>
     (\<forall>c\<in>set (cs_constraints s). is_representable (c_generation c)) \<and>
     requirements_wire (cs_evidence s) \<and> length (cs_digest s) = 32"

lemma verify_canonical_OkD:
  assumes "verify_canonical_constraint_set s l = Ok"
  shows "cs_id s \<noteq> 0" "cs_generation s \<noteq> 0" "length (cs_constraints s) \<le> unat (max_constraints_per_set l)"
    "\<forall>c\<in>set (cs_constraints s). validate_constraint c l = Ok \<and> canonical_entities c"
    "cs_digest s = constraint_set_digest s" "contradictions_of s = []"
    "sorted_wrt canonical_less (cs_constraints s)"
proof -
  have v: "verify_constraints l None (cs_constraints s) = Ok"
    and "cs_id s \<noteq> 0" "cs_generation s \<noteq> 0" "length (cs_constraints s) \<le> unat (max_constraints_per_set l)"
      "cs_digest s = constraint_set_digest s" "fst (detect_contradictions s l) = Ok"
    using assms unfolding verify_canonical_constraint_set_def is_valid_def
    by (simp_all add: gate_simps split: if_splits)
  then show "cs_id s \<noteq> 0" "cs_generation s \<noteq> 0" "length (cs_constraints s) \<le> unat (max_constraints_per_set l)"
    "cs_digest s = constraint_set_digest s" "contradictions_of s = []"
    by (simp_all add: detect_contradictions_def split: if_splits)
  show "\<forall>c\<in>set (cs_constraints s). validate_constraint c l = Ok \<and> canonical_entities c"
    using v by (simp add: verify_constraints_Ok)
  have "adjacent (\<lambda>a b. canonical_less a b \<and> c_id a \<noteq> c_id b) cs \<Longrightarrow> adjacent canonical_less cs" for cs
    by (induction cs rule: induct_list012) auto
  then have "adjacent canonical_less (cs_constraints s)"
    using v by (simp add: verify_constraints_Ok)
  moreover have "transp canonical_less"
    by (rule transpI) (rule canonical.less_trans)
  ultimately show "sorted_wrt canonical_less (cs_constraints s)"
    by (simp add: adjacent_sorted_wrt)
qed

lemma parses_decode_constraint_set [codec_rt]:
  assumes w: "wire_constraint_set s l"
  shows "parses (decode_constraint_set l) (encode_constraint_set s) s"
proof -
  have v: "verify_canonical_constraint_set s l = Ok" using w by (simp add: wire_constraint_set_def)
  note d = verify_canonical_OkD [OF v]
  have "wire_constraint c l" if "c \<in> set (cs_constraints s)" for c
    using d(4) w that by (auto simp: wire_constraint_def wire_constraint_set_def canonical_entities_def)
  then have pc: "parses (read_counted (max_constraints_per_set l) (decode_constraint l))
      (write_counted encode_constraint (cs_constraints s)) (cs_constraints s)"
    by (intro parses_counted parses_decode_constraint d(3))
  have ps: "parses rd_string (put_string (cs_name s)) (cs_name s)"
    by (rule parses_string) (use w unat_u32_less in \<open>auto simp: wire_constraint_set_def\<close>)
  have pr: "parses read_requirements (write_requirements (cs_evidence s)) (cs_evidence s)"
    "parses (rd_raw 32) (put_raw (cs_digest s)) (cs_digest s)"
    using w by (auto simp: wire_constraint_set_def intro: parses_requirements parses_raw)
  note steps = codec_steps pc ps pr parses_ranking_policy
  show ?thesis
    unfolding decode_constraint_set_def encode_constraint_set_def Let_def
    by (rule steps | simp; fail | use w d(1) v in \<open>simp add: wire_constraint_set_def; fail\<close>)+
qed

lemma regular_decode_constraint_set [simp, intro]: "regular (decode_constraint_set l)"
  unfolding decode_constraint_set_def Let_def read_requirements_def read_generation_field_def read_counted_def
  by (auto intro!: regular_bind regular_guard regular_repeat)

end
