(* ===== verification/Evaluator.thy ===== *)
theory Evaluator
  imports Constraint_Set
begin

text \<open>
  The pure evaluator (\<open>evaluator.hpp\<close>, \<open>evaluator.cpp\<close>): evidence lookups, the seventeen mandatory
  checks, preference slots, the nine precedence stages of \<open>evaluate_candidate\<close>, the bounded
  canonical reason vector, and \<open>evaluate_batch\<close>. A check is the list of reasons it pushes, in
  the order of its pushes; \<open>push_reason\<close> then bounds them per constraint.
\<close>

subsection \<open>Context and state\<close>

record evaluation_context =
  ctx_set :: "constraint_set option"
  ctx_current :: evidence_requirements
  ctx_requested_set_generation :: generation
  ctx_limits :: "limits option"
  ctx_now_tick :: u64
  ctx_provenance :: provenance
  ctx_generation :: generation
  ctx_authority_verified :: bool

record eval_state =
  es_reasons :: "reason list"
  es_truncated :: bool

definition kMaxReasonsPerConstraint :: nat where
  "kMaxReasonsPerConstraint = 8"

definition push_reason :: "eval_state \<Rightarrow> reason \<Rightarrow> eval_state" where
  "push_reason st r =
     (let emitted = length (filter (\<lambda>existing. r_constraint_ordinal existing = r_constraint_ordinal r) (es_reasons st))
      in if emitted \<ge> kMaxReasonsPerConstraint then st\<lparr>es_truncated := True\<rparr>
         else st\<lparr>es_reasons := es_reasons st @ [r\<lparr>r_class := reason_class_of (r_code r)\<rparr>]\<rparr>)"

definition default_reason :: reason where
  "default_reason = \<lparr> r_code = RC_None, r_class = RK_ResourceAdmission, r_constraint = 0,
     r_constraint_kind = CK_Unset, r_constraint_ordinal = 0, r_family = EF_None,
     r_subject_kind = SK_None, r_subject = 0, r_expected = 0, r_actual = 0 \<rparr>"

definition make_reason ::
  "constraint \<Rightarrow> u32 \<Rightarrow> reason_code \<Rightarrow> evidence_family \<Rightarrow> subject_kind \<Rightarrow> u64 \<Rightarrow> u64 \<Rightarrow> u64 \<Rightarrow> reason" where
  "make_reason c ordinal code family subject_kind subject expected actual =
     \<lparr> r_code = code, r_class = reason_class_of code, r_constraint = c_id c, r_constraint_kind = c_kind c,
       r_constraint_ordinal = ordinal, r_family = family, r_subject_kind = subject_kind,
       r_subject = subject, r_expected = expected, r_actual = actual \<rparr>"

definition families_of :: "constraint \<Rightarrow> evidence_family_mask" where
  "families_of c =
     (if c_kind c = CK_MaxLatency then
        if c_latency_source c = LS_PlannerCost then family_bit EF_Planner else family_bit EF_LinkState
      else evidence_families (c_kind c))"

subsection \<open>Evidence lookups\<close>

text \<open>\<open>std::lower_bound\<close> by key followed by the equality test on the element it finds.\<close>

definition find_by :: "('r \<Rightarrow> 'k::linorder) \<Rightarrow> 'r list \<Rightarrow> 'k \<Rightarrow> 'r option" where
  "find_by key values wanted =
     (case dropWhile (\<lambda>ref. key ref < wanted) values of
        [] \<Rightarrow> None
      | found # _ \<Rightarrow> if key found \<noteq> wanted then None else Some found)"

definition find_locality :: "locality_ref list \<Rightarrow> domain_kind \<Rightarrow> locality_ref option" where
  "find_locality values kind = find_by lr_kind values kind"

definition find_domain :: "failure_domain_ref list \<Rightarrow> domain_kind \<Rightarrow> failure_domain_ref option" where
  "find_domain values kind = find_by fr_kind values kind"

definition find_capability :: "capability_ref list \<Rightarrow> capability_id \<Rightarrow> capability_ref option" where
  "find_capability values capability = find_by cr_capability values capability"

definition find_isolation :: "isolation_attestation list \<Rightarrow> isolation_class_id \<Rightarrow> isolation_attestation option" where
  "find_isolation values isolation_class = find_by ia_class values isolation_class"

definition find_policy :: "policy_attestation list \<Rightarrow> policy_id \<Rightarrow> policy_attestation option" where
  "find_policy values policy = find_by pa_policy values policy"

record entity_view =
  ent_identity :: u64
  ent_kind :: subject_kind
  ent_domains :: "failure_domain_ref list"
  ent_capabilities :: "capability_ref list"
  ent_isolation :: "isolation_attestation list"

definition entities_of :: "candidate_path \<Rightarrow> entity_view list" where
  "entities_of c =
     map (\<lambda>node. \<lparr> ent_identity = nf_node node, ent_kind = SK_Node, ent_domains = nf_domains node,
                   ent_capabilities = nf_capabilities node, ent_isolation = nf_isolation node \<rparr>) (cp_nodes c) @
     map (\<lambda>link. \<lparr> ent_identity = lf_link link, ent_kind = SK_Link, ent_domains = lf_domains link,
                   ent_capabilities = lf_capabilities link, ent_isolation = lf_isolation link \<rparr>) (cp_links c)"

subsection \<open>Mandatory checks\<close>

definition check_max_latency :: "constraint \<Rightarrow> u32 \<Rightarrow> candidate_path \<Rightarrow> reason list" where
  "check_max_latency c ordinal cand =
     (let wanted_family = (if c_latency_source c = LS_PlannerCost then EF_Planner else EF_LinkState);
          lat = cp_latency cand
      in if le_source lat = LS_Unset then
           [make_reason c ordinal RC_LatencyEvidenceUnavailable wanted_family SK_CandidatePath (cp_path cand)
              (ucast (latency_source_value (c_latency_source c))) 0]
         else if le_source lat \<noteq> c_latency_source c then
           [make_reason c ordinal RC_LatencyEvidenceUnavailable wanted_family SK_CandidatePath (cp_path cand)
              (ucast (latency_source_value (c_latency_source c))) (ucast (latency_source_value (le_source lat)))]
         else if sint (le_micros lat) > sint (c_bound c) then
           [make_reason c ordinal RC_MaxLatencyExceeded wanted_family SK_CandidatePath (cp_path cand)
              (c_bound c) (le_micros lat)]
         else [])"

definition check_min_bandwidth :: "constraint \<Rightarrow> u32 \<Rightarrow> evidence_requirements \<Rightarrow> candidate_path \<Rightarrow> reason list" where
  "check_min_bandwidth c ordinal current cand =
     (case path_bandwidth_capability cand (er_capability current) of
        None \<Rightarrow> [make_reason c ordinal RC_BandwidthCapabilityUnavailable EF_Capability SK_CandidatePath (cp_path cand)
                   (c_bound c) 0]
      | Some bottleneck \<Rightarrow>
          if sint bottleneck < sint (c_bound c) then
            [make_reason c ordinal RC_MinBandwidthCapabilityNotMet EF_Capability SK_CandidatePath (cp_path cand)
               (c_bound c) bottleneck]
          else [])"

definition check_max_hop_count :: "constraint \<Rightarrow> u32 \<Rightarrow> candidate_path \<Rightarrow> reason list" where
  "check_max_hop_count c ordinal cand =
     (let hops = (ucast (cp_hop_count cand) :: i64)
      in if sint hops > sint (c_bound c) then
           [make_reason c ordinal RC_MaxHopCountExceeded EF_Planner SK_CandidatePath (cp_path cand) (c_bound c) hops]
         else [])"

definition check_required_node :: "constraint \<Rightarrow> u32 \<Rightarrow> candidate_path \<Rightarrow> reason list" where
  "check_required_node c ordinal cand =
     map (\<lambda>wanted. make_reason c ordinal RC_RequiredNodeAbsent EF_Topology SK_Node wanted 0 0)
       (filter (\<lambda>wanted. \<not> list_ex (\<lambda>node. nf_node node = wanted) (cp_nodes cand)) (c_nodes c))"

definition check_forbidden_node :: "constraint \<Rightarrow> u32 \<Rightarrow> candidate_path \<Rightarrow> reason list" where
  "check_forbidden_node c ordinal cand =
     concat (map (\<lambda>forbidden. concat (map (\<lambda>node.
         if nf_node node = forbidden
         then [make_reason c ordinal RC_ForbiddenNodePresent EF_Topology SK_Node forbidden 0 0] else [])
       (cp_nodes cand))) (c_nodes c))"

definition check_required_link :: "constraint \<Rightarrow> u32 \<Rightarrow> candidate_path \<Rightarrow> reason list" where
  "check_required_link c ordinal cand =
     map (\<lambda>wanted. make_reason c ordinal RC_RequiredLinkAbsent EF_Topology SK_Link wanted 0 0)
       (filter (\<lambda>wanted. \<not> list_ex (\<lambda>link. lf_link link = wanted) (cp_links cand)) (c_links c))"

definition check_forbidden_link :: "constraint \<Rightarrow> u32 \<Rightarrow> candidate_path \<Rightarrow> reason list" where
  "check_forbidden_link c ordinal cand =
     concat (map (\<lambda>forbidden. concat (map (\<lambda>link.
         if lf_link link = forbidden
         then [make_reason c ordinal RC_ForbiddenLinkPresent EF_Topology SK_Link forbidden 0 0] else [])
       (cp_links cand))) (c_links c))"

definition check_required_tier :: "constraint \<Rightarrow> u32 \<Rightarrow> candidate_path \<Rightarrow> reason list" where
  "check_required_tier c ordinal cand =
     concat (map (\<lambda>node.
       if \<not> is_valid (nf_tier node) then
         [make_reason c ordinal RC_TierEvidenceUnavailable EF_Topology SK_Node (nf_node node) 0 0]
       else if \<not> binary_search (c_tiers c) (nf_tier node) then
         [make_reason c ordinal RC_RequiredTierNotMet EF_Topology SK_Node (nf_node node) 0 (nf_tier node)]
       else []) (cp_nodes cand))"

definition check_forbidden_tier :: "constraint \<Rightarrow> u32 \<Rightarrow> candidate_path \<Rightarrow> reason list" where
  "check_forbidden_tier c ordinal cand =
     concat (map (\<lambda>node.
       if \<not> is_valid (nf_tier node) then
         (if c_unknown_policy c = FailClosed
          then [make_reason c ordinal RC_TierEvidenceUnavailable EF_Topology SK_Node (nf_node node) 0 0] else [])
       else if binary_search (c_tiers c) (nf_tier node) then
         [make_reason c ordinal RC_ForbiddenTierPresent EF_Topology SK_Node (nf_node node) 0 (nf_tier node)]
       else []) (cp_nodes cand))"

definition check_required_site :: "constraint \<Rightarrow> u32 \<Rightarrow> candidate_path \<Rightarrow> reason list" where
  "check_required_site c ordinal cand =
     concat (map (\<lambda>node.
       if \<not> is_valid (nf_site node) then
         [make_reason c ordinal RC_SiteEvidenceUnavailable EF_Topology SK_Node (nf_node node) 0 0]
       else if \<not> binary_search (c_sites c) (nf_site node) then
         [make_reason c ordinal RC_RequiredSiteNotMet EF_Topology SK_Node (nf_node node) 0 (nf_site node)]
       else []) (cp_nodes cand))"

definition check_forbidden_site :: "constraint \<Rightarrow> u32 \<Rightarrow> candidate_path \<Rightarrow> reason list" where
  "check_forbidden_site c ordinal cand =
     concat (map (\<lambda>node.
       if \<not> is_valid (nf_site node) then
         (if c_unknown_policy c = FailClosed
          then [make_reason c ordinal RC_SiteEvidenceUnavailable EF_Topology SK_Node (nf_node node) 0 0] else [])
       else if binary_search (c_sites c) (nf_site node) then
         [make_reason c ordinal RC_ForbiddenSitePresent EF_Topology SK_Node (nf_node node) 0 (nf_site node)]
       else []) (cp_nodes cand))"

definition check_locality_scope :: "constraint \<Rightarrow> u32 \<Rightarrow> candidate_path \<Rightarrow> reason list" where
  "check_locality_scope c ordinal cand =
     concat (map (\<lambda>node.
       case find_locality (nf_localities node) (c_domain_kind c) of
         None \<Rightarrow> [make_reason c ordinal RC_LocalityEvidenceUnavailable EF_Topology SK_Node (nf_node node)
                    (c_locality_domain c) 0]
       | Some membership \<Rightarrow>
           if lr_domain membership \<noteq> c_locality_domain c then
             [make_reason c ordinal RC_LocalityScopeViolated EF_Topology SK_Node (nf_node node)
                (c_locality_domain c) (lr_domain membership)]
           else []) (cp_nodes cand))"

definition check_isolation_class :: "constraint \<Rightarrow> u32 \<Rightarrow> evidence_requirements \<Rightarrow> candidate_path \<Rightarrow> reason list" where
  "check_isolation_class c ordinal current cand =
     concat (map (\<lambda>entity.
       case find_isolation (ent_isolation entity) (c_isolation_class c) of
         None \<Rightarrow>
           (case ent_isolation entity of
              [] \<Rightarrow> [make_reason c ordinal RC_IsolationEvidenceUnavailable EF_FailureDomain (ent_kind entity)
                       (ent_identity entity) (c_isolation_class c) 0]
            | front # _ \<Rightarrow> [make_reason c ordinal RC_IsolationClassNotProven EF_FailureDomain (ent_kind entity)
                       (ent_identity entity) (c_isolation_class c) (ia_class front)])
       | Some proof_ref \<Rightarrow>
           if ia_generation proof_ref \<noteq> er_failure_domain current then
             [make_reason c ordinal RC_IsolationEvidenceUnavailable EF_FailureDomain (ent_kind entity)
                (ent_identity entity) (er_failure_domain current) (ia_generation proof_ref)]
           else []) (entities_of cand))"

definition check_required_capability :: "constraint \<Rightarrow> u32 \<Rightarrow> evidence_requirements \<Rightarrow> candidate_path \<Rightarrow> reason list" where
  "check_required_capability c ordinal current cand =
     concat (map (\<lambda>wanted. concat (map (\<lambda>entity.
       case find_capability (ent_capabilities entity) wanted of
         None \<Rightarrow> [make_reason c ordinal RC_CapabilityEvidenceUnavailable EF_Capability (ent_kind entity)
                    (ent_identity entity) wanted 0]
       | Some ref \<Rightarrow>
           if cr_generation ref \<noteq> er_capability current then
             [make_reason c ordinal RC_CapabilityEvidenceUnavailable EF_Capability (ent_kind entity)
                (ent_identity entity) (er_capability current) (cr_generation ref)]
           else []) (entities_of cand))) (c_capabilities c))"

definition check_forbidden_capability :: "constraint \<Rightarrow> u32 \<Rightarrow> evidence_requirements \<Rightarrow> candidate_path \<Rightarrow> reason list" where
  "check_forbidden_capability c ordinal current cand =
     concat (map (\<lambda>forbidden. concat (map (\<lambda>entity.
       case find_capability (ent_capabilities entity) forbidden of
         None \<Rightarrow>
           (if c_unknown_policy c = FailClosed
            then [make_reason c ordinal RC_CapabilityEvidenceUnavailable EF_Capability (ent_kind entity)
                    (ent_identity entity) forbidden 0] else [])
       | Some ref \<Rightarrow>
           if cr_generation ref \<noteq> er_capability current then
             [make_reason c ordinal RC_CapabilityEvidenceUnavailable EF_Capability (ent_kind entity)
                (ent_identity entity) (er_capability current) (cr_generation ref)]
           else [make_reason c ordinal RC_ForbiddenCapabilityPresent EF_Capability (ent_kind entity)
                (ent_identity entity) forbidden 0]) (entities_of cand))) (c_capabilities c))"

record domain_scan =
  scan_complete :: bool
  scan_first_incomplete_entity :: u64
  scan_first_incomplete_kind :: subject_kind
  scan_domains_found :: "u64 list"

text \<open>\<open>scan.domains\<close> is a \<open>std::set\<close>: the sorted list of its elements.\<close>

definition scan_domains :: "candidate_path \<Rightarrow> domain_kind \<Rightarrow> domain_scan" where
  "scan_domains cand kind =
     (let incomplete = filter (\<lambda>e. find_domain (ent_domains e) kind = None) (entities_of cand)
      in \<lparr> scan_complete = (incomplete = []),
           scan_first_incomplete_entity = (case incomplete of [] \<Rightarrow> 0 | e # _ \<Rightarrow> ent_identity e),
           scan_first_incomplete_kind = (case incomplete of [] \<Rightarrow> SK_Node | e # _ \<Rightarrow> ent_kind e),
           scan_domains_found = sort_unique (concat (map (\<lambda>e. case find_domain (ent_domains e) kind of
               None \<Rightarrow> [] | Some ref \<Rightarrow> [fr_domain ref]) (entities_of cand))) \<rparr>)"

definition check_required_domain_relation :: "constraint \<Rightarrow> u32 \<Rightarrow> candidate_path \<Rightarrow> reason list" where
  "check_required_domain_relation c ordinal cand =
     (let scan = scan_domains cand (c_domain_kind c);
          distinct_count = (word_of_nat (length (scan_domains_found scan)) :: i64)
      in if \<not> scan_complete scan then
           [make_reason c ordinal RC_FailureDomainEvidenceUnavailable EF_FailureDomain
              (scan_first_incomplete_kind scan) (scan_first_incomplete_entity scan) 0 0]
         else if sint distinct_count < sint (c_bound c) then
           [make_reason c ordinal RC_RequiredFailureDomainRelationNotMet EF_FailureDomain SK_FailureDomain
              (ucast (domain_kind_value (c_domain_kind c))) (c_bound c) distinct_count]
         else [])"

definition check_forbidden_domain_relation :: "constraint \<Rightarrow> u32 \<Rightarrow> candidate_path \<Rightarrow> reason list" where
  "check_forbidden_domain_relation c ordinal cand =
     (let scan = scan_domains cand (c_domain_kind c);
          fail_closed = (c_unknown_policy c = FailClosed);
          distinct_count = (word_of_nat (length (scan_domains_found scan)) :: i64)
      in if \<not> scan_complete scan \<and> fail_closed then
           [make_reason c ordinal RC_FailureDomainEvidenceUnavailable EF_FailureDomain
              (scan_first_incomplete_kind scan) (scan_first_incomplete_entity scan) 0 0]
         else if c_domain_relation c = DR_Shared then
           (if scan_complete scan \<and> length (scan_domains_found scan) = 1 then
              [make_reason c ordinal RC_ForbiddenFailureDomainRelationMet EF_FailureDomain SK_FailureDomain
                 (ucast (domain_kind_value (c_domain_kind c))) 0 (hd (scan_domains_found scan))]
            else [])
         else if sint distinct_count \<ge> sint (c_bound c) then
           [make_reason c ordinal RC_ForbiddenFailureDomainRelationMet EF_FailureDomain SK_FailureDomain
              (ucast (domain_kind_value (c_domain_kind c))) (c_bound c) distinct_count]
         else [])"

definition check_administrative_policy :: "constraint \<Rightarrow> u32 \<Rightarrow> evidence_requirements \<Rightarrow> candidate_path \<Rightarrow> reason list" where
  "check_administrative_policy c ordinal current cand =
     concat (map (\<lambda>wanted.
       case find_policy (cp_policies cand) wanted of
         None \<Rightarrow> [make_reason c ordinal RC_AdministrativePolicyNotSatisfied EF_Policy SK_Policy wanted 0 0]
       | Some attestation \<Rightarrow>
           if pa_generation attestation \<noteq> er_policy current then
             [make_reason c ordinal RC_PolicyEvidenceUnavailable EF_Policy SK_Policy wanted
                (er_policy current) (pa_generation attestation)]
           else []) (c_policies c))"

definition mandatory_reasons :: "constraint \<Rightarrow> u32 \<Rightarrow> evidence_requirements \<Rightarrow> candidate_path \<Rightarrow> reason list" where
  "mandatory_reasons c ordinal current cand = (case c_kind c of
      CK_MaxLatency \<Rightarrow> check_max_latency c ordinal cand
    | CK_MinBandwidthCapability \<Rightarrow> check_min_bandwidth c ordinal current cand
    | CK_MaxHopCount \<Rightarrow> check_max_hop_count c ordinal cand
    | CK_RequiredNode \<Rightarrow> check_required_node c ordinal cand
    | CK_ForbiddenNode \<Rightarrow> check_forbidden_node c ordinal cand
    | CK_RequiredLink \<Rightarrow> check_required_link c ordinal cand
    | CK_ForbiddenLink \<Rightarrow> check_forbidden_link c ordinal cand
    | CK_RequiredTier \<Rightarrow> check_required_tier c ordinal cand
    | CK_ForbiddenTier \<Rightarrow> check_forbidden_tier c ordinal cand
    | CK_RequiredSite \<Rightarrow> check_required_site c ordinal cand
    | CK_ForbiddenSite \<Rightarrow> check_forbidden_site c ordinal cand
    | CK_LocalityScope \<Rightarrow> check_locality_scope c ordinal cand
    | CK_IsolationClass \<Rightarrow> check_isolation_class c ordinal current cand
    | CK_RequiredCapability \<Rightarrow> check_required_capability c ordinal current cand
    | CK_ForbiddenCapability \<Rightarrow> check_forbidden_capability c ordinal current cand
    | CK_RequiredFailureDomainRelation \<Rightarrow> check_required_domain_relation c ordinal cand
    | CK_ForbiddenFailureDomainRelation \<Rightarrow> check_forbidden_domain_relation c ordinal cand
    | CK_AdministrativePolicy \<Rightarrow> check_administrative_policy c ordinal current cand
    | CK_Unset \<Rightarrow> [])"

definition evaluate_mandatory ::
  "evidence_requirements \<Rightarrow> candidate_path \<Rightarrow> eval_state \<Rightarrow> u32 \<times> constraint \<Rightarrow> eval_state" where
  "evaluate_mandatory current cand st p = foldl push_reason st (mandatory_reasons (snd p) (fst p) current cand)"

subsection \<open>Preferences\<close>

definition evaluate_preference ::
  "evidence_requirements \<Rightarrow> candidate_path \<Rightarrow> u32 \<times> constraint \<Rightarrow> preference_slot" where
  "evaluate_preference current cand p =
     (let ordinal = fst p; c = snd p;
          scratch = evaluate_mandatory current cand \<lparr> es_reasons = [], es_truncated = False \<rparr> p;
          plain = (es_reasons scratch = []);
          (satisfied, margin) = (case c_kind c of
              CK_MaxLatency \<Rightarrow>
                (if le_source (cp_latency cand) \<noteq> c_latency_source c then (False, 0)
                 else (sint (le_micros (cp_latency cand)) \<le> sint (c_bound c), c_bound c - le_micros (cp_latency cand)))
            | CK_MinBandwidthCapability \<Rightarrow>
                (case path_bandwidth_capability cand (er_capability current) of
                   None \<Rightarrow> (False, 0)
                 | Some bottleneck \<Rightarrow> (sint bottleneck \<ge> sint (c_bound c), bottleneck - c_bound c))
            | CK_MaxHopCount \<Rightarrow>
                (let hops = (ucast (cp_hop_count cand) :: i64)
                 in (sint hops \<le> sint (c_bound c), c_bound c - hops))
            | CK_RequiredFailureDomainRelation \<Rightarrow>
                (let scan = scan_domains cand (c_domain_kind c);
                     distinct_count = (word_of_nat (length (scan_domains_found scan)) :: i64)
                 in if \<not> scan_complete scan then (False, 0)
                    else (sint distinct_count \<ge> sint (c_bound c), distinct_count - c_bound c))
            | _ \<Rightarrow> (plain, if plain then 1 else 0))
      in \<lparr> ps_constraint = c_id c, ps_kind = c_kind c, ps_constraint_ordinal = ordinal,
           ps_rank = c_preference_rank c, ps_weight = c_preference_weight c,
           ps_satisfied = satisfied, ps_margin = margin \<rparr>)"

definition slot_less :: "preference_slot \<Rightarrow> preference_slot \<Rightarrow> bool" where
  "slot_less a b \<longleftrightarrow> (if ps_rank a \<noteq> ps_rank b then ps_rank a < ps_rank b
                      else ps_constraint_ordinal a < ps_constraint_ordinal b)"

subsection \<open>Evidence generations\<close>

definition evidence_generation_of :: "evidence_generation_set \<Rightarrow> evidence_family \<Rightarrow> u64" where
  "evidence_generation_of e family = (case family of
      EF_Topology \<Rightarrow> eg_topology e
    | EF_LinkState \<Rightarrow> eg_link_state e
    | EF_Capability \<Rightarrow> eg_capability e
    | EF_FailureDomain \<Rightarrow> eg_failure_domain e
    | EF_Policy \<Rightarrow> eg_policy e
    | EF_Planner \<Rightarrow> eg_planner e
    | EF_PathAuthority \<Rightarrow> eg_path_authority e
    | _ \<Rightarrow> 0)"

definition required_generation_of :: "evidence_requirements \<Rightarrow> evidence_family \<Rightarrow> u64" where
  "required_generation_of e family = (case family of
      EF_Topology \<Rightarrow> er_topology e
    | EF_LinkState \<Rightarrow> er_link_state e
    | EF_Capability \<Rightarrow> er_capability e
    | EF_FailureDomain \<Rightarrow> er_failure_domain e
    | EF_Policy \<Rightarrow> er_policy e
    | EF_Planner \<Rightarrow> er_planner e
    | EF_PathAuthority \<Rightarrow> er_path_authority e
    | _ \<Rightarrow> 0)"

definition staleness_code :: "evidence_family \<Rightarrow> reason_code" where
  "staleness_code family = (case family of
      EF_Topology \<Rightarrow> RC_StaleTopologyEvidence
    | EF_LinkState \<Rightarrow> RC_StaleLinkStateEvidence
    | EF_Capability \<Rightarrow> RC_StaleCapabilityEvidence
    | EF_FailureDomain \<Rightarrow> RC_StaleFailureDomainEvidence
    | EF_Policy \<Rightarrow> RC_StalePolicyEvidence
    | EF_Planner \<Rightarrow> RC_StalePlannerEvidence
    | EF_PathAuthority \<Rightarrow> RC_StalePathAuthority
    | _ \<Rightarrow> RC_EvidenceNotBound)"

definition set_state_reason :: "constraint_set \<Rightarrow> reason_code \<Rightarrow> reason" where
  "set_state_reason s code = default_reason\<lparr> r_code := code, r_class := reason_class_of code,
     r_family := EF_ConstraintSet, r_subject_kind := SK_ConstraintSet, r_subject := cs_id s,
     r_expected := cs_generation s \<rparr>"

definition lifecycle_reason :: "constraint_set_state \<Rightarrow> reason_code" where
  "lifecycle_reason state = (case state of
      Declared \<Rightarrow> RC_ConstraintSetNotActive
    | Active \<Rightarrow> RC_None
    | Suspended \<Rightarrow> RC_ConstraintSetSuspended
    | RevalidationRequired \<Rightarrow> RC_ConstraintSetRevalidationRequired
    | Revoked \<Rightarrow> RC_ConstraintSetRevoked
    | Superseded \<Rightarrow> RC_ConstraintSetSuperseded
    | Retired \<Rightarrow> RC_ConstraintSetRetired)"

subsection \<open>Reason vectors\<close>

text \<open>The bounding loop of \<open>canonicalize_reasons\<close>: \<open>break\<close> when the vector is full, \<open>continue\<close> when a
  new constraint does not fit.\<close>

fun bound_reasons :: "limits \<Rightarrow> reason list \<Rightarrow> constraint_id list \<Rightarrow> reason list \<Rightarrow> reason list" where
  "bound_reasons l kept represented [] = kept"
| "bound_reasons l kept represented (r # rs) =
     (if length kept \<ge> unat (max_explanation_reasons l) then kept
      else if is_valid (r_constraint r) \<and> r_constraint r \<notin> set represented then
        (if length represented \<ge> unat (max_failed_constraints_per_evaluation l)
         then bound_reasons l kept represented rs
         else bound_reasons l (kept @ [r]) (r_constraint r # represented) rs)
      else bound_reasons l (kept @ [r]) represented rs)"

definition canonicalize_reasons :: "reason list \<Rightarrow> limits \<Rightarrow> reason list" where
  "canonicalize_reasons rs l = bound_reasons l [] [] (stable_sort reason_less rs)"

fun best_reason :: "reason \<Rightarrow> reason list \<Rightarrow> reason" where
  "best_reason best [] = best"
| "best_reason best (r # rs) = best_reason (if reason_less r best then r else best) rs"

definition primary_reason_of :: "reason list \<Rightarrow> reason_code" where
  "primary_reason_of rs = (case rs of [] \<Rightarrow> RC_None | r # rest \<Rightarrow> r_code (best_reason r rest))"

definition outcome_from_reasons :: "reason list \<Rightarrow> bool \<Rightarrow> outcome" where
  "outcome_from_reasons rs has_preferences =
     (if rs = [] then if has_preferences then Out_AdmissibleWithPreferences else Out_Admissible
      else outcome_of_reason (primary_reason_of rs))"

subsection \<open>The precedence stages\<close>

text \<open>Each stage is entered only when no earlier stage has produced a reason; it returns the
  reasons it appends.\<close>

definition candidate_reason :: "candidate_path \<Rightarrow> reason_code \<Rightarrow> evidence_family \<Rightarrow> u64 \<Rightarrow> u64 \<Rightarrow> reason" where
  "candidate_reason cand code family expected actual = default_reason\<lparr> r_code := code,
     r_class := reason_class_of code, r_family := family, r_subject_kind := SK_CandidatePath,
     r_subject := cp_path cand, r_expected := expected, r_actual := actual \<rparr>"

definition stage_resource_admission :: "constraint_set \<Rightarrow> limits \<Rightarrow> reason list" where
  "stage_resource_admission s l =
     (if length (cs_constraints s) > unat (max_constraints_per_set l) then
        [default_reason\<lparr> r_code := RC_TooManyConstraints, r_class := RK_ResourceAdmission,
           r_subject_kind := SK_ConstraintSet, r_subject := cs_id s,
           r_expected := ucast (max_constraints_per_set l),
           r_actual := word_of_nat (length (cs_constraints s)) \<rparr>]
      else [])"

definition stage_structure :: "constraint_set \<Rightarrow> limits \<Rightarrow> candidate_path \<Rightarrow> reason list" where
  "stage_structure s l cand =
     (if verify_canonical_constraint_set s l \<noteq> Ok then
        [default_reason\<lparr> r_code := RC_MalformedConstraint, r_class := RK_WireDecode,
           r_subject_kind := SK_ConstraintSet, r_subject := cs_id s \<rparr>] else []) @
     (if validate_candidate cand l \<noteq> Ok then
        [candidate_reason cand
           (if validate_candidate cand l = ResourceLimit then RC_TooManyEntityRefs else RC_MalformedCandidate)
           EF_None 0 0] else [])"

definition stage_caller_identity :: "evaluation_context \<Rightarrow> reason list" where
  "stage_caller_identity ctx =
     (let complete = (is_valid (pv_epoch (ctx_provenance ctx)) \<and> is_valid (pv_publisher (ctx_provenance ctx)) \<and>
            is_valid (pv_worker_boot (ctx_provenance ctx)) \<and> is_valid (pv_attempt (ctx_provenance ctx)))
      in if \<not> ctx_authority_verified ctx \<and> \<not> complete then
           [default_reason\<lparr> r_code := RC_MissingAuthorityContext, r_class := RK_CallerIdentity,
              r_subject_kind := SK_Coordinator \<rparr>]
         else [])"

definition stage_lifecycle :: "evaluation_context \<Rightarrow> constraint_set \<Rightarrow> reason list" where
  "stage_lifecycle ctx s =
     (if lifecycle_reason (cs_state s) \<noteq> RC_None then [set_state_reason s (lifecycle_reason (cs_state s))]
      else if is_valid (ctx_requested_set_generation ctx) \<and> ctx_requested_set_generation ctx \<noteq> cs_generation s then
        [(set_state_reason s RC_StaleConstraintSetGeneration)\<lparr>
           r_expected := ctx_requested_set_generation ctx, r_actual := cs_generation s \<rparr>]
      else [])"

text \<open>\<open>version_of\<close> accepts every enumerator, so its branch is not reachable for the datatype.\<close>

definition stage_path_authority :: "evidence_requirements \<Rightarrow> candidate_path \<Rightarrow> reason list" where
  "stage_path_authority current cand =
     (if \<not> is_valid (cp_authority_generation cand) then
        [candidate_reason cand RC_PathAuthorityGenerationMissing EF_PathAuthority 0 0]
      else if \<not> is_valid (er_path_authority current) then
        [candidate_reason cand RC_EvidenceNotBound EF_PathAuthority 0 0]
      else if cp_authority_generation cand \<noteq> er_path_authority current then
        [candidate_reason cand RC_StalePathAuthority EF_PathAuthority
           (er_path_authority current) (cp_authority_generation cand)]
      else if \<not> path_authority_verdict_value (cp_authority_verdict cand) \<le> 2 then
        [candidate_reason cand RC_MalformedCandidate EF_None 0 0]
      else if cp_authority_verdict cand = PV_NotEvaluated then
        [candidate_reason cand RC_PathAuthorityNotEvaluated EF_PathAuthority 0 0]
      else if cp_authority_verdict cand = PV_Rejected then
        [candidate_reason cand RC_PathNotLegal EF_PathAuthority 0 0]
      else [])"

definition consulted_families :: "constraint_set \<Rightarrow> evidence_family_mask" where
  "consulted_families s =
     (let m = foldl (\<lambda>m c. m OR families_of c) (0 OR family_bit EF_PathAuthority) (cs_constraints s)
      in if rp_consume_planner_cost (cs_ranking s) then m OR family_bit EF_Planner else m)"

definition currentness_families :: "evidence_family list" where
  "currentness_families = [EF_Topology, EF_LinkState, EF_Capability, EF_FailureDomain, EF_Policy, EF_Planner]"

definition family_reasons :: "evidence_requirements \<Rightarrow> candidate_path \<Rightarrow> evidence_family_mask \<Rightarrow> evidence_family \<Rightarrow> reason list" where
  "family_reasons current cand consulted family =
     (if consulted AND family_bit family = 0 then []
      else if required_generation_of current family = 0 then [candidate_reason cand RC_EvidenceNotBound family 0 0]
      else if evidence_generation_of (cp_evidence cand) family \<noteq> required_generation_of current family then
        [candidate_reason cand (staleness_code family) family
           (required_generation_of current family) (evidence_generation_of (cp_evidence cand) family)]
      else [])"

definition stage_currentness :: "evaluation_context \<Rightarrow> constraint_set \<Rightarrow> candidate_path \<Rightarrow> evidence_family_mask \<Rightarrow> reason list" where
  "stage_currentness ctx s cand consulted =
     (if consulted = 0 then []
      else concat (map (family_reasons (ctx_current ctx) cand consulted) currentness_families) @
        (if er_max_evidence_age_ticks (ctx_current ctx) > 0 \<and> eg_captured_tick (cp_evidence cand) \<noteq> 0 \<and>
            ctx_now_tick ctx > eg_captured_tick (cp_evidence cand) \<and>
            ctx_now_tick ctx - eg_captured_tick (cp_evidence cand) > er_max_evidence_age_ticks (ctx_current ctx) then
           [candidate_reason cand RC_EvidenceAgeExceeded EF_ConstraintSet
              (er_max_evidence_age_ticks (ctx_current ctx)) (ctx_now_tick ctx - eg_captured_tick (cp_evidence cand))]
         else []) @
        (if rp_consume_planner_cost (cs_ranking s) \<and> cp_has_planner_cost cand \<and>
            cp_cost_model cand \<noteq> rp_expected_cost_model (cs_ranking s) then
           [candidate_reason cand RC_PlannerCostModelMismatch EF_Planner
              (ucast (planner_cost_model_value (rp_expected_cost_model (cs_ranking s))))
              (ucast (planner_cost_model_value (cp_cost_model cand)))]
         else []))"

definition or_else :: "'a list \<Rightarrow> 'a list \<Rightarrow> 'a list" where
  "or_else xs ys = (if xs = [] then ys else xs)"

definition gate_reasons :: "evaluation_context \<Rightarrow> constraint_set \<Rightarrow> limits \<Rightarrow> candidate_path \<Rightarrow> reason list" where
  "gate_reasons ctx s l cand =
     or_else (stage_resource_admission s l)
     (or_else (stage_structure s l cand)
     (or_else (stage_caller_identity ctx)
     (or_else (stage_lifecycle ctx s)
     (or_else (stage_path_authority (ctx_current ctx) cand)
              (stage_currentness ctx s cand (consulted_families s))))))"

text \<open>The constraints paired with their ordinals, as the loops of stages 8 and 9 visit them.\<close>

definition ordinal_constraints :: "constraint_set \<Rightarrow> (u32 \<times> constraint) list" where
  "ordinal_constraints s = map (\<lambda>i. (word_of_nat i, cs_constraints s ! i)) [0..<length (cs_constraints s)]"

definition stage_mandatory :: "evaluation_context \<Rightarrow> constraint_set \<Rightarrow> candidate_path \<Rightarrow> eval_state \<Rightarrow> eval_state" where
  "stage_mandatory ctx s cand st =
     foldl (\<lambda>st p. if c_scope (snd p) \<noteq> Mandatory then st else evaluate_mandatory (ctx_current ctx) cand st p)
       st (ordinal_constraints s)"

definition stage_preferences :: "evaluation_context \<Rightarrow> constraint_set \<Rightarrow> candidate_path \<Rightarrow> preference_slot list" where
  "stage_preferences ctx s cand =
     stable_sort slot_less (map (evaluate_preference (ctx_current ctx) cand)
       (filter (\<lambda>p. c_scope (snd p) = Preference) (ordinal_constraints s)))"

text \<open>\<open>evaluate_candidate\<close>: the reasons of the first seven stages, then those of the mandatory
  constraints, then the preferences when nothing failed, then the record with its digest.\<close>

definition collected_reasons :: "evaluation_context \<Rightarrow> constraint_set \<Rightarrow> limits \<Rightarrow> candidate_path \<Rightarrow> eval_state" where
  "collected_reasons ctx s l cand =
     (let st0 = \<lparr> es_reasons = gate_reasons ctx s l cand, es_truncated = False \<rparr>
      in if es_reasons st0 = [] then stage_mandatory ctx s cand st0 else st0)"

definition candidate_record ::
  "evaluation_context \<Rightarrow> constraint_set \<Rightarrow> limits \<Rightarrow> candidate_path \<Rightarrow> eval_state \<Rightarrow> evaluation_record" where
  "candidate_record ctx s l cand st =
     (let preferences = (if es_reasons st = [] then stage_preferences ctx s cand else []);
          reasons = canonicalize_reasons (es_reasons st) l
      in \<lparr> ev_id = derived_evaluation_id (cs_id s) (cs_generation s) (cp_path cand)
                     (cp_authority_generation cand) (cp_evidence cand),
           ev_generation = ctx_generation ctx, ev_set_id = cs_id s, ev_set_generation = cs_generation s,
           ev_path = cp_path cand, ev_authority_generation = cp_authority_generation cand,
           ev_outcome = outcome_from_reasons reasons (preferences \<noteq> []),
           ev_primary_reason = primary_reason_of reasons, ev_reasons = reasons,
           ev_preferences = preferences, ev_evidence = cp_evidence cand,
           ev_consulted = consulted_families s, ev_provenance = ctx_provenance ctx,
           ev_state = RS_Current,
           ev_reasons_truncated = (es_truncated st \<or> length reasons < length (es_reasons st)),
           ev_committed_tick = ctx_now_tick ctx, ev_digest = zero_digest \<rparr>)"

definition evaluate_candidate :: "evaluation_context \<Rightarrow> candidate_path \<Rightarrow> evaluation_record result" where
  "evaluate_candidate ctx cand = (case (ctx_set ctx, ctx_limits ctx) of
      (Some s, Some l) \<Rightarrow>
        (if \<not> validate_limits l then Inl InvalidArgument
         else let record0 = candidate_record ctx s l cand (collected_reasons ctx s l cand)
              in Inr (record0\<lparr> ev_digest := evaluation_digest record0 \<rparr>))
    | _ \<Rightarrow> Inl InvalidArgument)"

subsection \<open>Batches\<close>

definition rejected_batch :: "evaluation_context \<Rightarrow> constraint_set \<Rightarrow> reason_code \<Rightarrow> evaluation_batch" where
  "rejected_batch ctx s code = \<lparr> eb_set_id = cs_id s, eb_set_generation = cs_generation s,
     eb_generation = ctx_generation ctx, eb_batch_outcome = BO_BatchRejected, eb_has_admissible = False,
     eb_records = [], eb_admissible_order = [], eb_primary_batch_reason = code \<rparr>"

fun conflicting_duplicates :: "candidate_path list \<Rightarrow> bool" where
  "conflicting_duplicates (a # b # rest) =
     ((cp_path a = cp_path b \<and> candidate_digest a \<noteq> candidate_digest b) \<or> conflicting_duplicates (b # rest))"
| "conflicting_duplicates _ = False"

fun drop_duplicates :: "candidate_path list \<Rightarrow> candidate_path list \<Rightarrow> candidate_path list" where
  "drop_duplicates canonical [] = canonical"
| "drop_duplicates canonical (c # cs) =
     (if canonical \<noteq> [] \<and> cp_path (last canonical) = cp_path c then drop_duplicates canonical cs
      else drop_duplicates (canonical @ [c]) cs)"

definition batch_primary_step :: "reason_code \<Rightarrow> evaluation_record \<Rightarrow> reason_code" where
  "batch_primary_step primary r =
     (if ev_primary_reason r \<noteq> RC_None \<and> reason_class_of (ev_primary_reason r) < reason_class_of primary
        then ev_primary_reason r
      else if reason_class_of (ev_primary_reason r) = reason_class_of primary \<and> ev_primary_reason r < primary
        then ev_primary_reason r
      else primary)"

definition evaluate_batch :: "evaluation_context \<Rightarrow> candidate_path list \<Rightarrow> evaluation_batch result" where
  "evaluate_batch ctx candidates = (case (ctx_set ctx, ctx_limits ctx) of
      (Some s, Some l) \<Rightarrow>
        (if length candidates > unat (max_candidates_per_evaluation l) then Inr (rejected_batch ctx s RC_TooManyCandidates)
         else if length candidates > unat (max_batch_size l) then Inr (rejected_batch ctx s RC_BatchTooLarge)
         else let ordered = stable_sort candidate_canonical_less candidates
              in if conflicting_duplicates ordered then Inr (rejected_batch ctx s RC_MalformedCandidate)
                 else let canonical = drop_duplicates [] ordered
                      in case traverse (evaluate_candidate ctx) canonical of
                           Inl e \<Rightarrow> Inl e
                         | Inr records \<Rightarrow>
                             let order = order_admissible records canonical (cs_ranking s);
                                 has_admissible = (order \<noteq> [])
                             in Inr \<lparr> eb_set_id = cs_id s, eb_set_generation = cs_generation s,
                                  eb_generation = ctx_generation ctx,
                                  eb_batch_outcome = (if has_admissible then BO_AdmissibleCandidatesAvailable
                                                      else BO_NoAdmissibleCandidate),
                                  eb_has_admissible = has_admissible, eb_records = records,
                                  eb_admissible_order = order,
                                  eb_primary_batch_reason =
                                    (if \<not> has_admissible \<and> records \<noteq> []
                                     then foldl batch_primary_step (ev_primary_reason (hd records)) records
                                     else RC_None) \<rparr>)
    | _ \<Rightarrow> Inl InvalidArgument)"

end
