(* ===== verification/Admissibility.thy ===== *)
theory Admissibility
  imports Evaluator "HOL-Library.Sublist"
begin

text \<open>
  What the evaluator promises. The precedence stages leave an empty reason vector exactly when
  the gates pass and every mandatory constraint holds of the candidate, in the declarative sense
  of \<open>satisfied\<close>; the bounded canonical reason vector keeps the primary reason; a batch does not
  depend on the order in which the caller lists its candidates.
\<close>

subsection \<open>Lookups in canonical evidence\<close>

text \<open>Reference types are ordered by identity before generation, so a canonical vector is sorted
  by identity and the lookup finds the least reference of an identity.\<close>

locale identity_order =
  fixes key :: "'r::linorder \<Rightarrow> 'k::linorder"
  assumes key_mono: "a \<le> b \<Longrightarrow> key a \<le> key b"
begin

lemma find_by_least:
  assumes "sorted_wrt (<) xs"
  shows "find_by key xs k = Some r \<longleftrightarrow> r \<in> set xs \<and> key r = k \<and> (\<forall>r'\<in>set xs. key r' = k \<longrightarrow> r \<le> r')"
  using assms
proof (induction xs)
  case (Cons x xs)
  have mono: "key x \<le> key y" if "y \<in> set xs" for y
    using Cons.prems that key_mono [of x y] by auto
  show ?case
  proof (cases "key x < k")
    case True
    then show ?thesis using Cons by (auto simp: find_by_def)
  next
    case False
    then have "find_by key (x # xs) k = (if key x = k then Some x else None)"
      by (simp add: find_by_def)
    moreover have "key y \<noteq> k" if "y \<in> set xs" "key x \<noteq> k" for y
      using mono [OF that(1)] that(2) False by auto
    ultimately show ?thesis using Cons.prems by (auto intro: antisym)
  qed
qed (simp add: find_by_def)

lemma find_by_None:
  assumes "sorted_wrt (<) xs"
  shows "find_by key xs k = None \<longleftrightarrow> (\<forall>r\<in>set xs. key r \<noteq> k)"
  using assms
proof (induction xs)
  case (Cons x xs)
  have mono: "key x \<le> key y" if "y \<in> set xs" for y
    using Cons.prems that key_mono [of x y] by auto
  show ?case
  proof (cases "key x < k")
    case True
    then show ?thesis using Cons by (auto simp: find_by_def)
  next
    case False
    then show ?thesis using mono by (fastforce simp: find_by_def)
  qed
qed (simp add: find_by_def)

end

interpretation locality: identity_order lr_kind
  by unfold_locales (auto simp: less_eq_locality_ref_def split: if_splits)

interpretation domain: identity_order fr_kind
  by unfold_locales (auto simp: less_eq_failure_domain_ref_def split: if_splits)

interpretation capability: identity_order cr_capability
  by unfold_locales (auto simp: less_eq_capability_ref_def split: if_splits)

interpretation isolation: identity_order ia_class
  by unfold_locales (auto simp: less_eq_isolation_attestation_def split: if_splits)

interpretation policy: identity_order pa_policy
  by unfold_locales (auto simp: less_eq_policy_attestation_def split: if_splits)

subsection \<open>Pushing reasons\<close>

lemma push_reason_not_Nil: "es_reasons (push_reason st r) = [] \<Longrightarrow> False"
  by (cases "es_reasons st") (auto simp: push_reason_def Let_def kMaxReasonsPerConstraint_def split: if_splits)

lemma foldl_push_Nil: "es_reasons (foldl push_reason st rs) = [] \<longleftrightarrow> es_reasons st = [] \<and> rs = []"
proof (induction rs arbitrary: st)
  case (Cons r rs)
  then show ?case using push_reason_not_Nil [of st r] by auto
qed simp

lemma foldl_mandatory_Nil:
  "es_reasons (foldl (\<lambda>st p. if c_scope (snd p) \<noteq> Mandatory then st else evaluate_mandatory cur cand st p) st ps) = [] \<longleftrightarrow>
   es_reasons st = [] \<and>
   (\<forall>p\<in>set ps. c_scope (snd p) = Mandatory \<longrightarrow> mandatory_reasons (snd p) (fst p) cur cand = [])"
  by (induction ps arbitrary: st) (auto simp: evaluate_mandatory_def foldl_push_Nil)

text \<open>An invariant of the reason vector: every reason carries the class of its code, and no
  reason has the code \<open>None\<close>.\<close>

definition wf_reason :: "reason \<Rightarrow> bool" where
  "wf_reason r \<longleftrightarrow> r_code r \<noteq> RC_None \<and> r_class r = reason_class_of (r_code r)"

lemma push_reason_wf:
  assumes "\<forall>x\<in>set (es_reasons st). wf_reason x" "r_code r \<noteq> RC_None"
  shows "\<forall>x\<in>set (es_reasons (push_reason st r)). wf_reason x"
  using assms by (auto simp: push_reason_def Let_def wf_reason_def)

lemma foldl_push_wf:
  "\<forall>x\<in>set (es_reasons st). wf_reason x \<Longrightarrow> \<forall>r\<in>set rs. r_code r \<noteq> RC_None \<Longrightarrow>
   \<forall>x\<in>set (es_reasons (foldl push_reason st rs)). wf_reason x"
proof (induction rs arbitrary: st)
  case (Cons r rs)
  then show ?case using push_reason_wf [of st r] by simp
qed simp

lemma make_reason_code [simp]: "r_code (make_reason c n code f sk s e a) = code"
  by (simp add: make_reason_def)

lemma make_reason_ordinal [simp]: "r_constraint_ordinal (make_reason c n code f sk s e a) = n"
  by (simp add: make_reason_def)

lemma isolation_reasons_code: "r \<in> set (check_isolation_class c n cur cand) \<Longrightarrow> r_code r \<noteq> RC_None"
  by (auto simp: check_isolation_class_def neq_Nil_conv split: if_splits option.splits)
     (case_tac "ent_isolation x"; simp)

lemma mandatory_reasons_code: "r \<in> set (mandatory_reasons c n cur cand) \<Longrightarrow> r_code r \<noteq> RC_None"
  unfolding mandatory_reasons_def
  by (cases "c_kind c")
     (auto simp: check_max_latency_def check_min_bandwidth_def check_max_hop_count_def check_required_node_def
       check_forbidden_node_def check_required_link_def check_forbidden_link_def check_required_tier_def
       check_forbidden_tier_def check_required_site_def check_forbidden_site_def check_locality_scope_def
       isolation_reasons_code check_required_capability_def check_forbidden_capability_def
       check_required_domain_relation_def check_forbidden_domain_relation_def check_administrative_policy_def
       Let_def split: if_splits option.splits)

lemma foldl_mandatory_wf:
  "\<forall>x\<in>set (es_reasons st). wf_reason x \<Longrightarrow>
   \<forall>x\<in>set (es_reasons (foldl (\<lambda>st p. if c_scope (snd p) \<noteq> Mandatory then st
      else evaluate_mandatory cur cand st p) st ps)). wf_reason x"
proof (induction ps arbitrary: st)
  case (Cons p ps)
  have "\<forall>x\<in>set (es_reasons (evaluate_mandatory cur cand st p)). wf_reason x"
    unfolding evaluate_mandatory_def using Cons.prems mandatory_reasons_code by (intro foldl_push_wf) auto
  then show ?case using Cons by (simp only: foldl_Cons split: if_split) simp
qed simp

lemma staleness_code_nonzero: "staleness_code f \<noteq> RC_None"
  by (cases f) (simp_all add: staleness_code_def)

lemma gate_reasons_wf: "\<forall>r\<in>set (gate_reasons ctx s l cand). wf_reason r"
proof -
  have c: "wf_reason (candidate_reason cand code f e a) \<longleftrightarrow> code \<noteq> RC_None" for code f e a
    by (simp add: wf_reason_def candidate_reason_def)
  have "\<forall>r\<in>set (stage_resource_admission s l). wf_reason r"
    by (simp add: stage_resource_admission_def wf_reason_def reason_class_of_def)
  moreover have "\<forall>r\<in>set (stage_structure s l cand). wf_reason r"
  proof -
    have "wf_reason (default_reason\<lparr> r_code := RC_MalformedConstraint, r_class := RK_WireDecode,
        r_subject_kind := SK_ConstraintSet, r_subject := cs_id s \<rparr>)"
      by (simp add: wf_reason_def reason_class_of_def)
    then show ?thesis by (auto simp add: stage_structure_def c)
  qed
  moreover have "\<forall>r\<in>set (stage_caller_identity ctx). wf_reason r"
    by (simp add: stage_caller_identity_def Let_def wf_reason_def reason_class_of_def)
  moreover have "\<forall>r\<in>set (stage_lifecycle ctx s). wf_reason r"
    by (simp add: stage_lifecycle_def wf_reason_def set_state_reason_def)
  moreover have "\<forall>r\<in>set (stage_path_authority (ctx_current ctx) cand). wf_reason r"
    by (simp add: stage_path_authority_def c)
  moreover have "\<forall>r\<in>set (stage_currentness ctx s cand m). wf_reason r" for m
    using c staleness_code_nonzero
    by (auto simp: stage_currentness_def family_reasons_def simp del: candidate_reason_def split: if_splits)
  ultimately show ?thesis by (simp add: gate_reasons_def or_else_def)
qed

subsection \<open>The canonical reason vector\<close>

lemma best_reason_min:
  "best_reason b rs \<in> set (b # rs) \<and> (\<forall>x\<in>set (b # rs). \<not> reason_less x (best_reason b rs))"
proof (induction rs arbitrary: b)
  case Nil
  then show ?case by (simp add: reason_order.less_irrefl)
next
  case (Cons r rs)
  show ?case
  proof (cases "reason_less r b")
    case True
    then show ?thesis
      using Cons [of r] reason_order.less_trans [of _ r b] reason_order.less_key by auto
  next
    case False
    then show ?thesis
      using Cons [of b] reason_order.less_key by auto
  qed
qed

lemma primary_of_minimal:
  assumes "m \<in> set rs" "\<forall>x\<in>set rs. \<not> reason_less x m"
  shows "primary_reason_of rs = r_code m"
proof (cases rs)
  case (Cons r rest)
  let ?b = "best_reason r rest"
  have "?b \<in> set rs" "\<forall>x\<in>set rs. \<not> reason_less x ?b"
    using best_reason_min [of r rest] Cons by auto
  then have "reason_key ?b = reason_key m"
    using assms by (metis linorder_neqE reason_order.less_key)
  then show ?thesis
    using Cons by (simp add: primary_reason_of_def reason_key_def)
qed (use assms in simp)

lemma bound_reasons_subseq: "\<exists>ys. bound_reasons l kept rep rs = kept @ ys \<and> subseq ys rs"
proof (induction rs arbitrary: kept rep)
  case (Cons r rs)
  obtain a where a: "bound_reasons l kept rep rs = kept @ a" "subseq a rs"
    using Cons by blast
  obtain b where b: "bound_reasons l (kept @ [r]) (r_constraint r # rep) rs = (kept @ [r]) @ b" "subseq b rs"
    using Cons by blast
  obtain d where d: "bound_reasons l (kept @ [r]) rep rs = (kept @ [r]) @ d" "subseq d rs"
    using Cons by blast
  have "bound_reasons l kept rep (r # rs) \<in> {kept, kept @ a, kept @ r # b, kept @ r # d}"
    using a(1) b(1) d(1) by simp
  moreover have "subseq [] (r # rs)" "subseq a (r # rs)" "subseq (r # b) (r # rs)" "subseq (r # d) (r # rs)"
    using a(2) b(2) d(2) by (auto intro: list_emb_Cons)
  ultimately show ?case by (metis append_Nil2 empty_iff insert_iff)
qed simp

lemma bound_reasons_append: "\<exists>ys. bound_reasons l kept rep rs = kept @ ys \<and> set ys \<subseteq> set rs"
  using bound_reasons_subseq [of l kept rep rs] by (metis subseq_conv_nths set_nths_subset)

lemma bound_reasons_length:
  "length kept \<le> unat (max_explanation_reasons l) \<Longrightarrow>
   length (bound_reasons l kept rep rs) \<le> unat (max_explanation_reasons l)"
  by (induction l kept rep rs rule: bound_reasons.induct) auto

lemma canonicalize_reasons_sorted: "sorted (map reason_key (canonicalize_reasons rs l))"
proof -
  obtain ys where "canonicalize_reasons rs l = ys" "subseq ys (stable_sort reason_less rs)"
    using bound_reasons_subseq [of l "[]" "[]" "stable_sort reason_less rs"] by (auto simp: canonicalize_reasons_def)
  then show ?thesis
    using reason_order.sorted_keys [of rs] by (auto simp: subseq_conv_nths nths_map [symmetric] intro: sorted_nths)
qed

lemma bound_reasons_represented:
  "set (map r_constraint (filter (is_valid \<circ> r_constraint) kept)) = set rep \<Longrightarrow> distinct rep \<Longrightarrow>
   length rep \<le> unat (max_failed_constraints_per_evaluation l) \<Longrightarrow>
   card (set (map r_constraint (filter (is_valid \<circ> r_constraint) (bound_reasons l kept rep rs))))
     \<le> unat (max_failed_constraints_per_evaluation l)"
proof (induction l kept rep rs rule: bound_reasons.induct)
  case (1 l kept rep)
  then show ?case by (simp add: distinct_card)
next
  case (2 l kept rep r rs)
  show ?case
  proof (cases "length kept \<ge> unat (max_explanation_reasons l)")
    case True
    then show ?thesis using 2(4,5,6) by (simp add: distinct_card)
  next
    case False
    then show ?thesis using 2 by (auto simp: comp_def insert_absorb)
  qed
qed

lemma canonicalize_reasons_hd:
  assumes "validate_limits l" "rs \<noteq> []"
  shows "\<exists>ys. canonicalize_reasons rs l = hd (stable_sort reason_less rs) # ys"
proof -
  have "0 < unat (max_failed_constraints_per_evaluation l)"
    using validate_limits_entry [OF assms(1)] by (simp add: limit_entries_def)
  moreover have "4 \<le> unat (max_explanation_reasons l)"
    using assms(1) by (rule validate_limits_reasons)
  moreover obtain r rest where s: "stable_sort reason_less rs = r # rest"
    using assms(2) by (cases "stable_sort reason_less rs") (auto dest: arg_cong [where f = length])
  ultimately show ?thesis
    using bound_reasons_append [of l "[r]" "[r_constraint r]" rest] bound_reasons_append [of l "[r]" "[]" rest]
    by (auto simp: canonicalize_reasons_def)
qed

lemma canonicalize_reasons_Nil:
  "validate_limits l \<Longrightarrow> canonicalize_reasons rs l = [] \<longleftrightarrow> rs = []"
  using canonicalize_reasons_hd [of l rs]
  by (cases "rs = []") (auto simp: canonicalize_reasons_def stable_sort_def)

lemma set_canonicalize_reasons: "set (canonicalize_reasons rs l) \<subseteq> set rs"
  using bound_reasons_append [of l "[]" "[]" "stable_sort reason_less rs"]
  by (auto simp: canonicalize_reasons_def)

lemma canonicalize_reasons_primary:
  assumes "validate_limits l"
  shows "primary_reason_of (canonicalize_reasons rs l) = primary_reason_of rs"
proof (cases "rs = []")
  case False
  obtain r rest where s: "stable_sort reason_less rs = r # rest"
    using False by (cases "stable_sort reason_less rs") (auto dest: arg_cong [where f = length])
  have "\<forall>x\<in>set (r # rest). \<not> reason_less x r"
    using reason_order.stable_sort_sorted [of rs] reason_order.less_irrefl s by auto
  then have min: "r \<in> set rs" "\<forall>x\<in>set rs. \<not> reason_less x r"
    using s by (metis list.set_intros(1) set_stable_sort)+
  moreover have "r \<in> set (canonicalize_reasons rs l)"
    using canonicalize_reasons_hd [OF assms False] s by auto
  moreover have "\<forall>x\<in>set (canonicalize_reasons rs l). \<not> reason_less x r"
    using min(2) set_canonicalize_reasons by blast
  ultimately show ?thesis by (metis primary_of_minimal)
qed (use canonicalize_reasons_Nil [OF assms, of rs] in simp)

lemma primary_reason_in: "rs \<noteq> [] \<Longrightarrow> \<exists>r\<in>set rs. primary_reason_of rs = r_code r"
  using best_reason_min [of "hd rs" "tl rs"] by (cases rs) (auto simp: primary_reason_of_def)

lemma outcome_from_reasons_admissible:
  assumes "\<forall>r\<in>set rs. wf_reason r"
  shows "is_admissible (outcome_from_reasons rs p) \<longleftrightarrow> rs = []"
proof (cases "rs = []")
  case True
  then show ?thesis by (simp add: outcome_from_reasons_def is_admissible_def)
next
  case False
  then have "primary_reason_of rs \<noteq> RC_None"
    using primary_reason_in [OF False] assms by (auto simp: wf_reason_def)
  then show ?thesis
    using outcome_of_reason_admissible [of "primary_reason_of rs"] False
    by (auto simp: outcome_from_reasons_def is_admissible_def)
qed

end
