(* ===== verification/Satisfaction.thy ===== *)
theory Satisfaction
  imports Admissibility
begin

text \<open>
  The declarative specification of admission. \<open>satisfied\<close> says, for each constraint kind, what a
  candidate must be for the constraint to hold, in terms of sets of nodes, links and attested
  references; \<open>gates_open\<close> says when the precedence stages before the constraints let a candidate
  through. \<open>evaluate_candidate\<close> is shown to admit a candidate exactly when both hold.
\<close>

subsection \<open>Specification\<close>

text \<open>The reference the lookup sees for an identity is the least one of that identity.\<close>

definition attested :: "('r::linorder \<Rightarrow> 'k) \<Rightarrow> 'r list \<Rightarrow> 'k \<Rightarrow> ('r \<Rightarrow> bool) \<Rightarrow> bool" where
  "attested key refs k P \<longleftrightarrow> (\<exists>r\<in>set refs. key r = k \<and> P r \<and> (\<forall>r'\<in>set refs. key r' = k \<longrightarrow> r \<le> r'))"

definition known :: "('r \<Rightarrow> 'k) \<Rightarrow> 'r list \<Rightarrow> 'k \<Rightarrow> bool" where
  "known key refs k \<longleftrightarrow> (\<exists>r\<in>set refs. key r = k)"

definition occupied_domains :: "candidate_path \<Rightarrow> domain_kind \<Rightarrow> u64 set" where
  "occupied_domains cand k =
     {d. \<exists>e\<in>set (entities_of cand). attested fr_kind (ent_domains e) k (\<lambda>r. fr_domain r = d)}"

definition domains_known :: "candidate_path \<Rightarrow> domain_kind \<Rightarrow> bool" where
  "domains_known cand k \<longleftrightarrow> (\<forall>e\<in>set (entities_of cand). known fr_kind (ent_domains e) k)"

definition path_nodes :: "candidate_path \<Rightarrow> node_id set" where
  "path_nodes cand = nf_node ` set (cp_nodes cand)"

definition path_links :: "candidate_path \<Rightarrow> link_id set" where
  "path_links cand = lf_link ` set (cp_links cand)"

definition satisfied :: "evidence_requirements \<Rightarrow> candidate_path \<Rightarrow> constraint \<Rightarrow> bool" where
  "satisfied cur cand c = (case c_kind c of
      CK_MaxLatency \<Rightarrow> le_source (cp_latency cand) = c_latency_source c \<and>
        sint (le_micros (cp_latency cand)) \<le> sint (c_bound c)
    | CK_MinBandwidthCapability \<Rightarrow> er_capability cur \<noteq> 0 \<and>
        (\<forall>k\<in>set (cp_links cand). link_capable (er_capability cur) k \<and> sint (c_bound c) \<le> link_bits k)
    | CK_MaxHopCount \<Rightarrow> int (length (cp_links cand)) \<le> sint (c_bound c)
    | CK_RequiredNode \<Rightarrow> set (c_nodes c) \<subseteq> path_nodes cand
    | CK_ForbiddenNode \<Rightarrow> set (c_nodes c) \<inter> path_nodes cand = {}
    | CK_RequiredLink \<Rightarrow> set (c_links c) \<subseteq> path_links cand
    | CK_ForbiddenLink \<Rightarrow> set (c_links c) \<inter> path_links cand = {}
    | CK_RequiredTier \<Rightarrow> nf_tier ` set (cp_nodes cand) \<subseteq> set (c_tiers c)
    | CK_ForbiddenTier \<Rightarrow> nf_tier ` set (cp_nodes cand) \<inter> set (c_tiers c) = {} \<and>
        (c_unknown_policy c = FailClosed \<longrightarrow> 0 \<notin> nf_tier ` set (cp_nodes cand))
    | CK_RequiredSite \<Rightarrow> nf_site ` set (cp_nodes cand) \<subseteq> set (c_sites c)
    | CK_ForbiddenSite \<Rightarrow> nf_site ` set (cp_nodes cand) \<inter> set (c_sites c) = {} \<and>
        (c_unknown_policy c = FailClosed \<longrightarrow> 0 \<notin> nf_site ` set (cp_nodes cand))
    | CK_LocalityScope \<Rightarrow> (\<forall>n\<in>set (cp_nodes cand).
        attested lr_kind (nf_localities n) (c_domain_kind c) (\<lambda>r. lr_domain r = c_locality_domain c))
    | CK_IsolationClass \<Rightarrow> (\<forall>e\<in>set (entities_of cand).
        attested ia_class (ent_isolation e) (c_isolation_class c) (\<lambda>r. ia_generation r = er_failure_domain cur))
    | CK_RequiredCapability \<Rightarrow> (\<forall>w\<in>set (c_capabilities c). \<forall>e\<in>set (entities_of cand).
        attested cr_capability (ent_capabilities e) w (\<lambda>r. cr_generation r = er_capability cur))
    | CK_ForbiddenCapability \<Rightarrow> c_unknown_policy c = PermitUnknownNegative \<and>
        (\<forall>w\<in>set (c_capabilities c). \<forall>e\<in>set (entities_of cand). \<not> known cr_capability (ent_capabilities e) w)
    | CK_RequiredFailureDomainRelation \<Rightarrow> domains_known cand (c_domain_kind c) \<and>
        sint (c_bound c) \<le> int (card (occupied_domains cand (c_domain_kind c)))
    | CK_ForbiddenFailureDomainRelation \<Rightarrow>
        (c_unknown_policy c = FailClosed \<longrightarrow> domains_known cand (c_domain_kind c)) \<and>
        (if c_domain_relation c = DR_Shared
         then \<not> (domains_known cand (c_domain_kind c) \<and> card (occupied_domains cand (c_domain_kind c)) = 1)
         else int (card (occupied_domains cand (c_domain_kind c))) < sint (c_bound c))
    | CK_AdministrativePolicy \<Rightarrow> (\<forall>w\<in>set (c_policies c).
        attested pa_policy (cp_policies cand) w (\<lambda>r. pa_generation r = er_policy cur))
    | CK_Unset \<Rightarrow> True)"

subsection \<open>Canonical candidates\<close>

lemma validate_nodes_sorted:
  "validate_nodes l prev ns = Ok \<Longrightarrow> n \<in> set ns \<Longrightarrow>
   sorted_wrt (<) (nf_localities n) \<and> sorted_wrt (<) (nf_domains n) \<and>
   sorted_wrt (<) (nf_capabilities n) \<and> sorted_wrt (<) (nf_isolation n)"
  by (induction l prev ns rule: validate_nodes.induct) (auto simp: sorted_unique_iff split: if_splits)

lemma validate_links_sorted:
  "validate_links l ns ks = Ok \<Longrightarrow> length ks = length ns - 1 \<Longrightarrow> k \<in> set ks \<Longrightarrow>
   sorted_wrt (<) (lf_domains k) \<and> sorted_wrt (<) (lf_capabilities k) \<and> sorted_wrt (<) (lf_isolation k)"
  by (induction l ns ks rule: validate_links.induct) (auto simp: sorted_unique_iff split: if_splits)

lemma entities_sorted:
  assumes "validate_candidate cand l = Ok" "e \<in> set (entities_of cand)"
  shows "sorted_wrt (<) (ent_domains e)" "sorted_wrt (<) (ent_capabilities e)" "sorted_wrt (<) (ent_isolation e)"
  using assms(2) validate_candidate_bounds(6,8,9) [OF assms(1)]
  by (auto simp: entities_of_def dest: validate_nodes_sorted validate_links_sorted)

lemma policies_sorted: "validate_candidate cand l = Ok \<Longrightarrow> sorted_wrt (<) (cp_policies cand)"
  unfolding validate_candidate_def by (simp add: gate_simps sorted_unique_iff split: if_splits)

lemma entities_not_Nil: "validate_candidate cand l = Ok \<Longrightarrow> entities_of cand \<noteq> []"
  using validate_candidate_bounds(5) [of cand l] by (auto simp: entities_of_def)

context identity_order
begin

lemma lookup_pred:
  assumes "sorted_wrt (<) xs"
  shows "(case find_by key xs k of None \<Rightarrow> False | Some r \<Rightarrow> P r) \<longleftrightarrow> attested key xs k P"
proof (cases "find_by key xs k")
  case None
  then have "\<forall>r\<in>set xs. key r \<noteq> k" using find_by_None [OF assms, of k] by simp
  then show ?thesis using None by (auto simp: attested_def)
next
  case (Some r)
  then have r: "r \<in> set xs" "key r = k" "\<forall>r'\<in>set xs. key r' = k \<longrightarrow> r \<le> r'"
    using find_by_least [OF assms, of k r] by auto
  have "r' = r" if "r' \<in> set xs" "key r' = k" "\<forall>x\<in>set xs. key x = k \<longrightarrow> r' \<le> x" for r'
    by (rule order_antisym) (use that r in \<open>blast+\<close>)
  then have "attested key xs k P \<longleftrightarrow> P r" unfolding attested_def using r by blast
  then show ?thesis using Some by simp
qed

lemma lookup_known:
  assumes "sorted_wrt (<) xs"
  shows "find_by key xs k = None \<longleftrightarrow> \<not> known key xs k"
  using find_by_None [OF assms] by (auto simp: known_def)

end

subsection \<open>Each check decides its constraint\<close>

lemma concat_map_Nil: "concat (map f xs) = [] \<longleftrightarrow> (\<forall>x\<in>set xs. f x = [])"
  by simp

lemma sint_i64_of_nat: "n < 2 ^ 63 \<Longrightarrow> sint (word_of_nat n :: i64) = int n"
  by (simp add: sint_uint unsigned_of_nat take_bit_nat_eq_self signed_take_bit_int_eq_self flip: of_nat_take_bit)

lemma uint_u32_less: "uint (h :: u32) < 4294967296"
  using unsigned_less [where ?'a = int and w = h] by simp

lemma sint_i64_hops: "sint (ucast (h :: u32) :: i64) = uint h"
proof -
  have "uint (ucast h :: i64) = uint h" 
    using uint_u32_less [of h] by (simp add: unsigned_ucast_eq take_bit_int_eq_self)
  moreover have "signed_take_bit 63 (uint h) = uint h"
    by (rule signed_take_bit_int_eq_self) (use uint_u32_less [of h] in \<open>simp_all add: order_trans [OF _ unsigned_greater_eq]\<close>)
  ultimately show ?thesis by (simp add: sint_uint)
qed

lemma check_max_latency_iff:
  assumes "c_kind c = CK_MaxLatency" "validate_constraint c l = Ok"
  shows "check_max_latency c n cand = [] \<longleftrightarrow> satisfied cur cand c"
proof -
  have "c_latency_source c \<noteq> LS_Unset"
    using assms by (auto simp: validate_constraint_Ok validate_payload_def gate_simps split: if_splits)
  then show ?thesis using assms(1) by (auto simp: check_max_latency_def satisfied_def Let_def)
qed

lemma path_bandwidth_capability_total:
  assumes "cp_links c \<noteq> []" "required \<noteq> 0" "list_all (link_capable required) (cp_links c)"
  shows "\<exists>b. path_bandwidth_capability c required = Some b"
proof -
  have "Min (link_bits ` set (cp_links c)) \<in> link_bits ` set (cp_links c)"
    using assms(1) by (intro Min_in) auto
  then obtain b :: i64 where "sint b = Min (link_bits ` set (cp_links c))" by fastforce
  then show ?thesis using assms path_bandwidth_capability_Some by blast
qed

lemma check_min_bandwidth_iff:
  assumes "c_kind c = CK_MinBandwidthCapability" "cp_links cand \<noteq> []"
  shows "check_min_bandwidth c n cur cand = [] \<longleftrightarrow> satisfied cur cand c"
proof (cases "path_bandwidth_capability cand (er_capability cur)")
  case None
  then have "\<not> (er_capability cur \<noteq> 0 \<and> list_all (link_capable (er_capability cur)) (cp_links cand))"
    using path_bandwidth_capability_total assms(2) by fastforce
  then show ?thesis using None assms by (auto simp: check_min_bandwidth_def satisfied_def list_all_iff)
next
  case (Some b)
  then have "er_capability cur \<noteq> 0" "list_all (link_capable (er_capability cur)) (cp_links cand)"
    "sint b = Min (link_bits ` set (cp_links cand))"
    using path_bandwidth_capability_Some [of cand "er_capability cur" b] by auto
  moreover have "sint (c_bound c) \<le> Min (link_bits ` set (cp_links cand)) \<longleftrightarrow>
      (\<forall>k\<in>set (cp_links cand). sint (c_bound c) \<le> link_bits k)"
    using assms(2) by (subst Min_ge_iff) auto
  ultimately show ?thesis
    using Some assms(1) by (auto simp: check_min_bandwidth_def satisfied_def list_all_iff not_less)
qed

lemma check_max_hop_count_iff:
  assumes "c_kind c = CK_MaxHopCount" "unat (cp_hop_count cand) = length (cp_links cand)"
  shows "check_max_hop_count c n cand = [] \<longleftrightarrow> satisfied cur cand c"
  using assms by (simp add: check_max_hop_count_def satisfied_def sint_i64_hops not_less
      flip: assms(2))

lemma check_required_node_iff:
  "c_kind c = CK_RequiredNode \<Longrightarrow> check_required_node c n cand = [] \<longleftrightarrow> satisfied cur cand c"
  by (auto simp: check_required_node_def satisfied_def filter_empty_conv path_nodes_def list_ex_iff)

lemma check_forbidden_node_iff:
  "c_kind c = CK_ForbiddenNode \<Longrightarrow> check_forbidden_node c n cand = [] \<longleftrightarrow> satisfied cur cand c"
  by (auto simp: check_forbidden_node_def satisfied_def path_nodes_def split: if_splits)

lemma check_required_link_iff:
  "c_kind c = CK_RequiredLink \<Longrightarrow> check_required_link c n cand = [] \<longleftrightarrow> satisfied cur cand c"
  by (auto simp: check_required_link_def satisfied_def filter_empty_conv path_links_def list_ex_iff)

lemma check_forbidden_link_iff:
  "c_kind c = CK_ForbiddenLink \<Longrightarrow> check_forbidden_link c n cand = [] \<longleftrightarrow> satisfied cur cand c"
  by (auto simp: check_forbidden_link_def satisfied_def path_links_def split: if_splits)

lemma all_valid_0: "all_valid xs \<Longrightarrow> 0 \<notin> set xs"
  by (auto simp: all_valid_def list_all_iff is_valid_def)

lemma check_required_tier_iff:
  assumes "c_kind c = CK_RequiredTier" "sorted_wrt (<) (c_tiers c)" "all_valid (c_tiers c)"
  shows "check_required_tier c n cand = [] \<longleftrightarrow> satisfied cur cand c"
  using assms(1) all_valid_0 [OF assms(3)] strict_sorted_imp_sorted [OF assms(2)]
  unfolding check_required_tier_def concat_map_Nil by (auto simp: satisfied_def binary_search_iff is_valid_def split: if_splits)

lemma check_forbidden_tier_iff:
  assumes "c_kind c = CK_ForbiddenTier" "sorted_wrt (<) (c_tiers c)" "all_valid (c_tiers c)"
  shows "check_forbidden_tier c n cand = [] \<longleftrightarrow> satisfied cur cand c"
  using assms(1) all_valid_0 [OF assms(3)] strict_sorted_imp_sorted [OF assms(2)]
  unfolding check_forbidden_tier_def concat_map_Nil by (auto simp: satisfied_def binary_search_iff is_valid_def split: if_splits)

lemma check_required_site_iff:
  assumes "c_kind c = CK_RequiredSite" "sorted_wrt (<) (c_sites c)" "all_valid (c_sites c)"
  shows "check_required_site c n cand = [] \<longleftrightarrow> satisfied cur cand c"
  using assms(1) all_valid_0 [OF assms(3)] strict_sorted_imp_sorted [OF assms(2)]
  unfolding check_required_site_def concat_map_Nil by (auto simp: satisfied_def binary_search_iff is_valid_def split: if_splits)

lemma check_forbidden_site_iff:
  assumes "c_kind c = CK_ForbiddenSite" "sorted_wrt (<) (c_sites c)" "all_valid (c_sites c)"
  shows "check_forbidden_site c n cand = [] \<longleftrightarrow> satisfied cur cand c"
  using assms(1) all_valid_0 [OF assms(3)] strict_sorted_imp_sorted [OF assms(2)]
  unfolding check_forbidden_site_def concat_map_Nil by (auto simp: satisfied_def binary_search_iff is_valid_def split: if_splits)

text \<open>A per-entity check that looks a reference up and tests it.\<close>

lemma lookup_check_Nil:
  "(case x of None \<Rightarrow> [a] | Some r \<Rightarrow> if \<not> P r then [b r] else []) = [] \<longleftrightarrow>
   (case x of None \<Rightarrow> False | Some r \<Rightarrow> P r)"
  by (simp split: option.splits)

lemma check_locality_scope_iff:
  assumes "c_kind c = CK_LocalityScope" "validate_candidate cand l = Ok"
  shows "check_locality_scope c n cand = [] \<longleftrightarrow> satisfied cur cand c"
proof -
  have "sorted_wrt (<) (nf_localities nd)" if "nd \<in> set (cp_nodes cand)" for nd
    using validate_candidate_bounds(8) [OF assms(2)] that validate_nodes_sorted by blast
  then show ?thesis
    using assms(1) by (simp add: check_locality_scope_def satisfied_def find_locality_def
      lookup_check_Nil [where P = "\<lambda>r. lr_domain r = c_locality_domain c", simplified] locality.lookup_pred)
qed

lemma check_isolation_class_iff:
  assumes "c_kind c = CK_IsolationClass" "validate_candidate cand l = Ok"
  shows "check_isolation_class c n cur cand = [] \<longleftrightarrow> satisfied cur cand c"
proof -
  have "(case find_isolation (ent_isolation e) (c_isolation_class c) of
      None \<Rightarrow> (case ent_isolation e of [] \<Rightarrow> [a] | front # _ \<Rightarrow> [b front])
    | Some r \<Rightarrow> if ia_generation r \<noteq> er_failure_domain cur then [d r] else []) = [] \<longleftrightarrow>
    attested ia_class (ent_isolation e) (c_isolation_class c) (\<lambda>r. ia_generation r = er_failure_domain cur)"
    if "e \<in> set (entities_of cand)" for e and a :: reason and b d
    using isolation.lookup_pred [OF entities_sorted(3) [OF assms(2) that], of "\<lambda>r. ia_generation r = er_failure_domain cur"
        "c_isolation_class c"]
    by (auto simp: find_isolation_def split: option.splits list.splits)
  then show ?thesis
    using assms(1) by (simp add: check_isolation_class_def satisfied_def)
qed

lemma check_required_capability_iff:
  assumes "c_kind c = CK_RequiredCapability" "validate_candidate cand l = Ok"
  shows "check_required_capability c n cur cand = [] \<longleftrightarrow> satisfied cur cand c"
  using assms(1) entities_sorted(2) [OF assms(2)]
  by (simp add: check_required_capability_def satisfied_def find_capability_def
      lookup_check_Nil [where P = "\<lambda>r. cr_generation r = er_capability cur", simplified] capability.lookup_pred)

lemma check_forbidden_capability_iff:
  assumes "c_kind c = CK_ForbiddenCapability" "validate_candidate cand l = Ok" "validate_constraint c l = Ok"
  shows "check_forbidden_capability c n cur cand = [] \<longleftrightarrow> satisfied cur cand c"
proof -
  have ne: "c_capabilities c \<noteq> []"
    using assms by (auto simp: validate_constraint_Ok validate_payload_def gate_simps split: if_splits)
  have "(case find_capability (ent_capabilities e) w of
      None \<Rightarrow> if c_unknown_policy c = FailClosed then [a] else []
    | Some r \<Rightarrow> if cr_generation r \<noteq> g then [b r] else [d]) = [] \<longleftrightarrow>
    c_unknown_policy c = PermitUnknownNegative \<and> \<not> known cr_capability (ent_capabilities e) w"
    if "e \<in> set (entities_of cand)" for e w g and a d :: reason and b
    using capability.lookup_known [OF entities_sorted(2) [OF assms(2) that], of w]
    by (cases "c_unknown_policy c") (auto simp: find_capability_def split: option.splits)
  then show ?thesis
    using assms(1) ne entities_not_Nil [OF assms(2)]
    by (simp add: check_forbidden_capability_def satisfied_def) (metis last_in_set)
qed

lemma check_administrative_policy_iff:
  assumes "c_kind c = CK_AdministrativePolicy" "validate_candidate cand l = Ok"
  shows "check_administrative_policy c n cur cand = [] \<longleftrightarrow> satisfied cur cand c"
  using assms(1) policies_sorted [OF assms(2)]
  by (simp add: check_administrative_policy_def satisfied_def find_policy_def
      lookup_check_Nil [where P = "\<lambda>r. pa_generation r = er_policy cur", simplified] policy.lookup_pred)

text \<open>Failure domains: the scan's set is the set of occupied domains.\<close>

lemma set_concat_options:
  "set (concat (map (\<lambda>e. case f e of None \<Rightarrow> [] | Some r \<Rightarrow> [g r]) es)) =
   {d. \<exists>e\<in>set es. \<exists>r. f e = Some r \<and> g r = d}"
proof (induction es)
  case (Cons e es)
  then show ?case by (cases "f e") (auto simp del: set_concat)
qed simp

lemma distinct_sort_unique [simp]: "distinct (sort_unique xs)"
  using strict_sorted_sort_unique [of xs] by (simp add: strict_sorted_iff del: strict_sorted_sort_unique)

lemma scan_domains_spec:
  assumes "validate_candidate cand l = Ok"
  shows "scan_complete (scan_domains cand k) \<longleftrightarrow> domains_known cand k"
    and "set (scan_domains_found (scan_domains cand k)) = occupied_domains cand k"
    and "length (scan_domains_found (scan_domains cand k)) = card (occupied_domains cand k)"
proof -
  have known: "find_domain (ent_domains e) k = None \<longleftrightarrow> \<not> known fr_kind (ent_domains e) k"
    if "e \<in> set (entities_of cand)" for e
    using domain.lookup_known [OF entities_sorted(1) [OF assms that]] by (simp add: find_domain_def)
  then show "scan_complete (scan_domains cand k) \<longleftrightarrow> domains_known cand k"
    by (simp add: scan_domains_def Let_def domains_known_def filter_empty_conv)
  have "(\<exists>r. find_domain (ent_domains e) k = Some r \<and> fr_domain r = d) \<longleftrightarrow>
      attested fr_kind (ent_domains e) k (\<lambda>r. fr_domain r = d)" if "e \<in> set (entities_of cand)" for e d
    using domain.lookup_pred [OF entities_sorted(1) [OF assms that], of "\<lambda>r. fr_domain r = d" k]
    by (auto simp: find_domain_def split: option.splits)
  moreover have "d \<in> set (scan_domains_found (scan_domains cand k)) \<longleftrightarrow>
      (\<exists>e\<in>set (entities_of cand). \<exists>r. find_domain (ent_domains e) k = Some r \<and> fr_domain r = d)" for d
    by (simp add: scan_domains_def Let_def set_concat_options del: set_concat)
  ultimately show found: "set (scan_domains_found (scan_domains cand k)) = occupied_domains cand k"
    by (simp add: occupied_domains_def set_eq_iff)
  have "distinct (scan_domains_found (scan_domains cand k))"
    by (simp add: scan_domains_def Let_def)
  then show "length (scan_domains_found (scan_domains cand k)) = card (occupied_domains cand k)"
    using found distinct_card by metis
qed

lemma entities_bound: "validate_candidate cand l = Ok \<Longrightarrow> length (entities_of cand) < 2 ^ 33"
  using validate_candidate_bounds(2,3) [of cand l] unat_u32_less [of _ "max_nodes_per_candidate l"]
    unat_u32_less [of _ "max_links_per_candidate l"] by (fastforce simp: entities_of_def)

lemma occupied_domains_bound:
  assumes "validate_candidate cand l = Ok"
  shows "card (occupied_domains cand k) < 2 ^ 63"
proof -
  have "length (concat (map (\<lambda>e. case find_domain (ent_domains e) k of None \<Rightarrow> [] | Some r \<Rightarrow> [fr_domain r]) es))
      \<le> length es" for es
    by (induction es) (auto split: option.splits)
  then have "length (scan_domains_found (scan_domains cand k)) \<le> length (entities_of cand)"
    unfolding scan_domains_def Let_def by (simp del: length_concat) (blast intro: order_trans length_sort_unique_le)
  then show ?thesis using scan_domains_spec(3) [OF assms] entities_bound [OF assms] by simp
qed

lemma check_required_domain_relation_iff:
  assumes "c_kind c = CK_RequiredFailureDomainRelation" "validate_candidate cand l = Ok"
  shows "check_required_domain_relation c n cand = [] \<longleftrightarrow> satisfied cur cand c"
  using assms(1) scan_domains_spec [OF assms(2)] occupied_domains_bound [OF assms(2), of "c_domain_kind c"]
  by (auto simp: check_required_domain_relation_def satisfied_def Let_def sint_i64_of_nat)

lemma check_forbidden_domain_relation_iff:
  assumes "c_kind c = CK_ForbiddenFailureDomainRelation" "validate_candidate cand l = Ok"
  shows "check_forbidden_domain_relation c n cand = [] \<longleftrightarrow> satisfied cur cand c"
  using assms(1) scan_domains_spec [OF assms(2)] occupied_domains_bound [OF assms(2), of "c_domain_kind c"]
  by (auto simp: check_forbidden_domain_relation_def satisfied_def Let_def sint_i64_of_nat)

lemma mandatory_reasons_iff:
  assumes "validate_constraint c l = Ok" "canonical_entities c" "validate_candidate cand l = Ok"
  shows "mandatory_reasons c n cur cand = [] \<longleftrightarrow> satisfied cur cand c"
proof -
  have links: "cp_links cand \<noteq> []" and hops: "unat (cp_hop_count cand) = length (cp_links cand)"
    using validate_candidate_bounds(5,6,7) [OF assms(3)] by auto
  have tiers: "sorted_wrt (<) (c_tiers c)" "all_valid (c_tiers c)"
    and sites: "sorted_wrt (<) (c_sites c)" "all_valid (c_sites c)"
    using assms(1,2) validate_common_OkD(5) [of c l]
    by (auto simp: canonical_entities_def validate_constraint_Ok)
  show ?thesis
    by (cases "c_kind c")
      (simp_all add: mandatory_reasons_def check_max_latency_iff [OF _ assms(1), where cur = cur]
        check_min_bandwidth_iff links check_max_hop_count_iff [where cur = cur] hops
        check_required_node_iff [where cur = cur] check_forbidden_node_iff [where cur = cur]
        check_required_link_iff [where cur = cur] check_forbidden_link_iff [where cur = cur]
        check_required_tier_iff [where cur = cur] check_forbidden_tier_iff [where cur = cur] tiers
        check_required_site_iff [where cur = cur] check_forbidden_site_iff [where cur = cur] sites
        check_locality_scope_iff [OF _ assms(3), where cur = cur]
        check_isolation_class_iff [OF _ assms(3)] check_required_capability_iff [OF _ assms(3)]
        check_forbidden_capability_iff [OF _ assms(3,1)]
        check_required_domain_relation_iff [OF _ assms(3), where cur = cur]
        check_forbidden_domain_relation_iff [OF _ assms(3), where cur = cur]
        check_administrative_policy_iff [OF _ assms(3)] satisfied_def [where c = c])
qed

subsection \<open>The gates\<close>

definition caller_known :: "evaluation_context \<Rightarrow> bool" where
  "caller_known ctx \<longleftrightarrow> ctx_authority_verified ctx \<or>
     (pv_epoch (ctx_provenance ctx) \<noteq> 0 \<and> pv_publisher (ctx_provenance ctx) \<noteq> 0 \<and>
      pv_worker_boot (ctx_provenance ctx) \<noteq> 0 \<and> pv_attempt (ctx_provenance ctx) \<noteq> 0)"

definition legally_authorised :: "evidence_requirements \<Rightarrow> candidate_path \<Rightarrow> bool" where
  "legally_authorised cur cand \<longleftrightarrow> cp_authority_generation cand \<noteq> 0 \<and>
     cp_authority_generation cand = er_path_authority cur \<and> cp_authority_verdict cand = PV_Legal"

definition family_current :: "evidence_requirements \<Rightarrow> candidate_path \<Rightarrow> evidence_family \<Rightarrow> bool" where
  "family_current cur cand f \<longleftrightarrow> required_generation_of cur f \<noteq> 0 \<and>
     evidence_generation_of (cp_evidence cand) f = required_generation_of cur f"

definition evidence_young :: "evaluation_context \<Rightarrow> candidate_path \<Rightarrow> bool" where
  "evidence_young ctx cand \<longleftrightarrow> er_max_evidence_age_ticks (ctx_current ctx) = 0 \<or>
     eg_captured_tick (cp_evidence cand) = 0 \<or>
     unat (ctx_now_tick ctx) \<le>
       unat (eg_captured_tick (cp_evidence cand)) + unat (er_max_evidence_age_ticks (ctx_current ctx))"

definition cost_model_agrees :: "constraint_set \<Rightarrow> candidate_path \<Rightarrow> bool" where
  "cost_model_agrees s cand \<longleftrightarrow> (rp_consume_planner_cost (cs_ranking s) \<and> cp_has_planner_cost cand \<longrightarrow>
     cp_cost_model cand = rp_expected_cost_model (cs_ranking s))"

definition gates_open :: "evaluation_context \<Rightarrow> constraint_set \<Rightarrow> limits \<Rightarrow> candidate_path \<Rightarrow> bool" where
  "gates_open ctx s l cand \<longleftrightarrow>
     verify_canonical_constraint_set s l = Ok \<and> validate_candidate cand l = Ok \<and> caller_known ctx \<and>
     cs_state s = Active \<and>
     (ctx_requested_set_generation ctx = 0 \<or> ctx_requested_set_generation ctx = cs_generation s) \<and>
     legally_authorised (ctx_current ctx) cand \<and>
     (\<forall>f\<in>set currentness_families. consulted_families s AND family_bit f \<noteq> 0 \<longrightarrow>
        family_current (ctx_current ctx) cand f) \<and>
     evidence_young ctx cand \<and> cost_model_agrees s cand"

lemma or_else_Nil [simp]: "or_else xs ys = [] \<longleftrightarrow> xs = [] \<and> ys = []"
  by (auto simp: or_else_def)

lemma foldl_or_keeps:
  fixes m :: "'a::len word"
  shows "bit m i \<Longrightarrow> bit (foldl (\<lambda>m c. m OR f c) m cs) i"
  by (induction cs arbitrary: m) (simp_all add: bit_or_iff)

lemma consulted_nonzero: "consulted_families s \<noteq> 0"
proof -
  have "bit (0 OR family_bit EF_PathAuthority) 8"
    by (simp add: family_bit_def bit_simps)
  then have "bit (consulted_families s) 8"
    using foldl_or_keeps by (auto simp: consulted_families_def Let_def bit_or_iff)
  then show ?thesis by auto
qed

lemma age_check:
  fixes now captured age :: u64
  shows "now > captured \<and> now - captured > age \<longleftrightarrow> unat captured + unat age < unat now"
  by (auto simp: word_less_nat_alt unat_sub word_le_nat_alt)

lemma lifecycle_reason_None: "lifecycle_reason st = RC_None \<longleftrightarrow> st = Active"
  by (cases st) (simp_all add: lifecycle_reason_def)

lemma stage_currentness_Nil:
  "stage_currentness ctx s cand (consulted_families s) = [] \<longleftrightarrow>
     (\<forall>f\<in>set currentness_families. consulted_families s AND family_bit f \<noteq> 0 \<longrightarrow>
        family_current (ctx_current ctx) cand f) \<and> evidence_young ctx cand \<and> cost_model_agrees s cand"
proof -
  have "concat (map (family_reasons (ctx_current ctx) cand m) fs) = [] \<longleftrightarrow>
      (\<forall>f\<in>set fs. m AND family_bit f \<noteq> 0 \<longrightarrow> family_current (ctx_current ctx) cand f)" for m fs
    unfolding concat_map_Nil by (rule ball_cong) (simp_all add: family_reasons_def family_current_def)
  moreover have "\<not> (er_max_evidence_age_ticks (ctx_current ctx) > 0 \<and> eg_captured_tick (cp_evidence cand) \<noteq> 0 \<and>
      ctx_now_tick ctx > eg_captured_tick (cp_evidence cand) \<and>
      ctx_now_tick ctx - eg_captured_tick (cp_evidence cand) > er_max_evidence_age_ticks (ctx_current ctx)) \<longleftrightarrow>
      evidence_young ctx cand"
    unfolding evidence_young_def not_less [symmetric] age_check [symmetric] by (auto simp: word_gt_0)
  ultimately show ?thesis
    by (auto simp: stage_currentness_def consulted_nonzero cost_model_agrees_def simp del: concat_eq_Nil_conv)
qed

lemma gate_reasons_Nil: "gate_reasons ctx s l cand = [] \<longleftrightarrow> gates_open ctx s l cand"
proof -
  have "stage_resource_admission s l = [] \<and> stage_structure s l cand = [] \<longleftrightarrow>
      verify_canonical_constraint_set s l = Ok \<and> validate_candidate cand l = Ok"
    using verify_canonical_OkD(3) [of s l]
    by (auto simp: stage_resource_admission_def stage_structure_def)
  moreover have "stage_caller_identity ctx = [] \<longleftrightarrow> caller_known ctx"
    by (auto simp: stage_caller_identity_def caller_known_def is_valid_def Let_def)
  moreover have "stage_lifecycle ctx s = [] \<longleftrightarrow> cs_state s = Active \<and>
      (ctx_requested_set_generation ctx = 0 \<or> ctx_requested_set_generation ctx = cs_generation s)"
    by (auto simp: stage_lifecycle_def lifecycle_reason_None is_valid_def)
  moreover have "stage_path_authority (ctx_current ctx) cand = [] \<longleftrightarrow> legally_authorised (ctx_current ctx) cand"
    by (cases "cp_authority_verdict cand") (auto simp: stage_path_authority_def legally_authorised_def is_valid_def)
  moreover note stage_currentness_Nil [of ctx s cand]
  ultimately show ?thesis by (auto simp: gate_reasons_def gates_open_def)
qed

subsection \<open>Admission\<close>

lemma ordinal_constraints_snd: "snd ` set (ordinal_constraints s) = set (cs_constraints s)"
  by (force simp: ordinal_constraints_def set_conv_nth image_iff)

lemma stage_mandatory_Nil:
  assumes "gates_open ctx s l cand"
  shows "es_reasons (stage_mandatory ctx s cand \<lparr> es_reasons = [], es_truncated = False \<rparr>) = [] \<longleftrightarrow>
    (\<forall>c\<in>set (cs_constraints s). c_scope c = Mandatory \<longrightarrow> satisfied (ctx_current ctx) cand c)"
proof -
  have v: "validate_constraint c l = Ok \<and> canonical_entities c" if "c \<in> set (cs_constraints s)" for c
    using assms verify_canonical_OkD(4) [of s l] that by (auto simp: gates_open_def)
  have "validate_candidate cand l = Ok" using assms by (simp add: gates_open_def)
  then have *: "mandatory_reasons c n (ctx_current ctx) cand = [] \<longleftrightarrow> satisfied (ctx_current ctx) cand c"
    if "c \<in> set (cs_constraints s)" for c n
    using v [OF that] mandatory_reasons_iff by blast
  have "es_reasons (stage_mandatory ctx s cand \<lparr> es_reasons = [], es_truncated = False \<rparr>) = [] \<longleftrightarrow>
      (\<forall>p\<in>set (ordinal_constraints s). c_scope (snd p) = Mandatory \<longrightarrow> satisfied (ctx_current ctx) cand (snd p))"
    using ordinal_constraints_snd [of s] * by (auto simp: stage_mandatory_def foldl_mandatory_Nil)
  also have "\<dots> \<longleftrightarrow> (\<forall>c\<in>set (cs_constraints s). c_scope c = Mandatory \<longrightarrow> satisfied (ctx_current ctx) cand c)"
    unfolding ordinal_constraints_snd [of s, symmetric] by blast
  finally show ?thesis .
qed

lemma evaluate_candidate_fields:
  assumes "ctx_set ctx = Some s" "ctx_limits ctx = Some l" "validate_limits l"
  obtains r where "evaluate_candidate ctx cand = Inr r"
    and "ev_reasons r = canonicalize_reasons (es_reasons (collected_reasons ctx s l cand)) l"
    and "ev_preferences r = (if es_reasons (collected_reasons ctx s l cand) = [] then stage_preferences ctx s cand else [])"
    and "ev_outcome r = outcome_from_reasons (ev_reasons r) (ev_preferences r \<noteq> [])"
    and "ev_primary_reason r = primary_reason_of (ev_reasons r)"
    and "ev_path r = cp_path cand" "ev_set_id r = cs_id s" "ev_set_generation r = cs_generation s"
    and "ev_reasons_truncated r = (es_truncated (collected_reasons ctx s l cand) \<or>
           length (ev_reasons r) < length (es_reasons (collected_reasons ctx s l cand)))"
    and "ev_evidence r = cp_evidence cand" "ev_consulted r = consulted_families s"
    and "ev_digest r = evaluation_digest r" "ev_authority_generation r = cp_authority_generation cand"
    and "ev_generation r = ctx_generation ctx"
proof -
  have dig: "evaluation_digest (r\<lparr>ev_digest := d\<rparr>) = evaluation_digest r" for r d
    by (simp add: evaluation_digest_def)
  define r0 where "r0 = candidate_record ctx s l cand (collected_reasons ctx s l cand)"
  show thesis
    by (rule that [of "r0\<lparr>ev_digest := evaluation_digest r0\<rparr>"])
       (use assms in \<open>simp_all add: evaluate_candidate_def r0_def Let_def dig\<close>,
        simp_all add: candidate_record_def Let_def)
qed

lemma collected_reasons_wf: "\<forall>r\<in>set (es_reasons (collected_reasons ctx s l cand)). wf_reason r"
  using gate_reasons_wf [of ctx s l cand]
    foldl_mandatory_wf [of "\<lparr> es_reasons = [], es_truncated = False \<rparr>" "ctx_current ctx" cand "ordinal_constraints s"]
  by (simp add: collected_reasons_def Let_def stage_mandatory_def)

lemma collected_reasons_Nil:
  "es_reasons (collected_reasons ctx s l cand) = [] \<longleftrightarrow> gates_open ctx s l cand \<and>
     (\<forall>c\<in>set (cs_constraints s). c_scope c = Mandatory \<longrightarrow> satisfied (ctx_current ctx) cand c)"
  using stage_mandatory_Nil [of ctx s l cand] gate_reasons_Nil [of ctx s l cand]
  by (auto simp: collected_reasons_def Let_def)

text \<open>Candidate evaluation admits exactly the candidates that pass the gates and satisfy every
  mandatory constraint; preferences never decide.\<close>

lemma evaluate_candidate_admits:
  assumes "ctx_set ctx = Some s" "ctx_limits ctx = Some l" "validate_limits l"
  shows "\<exists>r. evaluate_candidate ctx cand = Inr r \<and>
    (is_admissible (ev_outcome r) \<longleftrightarrow> gates_open ctx s l cand \<and>
       (\<forall>c\<in>set (cs_constraints s). c_scope c = Mandatory \<longrightarrow> satisfied (ctx_current ctx) cand c))"
proof -
  obtain r where r: "evaluate_candidate ctx cand = Inr r"
    "ev_reasons r = canonicalize_reasons (es_reasons (collected_reasons ctx s l cand)) l"
    "ev_outcome r = outcome_from_reasons (ev_reasons r) (ev_preferences r \<noteq> [])"
    using evaluate_candidate_fields [OF assms, of cand] by metis
  have "\<forall>x\<in>set (ev_reasons r). wf_reason x"
    using r(2) set_canonicalize_reasons collected_reasons_wf by fastforce
  then have "is_admissible (ev_outcome r) \<longleftrightarrow> es_reasons (collected_reasons ctx s l cand) = []"
    using r(2,3) outcome_from_reasons_admissible canonicalize_reasons_Nil [OF assms(3)] by metis
  then show ?thesis using r(1) collected_reasons_Nil by blast
qed

end
