(* ===== verification/Samples.thy ===== *)
theory Samples
  imports Satisfaction
begin

text \<open>
  Concrete values on which the properties are instantiated: a finalised set of two mandatory
  constraints and one preference, a candidate path of three nodes and two links, and the
  evaluation context that binds them. Digests stay symbolic: a sample stores the digest of its
  own fields.
\<close>

definition sample_required :: constraint where
  "sample_required = default_constraint\<lparr> c_id := 2, c_generation := 1, c_kind := CK_RequiredNode, c_nodes := [2] \<rparr>"

definition sample_hops :: constraint where
  "sample_hops = default_constraint\<lparr> c_id := 1, c_generation := 1, c_kind := CK_MaxHopCount, c_bound := 3 \<rparr>"

definition sample_preference :: constraint where
  "sample_preference = default_constraint\<lparr> c_id := 3, c_generation := 1, c_kind := CK_MaxHopCount,
     c_scope := Preference, c_bound := 2, c_preference_rank := 1, c_preference_weight := 10 \<rparr>"

definition sample_requirements :: evidence_requirements where
  "sample_requirements = \<lparr> er_topology = 7, er_link_state = 7, er_capability = 7, er_failure_domain = 7,
     er_policy = 7, er_planner = 7, er_path_authority = 7, er_max_evidence_age_ticks = 0 \<rparr>"

definition sample_body :: constraint_set where
  "sample_body = \<lparr> cs_id = 5, cs_generation = 1, cs_state = Active, cs_name = [],
     cs_constraints = [sample_required, sample_hops, sample_preference],
     cs_evidence = sample_requirements, cs_ranking = default_ranking_policy,
     cs_digest = zero_digest, cs_declared_tick = 0 \<rparr>"

definition sample_set :: constraint_set where
  "sample_set = sample_body\<lparr> cs_digest := constraint_set_digest sample_body \<rparr>"

definition sample_node :: "node_id \<Rightarrow> node_fact" where
  "sample_node n = \<lparr> nf_node = n, nf_tier = 1, nf_site = 1, nf_localities = [], nf_domains = [],
     nf_capabilities = [], nf_isolation = [] \<rparr>"

definition sample_bandwidth :: bandwidth_evidence where
  "sample_bandwidth = \<lparr> bw_model = CM_None, bw_provenance = EP_None, bw_bits_per_second = 0,
     bw_generation = 0, bw_observed_tick = 0 \<rparr>"

definition sample_link :: "link_id \<Rightarrow> node_id \<Rightarrow> node_id \<Rightarrow> link_fact" where
  "sample_link k a b = \<lparr> lf_link = k, lf_endpoint0 = a, lf_endpoint1 = b, lf_bandwidth = sample_bandwidth,
     lf_domains = [], lf_capabilities = [], lf_isolation = [] \<rparr>"

definition sample_evidence :: evidence_generation_set where
  "sample_evidence = \<lparr> eg_topology = 7, eg_link_state = 7, eg_capability = 7, eg_failure_domain = 7,
     eg_policy = 7, eg_planner = 7, eg_path_authority = 7, eg_consulted = 0, eg_captured_tick = 0 \<rparr>"

definition sample_candidate :: "path_id \<Rightarrow> candidate_path" where
  "sample_candidate p = \<lparr> cp_path = p, cp_authority_generation = 7, cp_authority_verdict = PV_Legal,
     cp_planner_generation = 7, cp_has_planner_rank = False, cp_planner_rank = 0,
     cp_has_planner_cost = False, cp_planner_cost = 0, cp_cost_model = PM_None, cp_hop_count = 2,
     cp_nodes = [sample_node 1, sample_node 2, sample_node 3],
     cp_links = [sample_link 1 1 2, sample_link 2 2 3],
     cp_latency = \<lparr> le_source = LS_Unset, le_provenance = EP_None, le_micros = 0,
       le_planner_generation = 0, le_observed_generation = 0, le_observed_tick = 0 \<rparr>,
     cp_policies = [], cp_evidence = sample_evidence \<rparr>"

definition sample_provenance :: provenance where
  "sample_provenance = \<lparr> pv_epoch = 1, pv_publisher = 1, pv_worker_boot = 1, pv_attempt = 1, pv_request = 1 \<rparr>"

definition sample_context :: evaluation_context where
  "sample_context = \<lparr> ctx_set = Some sample_set, ctx_current = sample_requirements,
     ctx_requested_set_generation = 0, ctx_limits = Some default_limits, ctx_now_tick = 10,
     ctx_provenance = sample_provenance, ctx_generation = 1, ctx_authority_verified = True \<rparr>"

lemmas sample_defs = sample_required_def sample_hops_def sample_preference_def sample_requirements_def
  sample_body_def sample_set_def sample_node_def sample_bandwidth_def sample_link_def sample_evidence_def
  sample_candidate_def sample_provenance_def sample_context_def default_constraint_def
  default_ranking_policy_def

lemma sample_constraint_valid:
  "validate_constraint sample_hops default_limits = Ok"
  "validate_constraint sample_preference default_limits = Ok"
  "validate_constraint sample_required default_limits = Ok"
  by code_simp+

lemma sample_order:
  "verify_constraints default_limits None [sample_required, sample_hops, sample_preference] = Ok"
  by code_simp

lemma sample_no_contradiction: "contradictions_of sample_body = []"
  by code_simp

lemma sample_set_fields:
  "cs_id sample_set = 5" "cs_generation sample_set = 1" "cs_state sample_set = Active"
  "cs_constraints sample_set = [sample_required, sample_hops, sample_preference]"
  "cs_digest sample_set = constraint_set_digest sample_set" "contradictions_of sample_set = []"
  "cs_ranking sample_set = default_ranking_policy" "cs_evidence sample_set = sample_requirements"
proof -
  show "contradictions_of sample_set = []"
    using sample_no_contradiction
    by (simp add: contradictions_of_def bucket_of_def hop_conflicts_def required_node_set_def sample_set_def)
  show "cs_digest sample_set = constraint_set_digest sample_set"
    by (simp add: sample_set_def)
qed (simp_all add: sample_set_def sample_body_def)

lemma sample_verified: "verify_canonical_constraint_set sample_set default_limits = Ok"
proof -
  have "unat (max_constraints_per_set default_limits) = 256" by (simp add: default_limits_def)
  then show ?thesis
    unfolding verify_canonical_constraint_set_def detect_contradictions_def sample_set_fields sample_order
    by (simp add: is_valid_def sample_set_fields)
qed

lemma sample_candidate_valid: "validate_candidate (sample_candidate 9) default_limits = Ok"
  by code_simp

lemma sample_gates: "gates_open sample_context sample_set default_limits (sample_candidate 9)"
proof -
  have "\<forall>f\<in>set currentness_families. family_current sample_requirements (sample_candidate 9) f"
    by code_simp
  then show ?thesis
    using sample_verified sample_candidate_valid
    by (simp add: gates_open_def caller_known_def legally_authorised_def evidence_young_def
        cost_model_agrees_def sample_context_def sample_requirements_def sample_candidate_def
        sample_set_fields default_ranking_policy_def)
qed

lemma sample_satisfied:
  "\<forall>c\<in>set (cs_constraints sample_set). c_scope c = Mandatory \<longrightarrow> satisfied sample_requirements (sample_candidate 9) c"
  by (simp add: sample_set_fields) (simp add: satisfied_def path_nodes_def sample_defs)

end
