(* ===== verification/Model_Properties.thy ===== *)
theory Model_Properties
  imports Samples
begin

text \<open>
  The properties of the data model: generations and limits, the lifecycle machine, digests, the
  canonical order of constraints, canonical candidates, the bottleneck capability, and the wire
  codecs of constraint sets, candidates and evaluation records.
\<close>

subsection \<open>Generations\<close>

text \<open>Advancing a generation never wraps. The successor is exactly one larger, representable and not
  zero; at the largest generation, and only there or beyond, advancing is refused.\<close>

theorem next_generation_never_wraps:
  "case next_gen g of
     Some h \<Rightarrow> unat h = unat g + 1 \<and> g < h \<and> is_representable h
   | None \<Rightarrow> kMaxGeneration \<le> g"
  using next_gen_unat [of g] next_gen_greater [of g] next_gen_representable [of g] next_gen_None_iff [of g]
  by (auto split: option.splits)

subsection \<open>Lifecycle\<close>

lemma lifecycle_run_single: "apply_lifecycle_event s ev = Accept s' \<Longrightarrow> lifecycle_run s [ev] s'"
  by (blast intro: lifecycle_run.intros lifecycle_step.intros)

text \<open>Supersession and retirement are final: no sequence of lifecycle events leads a superseded or
  retired set to a state that admits evaluation.\<close>

theorem superseded_never_admits:
  assumes "lifecycle_run s evs s'" "s = Superseded \<or> s = Retired"
  shows "\<not> admits_admissibility s'"
  using superseded_run [OF assms(1)] assms(2) by (auto simp: admits_admissibility_def)

theorem superseded_never_admits_witness:
  "lifecycle_run Superseded [Resume, Retire, Activate] Retired \<and> \<not> admits_admissibility Retired"
proof -
  have "lifecycle_run Superseded [Resume, Retire, Activate] Retired"
    by (rule run_Cons [OF rejected] run_Cons [OF accepted] run_Nil | simp)+
  then show ?thesis using superseded_never_admits by blast
qed

text \<open>A set becomes active only by activation of a declared set, resumption of a suspended one or
  revalidation of one that requires it; in every other state the event is rejected or leads elsewhere.\<close>

theorem activation_sources:
  "apply_lifecycle_event s ev = Accept Active \<longleftrightarrow>
   (s, ev) \<in> {(Declared, Activate), (Suspended, Resume), (RevalidationRequired, Revalidated)}"
  by (cases s; cases ev) simp_all

text \<open>A revoked set can be reinstated, suspended and resumed, and is then active although no
  revalidation took place.\<close>

theorem reinstated_without_revalidation:
  "lifecycle_run Revoked [Reinstate, Suspend, Resume] Active"
  by (rule run_Cons [OF accepted] run_Nil | simp)+

subsection \<open>Digests\<close>

text \<open>The streaming SHA-256 does not observe how its input is cut: feeding the pieces one by one, with
  the block buffer carried over, gives the digest of the concatenation, and it is 32 bytes long.\<close>

theorem sha256_streaming:
  "sha_finish (foldl sha_update sha_reset pieces) = sha_finish (sha_update sha_reset (concat pieces)) \<and>
   length (sha_finish (foldl sha_update sha_reset pieces)) = 32"
  by (simp add: foldl_sha_update)

text \<open>C38: The padding loop of \<open>Sha256::finish\<close> ends: from any state with a partial block, appending zero
  bytes reaches a buffer of exactly 56 bytes within 64 steps, and stays a partial block.\<close>

theorem sha256_padding_terminates:
  assumes "length (sha_buffer s) < 64"
  shows "length (sha_buffer (sha_pad 64 s)) = 56"
proof -
  have "sha_wf s" using assms by (simp add: sha_wf_def)
  moreover have "(if length (sha_buffer s) \<le> 56 then 56 else 120) - length (sha_buffer s) \<le> 64" by auto
  ultimately show ?thesis using sha_pad_56 by blast
qed

theorem sha256_padding_terminates_witness: "length (sha_buffer (sha_pad 64 sha_reset)) = 56"
  by (rule sha256_padding_terminates) (simp add: sha_reset_def)

text \<open>The hexadecimal rendering of a digest reads back as the digest.\<close>

theorem digest_hex_roundtrip:
  assumes "length d = 32"
  shows "from_hex (to_hex d) = Some d"
  using assms by (rule from_hex_to_hex)

theorem digest_hex_roundtrip_witness: "from_hex (to_hex (replicate 32 0xab)) = Some (replicate 32 0xab)"
  by (rule digest_hex_roundtrip) simp

subsection \<open>Canonical constraints\<close>

text \<open>The canonical order of constraints is a strict total order, so sorting by it gives one result
  for every permutation of the same constraints.\<close>

theorem canonical_order_total:
  "(\<not> canonical_less a a) \<and> (canonical_less a b \<and> canonical_less b c \<longrightarrow> canonical_less a c) \<and>
   (a \<noteq> b \<longrightarrow> canonical_less a b \<or> canonical_less b a) \<and>
   (mset xs = mset ys \<longrightarrow> stable_sort canonical_less xs = stable_sort canonical_less ys)"
  using canonical.less_irrefl canonical.less_trans canonical.less_total canonical.stable_sort_perm by blast

theorem canonical_order_total_witness:
  "stable_sort canonical_less [sample_hops, sample_required] = stable_sort canonical_less [sample_required, sample_hops]"
  using canonical_order_total [where xs = "[sample_hops, sample_required]" and ys = "[sample_required, sample_hops]"]
  by simp

text \<open>Comparing payload encodings, as duplicate detection does, decides equivalence of payloads: two
  validated constraints have the same payload bytes exactly when every field but identity and
  generation agrees.\<close>

theorem payload_encoding_injective:
  assumes "validate_constraint a l = Ok" "validate_constraint b l = Ok"
  shows "encode_constraint_payload a = encode_constraint_payload b \<longleftrightarrow> equivalent_payload a b"
  using assms by (intro encode_constraint_payload_iff) (auto simp: validate_constraint_Ok intro: validate_lists_fit)

theorem payload_encoding_injective_witness:
  "encode_constraint_payload sample_hops \<noteq> encode_constraint_payload sample_preference"
  using payload_encoding_injective [OF sample_constraint_valid(1,2)]
  by (simp add: equivalent_payload_def sample_hops_def sample_preference_def default_constraint_def)

subsection \<open>Candidates\<close>

text \<open>Canonicalising a candidate gives a candidate that validates, is a fixed point of
  canonicalisation, and traverses the same nodes and links in the same order.\<close>

theorem canonicalize_candidate_sound:
  assumes "canonicalize_candidate c l = Inr out"
  shows "validate_candidate out l = Ok \<and> canonicalize_candidate out l = Inr out \<and>
    map nf_node (cp_nodes out) = map nf_node (cp_nodes c) \<and>
    map lf_link (cp_links out) = map lf_link (cp_links c)"
  using canonicalize_candidate_Inr [OF assms] by blast

theorem canonicalize_candidate_sound_witness:
  "canonicalize_candidate ((sample_candidate 9)\<lparr> cp_policies := [PolicyAttestation 2 7, PolicyAttestation 1 7, PolicyAttestation 2 7] \<rparr>)
     default_limits = Inr ((sample_candidate 9)\<lparr> cp_policies := [PolicyAttestation 1 7, PolicyAttestation 2 7] \<rparr>) \<and>
   validate_candidate ((sample_candidate 9)\<lparr> cp_policies := [PolicyAttestation 1 7, PolicyAttestation 2 7] \<rparr>) default_limits = Ok"
proof -
  have "canonicalize_candidate ((sample_candidate 9)\<lparr> cp_policies := [PolicyAttestation 2 7, PolicyAttestation 1 7, PolicyAttestation 2 7] \<rparr>)
     default_limits = Inr ((sample_candidate 9)\<lparr> cp_policies := [PolicyAttestation 1 7, PolicyAttestation 2 7] \<rparr>)"
    by code_simp
  then show ?thesis using canonicalize_candidate_sound by blast
qed

text \<open>The bottleneck computed over the links is the reference minimum: the path has a bandwidth
  capability exactly when it has links and each carries one at the required generation, and then the
  capability is the smallest of them.\<close>

theorem bottleneck_is_minimum:
  "path_bandwidth_capability c required = Some r \<longleftrightarrow>
     cp_links c \<noteq> [] \<and> required \<noteq> 0 \<and>
     (\<forall>k\<in>set (cp_links c). bw_model (lf_bandwidth k) \<noteq> CM_None \<and> bw_generation (lf_bandwidth k) = required \<and>
        0 \<le> link_bits k) \<and>
     sint r = Min (link_bits ` set (cp_links c))"
  by (simp add: path_bandwidth_capability_Some list_all_iff link_capable_def)

theorem bottleneck_is_minimum_witness:
  "path_bandwidth_capability ((sample_candidate 9)\<lparr> cp_links :=
     [(sample_link 1 1 2)\<lparr> lf_bandwidth := sample_bandwidth\<lparr> bw_model := CM_DeclaredCapabilityRegistry, bw_bits_per_second := 40, bw_generation := 7 \<rparr> \<rparr>,
      (sample_link 2 2 3)\<lparr> lf_bandwidth := sample_bandwidth\<lparr> bw_model := CM_DeclaredCapabilityRegistry, bw_bits_per_second := 25, bw_generation := 7 \<rparr> \<rparr>] \<rparr>) 7
   = Some 25"
  unfolding bottleneck_is_minimum by (simp add: sample_candidate_def sample_link_def sample_bandwidth_def)

subsection \<open>Wire codecs\<close>

text \<open>A verified constraint set whose generations are representable travels the wire: decoding its
  encoding returns it and consumes every byte, and every proper prefix of the encoding is rejected.\<close>

theorem constraint_set_wire:
  assumes "wire_constraint_set s l"
  shows "decode_constraint_set l (byte_reader_of (encode_constraint_set s)) =
      (Some s, at_reader (encode_constraint_set s) []) \<and>
    (\<forall>n<length (encode_constraint_set s).
       fst (decode_constraint_set l (byte_reader_of (take n (encode_constraint_set s)))) = None)"
  by (rule codec_exact [OF parses_decode_constraint_set [OF assms] regular_decode_constraint_set])

lemma sample_set_wire: "wire_constraint_set sample_set default_limits"
proof -
  have "\<forall>c\<in>set (cs_constraints sample_set). is_representable (c_generation c)"
    unfolding sample_set_fields by code_simp
  moreover have "requirements_wire (cs_evidence sample_set)" unfolding sample_set_fields by code_simp
  moreover have "is_representable (1 :: u64)" by code_simp
  moreover have "length (cs_digest sample_set) = 32" "cs_name sample_set = []"
    by (simp_all add: sample_set_def constraint_set_digest_def sample_body_def)
  ultimately show ?thesis
    by (simp add: wire_constraint_set_def sample_verified sample_set_fields)
qed

theorem constraint_set_wire_witness:
  "decode_constraint_set default_limits (byte_reader_of (encode_constraint_set sample_set)) =
     (Some sample_set, at_reader (encode_constraint_set sample_set) [])"
  using constraint_set_wire [OF sample_set_wire] by blast

text \<open>A validated candidate whose references are complete travels the wire: decoding its encoding returns
  it and consumes every byte, and every proper prefix of the encoding is rejected.\<close>

theorem candidate_wire:
  assumes "wire_candidate c l"
  shows "decode_candidate l (byte_reader_of (encode_candidate c)) = (Some c, at_reader (encode_candidate c) []) \<and>
    (\<forall>n<length (encode_candidate c). fst (decode_candidate l (byte_reader_of (take n (encode_candidate c)))) = None)"
  by (rule codec_exact [OF parses_decode_candidate [OF assms] regular_decode_candidate])

theorem candidate_wire_witness:
  "decode_candidate default_limits (byte_reader_of (encode_candidate (sample_candidate 9))) =
     (Some (sample_candidate 9), at_reader (encode_candidate (sample_candidate 9)) [])"
proof -
  have "wire_candidate (sample_candidate 9) default_limits"
    unfolding wire_candidate_def by code_simp
  then show ?thesis using candidate_wire by blast
qed

text \<open>An evaluation record with strictly ordered, consistently classified reasons travels the wire:
  decoding its encoding returns it and consumes every byte, and every proper prefix is rejected.\<close>

theorem evaluation_wire:
  assumes "wire_evaluation r l"
  shows "decode_evaluation l (byte_reader_of (encode_evaluation r)) = (Some r, at_reader (encode_evaluation r) []) \<and>
    (\<forall>n<length (encode_evaluation r). fst (decode_evaluation l (byte_reader_of (take n (encode_evaluation r)))) = None)"
  by (rule codec_exact [OF parses_decode_evaluation [OF assms] regular_decode_evaluation])

definition sample_record :: evaluation_record where
  "sample_record = (candidate_record sample_context sample_set default_limits (sample_candidate 9)
     \<lparr> es_reasons = [], es_truncated = False \<rparr>)\<lparr> ev_id := 1 \<rparr>"

theorem evaluation_wire_witness:
  "decode_evaluation default_limits (byte_reader_of (encode_evaluation sample_record)) =
     (Some sample_record, at_reader (encode_evaluation sample_record) [])"
proof -
  have "length (stage_preferences sample_context sample_set (sample_candidate 9)) \<le> 256"
    by (simp add: stage_preferences_def ordinal_constraints_def sample_set_fields)
  moreover have "evidence_wire sample_evidence" "is_representable (1 :: u64)" "is_representable (7 :: u64)" "gen_ok 1"
    by code_simp+
  ultimately have "wire_evaluation sample_record default_limits"
    by (simp add: wire_evaluation_def sample_record_def candidate_record_def Let_def canonicalize_reasons_def
        stable_sort_def primary_reason_of_def sample_set_fields sample_candidate_def default_limits_def
        sample_context_def sample_provenance_def zero_digest_def)
  then show ?thesis using evaluation_wire by blast
qed

end
