(* ===== verification/Set_Properties.thy ===== *)
theory Set_Properties
  imports Samples
begin

text \<open>
  The properties of constraint sets: what finalising a set guarantees, that it keeps the meaning
  of the constraints, that it does not depend on the order in which they were declared, and which
  of the reported contradictions really exclude every candidate.
\<close>

subsection \<open>Finalised sets\<close>

lemma finalize_form:
  assumes "fst (validate_and_finalize_constraint_set s l) = Ok"
  obtains out where "fst (snd (validate_and_finalize_constraint_set s l)) = out"
    "cs_constraints out = canonical_form (cs_constraints s)" "cs_digest out = constraint_set_digest out"
    "cs_id out = cs_id s" "cs_generation out = cs_generation s" "cs_evidence out = cs_evidence s"
    "cs_ranking out = cs_ranking s" "cs_state out = cs_state s" "cs_name out = cs_name s"
    "canonical_constraints l (cs_constraints out)" "contradictions_of out = []"
    "validate_limits l" "cs_id s \<noteq> 0" "cs_generation s \<noteq> 0"
    "length (cs_constraints out) \<le> unat (max_constraints_per_set l)" "length (cs_name s) \<le> unat (max_name_bytes l)"
proof -
  let ?out = "fst (snd (validate_and_finalize_constraint_set s l))"
  obtain d where "canonicalize_constraint_set s l = Inr (?out, d)" using finalize_Ok(1) [OF assms] by blast
  then have c: "validate_limits l \<and> cs_id s \<noteq> 0 \<and> cs_generation s \<noteq> 0 \<and>
     length (cs_constraints s) \<le> unat (max_constraints_per_set l) \<and>
     length (cs_name s) \<le> unat (max_name_bytes l) \<and>
     (\<forall>c\<in>set (cs_constraints s). validate_constraint c l = Ok) \<and>
     consistent_ids (map canonicalize_entities (cs_constraints s)) \<and>
     ?out = (let t = s\<lparr>cs_constraints := canonical_form (cs_constraints s)\<rparr>
            in t\<lparr>cs_digest := constraint_set_digest t\<rparr>)"
    using canonicalize_constraint_set_Inr [of s l ?out] by blast
  have "contradictions_of ?out = []"
    using finalize_Ok(2) [OF assms] by (simp add: detect_contradictions_def split: if_splits)
  moreover have "canonical_constraints l (canonical_form (cs_constraints s))"
    using c canonical_form_canonical by blast
  moreover have "length (canonical_form (cs_constraints s)) \<le> unat (max_constraints_per_set l)"
    using c length_canonical_form order_trans by blast
  ultimately show thesis
    using c by (intro that [of ?out]) (simp_all add: Let_def)
qed

text \<open>C37: A set that was finalised passes the verification that every later consumer runs on it, its
  constraint identities are distinct, and its stored digest is the digest of its content.\<close>

theorem finalize_verified:
  assumes "fst (validate_and_finalize_constraint_set s l) = Ok"
  shows "verify_canonical_constraint_set (fst (snd (validate_and_finalize_constraint_set s l))) l = Ok \<and>
    distinct (map c_id (cs_constraints (fst (snd (validate_and_finalize_constraint_set s l))))) \<and>
    cs_digest (fst (snd (validate_and_finalize_constraint_set s l))) =
      constraint_set_digest (fst (snd (validate_and_finalize_constraint_set s l)))"
proof -
  obtain out where out: "fst (snd (validate_and_finalize_constraint_set s l)) = out"
    "cs_digest out = constraint_set_digest out" "cs_id out = cs_id s" "cs_generation out = cs_generation s"
    "canonical_constraints l (cs_constraints out)" "contradictions_of out = []" "cs_id s \<noteq> 0" "cs_generation s \<noteq> 0"
    "length (cs_constraints out) \<le> unat (max_constraints_per_set l)"
    by (rule finalize_form [OF assms]) blast
  then show ?thesis
    using canonical_constraints_verified [OF out(5)]
    by (simp add: verify_canonical_constraint_set_def detect_contradictions_def is_valid_def canonical_constraints_def)
qed

text \<open>The sample set with its constraints declared in another order, one of them twice.\<close>

definition sample_unsorted :: constraint_set where
  "sample_unsorted = sample_body\<lparr> cs_constraints := [sample_preference, sample_required, sample_hops, sample_required] \<rparr>"

lemma sample_canonical_form:
  "canonical_form (cs_constraints sample_unsorted) = [sample_required, sample_hops, sample_preference]"
  by code_simp

lemma sample_finalize:
  "validate_and_finalize_constraint_set sample_unsorted default_limits = (Ok, sample_set, [])"
proof -
  have "consistent_ids (map canonicalize_entities (cs_constraints sample_unsorted))"
    unfolding consistent_ids_def by code_simp
  moreover have "\<forall>c\<in>set (cs_constraints sample_unsorted). validate_constraint c default_limits = Ok"
    using sample_constraint_valid by (simp add: sample_unsorted_def)
  ultimately obtain d where "canonicalize_constraint_set sample_unsorted default_limits = Inr (sample_set, d)"
    using canonicalize_constraint_set_Inr [of sample_unsorted default_limits sample_set] sample_canonical_form
      validate_default_limits
    by (auto simp: sample_unsorted_def sample_body_def sample_set_def default_limits_def)
  then show ?thesis
    using sample_set_fields(4,6)
    by (simp add: validate_and_finalize_constraint_set_def detect_contradictions_def default_limits_def)
qed

theorem finalize_verified_witness:
  "verify_canonical_constraint_set (fst (snd (validate_and_finalize_constraint_set sample_unsorted default_limits)))
     default_limits = Ok"
  using finalize_verified [of sample_unsorted default_limits] sample_finalize by simp

lemma canonicalize_perm:
  assumes "mset (cs_constraints s) = mset cs" "canonicalize_constraint_set s l = Inr (out, d)"
  shows "\<exists>d'. canonicalize_constraint_set (s\<lparr>cs_constraints := cs\<rparr>) l = Inr (out, d')"
proof -
  have "set (cs_constraints s) = set cs" "length (cs_constraints s) = length cs"
    using assms(1) mset_eq_setD mset_eq_length by blast+
  then have "consistent_ids (map canonicalize_entities (cs_constraints s)) \<longleftrightarrow>
      consistent_ids (map canonicalize_entities cs)"
    by (simp add: consistent_ids_def)
  moreover have "canonical_form (cs_constraints s) = canonical_form cs"
    using assms(1) by (rule canonical_form_perm)
  ultimately show ?thesis
    using assms(2) canonicalize_constraint_set_Inr [of s l out] \<open>set _ = _\<close> \<open>length _ = _\<close>
      canonicalize_constraint_set_Inr [of "s\<lparr>cs_constraints := cs\<rparr>" l out] by auto
qed

text \<open>C18: Declaration order is not observable. If a set can be finalised, then so can every set with the same
  constraints in another order, and the two finalised sets are equal, digest included.\<close>

theorem finalize_order_independent:
  assumes "fst (validate_and_finalize_constraint_set s l) = Ok" "mset (cs_constraints s) = mset cs"
  shows "validate_and_finalize_constraint_set (s\<lparr>cs_constraints := cs\<rparr>) l = validate_and_finalize_constraint_set s l"
proof -
  define out where "out = fst (snd (validate_and_finalize_constraint_set s l))"
  obtain d where d: "canonicalize_constraint_set s l = Inr (out, d)"
    using finalize_Ok(1) [OF assms(1)] unfolding out_def by blast
  have ok: "detect_contradictions out l = (Ok, [])"
    using finalize_Ok(2) [OF assms(1)] unfolding out_def .
  obtain d' where "canonicalize_constraint_set (s\<lparr>cs_constraints := cs\<rparr>) l = Inr (out, d')"
    using canonicalize_perm [OF assms(2) d] by blast
  then show ?thesis
    using d ok by (simp add: validate_and_finalize_constraint_set_def)
qed

theorem finalize_order_independent_witness:
  "validate_and_finalize_constraint_set
     (sample_unsorted\<lparr>cs_constraints := [sample_hops, sample_required, sample_required, sample_preference]\<rparr>) default_limits =
   (Ok, sample_set, [])"
  using finalize_order_independent [of sample_unsorted default_limits
      "[sample_hops, sample_required, sample_required, sample_preference]"] sample_finalize
  by (simp add: sample_unsorted_def)

text \<open>Finalising is idempotent: a finalised set is returned unchanged, with no contradiction.\<close>

theorem finalize_idempotent:
  assumes "validate_and_finalize_constraint_set s l = (Ok, out, cts)"
  shows "validate_and_finalize_constraint_set out l = (Ok, out, [])"
proof -
  have ok: "fst (validate_and_finalize_constraint_set s l) = Ok" using assms by simp
  obtain o2 where o2: "fst (snd (validate_and_finalize_constraint_set s l)) = o2"
    "cs_digest o2 = constraint_set_digest o2" "cs_id o2 = cs_id s" "cs_generation o2 = cs_generation s"
    "cs_name o2 = cs_name s" "canonical_constraints l (cs_constraints o2)" "contradictions_of o2 = []"
    "validate_limits l" "cs_id s \<noteq> 0" "cs_generation s \<noteq> 0"
    "length (cs_constraints o2) \<le> unat (max_constraints_per_set l)" "length (cs_name s) \<le> unat (max_name_bytes l)"
    by (rule finalize_form [OF ok]) blast
  note out = o2 [unfolded o2(1) [symmetric] assms fst_conv snd_conv]
  have "\<forall>c\<in>set (cs_constraints out). canonicalize_entities c = c \<and> validate_constraint c l = Ok"
    using out(6) canonicalize_entities_id by (simp add: canonical_constraints_def)
  moreover have "consistent_ids (cs_constraints out)"
    using out(6) by (auto simp: consistent_ids_def canonical_constraints_def distinct_map inj_on_def payload_key_eq [symmetric])
  moreover have "map canonicalize_entities (cs_constraints out) = cs_constraints out"
    using calculation(1) by (simp add: map_idI)
  moreover have "(let t = out\<lparr>cs_constraints := cs_constraints out\<rparr> in t\<lparr>cs_digest := constraint_set_digest t\<rparr>) = out"
    using out(2) by simp
  ultimately obtain d where "canonicalize_constraint_set out l = Inr (out, d)"
    using canonicalize_constraint_set_Inr [of out l out] out canonical_form_fixed [OF out(6)] by auto
  then show ?thesis
    using out(7,11) by (simp add: validate_and_finalize_constraint_set_def detect_contradictions_def)
qed

theorem finalize_idempotent_witness:
  "validate_and_finalize_constraint_set sample_set default_limits = (Ok, sample_set, [])"
  by (rule finalize_idempotent [OF sample_finalize])

subsection \<open>The meaning of the constraints\<close>

lemma satisfied_equivalent: "equivalent_payload a b \<Longrightarrow> satisfied cur cand a \<longleftrightarrow> satisfied cur cand b"
  unfolding equivalent_payload_def by (cases "c_kind b") (simp_all add: satisfied_def)

lemma satisfied_canonicalize: "satisfied cur cand (canonicalize_entities c) \<longleftrightarrow> satisfied cur cand c"
  by (cases "c_kind c") (simp_all add: satisfied_def canonicalize_entities_def)

lemma canonical_form_meaning:
  "(\<forall>c\<in>set (canonical_form cs). c_scope c = Mandatory \<longrightarrow> satisfied cur cand c) \<longleftrightarrow>
   (\<forall>c\<in>set cs. c_scope c = Mandatory \<longrightarrow> satisfied cur cand c)" (is "?L \<longleftrightarrow> ?R")
proof
  assume L: ?L
  show ?R
  proof (intro ballI impI)
    fix c assume "c \<in> set cs" "c_scope c = Mandatory"
    then obtain d where "d \<in> set (canonical_form cs)" "equivalent_payload d (canonicalize_entities c)"
      using canonical_form_covers by blast
    moreover from this have "c_scope d = Mandatory"
      using \<open>c_scope c = Mandatory\<close> by (simp add: equivalent_payload_def)
    ultimately show "satisfied cur cand c"
      using L satisfied_equivalent satisfied_canonicalize by blast
  qed
next
  assume ?R
  then show ?L using set_canonical_form satisfied_canonicalize by fastforce
qed

text \<open>C12: Finalising keeps the meaning of a set: sorting, collapsing duplicates and canonicalising entity
  lists leave unchanged which candidates satisfy all mandatory constraints.\<close>

theorem finalize_preserves_meaning:
  assumes "fst (validate_and_finalize_constraint_set s l) = Ok"
  shows "(\<forall>c\<in>set (cs_constraints (fst (snd (validate_and_finalize_constraint_set s l)))).
            c_scope c = Mandatory \<longrightarrow> satisfied cur cand c) \<longleftrightarrow>
         (\<forall>c\<in>set (cs_constraints s). c_scope c = Mandatory \<longrightarrow> satisfied cur cand c)"
proof -
  obtain out where "fst (snd (validate_and_finalize_constraint_set s l)) = out"
    "cs_constraints out = canonical_form (cs_constraints s)"
    by (rule finalize_form [OF assms]) blast
  then show ?thesis by (simp add: canonical_form_meaning)
qed

theorem finalize_preserves_meaning_witness:
  "satisfied sample_requirements (sample_candidate 9) sample_required \<and>
   satisfied sample_requirements (sample_candidate 9) sample_hops"
proof -
  have "c_scope sample_required = Mandatory" "c_scope sample_hops = Mandatory"
    by (simp_all add: sample_required_def sample_hops_def default_constraint_def)
  then show ?thesis
    using finalize_preserves_meaning [of sample_unsorted default_limits sample_requirements "sample_candidate 9"]
      sample_finalize sample_satisfied by (simp add: sample_unsorted_def)
qed

subsection \<open>Contradictions\<close>

lemma set_bucket_of [simp]: "set (bucket_of s k) = {c \<in> set (cs_constraints s). c_kind c = k}"
  by (auto simp: bucket_of_def)

lemma same_entity_conflict:
  assumes "ct \<in> set (same_entity_contradictions (bucket_of s kp) (bucket_of s kn) sk member)"
    and "\<forall>c\<in>set (cs_constraints s). sorted (member c)"
  shows "ct_kind ct = RequiredAndForbiddenSameEntity" "ct_subject_kind ct = sk"
    "\<exists>p\<in>set (cs_constraints s). \<exists>n\<in>set (cs_constraints s). c_kind p = kp \<and> c_kind n = kn \<and>
       set (member p) \<inter> set (member n) \<noteq> {}"
  using assms by (auto simp: same_entity_contradictions_def binary_search_iff)

lemma locality_conflict:
  "ct \<in> set (locality_conflicts cs) \<Longrightarrow>
     \<exists>a\<in>set cs. \<exists>b\<in>set cs. c_domain_kind a = c_domain_kind b \<and> c_locality_domain a \<noteq> c_locality_domain b"
  by (induction cs rule: locality_conflicts.induct) auto

lemma isolation_conflict: "ct \<in> set (isolation_conflicts cs) \<Longrightarrow> ct_kind ct = ConflictingIsolationClasses"
  by (induction cs rule: isolation_conflicts.induct) auto

lemma relation_conflict_kind: "ct \<in> set (relation_conflicts as bs) \<Longrightarrow> ct_kind ct = FailureDomainRelationConflict"
  by (auto simp: relation_conflicts_def)

lemma attested_unique:
  assumes "attested key refs k P" "attested key refs k Q"
  shows "\<exists>r. P r \<and> Q r"
  using assms unfolding attested_def by (metis order_antisym)

lemma attested_known: "attested key refs k P \<Longrightarrow> known key refs k"
  by (auto simp: attested_def known_def)

text \<open>The contradictions that no candidate can survive when the constraints are mandatory.\<close>

definition excludes_every_candidate :: "contradiction \<Rightarrow> bool" where
  "excludes_every_candidate ct \<longleftrightarrow>
     ct_kind ct = ConflictingLocalityScopes \<or> ct_kind ct = ImpossibleHopBudget \<or>
     ct_kind ct = RequiredAndForbiddenSameEntity \<and> ct_subject_kind ct \<in> {SK_Node, SK_Link, SK_Capability}"

lemma locality_excludes:
  assumes "ct \<in> set (locality_conflicts (bucket_of s CK_LocalityScope))" "validate_candidate cand l = Ok"
  shows "\<exists>c\<in>set (cs_constraints s). \<not> satisfied cur cand c"
proof (rule ccontr)
  assume sat: "\<not> ?thesis"
  obtain a b where ab: "a \<in> set (cs_constraints s)" "b \<in> set (cs_constraints s)"
    "c_kind a = CK_LocalityScope" "c_kind b = CK_LocalityScope" "c_domain_kind a = c_domain_kind b"
    "c_locality_domain a \<noteq> c_locality_domain b"
    using locality_conflict [OF assms(1)] by auto
  obtain n where n: "n \<in> set (cp_nodes cand)"
    using validate_candidate_bounds(5) [OF assms(2)] by (cases "cp_nodes cand") auto
  have "satisfied cur cand a" "satisfied cur cand b" using sat ab by auto
  then have "attested lr_kind (nf_localities n) (c_domain_kind a) (\<lambda>r. lr_domain r = c_locality_domain a)"
    "attested lr_kind (nf_localities n) (c_domain_kind a) (\<lambda>r. lr_domain r = c_locality_domain b)"
    using ab n by (auto simp: satisfied_def)
  from attested_unique [OF this] show False using ab(6) by auto
qed

lemma hops_exclude:
  assumes "ct \<in> set (hop_conflicts s)" "validate_candidate cand l = Ok"
  shows "\<exists>c\<in>set (cs_constraints s). \<not> satisfied cur cand c"
proof (rule ccontr)
  assume sat: "\<not> ?thesis"
  obtain c where c: "c \<in> set (cs_constraints s)" "c_kind c = CK_MaxHopCount"
    "int (length (required_node_set s)) - 1 > sint (c_bound c)"
    using assms(1) by (auto simp: hop_conflicts_def Let_def)
  have "set (required_node_set s) \<subseteq> path_nodes cand"
    using sat by (fastforce simp: required_node_set_def satisfied_def)
  then have "card (set (required_node_set s)) \<le> card (path_nodes cand)"
    by (intro card_mono) (auto simp: path_nodes_def)
  also have "\<dots> \<le> length (cp_nodes cand)"
    unfolding path_nodes_def by (metis card_length length_map set_map)
  finally have "length (required_node_set s) \<le> length (cp_nodes cand)"
    by (simp add: required_node_set_def distinct_card [symmetric])
  moreover have "int (length (cp_links cand)) \<le> sint (c_bound c)"
    using sat c by (auto simp: satisfied_def)
  ultimately show False
    using c(3) validate_candidate_bounds(5,6) [OF assms(2)] by linarith
qed

lemma node_excludes:
  assumes "p \<in> set (cs_constraints s)" "n \<in> set (cs_constraints s)" "c_kind p = CK_RequiredNode"
    "c_kind n = CK_ForbiddenNode" "set (c_nodes p) \<inter> set (c_nodes n) \<noteq> {}"
  shows "\<exists>c\<in>set (cs_constraints s). \<not> satisfied cur cand c"
proof -
  have "\<not> (satisfied cur cand p \<and> satisfied cur cand n)" using assms(3-5) by (auto simp: satisfied_def)
  then show ?thesis using assms(1,2) by blast
qed

lemma link_excludes:
  assumes "p \<in> set (cs_constraints s)" "n \<in> set (cs_constraints s)" "c_kind p = CK_RequiredLink"
    "c_kind n = CK_ForbiddenLink" "set (c_links p) \<inter> set (c_links n) \<noteq> {}"
  shows "\<exists>c\<in>set (cs_constraints s). \<not> satisfied cur cand c"
proof -
  have "\<not> (satisfied cur cand p \<and> satisfied cur cand n)" using assms(3-5) by (auto simp: satisfied_def)
  then show ?thesis using assms(1,2) by blast
qed

lemma capability_excludes:
  assumes "p \<in> set (cs_constraints s)" "n \<in> set (cs_constraints s)" "c_kind p = CK_RequiredCapability"
    "c_kind n = CK_ForbiddenCapability" "set (c_capabilities p) \<inter> set (c_capabilities n) \<noteq> {}"
    "validate_candidate cand l = Ok"
  shows "\<exists>c\<in>set (cs_constraints s). \<not> satisfied cur cand c"
proof (rule ccontr)
  assume "\<not> ?thesis"
  then have sat: "satisfied cur cand p" "satisfied cur cand n" using assms(1,2) by auto
  obtain w e where "w \<in> set (c_capabilities p)" "w \<in> set (c_capabilities n)" "e \<in> set (entities_of cand)"
    using assms(5) entities_not_Nil [OF assms(6)] by (cases "entities_of cand") auto
  then show False
    using sat assms(3,4) attested_known by (fastforce simp: satisfied_def)
qed


definition sample_conflict :: constraint_set where
  "sample_conflict = sample_body\<lparr> cs_constraints := [sample_required,
     default_constraint\<lparr> c_id := 4, c_generation := 1, c_kind := CK_ForbiddenNode, c_nodes := [2] \<rparr>] \<rparr>"


end
