(* ===== verification/Evaluator_Properties.thy ===== *)
theory Evaluator_Properties
  imports Samples
begin

text \<open>
  The properties of candidate and batch evaluation: admission is exactly the specification of
  \<open>Satisfaction\<close>, stale or unbound evidence is never admitted, the reason vector is bounded and
  keeps its primary reason, preference margins are exact, and batches are ranked and independent
  of the order of their candidates.
\<close>

subsection \<open>Admission\<close>

text \<open>C2: With a set and valid limits bound, evaluating a candidate always returns a record, and that
  record is admissible exactly when every gate is open (canonical set, well-formed candidate, known
  caller, active set of the requested generation, current legal path authority, current evidence of
  every consulted family) and every mandatory constraint of the set is satisfied.\<close>

theorem admission_iff:
  assumes "ctx_set ctx = Some s" "ctx_limits ctx = Some l" "validate_limits l"
  shows "\<exists>r. evaluate_candidate ctx cand = Inr r \<and>
    (is_admissible (ev_outcome r) \<longleftrightarrow> gates_open ctx s l cand \<and>
       (\<forall>c\<in>set (cs_constraints s). c_scope c = Mandatory \<longrightarrow> satisfied (ctx_current ctx) cand c))"
  using assms by (rule evaluate_candidate_admits)

theorem admission_iff_witness:
  "\<exists>r. evaluate_candidate sample_context (sample_candidate 9) = Inr r \<and> is_admissible (ev_outcome r)"
proof -
  have "ctx_set sample_context = Some sample_set" "ctx_limits sample_context = Some default_limits"
    by (simp_all add: sample_context_def)
  then show ?thesis
    using admission_iff [of sample_context sample_set default_limits "sample_candidate 9"]
      validate_default_limits sample_gates sample_satisfied
    by (auto simp: sample_context_def)
qed

subsection \<open>Evidence\<close>

lemma foldl_or_contains:
  fixes m :: "'a::len word"
  assumes "c \<in> set cs" "bit (f c) i"
  shows "bit (foldl (\<lambda>m c. m OR f c) m cs) i"
  using assms foldl_or_keeps [of _ i f]
  by (induction cs arbitrary: m) (auto simp: bit_or_iff)

lemma family_bit_consulted:
  assumes "c \<in> set (cs_constraints s)" "families_of c AND family_bit f \<noteq> 0"
  shows "consulted_families s AND family_bit f \<noteq> 0"
proof -
  obtain i where i: "bit (families_of c) i" "bit (family_bit f) i"
    using assms(2) by (auto simp: bit_eq_iff bit_and_iff)
  then have "bit (consulted_families s) i"
    using foldl_or_contains [OF assms(1), of families_of i]
    by (auto simp: consulted_families_def Let_def bit_or_iff)
  then have "bit (consulted_families s AND family_bit f) i" using i(2) by (simp add: bit_and_iff)
  then show ?thesis by auto
qed

text \<open>C10: Stale evidence is never admitted. When a candidate is admitted, its evidence generation equals
  the required one, and the required one is bound, for every evidence family that any constraint of
  the set, mandatory or preference, depends on.\<close>

theorem admitted_evidence_current:
  assumes "ctx_set ctx = Some s" "ctx_limits ctx = Some l" "evaluate_candidate ctx cand = Inr r"
    and "is_admissible (ev_outcome r)" "c \<in> set (cs_constraints s)"
    and "f \<in> set currentness_families" "families_of c AND family_bit f \<noteq> 0"
  shows "required_generation_of (ctx_current ctx) f \<noteq> 0 \<and>
    evidence_generation_of (cp_evidence cand) f = required_generation_of (ctx_current ctx) f"
proof -
  have "validate_limits l" using assms(1-3) by (simp add: evaluate_candidate_def split: if_splits)
  then have "gates_open ctx s l cand"
    using evaluate_candidate_admits [OF assms(1,2), of cand] assms(3,4) by auto
  then show ?thesis
    using family_bit_consulted [OF assms(5,7)] assms(6) by (auto simp: gates_open_def family_current_def)
qed

theorem admitted_evidence_current_witness:
  "required_generation_of sample_requirements EF_Topology \<noteq> 0 \<and>
   evidence_generation_of (cp_evidence (sample_candidate 9)) EF_Topology =
     required_generation_of sample_requirements EF_Topology"
proof -
  have ctx: "ctx_set sample_context = Some sample_set" "ctx_limits sample_context = Some default_limits"
    "ctx_current sample_context = sample_requirements"
    by (simp_all add: sample_context_def)
  obtain r where "evaluate_candidate sample_context (sample_candidate 9) = Inr r" "is_admissible (ev_outcome r)"
    using evaluate_candidate_admits [OF ctx(1,2) validate_default_limits, of "sample_candidate 9"]
      sample_gates sample_satisfied ctx(3) by auto
  moreover have "families_of sample_required AND family_bit EF_Topology \<noteq> 0" by code_simp
  moreover have "sample_required \<in> set (cs_constraints sample_set)" by (simp add: sample_set_fields)
  ultimately show ?thesis
    using admitted_evidence_current [OF ctx(1,2), of "sample_candidate 9" r sample_required EF_Topology] ctx(3)
    by (simp add: currentness_families_def)
qed

subsection \<open>Reason vectors\<close>

text \<open>C26: The reason vector of a record explains it. It is empty exactly when the candidate is
  admissible, is sorted in the canonical reason order, never exceeds the configured number of reasons
  nor of distinct failed constraints, holds only reasons that were really collected, and its primary
  reason is the primary reason of everything collected, also when the vector was truncated.\<close>

theorem reasons_bounded_and_primary:
  assumes "ctx_set ctx = Some s" "ctx_limits ctx = Some l" "evaluate_candidate ctx cand = Inr r"
  shows "(ev_reasons r = [] \<longleftrightarrow> is_admissible (ev_outcome r)) \<and>
    sorted (map reason_key (ev_reasons r)) \<and>
    length (ev_reasons r) \<le> unat (max_explanation_reasons l) \<and>
    card (set (map r_constraint (filter (is_valid \<circ> r_constraint) (ev_reasons r))))
      \<le> unat (max_failed_constraints_per_evaluation l) \<and>
    set (ev_reasons r) \<subseteq> set (es_reasons (collected_reasons ctx s l cand)) \<and>
    ev_primary_reason r = primary_reason_of (es_reasons (collected_reasons ctx s l cand))"
proof -
  have v: "validate_limits l" using assms by (simp add: evaluate_candidate_def split: if_splits)
  have r: "ev_reasons r = canonicalize_reasons (es_reasons (collected_reasons ctx s l cand)) l"
    "ev_outcome r = outcome_from_reasons (ev_reasons r) (ev_preferences r \<noteq> [])"
    "ev_primary_reason r = primary_reason_of (ev_reasons r)"
    using evaluate_candidate_fields [OF assms(1,2) v, of cand] assms(3) by (metis sum.inject(2))+
  have wf: "\<forall>x\<in>set (ev_reasons r). wf_reason x"
    using r(1) set_canonicalize_reasons collected_reasons_wf by fastforce
  have "length (ev_reasons r) \<le> unat (max_explanation_reasons l)"
    unfolding r(1) canonicalize_reasons_def by (rule bound_reasons_length) simp
  moreover have "card (set (map r_constraint (filter (is_valid \<circ> r_constraint) (ev_reasons r))))
      \<le> unat (max_failed_constraints_per_evaluation l)"
    unfolding r(1) canonicalize_reasons_def by (rule bound_reasons_represented) simp_all
  moreover have "ev_reasons r = [] \<longleftrightarrow> is_admissible (ev_outcome r)"
    unfolding r(2) by (simp add: outcome_from_reasons_admissible [OF wf])
  ultimately show ?thesis
    unfolding r(3) unfolding r(1)
    by (simp add: canonicalize_reasons_sorted canonicalize_reasons_primary [OF v] set_canonicalize_reasons)
qed

theorem reasons_bounded_and_primary_witness:
  "\<exists>r. evaluate_candidate sample_context (sample_candidate 0) = Inr r \<and> length (ev_reasons r) \<le> 64 \<and>
     ev_primary_reason r = primary_reason_of
       (es_reasons (collected_reasons sample_context sample_set default_limits (sample_candidate 0)))"
proof -
  have ctx: "ctx_set sample_context = Some sample_set" "ctx_limits sample_context = Some default_limits"
    by (simp_all add: sample_context_def)
  obtain r where r: "evaluate_candidate sample_context (sample_candidate 0) = Inr r"
    using evaluate_candidate_fields [OF ctx validate_default_limits, of "sample_candidate 0"] by blast
  have "unat (max_explanation_reasons default_limits) = 64" by (simp add: default_limits_def)
  then show ?thesis
    using reasons_bounded_and_primary [OF ctx r] r by simp
qed

subsection \<open>Fail-closed negatives\<close>

text \<open>A mandatory \<open>ForbiddenCapability\<close> constraint under the fail-closed policy admits no candidate at all:
  absent evidence is unknown and present evidence is a violation. Only \<open>PermitUnknownNegative\<close> makes
  the constraint satisfiable.\<close>

theorem forbidden_capability_fail_closed:
  assumes "ctx_set ctx = Some s" "ctx_limits ctx = Some l" "validate_limits l"
    and "c \<in> set (cs_constraints s)" "c_kind c = CK_ForbiddenCapability" "c_scope c = Mandatory"
    and "c_unknown_policy c = FailClosed"
  shows "\<exists>r. evaluate_candidate ctx cand = Inr r \<and> \<not> is_admissible (ev_outcome r)"
proof -
  have "\<not> satisfied (ctx_current ctx) cand c" using assms(5,7) by (simp add: satisfied_def)
  then show ?thesis using evaluate_candidate_admits [OF assms(1-3), of cand] assms(4,6) by blast
qed

theorem forbidden_capability_fail_closed_witness:
  "\<exists>r. evaluate_candidate (sample_context\<lparr> ctx_set := Some (sample_set\<lparr> cs_constraints :=
       [default_constraint\<lparr> c_id := 1, c_generation := 1, c_kind := CK_ForbiddenCapability, c_capabilities := [5] \<rparr>] \<rparr>) \<rparr>)
     (sample_candidate 9) = Inr r \<and> \<not> is_admissible (ev_outcome r)"
  by (rule forbidden_capability_fail_closed [where s = "sample_set\<lparr> cs_constraints :=
       [default_constraint\<lparr> c_id := 1, c_generation := 1, c_kind := CK_ForbiddenCapability, c_capabilities := [5] \<rparr>] \<rparr>"
       and l = default_limits])
     (simp_all add: sample_context_def validate_default_limits default_constraint_def, simp_all)

subsection \<open>Preference margins\<close>

lemma sint_sub_exact:
  fixes a b :: i64
  assumes "- (2 ^ 63) \<le> sint a - sint b" "sint a - sint b < 2 ^ 63"
  shows "sint (a - b) = sint a - sint b"
proof -
  have "sint (a - b) = signed_take_bit 63 (sint a - sint b)"
    by (simp add: sint_word_ariths)
  then show ?thesis using assms by (simp add: signed_take_bit_int_eq_self)
qed

lemma sint_i64_range: "- (2 ^ 63) \<le> sint (a :: i64)" "sint (a :: i64) < 2 ^ 63"
  using sint_ge [of a] sint_lt [of a] by simp_all

lemma bottleneck_nonneg:
  assumes "path_bandwidth_capability cand g = Some b"
  shows "0 \<le> sint b"
proof -
  have all: "list_all (link_capable g) (cp_links cand)" and b: "sint b = Min (link_bits ` set (cp_links cand))"
    and "cp_links cand \<noteq> []"
    using assms by (simp_all add: path_bandwidth_capability_Some)
  then have "sint b \<in> link_bits ` set (cp_links cand)"
    using Min_in [of "link_bits ` set (cp_links cand)"] by simp
  then show ?thesis using all by (auto simp: list_all_iff link_capable_def)
qed

text \<open>Preference margins never overflow. For a validated preference on latency, bandwidth, hop count or
  failure-domain separation and a validated candidate, the 64-bit margin of the slot is the exact
  difference of the bound and the measured value, and the slot is satisfied exactly when the evidence is
  there and the margin is not negative.\<close>

theorem preference_margin_exact:
  assumes "validate_constraint c l = Ok" "validate_candidate cand l = Ok"
  shows "case c_kind c of
      CK_MaxLatency \<Rightarrow> le_source (cp_latency cand) = c_latency_source c \<longrightarrow>
        sint (ps_margin (evaluate_preference cur cand (n, c))) =
          sint (c_bound c) - sint (le_micros (cp_latency cand)) \<and>
        (ps_satisfied (evaluate_preference cur cand (n, c)) \<longleftrightarrow>
           sint (ps_margin (evaluate_preference cur cand (n, c))) \<ge> 0)
    | CK_MinBandwidthCapability \<Rightarrow> \<forall>b. path_bandwidth_capability cand (er_capability cur) = Some b \<longrightarrow>
        sint (ps_margin (evaluate_preference cur cand (n, c))) = sint b - sint (c_bound c) \<and>
        (ps_satisfied (evaluate_preference cur cand (n, c)) \<longleftrightarrow>
           sint (ps_margin (evaluate_preference cur cand (n, c))) \<ge> 0)
    | CK_MaxHopCount \<Rightarrow>
        sint (ps_margin (evaluate_preference cur cand (n, c))) = sint (c_bound c) - int (length (cp_links cand)) \<and>
        (ps_satisfied (evaluate_preference cur cand (n, c)) \<longleftrightarrow>
           sint (ps_margin (evaluate_preference cur cand (n, c))) \<ge> 0)
    | CK_RequiredFailureDomainRelation \<Rightarrow> domains_known cand (c_domain_kind c) \<longrightarrow>
        sint (ps_margin (evaluate_preference cur cand (n, c))) =
          int (card (occupied_domains cand (c_domain_kind c))) - sint (c_bound c) \<and>
        (ps_satisfied (evaluate_preference cur cand (n, c)) \<longleftrightarrow>
           sint (ps_margin (evaluate_preference cur cand (n, c))) \<ge> 0)
    | _ \<Rightarrow> True"
proof -
  have hops: "sint (ucast (cp_hop_count cand) :: i64) = int (length (cp_links cand))"
    using validate_candidate_bounds(7) [OF assms(2)] by (simp add: sint_i64_hops uint_nat)
  have links: "int (length (cp_links cand)) < 2 ^ 32"
    using validate_candidate_bounds(3) [OF assms(2)] unat_u32_less [of _ "max_links_per_candidate l"] by fastforce
  have lat: "le_source (cp_latency cand) \<noteq> LS_Unset \<Longrightarrow>
      0 \<le> sint (le_micros (cp_latency cand)) \<and> sint (le_micros (cp_latency cand)) \<le> 2 ^ 62"
    using validate_candidate_bounds(10) [OF assms(2)]
    by (auto simp: validate_latency_def Let_def kMaxFixedPointBound_def split: if_splits)
  have bound: "1 \<le> sint (c_bound c) \<and> sint (c_bound c) \<le> 2 ^ 62"
    if "c_kind c \<in> {CK_MaxLatency, CK_MinBandwidthCapability, CK_MaxHopCount, CK_RequiredFailureDomainRelation}"
    using validate_bound_range [OF assms(1)] that by blast
  have source: "c_latency_source c \<noteq> LS_Unset" if "c_kind c = CK_MaxLatency"
    using assms(1) that by (auto simp: validate_constraint_Ok validate_payload_def gate_simps split: if_splits)
  have card: "int (card (occupied_domains cand (c_domain_kind c))) < 2 ^ 63"
    "sint (word_of_nat (card (occupied_domains cand (c_domain_kind c))) :: i64) =
      int (card (occupied_domains cand (c_domain_kind c)))"
    using occupied_domains_bound [OF assms(2), of "c_domain_kind c"] by (simp_all add: sint_i64_of_nat)
  show ?thesis
  proof (cases "c_kind c")
    case CK_MaxLatency
    then show ?thesis
      using bound source lat sint_sub_exact [of "c_bound c" "le_micros (cp_latency cand)"]
      by (auto simp: evaluate_preference_def)
  next
    case CK_MinBandwidthCapability
    have "0 \<le> sint b" if "path_bandwidth_capability cand (er_capability cur) = Some b" for b
      using that by (rule bottleneck_nonneg)
    then have "sint (b - c_bound c) = sint b - sint (c_bound c)"
      if "path_bandwidth_capability cand (er_capability cur) = Some b" for b
      using that bound CK_MinBandwidthCapability sint_i64_range [of b] by (intro sint_sub_exact) fastforce+
    then show ?thesis using CK_MinBandwidthCapability by (auto simp: evaluate_preference_def)
  next
    case CK_MaxHopCount
    then show ?thesis
      using bound links hops sint_sub_exact [of "c_bound c" "ucast (cp_hop_count cand)"]
      by (auto simp: evaluate_preference_def Let_def)
  next
    case CK_RequiredFailureDomainRelation
    then show ?thesis
      using bound card scan_domains_spec [OF assms(2)]
        sint_sub_exact [of "word_of_nat (card (occupied_domains cand (c_domain_kind c)))" "c_bound c"]
      by (auto simp: evaluate_preference_def Let_def)
  qed simp_all
qed

theorem preference_margin_exact_witness:
  "sint (ps_margin (evaluate_preference sample_requirements (sample_candidate 9) (2, sample_preference))) = 0"
  using preference_margin_exact [OF sample_constraint_valid(2) sample_candidate_valid, where n = 2]
  by (simp add: sample_preference_def default_constraint_def sample_candidate_def)

subsection \<open>Batches\<close>

lemma canonical_order_perm:
  assumes "mset cs = mset ds" "distinct (map cp_path cs)"
  shows "stable_sort candidate_canonical_less cs = stable_sort candidate_canonical_less ds"
proof -
  have "inj_on cp_path (set cs)" using assms(2) by (simp add: distinct_map)
  moreover have "mset (sort_key cp_path ds) = mset cs" using assms(1) by simp
  ultimately have "sort_key cp_path cs = sort_key cp_path ds"
    by (metis mset_sort sort_key_inj_key_eq sorted_sort_key)
  then show ?thesis by (simp add: path_order.stable_sort_eq)
qed

text \<open>C35: A batch does not observe the order in which the caller lists its candidates: two listings of the
  same candidates with distinct paths give the same batch, records, ranking and outcome included.\<close>

theorem batch_order_independent:
  assumes "mset cs = mset ds" "distinct (map cp_path cs)"
  shows "evaluate_batch ctx cs = evaluate_batch ctx ds"
  unfolding evaluate_batch_def canonical_order_perm [OF assms] mset_eq_length [OF assms(1)] ..

theorem batch_order_independent_witness:
  "evaluate_batch sample_context [sample_candidate 9, sample_candidate 4] =
   evaluate_batch sample_context [sample_candidate 4, sample_candidate 9]"
  by (rule batch_order_independent) (simp_all add: sample_candidate_def)

lemma conflicting_duplicates_distinct: "distinct (map cp_path cs) \<Longrightarrow> \<not> conflicting_duplicates cs"
  by (induction cs rule: conflicting_duplicates.induct) auto

lemma drop_duplicates_distinct:
  "distinct (map cp_path (acc @ cs)) \<Longrightarrow> drop_duplicates acc cs = acc @ cs"
proof (induction acc cs rule: drop_duplicates.induct)
  case (2 acc c cs)
  have "\<not> (acc \<noteq> [] \<and> cp_path (last acc) = cp_path c)"
    using 2(3) by (metis (no_types, lifting) distinct_append distinct_map disjoint_iff image_eqI last_in_set
        list.set_intros(1) map_append set_map)
  then show ?case using 2 by simp
qed simp

lemma traverse_nth: "traverse f xs = Inr ys \<Longrightarrow> length ys = length xs \<and> (\<forall>i<length xs. f (xs ! i) = Inr (ys ! i))"
proof (induction xs arbitrary: ys)
  case (Cons x xs)
  then obtain y zs where "f x = Inr y" "traverse f xs = Inr zs" "ys = y # zs"
    by (auto split: sum.splits)
  then show ?case using Cons.IH by (auto simp: nth_Cons split: nat.splits)
qed simp

lemma evaluate_batch_distinct:
  assumes "ctx_set ctx = Some s" "ctx_limits ctx = Some l" "validate_limits l" "distinct (map cp_path cs)"
    and "length cs \<le> unat (max_candidates_per_evaluation l)" "length cs \<le> unat (max_batch_size l)"
  obtains records b where
    "traverse (evaluate_candidate ctx) (sort_key cp_path cs) = Inr records" "evaluate_batch ctx cs = Inr b"
    "eb_records b = records" "eb_admissible_order b = order_admissible records (sort_key cp_path cs) (cs_ranking s)"
    "eb_has_admissible b = (eb_admissible_order b \<noteq> [])"
    "eb_batch_outcome b = (if eb_has_admissible b then BO_AdmissibleCandidatesAvailable else BO_NoAdmissibleCandidate)"
proof -
  have d: "distinct (map cp_path (sort_key cp_path cs))"
    using assms(4) mset_eq_imp_distinct_iff [of "map cp_path (sort_key cp_path cs)" "map cp_path cs"] by simp
  have "\<exists>r. evaluate_candidate ctx c = Inr r" for c
    using evaluate_candidate_admits [OF assms(1-3), of c] by blast
  then obtain records where r: "traverse (evaluate_candidate ctx) (sort_key cp_path cs) = Inr records"
    using traverse_total by metis
  have e: "evaluate_batch ctx cs \<noteq> Inl e" for e
    using assms d r conflicting_duplicates_distinct [OF d] drop_duplicates_distinct [of "[]", simplified, OF d]
    by (simp add: evaluate_batch_def path_order.stable_sort_eq Let_def)
  then obtain b where b: "evaluate_batch ctx cs = Inr b" by (cases "evaluate_batch ctx cs") auto
  show thesis
    by (rule that [OF r b])
       (use assms d r b conflicting_duplicates_distinct [OF d] drop_duplicates_distinct [of "[]", simplified, OF d] in
         \<open>auto simp: evaluate_batch_def path_order.stable_sort_eq Let_def\<close>)
qed



end
