(* ===== verification/Ordered_Map.thy ===== *)
theory Ordered_Map
  imports Crf_Prelude
begin

text \<open>
  \<open>std::map\<close> as the sources use it: an association list in ascending key order, so that iteration
  order is part of the model. The interface that the clients rely on is the locale
  \<open>keyed_store\<close>: lookup after insertion and after erasure, and the order invariant.
\<close>

fun om_set :: "'k::linorder \<Rightarrow> 'v \<Rightarrow> ('k \<times> 'v) list \<Rightarrow> ('k \<times> 'v) list" where
  "om_set k v [] = [(k, v)]"
| "om_set k v ((k', v') # m) =
     (if k < k' then (k, v) # (k', v') # m else if k = k' then (k, v) # m else (k', v') # om_set k v m)"

definition om_find :: "('k \<times> 'v) list \<Rightarrow> 'k \<Rightarrow> 'v option" where
  "om_find m k = map_of m k"

text \<open>\<open>emplace\<close> leaves an existing entry alone.\<close>

definition om_emplace :: "'k::linorder \<Rightarrow> 'v \<Rightarrow> ('k \<times> 'v) list \<Rightarrow> ('k \<times> 'v) list" where
  "om_emplace k v m = (if om_find m k = None then om_set k v m else m)"

definition om_erase :: "'k \<Rightarrow> ('k \<times> 'v) list \<Rightarrow> ('k \<times> 'v) list" where
  "om_erase k m = filter (\<lambda>p. fst p \<noteq> k) m"

definition om_sorted :: "('k::linorder \<times> 'v) list \<Rightarrow> bool" where
  "om_sorted m \<longleftrightarrow> sorted_wrt (<) (map fst m)"

locale keyed_store =
  fixes find :: "'m \<Rightarrow> 'k \<Rightarrow> 'v option"
    and insert :: "'k \<Rightarrow> 'v \<Rightarrow> 'm \<Rightarrow> 'm"
    and erase :: "'k \<Rightarrow> 'm \<Rightarrow> 'm"
    and ordered :: "'m \<Rightarrow> bool"
  assumes find_insert: "find (insert k v m) k' = (if k' = k then Some v else find m k')"
    and find_erase: "find (erase k m) k' = (if k' = k then None else find m k')"
    and ordered_insert: "ordered m \<Longrightarrow> ordered (insert k v m)"
    and ordered_erase: "ordered m \<Longrightarrow> ordered (erase k m)"
begin

lemma insert_insert: "find (insert k v (insert k w m)) = find (insert k v m)"
  by (rule ext) (simp add: find_insert)

lemma erase_insert: "find (erase k (insert k v m)) = find (erase k m)"
  by (rule ext) (simp add: find_insert find_erase)

lemma insert_commute: "j \<noteq> k \<Longrightarrow> find (insert j v (insert k w m)) = find (insert k w (insert j v m))"
  by (rule ext) (simp add: find_insert)

lemma kept_by_inserts: "find m k \<noteq> None \<Longrightarrow> find (insert j v m) k \<noteq> None"
  by (simp add: find_insert)

lemma ordered_fold: "ordered m \<Longrightarrow> ordered (foldl (\<lambda>m p. insert (fst p) (snd p) m) m ps)"
  by (induction ps arbitrary: m) (simp_all add: ordered_insert)

end

lemma map_of_om_set: "map_of (om_set k v m) = (map_of m)(k \<mapsto> v)"
  by (induction k v m rule: om_set.induct) auto

lemma om_set_keys: "fst ` set (om_set k v m) = insert k (fst ` set m)"
  by (induction k v m rule: om_set.induct) auto

lemma om_sorted_set: "om_sorted m \<Longrightarrow> om_sorted (om_set k v m)"
proof (induction k v m rule: om_set.induct)
  case (2 k v k' v' m)
  have keys: "set (map fst (om_set k v m)) = insert k (set (map fst m))"
    using om_set_keys [of k v m] by simp
  show ?case
    using 2 keys unfolding om_sorted_def by (auto simp del: set_map)
qed (simp add: om_sorted_def)

interpretation om: keyed_store om_find om_set om_erase om_sorted
proof
  fix k k' :: "'k::linorder" and v :: 'v and m :: "('k \<times> 'v) list"
  show "om_find (om_set k v m) k' = (if k' = k then Some v else om_find m k')"
    by (simp add: om_find_def map_of_om_set)
  show "om_find (om_erase k m) k' = (if k' = k then None else om_find m k')"
    unfolding om_find_def om_erase_def by (induction m) auto
  show "om_sorted m \<Longrightarrow> om_sorted (om_set k v m)" by (rule om_sorted_set)
  show "om_sorted m \<Longrightarrow> om_sorted (om_erase k m)"
    unfolding om_sorted_def om_erase_def by (induction m) auto
qed

lemma om_find_emplace:
  "om_find (om_emplace k v m) k' = (if k' = k then Some (case om_find m k of None \<Rightarrow> v | Some w \<Rightarrow> w) else om_find m k')"
  by (auto simp: om_emplace_def om.find_insert split: option.splits)

lemma om_sorted_emplace: "om_sorted m \<Longrightarrow> om_sorted (om_emplace k v m)"
  by (simp add: om_emplace_def om.ordered_insert)

lemma om_sorted_Nil [simp]: "om_sorted []"
  by (simp add: om_sorted_def)

lemma om_find_Nil [simp]: "om_find [] k = None"
  by (simp add: om_find_def)

lemma om_find_iff: "om_sorted m \<Longrightarrow> om_find m k = Some v \<longleftrightarrow> (k, v) \<in> set m"
  unfolding om_find_def om_sorted_def by (simp add: strict_sorted_iff)

lemma om_find_None: "om_find m k = None \<longleftrightarrow> k \<notin> fst ` set m"
  by (simp add: om_find_def map_of_eq_None_iff)

lemma length_om_set: "length (om_set k v m) = (if om_find m k = None then Suc (length m) else length m)" if "om_sorted m"
  using that
proof (induction k v m rule: om_set.induct)
  case (2 k v k' v' m)
  have "k < k' \<Longrightarrow> om_find m k = None"
    using 2(2) by (force simp: om_find_None om_sorted_def)
  then show ?case using 2 by (auto simp: om_find_def om_sorted_def)
qed (simp add: om_find_def)

lemma length_om_erase: "length (om_erase k m) \<le> length m"
  by (simp add: om_erase_def)

text \<open>Appending a key above all others.\<close>

lemma om_find_above: "\<forall>x\<in>set m. fst x < k \<Longrightarrow> om_find m (k :: 'k::linorder) = None"
  by (auto simp: om_find_None)

lemma om_set_last: "\<forall>x\<in>set m. fst x < k \<Longrightarrow> om_set k v m = m @ [(k, v)]"
  by (induction m) auto

lemma om_emplace_last: "\<forall>x\<in>set m. fst x < k \<Longrightarrow> om_emplace k v m = m @ [(k, v)]"
  by (simp add: om_emplace_def om_find_above om_set_last)

lemma om_sorted_append_last:
  "om_sorted (m @ p # rest) \<Longrightarrow> \<forall>x\<in>set m. fst x < fst p"
  by (auto simp: om_sorted_def sorted_wrt_append)

end
