(* ===== verification/Authority.thy ===== *)
theory Authority
  imports Ordered_Map Digest
begin

text \<open>
  The authority registry (\<open>authority.hpp\<close>, \<open>authority.cpp\<close>): the coordinator epoch, the fenced
  worker boots, the publisher registrations and the window of mutation attempts. A member
  function that changes the registry returns its status together with the registry it leaves
  behind, also where it fails after a partial change. \<open>fresh_worker_boot\<close> reads the random
  device and the clock and is not modelled.
\<close>

subsection \<open>Data\<close>

type_synonym authority_scope_mask = u32

datatype authority_scope =
    NoScope | PublishConstraintSet | PublishEvaluation | ApplyLifecycle | ReadDefinitions
  | ReadResults | RegisterPublisher | AdministerFencing

fun scope_bit :: "authority_scope \<Rightarrow> authority_scope_mask" where
  "scope_bit NoScope = 0"
| "scope_bit PublishConstraintSet = 1"
| "scope_bit PublishEvaluation = 2"
| "scope_bit ApplyLifecycle = 4"
| "scope_bit ReadDefinitions = 8"
| "scope_bit ReadResults = 16"
| "scope_bit RegisterPublisher = 32"
| "scope_bit AdministerFencing = 64"

definition has_scope :: "authority_scope_mask \<Rightarrow> authority_scope \<Rightarrow> bool" where
  "has_scope m scope \<longleftrightarrow> m AND scope_bit scope \<noteq> 0"

record authority_context =
  ac_epoch :: coordinator_epoch
  ac_publisher :: publisher_id
  ac_worker_boot :: worker_boot_id
  ac_attempt :: mutation_attempt_id
  ac_request :: strong_id
  ac_session :: session_id
  ac_scopes :: authority_scope_mask

datatype replay_verdict = Fresh | ExactReplay | Conflict

record mutation_attempt_record =
  ma_attempt :: mutation_attempt_id
  ma_payload :: digest256
  ma_recorded_tick :: u64

record fenced_boot_record =
  fb_boot :: worker_boot_id
  fb_fenced_at :: coordinator_epoch
  fb_fenced_tick :: u64

record publisher_registration =
  pr_publisher :: publisher_id
  pr_boot :: worker_boot_id
  pr_session :: session_id
  pr_scopes :: authority_scope_mask
  pr_registered_tick :: u64
  pr_registered_at :: coordinator_epoch
  pr_live :: bool

record authority_registry =
  au_epoch :: coordinator_epoch
  au_fenced :: "(worker_boot_id \<times> fenced_boot_record) list"
  au_registrations :: "publisher_registration list"
  au_attempts :: "mutation_attempt_record list"

definition empty_authority :: authority_registry where
  "empty_authority = \<lparr> au_epoch = 0, au_fenced = [], au_registrations = [], au_attempts = [] \<rparr>"

subsection \<open>Operations\<close>

definition establish_epoch :: "coordinator_epoch \<Rightarrow> authority_registry \<Rightarrow> status \<times> authority_registry" where
  "establish_epoch epoch a =
     (if \<not> is_valid epoch then (InvalidArgument, a)
      else if is_valid (au_epoch a) \<and> epoch \<le> au_epoch a then (EpochMismatch, a)
      else (Ok, a\<lparr>au_epoch := epoch\<rparr>))"

definition is_boot_fenced :: "authority_registry \<Rightarrow> worker_boot_id \<Rightarrow> bool" where
  "is_boot_fenced a boot \<longleftrightarrow> om_find (au_fenced a) boot \<noteq> None"

definition retire_boot :: "worker_boot_id \<Rightarrow> publisher_registration \<Rightarrow> publisher_registration" where
  "retire_boot boot r = (if pr_boot r = boot then r\<lparr>pr_live := False\<rparr> else r)"

definition fence_boot ::
  "worker_boot_id \<Rightarrow> coordinator_epoch \<Rightarrow> u64 \<Rightarrow> limits \<Rightarrow> authority_registry \<Rightarrow> status \<times> authority_registry" where
  "fence_boot boot at tick limits a =
     (if \<not> is_valid boot then (InvalidArgument, a)
      else if om_find (au_fenced a) boot \<noteq> None then (Ok, a)
      else if length (au_fenced a) \<ge> unat (max_fenced_boots limits) then (ResourceLimit, a)
      else (Ok, a\<lparr>au_fenced := om_emplace boot
                    \<lparr> fb_boot = boot, fb_fenced_at = at, fb_fenced_tick = tick \<rparr> (au_fenced a),
                  au_registrations := map (retire_boot boot) (au_registrations a)\<rparr>))"

text \<open>\<open>existing.live = false\<close> for the registration at an index.\<close>

definition retire_index :: "nat \<Rightarrow> authority_registry \<Rightarrow> authority_registry" where
  "retire_index i a =
     a\<lparr>au_registrations := (au_registrations a)[i := (au_registrations a ! i)\<lparr>pr_live := False\<rparr>]\<rparr>"

text \<open>The loop of \<open>register_publisher\<close> over the existing registrations, by index because
  \<open>fence_boot\<close> changes the vector it walks.\<close>

fun fence_previous ::
  "publisher_registration \<Rightarrow> limits \<Rightarrow> nat list \<Rightarrow> authority_registry \<Rightarrow> status \<times> authority_registry" where
  "fence_previous registration limits [] a = (Ok, a)"
| "fence_previous registration limits (i # is) a =
     (let existing = au_registrations a ! i in
      if pr_publisher existing = pr_publisher registration \<and> pr_live existing then
        if pr_boot existing = pr_boot registration then (DuplicateIdentity, a)
        else (case fence_boot (pr_boot existing) (au_epoch a) (pr_registered_tick registration) limits a of
            (st, a') \<Rightarrow>
              if st \<noteq> Ok then (st, a')
              else fence_previous registration limits is (retire_index i a'))
      else fence_previous registration limits is a)"

definition live_publishers :: "authority_registry \<Rightarrow> nat" where
  "live_publishers a = length (filter pr_live (au_registrations a))"

definition live_session_set :: "authority_registry \<Rightarrow> session_id list" where
  "live_session_set a = remdups (map pr_session (filter pr_live (au_registrations a)))"

definition live_sessions :: "authority_registry \<Rightarrow> nat" where
  "live_sessions a = length (live_session_set a)"

definition register_publisher ::
  "publisher_registration \<Rightarrow> limits \<Rightarrow> authority_registry \<Rightarrow> status \<times> authority_registry" where
  "register_publisher registration limits a =
     (if \<not> is_valid (pr_publisher registration) then (InvalidArgument, a)
      else if \<not> is_valid (pr_boot registration) then (InvalidArgument, a)
      else if \<not> is_valid (pr_session registration) then (InvalidArgument, a)
      else if \<not> is_valid (pr_registered_at registration) \<or> pr_registered_at registration \<noteq> au_epoch a
        then (EpochMismatch, a)
      else if is_boot_fenced a (pr_boot registration) then (Fenced, a)
      else if pr_scopes registration = 0 then (Unauthorized, a)
      else (case fence_previous registration limits [0..<length (au_registrations a)] a of
          (st, a') \<Rightarrow>
            if st \<noteq> Ok then (st, a')
            else if live_publishers a' \<ge> unat (max_publishers limits) then (ResourceLimit, a')
            else if pr_session registration \<notin> set (live_session_set a') \<and>
                    live_sessions a' \<ge> unat (max_sessions limits) then (ResourceLimit, a')
            else (Ok, a'\<lparr>au_registrations := au_registrations a' @ [registration]\<rparr>)))"

definition drop_registration :: "session_id \<Rightarrow> publisher_registration \<Rightarrow> publisher_registration" where
  "drop_registration session r =
     (if pr_live r \<and> pr_session r = session then r\<lparr>pr_live := False\<rparr> else r)"

definition drop_session :: "session_id \<Rightarrow> authority_registry \<Rightarrow> status \<times> authority_registry" where
  "drop_session session a =
     (if list_ex (\<lambda>r. pr_live r \<and> pr_session r = session) (au_registrations a)
      then (Ok, a\<lparr>au_registrations := map (drop_registration session) (au_registrations a)\<rparr>)
      else (NotFound, a))"

definition boot_of_session :: "authority_registry \<Rightarrow> session_id \<Rightarrow> worker_boot_id option" where
  "boot_of_session a session =
     map_option pr_boot (List.find (\<lambda>r. pr_live r \<and> pr_session r = session) (au_registrations a))"

fun authorize_scan ::
  "authority_context \<Rightarrow> authority_scope_mask \<Rightarrow> publisher_registration list \<Rightarrow> status" where
  "authorize_scan context required [] = Unauthorized"
| "authorize_scan context required (registration # rest) =
     (if \<not> pr_live registration \<or> pr_publisher registration \<noteq> ac_publisher context
        then authorize_scan context required rest
      else if pr_session registration \<noteq> ac_session context then authorize_scan context required rest
      else if pr_boot registration \<noteq> ac_worker_boot context then Fenced
      else if required \<noteq> 0 \<and> pr_scopes registration AND required \<noteq> required then Unauthorized
      else Ok)"

definition context_complete :: "authority_context \<Rightarrow> bool" where
  "context_complete context \<longleftrightarrow> \<not> (\<not> is_valid (ac_epoch context) \<or> \<not> is_valid (ac_publisher context) \<or>
     \<not> is_valid (ac_worker_boot context) \<or> \<not> is_valid (ac_attempt context) \<or> \<not> is_valid (ac_session context))"

definition authorize :: "authority_registry \<Rightarrow> authority_context \<Rightarrow> authority_scope_mask \<Rightarrow> status" where
  "authorize a context required =
     (if \<not> context_complete context then Unauthorized
      else if \<not> is_valid (au_epoch a) \<or> ac_epoch context \<noteq> au_epoch a then EpochMismatch
      else if is_boot_fenced a (ac_worker_boot context) then Fenced
      else authorize_scan context required (au_registrations a))"

text \<open>The limits are at least one (\<open>validate_limits\<close>), so the evicted element exists.\<close>

definition observe_attempt ::
  "mutation_attempt_id \<Rightarrow> digest256 \<Rightarrow> u64 \<Rightarrow> limits \<Rightarrow> authority_registry \<Rightarrow>
   replay_verdict result \<times> authority_registry" where
  "observe_attempt attempt payload tick limits a =
     (if \<not> is_valid attempt then (Inl InvalidArgument, a)
      else case List.find (\<lambda>record. ma_attempt record = attempt) (au_attempts a) of
        Some record \<Rightarrow> (Inr (if ma_payload record = payload then ExactReplay else Conflict), a)
      | None \<Rightarrow>
          (let record = \<lparr> ma_attempt = attempt, ma_payload = payload, ma_recorded_tick = tick \<rparr>;
               kept = (if length (au_attempts a) \<ge> unat (max_mutation_attempts limits)
                       then tl (au_attempts a) else au_attempts a)
           in (Inr Fresh, a\<lparr>au_attempts := kept @ [record]\<rparr>)))"

definition restore_durable_state ::
  "coordinator_epoch \<Rightarrow> fenced_boot_record list \<Rightarrow> authority_registry" where
  "restore_durable_state epoch fenced =
     \<lparr> au_epoch = epoch,
       au_fenced = foldl (\<lambda>m record. if is_valid (fb_boot record) then om_emplace (fb_boot record) record m else m)
                     [] fenced,
       au_registrations = [], au_attempts = [] \<rparr>"

definition clear_live_authority :: "authority_registry \<Rightarrow> authority_registry" where
  "clear_live_authority a = a\<lparr>au_registrations := [], au_attempts := []\<rparr>"

subsection \<open>Codecs\<close>

definition encode_fenced_boot :: "fenced_boot_record \<Rightarrow> byte list" where
  "encode_fenced_boot r = put_u64 (fb_boot r) @ put_u64 (fb_fenced_at r) @ put_u64 (fb_fenced_tick r)"

definition decode_fenced_boot :: "fenced_boot_record parser" where
  "decode_fenced_boot =
     rd_bind rd_u64 (\<lambda>boot. rd_bind rd_u64 (\<lambda>fenced_at. rd_bind rd_u64 (\<lambda>tick.
     rd_guard (\<not> (boot = 0 \<or> (fenced_at \<noteq> 0 \<and> \<not> is_representable fenced_at)))
       (rd_return \<lparr> fb_boot = boot, fb_fenced_at = fenced_at, fb_fenced_tick = tick \<rparr>))))"

definition encode_mutation_attempt :: "mutation_attempt_record \<Rightarrow> byte list" where
  "encode_mutation_attempt r =
     put_u64 (ma_attempt r) @ put_raw (ma_payload r) @ put_u64 (ma_recorded_tick r)"

definition decode_mutation_attempt :: "mutation_attempt_record parser" where
  "decode_mutation_attempt =
     rd_bind rd_u64 (\<lambda>attempt. rd_bind (rd_raw 32) (\<lambda>payload. rd_bind rd_u64 (\<lambda>tick.
     rd_guard (attempt \<noteq> 0)
       (rd_return \<lparr> ma_attempt = attempt, ma_payload = payload, ma_recorded_tick = tick \<rparr>))))"

subsection \<open>The registry invariant\<close>

definition live_unfenced :: "authority_registry \<Rightarrow> publisher_registration \<Rightarrow> bool" where
  "live_unfenced a r \<longleftrightarrow> pr_live r \<longrightarrow>
     pr_publisher r \<noteq> 0 \<and> pr_boot r \<noteq> 0 \<and> pr_session r \<noteq> 0 \<and> pr_scopes r \<noteq> 0 \<and>
     pr_registered_at r \<le> au_epoch a \<and> \<not> is_boot_fenced a (pr_boot r)"

definition fenced_wf :: "authority_registry \<Rightarrow> bool" where
  "fenced_wf a \<longleftrightarrow> om_sorted (au_fenced a) \<and> (\<forall>(b, r) \<in> set (au_fenced a). fb_boot r = b \<and> b \<noteq> 0)"

definition authority_wf :: "authority_registry \<Rightarrow> bool" where
  "authority_wf a \<longleftrightarrow> fenced_wf a \<and> list_all (live_unfenced a) (au_registrations a) \<and>
     distinct (map pr_publisher (filter pr_live (au_registrations a))) \<and>
     distinct (map ma_attempt (au_attempts a)) \<and> list_all (\<lambda>r. ma_attempt r \<noteq> 0) (au_attempts a)"

text \<open>Retiring registrations keeps the fields and only turns \<open>live\<close> off.\<close>

definition retires :: "(publisher_registration \<Rightarrow> publisher_registration) \<Rightarrow> bool" where
  "retires f \<longleftrightarrow> (\<forall>r. f r = r \<or> f r = r\<lparr>pr_live := False\<rparr>)"

lemma retires_retire_boot [simp]: "retires (retire_boot b)"
  by (simp add: retires_def retire_boot_def)

lemma retires_drop [simp]: "retires (drop_registration s)"
  by (simp add: retires_def drop_registration_def)

lemma retires_fields:
  assumes "retires f"
  shows "pr_publisher (f r) = pr_publisher r" "pr_boot (f r) = pr_boot r" "pr_live (f r) \<Longrightarrow> pr_live r"
  using assms by (auto simp: retires_def dest: spec [of _ r])

lemma retired_publishers:
  assumes "retires f"
  shows "set (map pr_publisher (filter pr_live (map f rs))) \<subseteq> set (map pr_publisher (filter pr_live rs))"
  using retires_fields [OF assms] by auto

lemma retired_distinct:
  assumes f: "retires f" and d: "distinct (map pr_publisher (filter pr_live rs))"
  shows "distinct (map pr_publisher (filter pr_live (map f rs)))"
  using d
proof (induction rs)
  case (Cons r rs)
  have "distinct (map pr_publisher (filter pr_live (map f rs)))"
    using Cons by (simp split: if_splits)
  moreover have "pr_publisher (f r) \<notin> set (map pr_publisher (filter pr_live (map f rs)))" if "pr_live (f r)"
    using Cons.prems retires_fields [OF f, of r] retired_publishers [OF f, of rs] that by auto
  ultimately show ?case by simp
qed simp

lemma retired_live_unfenced:
  "retires f \<Longrightarrow> live_unfenced a r \<Longrightarrow> live_unfenced a (f r)"
  by (metis live_unfenced_def publisher_registration.select_convs(7) publisher_registration.surjective
      publisher_registration.update_convs(7) retires_def)

lemma is_boot_fenced_registrations [simp]:
  "is_boot_fenced (a\<lparr>au_registrations := rs\<rparr>) b = is_boot_fenced a b"
  "is_boot_fenced (a\<lparr>au_attempts := ms\<rparr>) b = is_boot_fenced a b"
  "is_boot_fenced (a\<lparr>au_epoch := e\<rparr>) b = is_boot_fenced a b"
  by (simp_all add: is_boot_fenced_def)

lemma wf_retire:
  assumes "authority_wf a" "retires f"
  shows "authority_wf (a\<lparr>au_registrations := map f (au_registrations a)\<rparr>)"
proof -
  have "live_unfenced (a\<lparr>au_registrations := rs\<rparr>) = live_unfenced a" for rs
    by (intro ext) (simp add: live_unfenced_def)
  then show ?thesis
    using assms retired_distinct [OF assms(2)] retired_live_unfenced [OF assms(2)]
    by (simp add: authority_wf_def fenced_wf_def list_all_iff)
qed

text \<open>Turning one entry off is retiring with an index-dependent function.\<close>

lemma wf_retire_index:
  assumes "authority_wf a" "i < length (au_registrations a)"
  shows "authority_wf (retire_index i a)"
proof -
  let ?rs = "au_registrations a"
  have u: "live_unfenced (a\<lparr>au_registrations := rs\<rparr>) = live_unfenced a" for rs
    by (intro ext) (simp add: live_unfenced_def)
  have split: "?rs = take i ?rs @ ?rs ! i # drop (Suc i) ?rs"
    using assms(2) by (simp add: id_take_nth_drop)
  have upd: "?rs[i := x] = take i ?rs @ x # drop (Suc i) ?rs" for x
    using assms(2) by (simp add: upd_conv_take_nth_drop)
  have d: "distinct (map pr_publisher (filter pr_live (take i ?rs @ ?rs ! i # drop (Suc i) ?rs)))"
    using assms(1) split by (simp add: authority_wf_def)
  have "distinct (map pr_publisher (filter pr_live (?rs[i := (?rs ! i)\<lparr>pr_live := False\<rparr>])))"
    unfolding upd using d by (auto split: if_splits)
  moreover have "list_all (live_unfenced a) (?rs[i := (?rs ! i)\<lparr>pr_live := False\<rparr>])"
    using assms(1) by (auto simp: authority_wf_def list_all_iff live_unfenced_def dest!: set_update_subset_insert [THEN subsetD])
  ultimately show ?thesis
    using assms(1) by (simp add: authority_wf_def fenced_wf_def u retire_index_def)
qed

lemma retire_index_keeps [simp]:
  "au_epoch (retire_index i a) = au_epoch a" "au_attempts (retire_index i a) = au_attempts a"
  "is_boot_fenced (retire_index i a) b = is_boot_fenced a b"
  "length (au_registrations (retire_index i a)) = length (au_registrations a)"
  by (simp_all add: retire_index_def)

text \<open>At most one live registration of a publisher.\<close>

lemma distinct_filter_nth:
  "distinct (map f (filter P xs)) \<Longrightarrow> i < length xs \<Longrightarrow> j < length xs \<Longrightarrow> P (xs ! i) \<Longrightarrow> P (xs ! j) \<Longrightarrow>
   f (xs ! i) = f (xs ! j) \<Longrightarrow> i = j"
proof (induction xs arbitrary: i j)
  case (Cons x xs)
  have "P x \<Longrightarrow> k < length xs \<Longrightarrow> P (xs ! k) \<Longrightarrow> f x \<noteq> f (xs ! k)" for k
    using Cons.prems(1) by auto
  with Cons show ?case by (cases i; cases j) (fastforce split: if_splits)+
qed simp

lemma live_unique:
  assumes "authority_wf a" "r \<in> set (au_registrations a)" "r' \<in> set (au_registrations a)"
    "pr_live r" "pr_live r'" "pr_publisher r = pr_publisher r'"
  shows "r = r'"
  using assms distinct_filter_nth [of pr_publisher pr_live "au_registrations a"]
  by (metis authority_wf_def in_set_conv_nth)

subsection \<open>Fencing\<close>

lemma fence_boot_status:
  "fst (fence_boot b at t l a) = Ok \<longleftrightarrow>
     b \<noteq> 0 \<and> (is_boot_fenced a b \<or> length (au_fenced a) < unat (max_fenced_boots l))"
  by (auto simp: fence_boot_def is_valid_def is_boot_fenced_def)

lemma fence_boot_fenced:
  "is_boot_fenced (snd (fence_boot b at t l a)) b' \<longleftrightarrow>
     is_boot_fenced a b' \<or> (fst (fence_boot b at t l a) = Ok \<and> b' = b)"
  by (auto simp: fence_boot_def is_boot_fenced_def om_find_emplace)

lemma fence_boot_other:
  "au_epoch (snd (fence_boot b at t l a)) = au_epoch a"
  "au_attempts (snd (fence_boot b at t l a)) = au_attempts a"
  "length (au_registrations (snd (fence_boot b at t l a))) = length (au_registrations a)"
  by (simp_all add: fence_boot_def)

lemma fence_boot_retires:
  obtains f where "retires f" "au_registrations (snd (fence_boot b at t l a)) = map f (au_registrations a)"
proof (cases "snd (fence_boot b at t l a) = a")
  case True
  show thesis by (rule that [of "\<lambda>r. r"]) (simp_all add: retires_def True)
next
  case False
  then show thesis
    by (intro that [of "retire_boot b"]) (auto simp: fence_boot_def split: if_splits)
qed

lemma wf_fence_boot: "authority_wf a \<Longrightarrow> authority_wf (snd (fence_boot b at t l a))"
proof -
  assume wf: "authority_wf a"
  let ?r = "\<lparr> fb_boot = b, fb_fenced_at = at, fb_fenced_tick = t \<rparr>"
  let ?rs = "map (retire_boot b) (au_registrations a)"
  have wf1: "authority_wf (a\<lparr>au_registrations := ?rs\<rparr>)"
    by (rule wf_retire [OF wf]) simp
  show ?thesis
  proof (cases "b \<noteq> 0 \<and> om_find (au_fenced a) b = None \<and> length (au_fenced a) < unat (max_fenced_boots l)")
    case True
    let ?a = "a\<lparr>au_fenced := om_emplace b ?r (au_fenced a), au_registrations := ?rs\<rparr>"
    have sorted: "om_sorted (om_emplace b ?r (au_fenced a))"
      using wf by (simp add: authority_wf_def fenced_wf_def om_sorted_emplace)
    have "fenced_wf ?a"
      using wf True sorted unfolding authority_wf_def fenced_wf_def
      by (auto simp: om_find_iff [OF sorted, symmetric] om_find_emplace om_find_iff split: if_splits)
    moreover have "live_unfenced ?a r" if "r \<in> set ?rs" for r
      using that wf1
      by (auto simp: authority_wf_def list_all_iff live_unfenced_def is_boot_fenced_def om_find_emplace
          retire_boot_def split: if_splits)
    ultimately have "authority_wf ?a"
      using wf1 by (simp add: authority_wf_def list_all_iff)
    then show ?thesis using True by (simp add: fence_boot_def is_valid_def)
  qed (auto simp: fence_boot_def is_valid_def wf)
qed

lemma fenced_wf_index [simp]: "fenced_wf (a\<lparr>au_registrations := rs\<rparr>) = fenced_wf a"
  by (simp add: fenced_wf_def)

subsection \<open>Registration\<close>

text \<open>What the reincarnation loop keeps, whatever status it ends with.\<close>

lemma fence_step:
  assumes "authority_wf a" "i < length (au_registrations a)" "fence_boot (pr_boot (au_registrations a ! i)) e t l a = (st, a1)"
  shows "authority_wf a1" "authority_wf (retire_index i a1)" "au_epoch a1 = au_epoch a" "au_attempts a1 = au_attempts a"
    "length (au_registrations a1) = length (au_registrations a)"
    "is_boot_fenced a b \<Longrightarrow> is_boot_fenced a1 b"
    "st = Ok \<Longrightarrow> is_boot_fenced a1 (pr_boot (au_registrations a ! i))"
proof -
  have a1: "a1 = snd (fence_boot (pr_boot (au_registrations a ! i)) e t l a)"
    "st = fst (fence_boot (pr_boot (au_registrations a ! i)) e t l a)" using assms(3) by simp_all
  show "authority_wf a1" "length (au_registrations a1) = length (au_registrations a)"
    "au_epoch a1 = au_epoch a" "au_attempts a1 = au_attempts a"
    unfolding a1 by (simp_all add: fence_boot_other wf_fence_boot assms(1))
  then show "authority_wf (retire_index i a1)"
    using assms(2) by (intro wf_retire_index) simp_all
  show "is_boot_fenced a b \<Longrightarrow> is_boot_fenced a1 b"
    "st = Ok \<Longrightarrow> is_boot_fenced a1 (pr_boot (au_registrations a ! i))"
    unfolding a1 by (simp_all add: fence_boot_fenced)
qed

lemma fence_previous_keeps:
  assumes "authority_wf a" "set is \<subseteq> {..<length (au_registrations a)}" "fence_previous r l is a = (st, a')"
  shows "authority_wf a' \<and> au_epoch a' = au_epoch a \<and> au_attempts a' = au_attempts a \<and>
    length (au_registrations a') = length (au_registrations a) \<and>
    (is_boot_fenced a b \<longrightarrow> is_boot_fenced a' b)"
  using assms
proof (induction r l "is" a rule: fence_previous.induct)
  case (2 r l i "is" a)
  let ?e = "au_registrations a ! i"
  obtain st1 a1 where f: "fence_boot (pr_boot ?e) (au_epoch a) (pr_registered_tick r) l a = (st1, a1)"
    by force
  have "i < length (au_registrations a)" using 2(4) by simp
  note step = fence_step [OF 2(3) this f]
  show ?case
  proof (cases "pr_publisher ?e = pr_publisher r \<and> pr_live ?e")
    case True
    then show ?thesis
      using 2(1) [OF refl True _ f [symmetric]] 2(3-5) f step by (auto simp: Let_def split: if_splits)
  next
    case False
    then show ?thesis using 2(2) [OF refl False] 2(3-5) by (auto simp: Let_def)
  qed
qed simp

text \<open>The loop turns registrations off and never on, and leaves every other field alone.\<close>

definition retired_list :: "publisher_registration list \<Rightarrow> publisher_registration list \<Rightarrow> bool" where
  "retired_list rs rs' \<longleftrightarrow> list_all2 (\<lambda>r r'. r' = r \<or> r' = r\<lparr>pr_live := False\<rparr>) rs rs'"

lemma retired_list_refl [simp]: "retired_list rs rs"
  by (simp add: retired_list_def list_all2_refl)

lemma retired_list_trans: "retired_list xs ys \<Longrightarrow> retired_list ys zs \<Longrightarrow> retired_list xs zs"
  unfolding retired_list_def list_all2_conv_all_nth by fastforce

lemma retired_list_map: "retires f \<Longrightarrow> retired_list rs (map f rs)"
  by (auto simp: retired_list_def retires_def list_all2_conv_all_nth)

lemma retired_list_index: "retired_list (au_registrations a) (au_registrations (retire_index i a))"
  by (cases "i < length (au_registrations a)")
    (auto simp: retire_index_def retired_list_def list_all2_conv_all_nth nth_list_update)

lemma retired_list_nth:
  assumes "retired_list rs rs'" "i < length rs"
  shows "pr_publisher (rs' ! i) = pr_publisher (rs ! i)" "pr_boot (rs' ! i) = pr_boot (rs ! i)"
    "pr_live (rs' ! i) \<Longrightarrow> rs' ! i = rs ! i" "length rs' = length rs"
  using assms by (auto simp: retired_list_def list_all2_conv_all_nth)

lemma fence_boot_retired: "retired_list (au_registrations a) (au_registrations (snd (fence_boot b at t l a)))"
  using fence_boot_retires [of b at t l a] retired_list_map by metis

lemma fence_previous_retired:
  "fence_previous r l is a = (st, a') \<Longrightarrow> retired_list (au_registrations a) (au_registrations a')"
proof (induction r l "is" a rule: fence_previous.induct)
  case (2 r l i "is" a)
  let ?e = "au_registrations a ! i"
  obtain st1 a1 where f: "fence_boot (pr_boot ?e) (au_epoch a) (pr_registered_tick r) l a = (st1, a1)"
    by force
  have r: "retired_list (au_registrations a) (au_registrations a1)"
    using fence_boot_retired [of a "pr_boot ?e" "au_epoch a" "pr_registered_tick r" l] f by simp
  note r2 = retired_list_trans [OF r retired_list_index [of a1 i]]
  show ?case
  proof (cases "pr_publisher ?e = pr_publisher r \<and> pr_live ?e")
    case True
    then show ?thesis
      using 2(1) [OF refl True _ f [symmetric]] 2(3) f r retired_list_trans [OF r2]
      by (auto simp: Let_def split: if_splits)
  next
    case False
    then show ?thesis using 2(2) [OF refl False] 2(3) by (auto simp: Let_def)
  qed
qed simp

text \<open>When the loop ends with success, every previously live registration of the publisher at a
  visited index is off, its boot is another one and that boot is fenced.\<close>

lemma fence_previous_Ok:
  assumes "fence_previous r l is a = (Ok, a')" "set is \<subseteq> {..<length (au_registrations a)}" "authority_wf a"
    "i \<in> set is" "pr_publisher (au_registrations a ! i) = pr_publisher r" "pr_live (au_registrations a ! i)"
  shows "\<not> pr_live (au_registrations a' ! i) \<and> pr_boot (au_registrations a ! i) \<noteq> pr_boot r \<and>
    is_boot_fenced a' (pr_boot (au_registrations a ! i))"
  using assms
proof (induction r l "is" a rule: fence_previous.induct)
  case (2 r l j "is" a)
  let ?e = "au_registrations a ! j"
  have i: "i < length (au_registrations a)" "j < length (au_registrations a)"
    using 2(4,6) by auto
  show ?case
  proof (cases "i = j")
    case True
    then have live: "pr_publisher ?e = pr_publisher r \<and> pr_live ?e" using 2(7,8) by simp
    obtain a1 where f: "fence_boot (pr_boot ?e) (au_epoch a) (pr_registered_tick r) l a = (Ok, a1)"
      and boot: "pr_boot ?e \<noteq> pr_boot r" and run: "fence_previous r l is (retire_index j a1) = (Ok, a')"
      using 2(3) live by (auto simp: Let_def split: if_splits prod.splits)
    note step = fence_step [OF 2(5) i(2) f]
    have "retired_list (au_registrations (retire_index j a1)) (au_registrations a')"
      using run by (rule fence_previous_retired)
    then have "\<not> pr_live (au_registrations a' ! j)"
      using retired_list_nth(3) [of "au_registrations (retire_index j a1)" "au_registrations a'" j] step(5) i(2)
      by (auto simp: retire_index_def)
    moreover have "is_boot_fenced a' (pr_boot ?e)"
      using fence_previous_keeps [OF step(2) _ run] 2(4) step(5) step(7) [OF refl] by auto
    ultimately show ?thesis using True boot by simp
  next
    case False
    then have dead: "\<not> (pr_publisher ?e = pr_publisher r \<and> pr_live ?e)"
      using 2(5,7,8) i distinct_filter_nth [of pr_publisher pr_live "au_registrations a" i j]
      by (auto simp: authority_wf_def)
    then show ?thesis using 2(2) [OF refl dead] 2(3-8) False by (auto simp: Let_def)
  qed
qed simp

text \<open>The guards of \<open>register_publisher\<close>, in the order of the code.\<close>

lemma register_publisher_Ok:
  assumes "register_publisher r l a = (Ok, a')"
  obtains a1 where "pr_publisher r \<noteq> 0" "pr_boot r \<noteq> 0" "pr_session r \<noteq> 0" "pr_scopes r \<noteq> 0"
    "pr_registered_at r = au_epoch a" "au_epoch a \<noteq> 0" "\<not> is_boot_fenced a (pr_boot r)"
    "fence_previous r l [0..<length (au_registrations a)] a = (Ok, a1)"
    "live_publishers a1 < unat (max_publishers l)"
    "pr_session r \<in> set (live_session_set a1) \<or> live_sessions a1 < unat (max_sessions l)"
    "a' = a1\<lparr>au_registrations := au_registrations a1 @ [r]\<rparr>"
  using assms by (auto simp: register_publisher_def is_valid_def split: if_splits prod.splits)

lemma register_publisher_fails:
  assumes "register_publisher r l a = (st, a')" "st \<noteq> Ok"
  shows "a' = a \<or> (\<exists>st'. fence_previous r l [0..<length (au_registrations a)] a = (st', a'))"
  using assms by (auto simp: register_publisher_def split: if_splits prod.splits)

lemma upt_registrations: "set [0..<length (au_registrations a)] \<subseteq> {..<length (au_registrations a)}"
  by auto

lemmas fence_all_keeps = fence_previous_keeps [OF _ upt_registrations]

text \<open>After a successful reincarnation loop no registration of the publisher is live, and the new
  boot is still unfenced.\<close>

lemma fence_all_off:
  assumes "fence_previous r l [0..<length (au_registrations a)] a = (Ok, a1)" "authority_wf a"
    "x \<in> set (au_registrations a1)" "pr_publisher x = pr_publisher r"
  shows "\<not> pr_live x"
proof
  assume live: "pr_live x"
  obtain i where i: "i < length (au_registrations a1)" "x = au_registrations a1 ! i"
    using assms(3) by (auto simp: in_set_conv_nth)
  have ret: "retired_list (au_registrations a) (au_registrations a1)"
    using assms(1) by (rule fence_previous_retired)
  then have len: "i < length (au_registrations a)"
    using i by (simp add: retired_list_def list_all2_lengthD)
  have eq: "au_registrations a1 ! i = au_registrations a ! i"
    using retired_list_nth(3) [OF ret len] live i by simp
  show False
    using fence_previous_Ok [OF assms(1) upt_registrations assms(2), of i] len eq i live assms(4) by simp
qed

lemma fence_boot_only:
  "fence_boot b at t l a = (st, a1) \<Longrightarrow> b' \<noteq> b \<Longrightarrow> is_boot_fenced a1 b' = is_boot_fenced a b'"
  using fence_boot_fenced [of b at t l a b'] by simp

lemma fence_previous_boot:
  "fence_previous r l is a = (st, a') \<Longrightarrow> is_boot_fenced a' (pr_boot r) = is_boot_fenced a (pr_boot r)"
proof (induction r l "is" a rule: fence_previous.induct)
  case (2 r l i "is" a)
  let ?e = "au_registrations a ! i"
  obtain st1 a1 where f: "fence_boot (pr_boot ?e) (au_epoch a) (pr_registered_tick r) l a = (st1, a1)"
    by force
  show ?case
  proof (cases "pr_publisher ?e = pr_publisher r \<and> pr_live ?e")
    case True
    then show ?thesis
      using 2(1) [OF refl True _ f [symmetric]] 2(3) f fence_boot_only [OF f, of "pr_boot r"]
      by (auto simp: Let_def split: if_splits)
  next
    case False
    then show ?thesis using 2(2) [OF refl False] 2(3) by (auto simp: Let_def)
  qed
qed simp

lemma live_unfenced_registrations [simp]:
  "live_unfenced (a\<lparr>au_registrations := rs\<rparr>) = live_unfenced a"
  "live_unfenced (a\<lparr>au_attempts := ms\<rparr>) = live_unfenced a"
  by (simp_all add: fun_eq_iff live_unfenced_def)

lemma wf_register:
  assumes wf: "authority_wf a" and reg: "register_publisher r l a = (st, a')"
  shows "authority_wf a'"
proof (cases "st = Ok")
  case True
  then obtain a1 where a1: "pr_publisher r \<noteq> 0" "pr_boot r \<noteq> 0" "pr_session r \<noteq> 0" "pr_scopes r \<noteq> 0"
    "pr_registered_at r = au_epoch a" "\<not> is_boot_fenced a (pr_boot r)"
    and run: "fence_previous r l [0..<length (au_registrations a)] a = (Ok, a1)"
    and a': "a' = a1\<lparr>au_registrations := au_registrations a1 @ [r]\<rparr>"
    using reg by (auto elim: register_publisher_Ok)
  have keeps: "authority_wf a1" "au_epoch a1 = au_epoch a"
    using fence_all_keeps [OF wf run] by simp_all
  have off: "pr_publisher r \<notin> pr_publisher ` {x \<in> set (au_registrations a1). pr_live x}"
    using fence_all_off [OF run wf] by force
  have "live_unfenced a1 r"
    using a1 keeps fence_previous_boot [OF run] by (simp add: live_unfenced_def)
  then show ?thesis
    using keeps(1) off unfolding a' by (auto simp: authority_wf_def)
next
  case False
  then show ?thesis
    using register_publisher_fails [OF reg] wf fence_all_keeps [OF wf] by blast
qed

lemma wf_establish: "authority_wf a \<Longrightarrow> authority_wf (snd (establish_epoch e a))"
proof (cases "fst (establish_epoch e a) = Ok")
  case True
  assume wf: "authority_wf a"
  have "au_epoch a \<le> e"
    using True by (auto simp: establish_epoch_def is_valid_def split: if_splits)
  then have "live_unfenced (a\<lparr>au_epoch := e\<rparr>) r" if "live_unfenced a r" for r
    using that by (auto simp: live_unfenced_def)
  then show ?thesis
    using True wf by (auto simp: establish_epoch_def authority_wf_def fenced_wf_def list_all_iff split: if_splits)
qed (auto simp: establish_epoch_def split: if_splits)

lemma wf_drop: "authority_wf a \<Longrightarrow> authority_wf (snd (drop_session s a))"
  by (auto simp: drop_session_def intro!: wf_retire)

lemma wf_observe: "authority_wf a \<Longrightarrow> authority_wf (snd (observe_attempt m d t l a))"
proof -
  assume wf: "authority_wf a"
  have "distinct (map ma_attempt (tl (au_attempts a)))" "set (tl (au_attempts a)) \<subseteq> set (au_attempts a)"
    using wf by (cases "au_attempts a"; auto simp: authority_wf_def)+
  then show ?thesis
    using wf
    by (auto simp: observe_attempt_def is_valid_def Let_def authority_wf_def fenced_wf_def find_None_iff list_all_iff
        split: option.splits)
qed

lemma wf_clear: "authority_wf a \<Longrightarrow> authority_wf (clear_live_authority a)"
  by (simp add: clear_live_authority_def authority_wf_def fenced_wf_def)

subsection \<open>Restart\<close>

text \<open>Emplacing the records of a well-formed fenced map in order rebuilds the map.\<close>

lemma restore_fenced:
  assumes "fenced_wf a"
  shows "au_fenced (restore_durable_state e (map snd (au_fenced a))) = au_fenced a"
proof -
  let ?f = "\<lambda>m record. if is_valid (fb_boot record) then om_emplace (fb_boot record) record m else m"
  have "foldl ?f m (map snd rest) = m @ rest"
    if "om_sorted (m @ rest)" "\<forall>(b, r)\<in>set rest. fb_boot r = b \<and> b \<noteq> 0" for m rest
    using that
  proof (induction rest arbitrary: m)
    case (Cons p rest)
    obtain b r where p: "p = (b, r)" "fb_boot r = b" "b \<noteq> 0" using Cons.prems(2) by (cases p) auto
    have "om_emplace b r m = m @ [p]"
      using om_sorted_append_last [OF Cons.prems(1)] p by (simp add: om_emplace_last)
    then show ?case using Cons.IH [of "m @ [p]"] Cons.prems p by (simp add: is_valid_def)
  qed simp
  from this [of "[]" "au_fenced a"] show ?thesis
    using assms by (simp add: restore_durable_state_def fenced_wf_def)
qed

lemma wf_restart: "authority_wf a \<Longrightarrow> authority_wf (restore_durable_state e (map snd (au_fenced a)))"
  using restore_fenced [of a e]
  by (auto simp: authority_wf_def fenced_wf_def restore_durable_state_def)

subsection \<open>The registry as a transition system\<close>

inductive authority_step :: "limits \<Rightarrow> authority_registry \<Rightarrow> authority_registry \<Rightarrow> bool" for l where
  establish: "establish_epoch e a = (st, a') \<Longrightarrow> authority_step l a a'"
| register: "register_publisher r l a = (st, a') \<Longrightarrow> authority_step l a a'"
| drop: "drop_session s a = (st, a') \<Longrightarrow> authority_step l a a'"
| fence: "fence_boot b at t l a = (st, a') \<Longrightarrow> authority_step l a a'"
| observe: "observe_attempt m d t l a = (v, a') \<Longrightarrow> authority_step l a a'"
| clear: "authority_step l a (clear_live_authority a)"
| restart: "authority_step l a (restore_durable_state e (map snd (au_fenced a)))"

inductive_cases authority_stepE: "authority_step l a a'"

lemma wf_step: "authority_step l a a' \<Longrightarrow> authority_wf a \<Longrightarrow> authority_wf a'"
proof (induction rule: authority_step.induct)
  case (establish e a st a')
  then show ?case using wf_establish [of a e] by simp
next
  case (drop s a st a')
  then show ?case using wf_drop [of a s] by simp
next
  case (fence b at t a st a')
  then show ?case using wf_fence_boot [of a b at t l] by simp
next
  case (observe m d t a v a')
  then show ?case using wf_observe [of a m d t l] by simp
next
  case (register r a st a')
  then show ?case by (blast intro: wf_register)
qed (simp_all add: wf_clear wf_restart)

lemma wf_steps: "(authority_step l)\<^sup>*\<^sup>* a a' \<Longrightarrow> authority_wf a \<Longrightarrow> authority_wf a'"
  by (induction rule: rtranclp_induct) (auto intro: wf_step)

lemma wf_empty [simp]: "authority_wf empty_authority"
  by (simp add: authority_wf_def fenced_wf_def empty_authority_def)

lemma step_keeps_fenced:
  "authority_step l a a' \<Longrightarrow> authority_wf a \<Longrightarrow> is_boot_fenced a b \<Longrightarrow> is_boot_fenced a' b"
proof (induction rule: authority_step.induct)
  case (register r a st a')
  show ?case
  proof (cases "st = Ok")
    case True
    then obtain a1 where "fence_previous r l [0..<length (au_registrations a)] a = (Ok, a1)"
      "a' = a1\<lparr>au_registrations := au_registrations a1 @ [r]\<rparr>"
      using register(1) by (auto elim: register_publisher_Ok)
    then show ?thesis using fence_all_keeps [OF register(2), of r l Ok a1 b] register(3) by simp
  next
    case False
    then show ?thesis
      using register_publisher_fails [OF register(1)] register(2,3) fence_all_keeps [OF register(2)] by blast
  qed
next
  case (fence b' at t a st a')
  then show ?case using fence_boot_fenced [of b' at t l a b] by simp
next
  case (restart a e)
  then show ?case using restore_fenced [of a e] by (simp add: authority_wf_def is_boot_fenced_def)
qed (auto simp: is_boot_fenced_def establish_epoch_def drop_session_def observe_attempt_def Let_def
    clear_live_authority_def split: if_splits option.splits)

lemma steps_keep_fenced:
  "(authority_step l)\<^sup>*\<^sup>* a a' \<Longrightarrow> authority_wf a \<Longrightarrow> is_boot_fenced a b \<Longrightarrow> is_boot_fenced a' b"
  by (induction rule: rtranclp_induct) (auto intro: step_keeps_fenced wf_steps)

subsection \<open>Bounds\<close>

definition authority_bounded :: "limits \<Rightarrow> authority_registry \<Rightarrow> bool" where
  "authority_bounded l a \<longleftrightarrow> length (au_fenced a) \<le> unat (max_fenced_boots l) \<and>
     live_publishers a \<le> unat (max_publishers l) \<and> live_sessions a \<le> unat (max_sessions l) \<and>
     length (au_attempts a) \<le> unat (max_mutation_attempts l)"

lemma live_sessions_card:
  "live_sessions a = card (pr_session ` {r \<in> set (au_registrations a). pr_live r})"
  by (simp add: live_sessions_def live_session_set_def length_remdups_card_conv)

lemma retired_live:
  assumes "retired_list (au_registrations a) (au_registrations a')"
  shows "live_publishers a' \<le> live_publishers a" "live_sessions a' \<le> live_sessions a"
proof -
  have "length (filter pr_live rs') \<le> length (filter pr_live rs) \<and>
      {r \<in> set rs'. pr_live r} \<subseteq> {r \<in> set rs. pr_live r}" if "retired_list rs rs'" for rs rs'
    using that unfolding retired_list_def by (induction rule: list_all2_induct) auto
  from this [OF assms] show "live_publishers a' \<le> live_publishers a" "live_sessions a' \<le> live_sessions a"
    unfolding live_publishers_def live_sessions_card by (auto intro!: card_mono image_mono)
qed

lemma fence_boot_bounded:
  assumes "fence_boot b at t l a = (st, a')" "fenced_wf a" "length (au_fenced a) \<le> unat (max_fenced_boots l)"
  shows "length (au_fenced a') \<le> unat (max_fenced_boots l)"
  using assms by (auto simp: fence_boot_def om_emplace_def length_om_set fenced_wf_def split: if_splits)

lemma fence_previous_bounded:
  "fence_previous r l is a = (st, a') \<Longrightarrow> authority_wf a \<Longrightarrow> set is \<subseteq> {..<length (au_registrations a)} \<Longrightarrow>
   length (au_fenced a) \<le> unat (max_fenced_boots l) \<Longrightarrow> length (au_fenced a') \<le> unat (max_fenced_boots l)"
proof (induction r l "is" a rule: fence_previous.induct)
  case (2 r l i "is" a)
  let ?e = "au_registrations a ! i"
  obtain st1 a1 where f: "fence_boot (pr_boot ?e) (au_epoch a) (pr_registered_tick r) l a = (st1, a1)"
    by force
  have "i < length (au_registrations a)" using 2(5) by simp
  note step = fence_step [OF 2(4) this f]
  have "length (au_fenced (retire_index i a1)) \<le> unat (max_fenced_boots l)"
    using fence_boot_bounded [OF f] 2(4,6) by (simp add: authority_wf_def retire_index_def)
  moreover have "length (au_fenced a1) = length (au_fenced (retire_index i a1))"
    by (simp add: retire_index_def)
  ultimately show ?case
    using 2(1) [OF refl _ _ f [symmetric]] 2(2) [OF refl] 2(3-6) f step by (auto simp: Let_def split: if_splits)
qed simp

lemma register_bounded:
  assumes reg: "register_publisher r l a = (st, a')" and wf: "authority_wf a" and b: "authority_bounded l a"
  shows "authority_bounded l a'"
proof -
  have loop: "authority_bounded l a1" if run: "fence_previous r l [0..<length (au_registrations a)] a = (st1, a1)" for st1 a1
    using b retired_live [OF fence_previous_retired [OF run]] fence_previous_bounded [OF run wf upt_registrations]
      fence_all_keeps [OF wf run]
    by (simp add: authority_bounded_def)
  show ?thesis
  proof (cases "st = Ok")
    case True
    then obtain a1 where run: "fence_previous r l [0..<length (au_registrations a)] a = (Ok, a1)"
      and lim: "live_publishers a1 < unat (max_publishers l)"
        "pr_session r \<in> set (live_session_set a1) \<or> live_sessions a1 < unat (max_sessions l)"
      and a': "a' = a1\<lparr>au_registrations := au_registrations a1 @ [r]\<rparr>"
      using reg by (auto elim: register_publisher_Ok)
    let ?live = "{x \<in> set (au_registrations a1). pr_live x}"
    have "{x \<in> set (au_registrations a'). pr_live x} = (if pr_live r then insert r ?live else ?live)"
      by (auto simp: a')
    then have "live_sessions a' \<le> unat (max_sessions l)"
      using lim(2) loop [OF run]
      by (auto simp: live_sessions_card live_session_set_def authority_bounded_def insert_absorb card_insert_if)
    then show ?thesis
      using lim(1) loop [OF run] by (auto simp: authority_bounded_def live_publishers_def a')
  next
    case False
    then show ?thesis using register_publisher_fails [OF reg] b loop by blast
  qed
qed

lemma observe_bounded:
  assumes "observe_attempt m d t l a = (v, a')" "authority_bounded l a" "0 < unat (max_mutation_attempts l)"
  shows "authority_bounded l a'"
  using assms
  by (auto simp: observe_attempt_def Let_def authority_bounded_def live_publishers_def live_sessions_card
      split: if_splits option.splits)

lemma live_zero: "au_registrations a = [] \<Longrightarrow> live_publishers a = 0 \<and> live_sessions a = 0"
  by (simp add: live_publishers_def live_sessions_card)

lemma bounded_step:
  "authority_step l a a' \<Longrightarrow> authority_wf a \<Longrightarrow> 0 < unat (max_mutation_attempts l) \<Longrightarrow>
   authority_bounded l a \<Longrightarrow> authority_bounded l a'"
proof (induction rule: authority_step.induct)
  case (establish e a st a')
  then show ?case
    by (auto simp: establish_epoch_def authority_bounded_def live_publishers_def live_sessions_card split: if_splits)
next
  case (register r a st a')
  then show ?case using register_bounded by blast
next
  case (drop s a st a')
  have "retired_list (au_registrations a) (au_registrations a')"
    using drop(1) by (auto simp: drop_session_def retired_list_map split: if_splits)
  then show ?case
    using drop retired_live [of a a'] by (auto simp: authority_bounded_def drop_session_def split: if_splits)
next
  case (fence b at t a st a')
  have "retired_list (au_registrations a) (au_registrations a')" "au_attempts a' = au_attempts a"
    using fence(1) fence_boot_retired [of a b at t l] fence_boot_other [of b at t l a] by simp_all
  then show ?case
    using fence retired_live [of a a'] fence_boot_bounded [OF fence(1)]
    by (simp add: authority_bounded_def authority_wf_def)
next
  case (observe m d t a v a')
  then show ?case using observe_bounded by blast
next
  case (clear a)
  then show ?case
    using live_zero [of "clear_live_authority a"] by (simp add: authority_bounded_def clear_live_authority_def)
next
  case (restart a e)
  then show ?case
    using restore_fenced [of a e] live_zero [of "restore_durable_state e (map snd (au_fenced a))"]
    by (simp add: authority_wf_def authority_bounded_def restore_durable_state_def)
qed

lemma bounded_steps:
  "(authority_step l)\<^sup>*\<^sup>* a a' \<Longrightarrow> authority_wf a \<Longrightarrow> 0 < unat (max_mutation_attempts l) \<Longrightarrow>
   authority_bounded l a \<Longrightarrow> authority_bounded l a'"
proof (induction rule: rtranclp_induct)
  case (step y z)
  then show ?case using wf_steps [OF step(1) step(4)] bounded_step by blast
qed

lemma bounded_empty [simp]: "authority_bounded l empty_authority"
  using live_zero [of empty_authority] by (simp add: authority_bounded_def empty_authority_def)

subsection \<open>Authorization\<close>

definition grants :: "authority_context \<Rightarrow> authority_scope_mask \<Rightarrow> publisher_registration \<Rightarrow> bool" where
  "grants context required r \<longleftrightarrow> pr_live r \<and> pr_publisher r = ac_publisher context \<and>
     pr_session r = ac_session context \<and> pr_boot r = ac_worker_boot context \<and>
     pr_scopes r AND required = required"

lemma authorize_scan_Ok:
  assumes "distinct (map pr_publisher (filter pr_live rs))"
  shows "authorize_scan c req rs = Ok \<longleftrightarrow> (\<exists>r\<in>set rs. grants c req r)"
  using assms
proof (induction rs)
  case (Cons r rs)
  have "\<not> grants c req r'" if "pr_live r" "pr_publisher r = ac_publisher c" "r' \<in> set rs" for r'
    using Cons.prems that by (force simp: grants_def)
  moreover have "authorize_scan c req rs = Ok \<longleftrightarrow> (\<exists>r\<in>set rs. grants c req r)"
    using Cons by (simp split: if_splits)
  moreover have "authorize_scan c req (r # rs) = Ok \<longleftrightarrow>
      (if pr_live r \<and> pr_publisher r = ac_publisher c \<and> pr_session r = ac_session c
       then grants c req r else authorize_scan c req rs = Ok)"
    by (cases "req = 0") (auto simp: grants_def)
  ultimately show ?case by (auto simp: grants_def)
qed simp

text \<open>A registry without a matching live registration denies.\<close>

lemma authorize_Ok:
  assumes "authority_wf a"
  shows "authorize a c req = Ok \<longleftrightarrow> context_complete c \<and> ac_epoch c = au_epoch a \<and>
    (\<exists>r\<in>set (au_registrations a). grants c req r)"
proof -
  have "\<not> is_boot_fenced a (ac_worker_boot c)" if "r \<in> set (au_registrations a)" "grants c req r" for r
    using assms that by (auto simp: authority_wf_def list_all_iff live_unfenced_def grants_def)
  then show ?thesis
    using assms authorize_scan_Ok [of "au_registrations a" c req]
    by (auto simp: authorize_def context_complete_def authority_wf_def)
qed

subsection \<open>The replay window\<close>

definition observe_all ::
  "limits \<Rightarrow> (mutation_attempt_id \<times> digest256 \<times> u64) list \<Rightarrow> authority_registry \<Rightarrow> authority_registry" where
  "observe_all l obs a = foldl (\<lambda>a (m, d, t). snd (observe_attempt m d t l a)) a obs"

text \<open>An entry with fewer entries after it than the window holds survives an observation, which
  puts at most one more entry after it.\<close>

lemma observe_keeps_recent:
  assumes "au_attempts a = pre @ x # post" "Suc (length post) < unat (max_mutation_attempts l)"
  shows "\<exists>pre' post'. au_attempts (snd (observe_attempt m d t l a)) = pre' @ x # post' \<and>
    length post' \<le> Suc (length post)"
proof (cases "snd (observe_attempt m d t l a) = a")
  case True
  then show ?thesis using assms(1) by (intro exI [of _ pre] exI [of _ post]) simp
next
  case False
  let ?r = "\<lparr> ma_attempt = m, ma_payload = d, ma_recorded_tick = t \<rparr>"
  let ?kept = "if length (au_attempts a) \<ge> unat (max_mutation_attempts l) then tl (au_attempts a) else au_attempts a"
  have new: "au_attempts (snd (observe_attempt m d t l a)) = ?kept @ [?r]"
    using False by (auto simp: observe_attempt_def Let_def split: option.splits if_splits)
  have "?kept = (if length (au_attempts a) \<ge> unat (max_mutation_attempts l) then tl pre else pre) @ x # post"
    using assms by (cases pre) auto
  then obtain pre' where "?kept = pre' @ x # post" by blast
  then show ?thesis using new by (intro exI [of _ pre'] exI [of _ "post @ [?r]"]) simp
qed

lemma observe_all_keeps_recent:
  "au_attempts a = pre @ x # post \<Longrightarrow> length post + length obs < unat (max_mutation_attempts l) \<Longrightarrow>
   x \<in> set (au_attempts (observe_all l obs a))"
proof (induction obs arbitrary: a pre post)
  case (Cons o1 obs)
  obtain m d t where o1: "o1 = (m, d, t)" by (cases o1)
  obtain pre' post' where "au_attempts (snd (observe_attempt m d t l a)) = pre' @ x # post'"
    "length post' \<le> Suc (length post)"
    using observe_keeps_recent [OF Cons.prems(1), of l m d t] Cons.prems(2) by auto
  then show ?case using Cons.IH Cons.prems(2) by (simp add: observe_all_def o1)
qed (simp add: observe_all_def)

lemma find_by_key:
  "distinct (map f xs) \<Longrightarrow> x \<in> set xs \<Longrightarrow> f x = k \<Longrightarrow> List.find (\<lambda>y. f y = k) xs = Some x"
  by (induction xs) (auto simp: image_iff)

subsection \<open>Record codecs\<close>

lemma parses_return_eq: "parses (rd_return x) [] y \<longleftrightarrow> x = y"
  by (auto simp: parses_def rd_return_def)

lemma parses_fenced_boot:
  assumes "fb_boot r \<noteq> 0" "fb_fenced_at r = 0 \<or> is_representable (fb_fenced_at r)"
  shows "parses decode_fenced_boot (encode_fenced_boot r) r"
  unfolding decode_fenced_boot_def encode_fenced_boot_def
  by (rule parses_bind, rule parses_u64, rule parses_bind, rule parses_u64, rule parses_bind_Nil, rule parses_u64,
      rule parses_guard) (use assms in \<open>auto simp: parses_return_eq\<close>)

lemma regular_fenced_boot: "regular decode_fenced_boot"
  unfolding decode_fenced_boot_def
  by (intro regular_bind regular_guard regular_primitives regular_return)

lemma parses_mutation_attempt:
  assumes "ma_attempt r \<noteq> 0" "length (ma_payload r) = 32"
  shows "parses decode_mutation_attempt (encode_mutation_attempt r) r"
  unfolding decode_mutation_attempt_def encode_mutation_attempt_def
  by (rule parses_bind, rule parses_u64, rule parses_bind, rule parses_raw, rule assms(2), rule parses_bind_Nil,
      rule parses_u64, rule parses_guard) (use assms in \<open>auto simp: parses_return_eq\<close>)

lemma regular_mutation_attempt: "regular decode_mutation_attempt"
  unfolding decode_mutation_attempt_def
  by (intro regular_bind regular_guard regular_primitives regular_return)

end
