(* ===== verification/Authority_Properties.thy ===== *)
theory Authority_Properties
  imports Authority
begin

text \<open>
  What the authority registry promises: permanent fencing over every run including restarts,
  default deny, reincarnation of a publisher, the replay window, the bounds of the registry and
  the record codecs.
\<close>

subsection \<open>A sample registry for the witnesses\<close>

definition sample_limits :: limits where
  "sample_limits = default_limits\<lparr>max_mutation_attempts := 3\<rparr>"

definition sample_registration :: "worker_boot_id \<Rightarrow> publisher_registration" where
  "sample_registration boot = \<lparr> pr_publisher = 5, pr_boot = boot, pr_session = 9, pr_scopes = 3,
     pr_registered_tick = 1, pr_registered_at = 7, pr_live = True \<rparr>"

definition sample_authority :: authority_registry where
  "sample_authority = \<lparr> au_epoch = 7,
     au_fenced = [(2, \<lparr> fb_boot = 2, fb_fenced_at = 7, fb_fenced_tick = 0 \<rparr>)],
     au_registrations = [sample_registration 3],
     au_attempts = [\<lparr> ma_attempt = 11, ma_payload = zero_digest, ma_recorded_tick = 4 \<rparr>] \<rparr>"

definition sample_authority_context :: "worker_boot_id \<Rightarrow> authority_context" where
  "sample_authority_context boot = \<lparr> ac_epoch = 7, ac_publisher = 5, ac_worker_boot = boot, ac_attempt = 12,
     ac_request = 1, ac_session = 9, ac_scopes = 0 \<rparr>"

lemma sample_authority_wf: "authority_wf sample_authority"
  by (simp add: sample_authority_def sample_registration_def authority_wf_def fenced_wf_def om_sorted_def
      live_unfenced_def is_boot_fenced_def om_find_def)

lemma sample_register:
  "register_publisher (sample_registration 4) sample_limits sample_authority =
     (Ok, sample_authority\<lparr>au_fenced := au_fenced sample_authority @ [(3, \<lparr> fb_boot = 3, fb_fenced_at = 7, fb_fenced_tick = 1 \<rparr>)],
        au_registrations := [sample_registration 3 \<lparr>pr_live := False\<rparr>, sample_registration 4]\<rparr>)"
  by (simp add: sample_authority_def sample_registration_def sample_limits_def default_limits_def
      register_publisher_def is_valid_def is_boot_fenced_def om_find_def fence_boot_def om_emplace_def
      retire_boot_def retire_index_def live_publishers_def live_sessions_def live_session_set_def)

subsection \<open>Fencing\<close>

text \<open>C19: a fenced worker boot stays fenced along every run of registry operations, restarts from
  the durable state included; a context that carries it is never authorized, and it can never
  register again.\<close>

theorem fenced_boot_stays_out:
  assumes "authority_wf a" "is_boot_fenced a b" "(authority_step l)\<^sup>*\<^sup>* a a'"
    and "ac_worker_boot c = b" "pr_boot r = b"
  shows "is_boot_fenced a' b \<and> authorize a' c req \<noteq> Ok \<and>
    fst (register_publisher r l a') \<noteq> Ok \<and>
    (\<exists>st. register_publisher r l a' = (st, a'))"
proof -
  have f: "is_boot_fenced a' b"
    using steps_keep_fenced assms(1-3) by blast
  then have "authorize a' c req \<noteq> Ok"
    using assms(4) by (simp add: authorize_def)
  moreover have "fst (register_publisher r l a') \<noteq> Ok \<and> (\<exists>st. register_publisher r l a' = (st, a'))"
    using f assms(5) by (simp add: register_publisher_def)
  ultimately show ?thesis using f by blast
qed

theorem fenced_boot_stays_out_witness:
  "is_boot_fenced (clear_live_authority sample_authority) 2 \<and>
   authorize (clear_live_authority sample_authority) (sample_authority_context 2) 1 \<noteq> Ok \<and>
   fst (register_publisher (sample_registration 2) sample_limits (clear_live_authority sample_authority)) \<noteq> Ok"
proof -
  have "is_boot_fenced sample_authority 2"
    by (simp add: sample_authority_def is_boot_fenced_def om_find_def)
  from fenced_boot_stays_out [OF sample_authority_wf this, of sample_limits "clear_live_authority sample_authority"
      "sample_authority_context 2" "sample_registration 2" 1]
  show ?thesis
    by (simp add: r_into_rtranclp [of "authority_step sample_limits", OF authority_step.clear]
        sample_authority_context_def sample_registration_def)
qed

text \<open>C28: default deny. A mutation is authorized exactly when its context is complete, carries
  the current epoch and matches the publisher, session and boot of a live registration that holds
  every required scope.\<close>

theorem authorize_default_deny:
  assumes "authority_wf a"
  shows "authorize a c req = Ok \<longleftrightarrow> context_complete c \<and> ac_epoch c = au_epoch a \<and>
    (\<exists>r\<in>set (au_registrations a). grants c req r)"
  using assms by (rule authorize_Ok)

theorem authorize_default_deny_witness:
  "authorize sample_authority (sample_authority_context 3) 1 = Ok \<and>
   authorize sample_authority (sample_authority_context 3) 4 \<noteq> Ok"
  using authorize_default_deny [OF sample_authority_wf, of "sample_authority_context 3" 1]
    authorize_default_deny [OF sample_authority_wf, of "sample_authority_context 3" 4]
  by (simp add: sample_authority_def sample_registration_def sample_authority_context_def grants_def
      context_complete_def is_valid_def)

text \<open>C29: the registry invariant. On every state reachable from an empty registry, live
  registrations name non-zero identities and scopes and an unfenced boot, a publisher has at most
  one live registration, an attempt is recorded once, and the fenced boots, the live publishers, the
  live sessions and the recorded attempts stay within their limits.\<close>

theorem registry_invariant:
  assumes "(authority_step l)\<^sup>*\<^sup>* empty_authority a" "validate_limits l"
  shows "authority_wf a \<and> authority_bounded l a"
proof -
  have "max_mutation_attempts l \<in> set (limit_entries l)" by (simp add: limit_entries_def)
  then have "0 < unat (max_mutation_attempts l)"
    using validate_limits_entry [OF assms(2)] by blast
  then show ?thesis
    using wf_steps [OF assms(1)] bounded_steps [OF assms(1)] by simp
qed

theorem registry_invariant_witness:
  "authority_wf (clear_live_authority empty_authority) \<and>
   authority_bounded default_limits (clear_live_authority empty_authority)"
  by (rule registry_invariant [OF r_into_rtranclp validate_default_limits]) (rule authority_step.clear)

text \<open>Reincarnation. After a successful live registration the new boot is authorized for the
  scopes it registered, the boot of every earlier live registration of that publisher is another one
  and fenced.\<close>

theorem reincarnation:
  assumes "authority_wf a" "register_publisher r l a = (Ok, a')" "pr_live r"
    and "context_complete c" "ac_epoch c = au_epoch a" "ac_publisher c = pr_publisher r"
      "ac_session c = pr_session r" "ac_worker_boot c = pr_boot r" "pr_scopes r AND req = req"
  shows "authorize a' c req = Ok \<and>
    (\<forall>x\<in>set (au_registrations a). pr_live x \<and> pr_publisher x = pr_publisher r \<longrightarrow>
       pr_boot x \<noteq> pr_boot r \<and> is_boot_fenced a' (pr_boot x))"
proof -
  obtain a1 where run: "fence_previous r l [0..<length (au_registrations a)] a = (Ok, a1)"
    and a': "a' = a1\<lparr>au_registrations := au_registrations a1 @ [r]\<rparr>"
    by (rule register_publisher_Ok [OF assms(2)])
  have "au_epoch a' = au_epoch a"
    using fence_all_keeps [OF assms(1) run] by (simp add: a')
  moreover have "grants c req r" using assms(3,6-9) by (simp add: grants_def)
  ultimately have "authorize a' c req = Ok"
    using authorize_Ok [OF wf_register [OF assms(1,2)]] assms(4,5) by (simp add: a')
  moreover have "pr_boot x \<noteq> pr_boot r \<and> is_boot_fenced a' (pr_boot x)"
    if x: "x \<in> set (au_registrations a)" and "pr_live x" "pr_publisher x = pr_publisher r" for x
  proof -
    obtain i where "i < length (au_registrations a)" "au_registrations a ! i = x"
      using x unfolding in_set_conv_nth by blast
    then show ?thesis
      using fence_previous_Ok [OF run upt_registrations assms(1), of i] that(2,3) by (auto simp: a')
  qed
  ultimately show ?thesis by blast
qed

theorem reincarnation_witness:
  "authorize (snd (register_publisher (sample_registration 4) sample_limits sample_authority))
     (sample_authority_context 4) 2 = Ok \<and>
   is_boot_fenced (snd (register_publisher (sample_registration 4) sample_limits sample_authority)) 3"
proof -
  have "sample_registration 3 \<in> set (au_registrations sample_authority)"
    by (simp add: sample_authority_def)
  moreover have "authorize (snd (register_publisher (sample_registration 4) sample_limits sample_authority))
       (sample_authority_context 4) 2 = Ok \<and>
     (\<forall>x\<in>set (au_registrations sample_authority). pr_live x \<and> pr_publisher x = pr_publisher (sample_registration 4) \<longrightarrow>
       pr_boot x \<noteq> pr_boot (sample_registration 4) \<and>
       is_boot_fenced (snd (register_publisher (sample_registration 4) sample_limits sample_authority)) (pr_boot x))"
    unfolding sample_register snd_conv
    by (rule reincarnation [OF sample_authority_wf sample_register])
      (simp_all add: sample_registration_def sample_authority_context_def sample_authority_def
        context_complete_def is_valid_def)
  ultimately show ?thesis by (auto simp: sample_registration_def)
qed

text \<open>C39: the replay window. An attempt that was just recorded, followed by fewer further
  observations than the window holds, is recognised: the same payload is an exact replay, another
  payload is a conflict, and neither changes the registry.\<close>

theorem replay_detected:
  assumes "authority_wf a" "observe_attempt m d t l a = (Inr Fresh, a1)"
    and "length obs < unat (max_mutation_attempts l)"
  shows "observe_attempt m d' t' l (observe_all l obs a1) =
    (Inr (if d' = d then ExactReplay else Conflict), observe_all l obs a1)"
proof -
  let ?rec = "\<lparr> ma_attempt = m, ma_payload = d, ma_recorded_tick = t \<rparr>"
  let ?b = "observe_all l obs a1"
  obtain kept where kept: "au_attempts a1 = kept @ [?rec]" and m: "m \<noteq> 0"
    using assms(2) by (auto simp: observe_attempt_def is_valid_def Let_def split: if_splits option.splits)
  have mem: "?rec \<in> set (au_attempts ?b)"
    by (rule observe_all_keeps_recent [OF kept]) (use assms(3) in simp)
  have "authority_wf a1" using wf_observe [OF assms(1), of m d t l] assms(2) by simp
  then have "authority_wf ?b"
    unfolding observe_all_def by (induction obs arbitrary: a1) (auto intro: wf_observe)
  then have d: "distinct (map ma_attempt (au_attempts ?b))" by (simp add: authority_wf_def)
  have "List.find (\<lambda>record. ma_attempt record = m) (au_attempts ?b) = Some ?rec"
    by (rule find_by_key [OF d mem]) simp
  then show ?thesis using m by (simp add: observe_attempt_def is_valid_def)
qed

theorem replay_detected_witness:
  "observe_attempt 12 zero_digest 8 sample_limits
     (observe_all sample_limits [(13, zero_digest, 6), (14, zero_digest, 7)]
       (snd (observe_attempt 12 zero_digest 5 sample_limits sample_authority))) =
   (Inr ExactReplay,
    observe_all sample_limits [(13, zero_digest, 6), (14, zero_digest, 7)]
       (snd (observe_attempt 12 zero_digest 5 sample_limits sample_authority)))"
proof -
  have "observe_attempt 12 zero_digest 5 sample_limits sample_authority =
     (Inr Fresh, snd (observe_attempt 12 zero_digest 5 sample_limits sample_authority))"
    by (simp add: observe_attempt_def is_valid_def sample_authority_def Let_def)
  from replay_detected [OF sample_authority_wf this, of "[(13, zero_digest, 6), (14, zero_digest, 7)]" zero_digest 8]
  show ?thesis by (simp add: sample_limits_def)
qed

text \<open>The durable records of the registry read back exactly and every truncation of them is
  rejected.\<close>

theorem authority_records_wire:
  assumes "fb_boot f \<noteq> 0" "fb_fenced_at f = 0 \<or> is_representable (fb_fenced_at f)"
    and "ma_attempt m \<noteq> 0" "length (ma_payload m) = 32"
  shows "decode_fenced_boot (byte_reader_of (encode_fenced_boot f)) = (Some f, at_reader (encode_fenced_boot f) []) \<and>
    (\<forall>n<length (encode_fenced_boot f). fst (decode_fenced_boot (byte_reader_of (take n (encode_fenced_boot f)))) = None) \<and>
    decode_mutation_attempt (byte_reader_of (encode_mutation_attempt m)) =
      (Some m, at_reader (encode_mutation_attempt m) []) \<and>
    (\<forall>n<length (encode_mutation_attempt m).
      fst (decode_mutation_attempt (byte_reader_of (take n (encode_mutation_attempt m)))) = None)"
  using codec_exact [OF parses_fenced_boot [OF assms(1,2)] regular_fenced_boot]
    codec_exact [OF parses_mutation_attempt [OF assms(3,4)] regular_mutation_attempt]
  by simp

theorem authority_records_wire_witness:
  "fst (decode_fenced_boot (byte_reader_of (encode_fenced_boot
     \<lparr> fb_boot = 2, fb_fenced_at = 7, fb_fenced_tick = 0 \<rparr>))) = Some \<lparr> fb_boot = 2, fb_fenced_at = 7, fb_fenced_tick = 0 \<rparr>"
  using authority_records_wire [of "\<lparr> fb_boot = 2, fb_fenced_at = 7, fb_fenced_tick = 0 \<rparr>"
      "\<lparr> ma_attempt = 11, ma_payload = zero_digest, ma_recorded_tick = 4 \<rparr>"]
  by (simp add: zero_digest_def is_representable_def kMaxGeneration_def)

end
