(* ===== verification/Invalidation.thy ===== *)
theory Invalidation
  imports Ordered_Map Constraint_Set Evaluation
begin

text \<open>
  Precise invalidation (\<open>invalidation.hpp\<close>, \<open>invalidation.cpp\<close>): the monotonic watermarks, the index
  from dependency keys to the evaluations that used them, the dependency keys of an evaluation and
  the watermark codec. The index is two maps that mirror each other; the abstract view is the
  relation between keys and evaluations, and every operation is shown to act on that relation.
\<close>

subsection \<open>Keys\<close>

datatype invalidation_key_kind =
    IK_ConstraintSet | IK_Path | IK_Node | IK_Link | IK_Capability | IK_Policy
  | IK_FailureDomain | IK_LocalityDomain | IK_IsolationClass | IK_Planner | IK_Topology
  | IK_LinkState | IK_PathAuthority

primrec invalidation_key_kind_value :: "invalidation_key_kind \<Rightarrow> u8" where
  "invalidation_key_kind_value IK_ConstraintSet = 1"
| "invalidation_key_kind_value IK_Path = 2"
| "invalidation_key_kind_value IK_Node = 3"
| "invalidation_key_kind_value IK_Link = 4"
| "invalidation_key_kind_value IK_Capability = 5"
| "invalidation_key_kind_value IK_Policy = 6"
| "invalidation_key_kind_value IK_FailureDomain = 7"
| "invalidation_key_kind_value IK_LocalityDomain = 8"
| "invalidation_key_kind_value IK_IsolationClass = 9"
| "invalidation_key_kind_value IK_Planner = 10"
| "invalidation_key_kind_value IK_Topology = 11"
| "invalidation_key_kind_value IK_LinkState = 12"
| "invalidation_key_kind_value IK_PathAuthority = 13"

definition invalidation_key_kind_of :: "u8 \<Rightarrow> invalidation_key_kind" where
  "invalidation_key_kind_of v =
     (if v = 1 then IK_ConstraintSet else if v = 2 then IK_Path else if v = 3 then IK_Node
      else if v = 4 then IK_Link else if v = 5 then IK_Capability else if v = 6 then IK_Policy
      else if v = 7 then IK_FailureDomain else if v = 8 then IK_LocalityDomain
      else if v = 9 then IK_IsolationClass else if v = 10 then IK_Planner
      else if v = 11 then IK_Topology else if v = 12 then IK_LinkState else IK_PathAuthority)"

lemma invalidation_key_kind_of_value [simp]:
  "invalidation_key_kind_of (invalidation_key_kind_value x) = x"
  by (cases x) (simp_all add: invalidation_key_kind_of_def)

lemma invalidation_key_kind_value_inj [simp]:
  "invalidation_key_kind_value x = invalidation_key_kind_value y \<longleftrightarrow> x = y"
  by (metis invalidation_key_kind_of_value)

lemma invalidation_key_kind_value_range [simp]:
  "invalidation_key_kind_value x \<noteq> 0" "\<not> 13 < invalidation_key_kind_value x"
  by (cases x; simp)+

instantiation invalidation_key_kind :: linorder
begin

definition less_eq_invalidation_key_kind :: "invalidation_key_kind \<Rightarrow> invalidation_key_kind \<Rightarrow> bool" where
  "x \<le> y \<longleftrightarrow> invalidation_key_kind_value x \<le> invalidation_key_kind_value y"

definition less_invalidation_key_kind :: "invalidation_key_kind \<Rightarrow> invalidation_key_kind \<Rightarrow> bool" where
  "x < y \<longleftrightarrow> invalidation_key_kind_value x < invalidation_key_kind_value y"

instance
  by standard (auto simp: less_eq_invalidation_key_kind_def less_invalidation_key_kind_def order_less_le linear)

end

datatype invalidation_key = InvalidationKey (ik_kind: invalidation_key_kind) (ik_value: u64)

instantiation invalidation_key :: linorder
begin

definition less_eq_invalidation_key :: "invalidation_key \<Rightarrow> invalidation_key \<Rightarrow> bool" where
  "a \<le> b \<longleftrightarrow> (if ik_kind a \<noteq> ik_kind b then ik_kind a < ik_kind b else ik_value a \<le> ik_value b)"

definition less_invalidation_key :: "invalidation_key \<Rightarrow> invalidation_key \<Rightarrow> bool" where
  "a < b \<longleftrightarrow> (if ik_kind a \<noteq> ik_kind b then ik_kind a < ik_kind b else ik_value a < ik_value b)"

instance
  by standard (auto simp: less_eq_invalidation_key_def less_invalidation_key_def invalidation_key.expand split: if_splits)

end

subsection \<open>Watermarks\<close>

record watermarks =
  wm_families :: "(evidence_family \<times> u64) list"
  wm_keys :: "(invalidation_key \<times> u64) list"

definition empty_watermarks :: watermarks where
  "empty_watermarks = \<lparr> wm_families = [], wm_keys = [] \<rparr>"

definition wm_family :: "watermarks \<Rightarrow> evidence_family \<Rightarrow> u64" where
  "wm_family w family = (case om_find (wm_families w) family of None \<Rightarrow> 0 | Some v \<Rightarrow> v)"

text \<open>\<^const>\<open>None\<close> is the result \<open>false\<close>, which leaves the watermarks alone.\<close>

definition wm_advance_family :: "evidence_family \<Rightarrow> u64 \<Rightarrow> watermarks \<Rightarrow> watermarks option" where
  "wm_advance_family family generation w =
     (case om_find (wm_families w) family of
        Some v \<Rightarrow> if generation \<le> v then None else Some (w\<lparr>wm_families := om_set family generation (wm_families w)\<rparr>)
      | None \<Rightarrow> Some (w\<lparr>wm_families := om_set family generation (wm_families w)\<rparr>))"

definition wm_key :: "watermarks \<Rightarrow> invalidation_key \<Rightarrow> u64" where
  "wm_key w key = (case om_find (wm_keys w) key of None \<Rightarrow> 0 | Some v \<Rightarrow> v)"

definition wm_advance_key :: "invalidation_key \<Rightarrow> u64 \<Rightarrow> watermarks \<Rightarrow> watermarks option" where
  "wm_advance_key key watermark w =
     (case om_find (wm_keys w) key of
        Some v \<Rightarrow> if watermark \<le> v then None else Some (w\<lparr>wm_keys := om_set key watermark (wm_keys w)\<rparr>)
      | None \<Rightarrow> Some (w\<lparr>wm_keys := om_set key watermark (wm_keys w)\<rparr>))"

subsection \<open>The index\<close>

text \<open>A \<open>std::set\<close> is the ascending list of its elements.\<close>

record invalidation_index =
  ix_forward :: "(invalidation_key \<times> evaluation_id list) list"
  ix_reverse :: "(evaluation_id \<times> invalidation_key list) list"

definition empty_index :: invalidation_index where
  "empty_index = \<lparr> ix_forward = [], ix_reverse = [] \<rparr>"

text \<open>\<open>map[k].insert(x)\<close>: a missing entry starts as the empty set.\<close>

definition multi_insert :: "'k::linorder \<Rightarrow> 'a::linorder \<Rightarrow> ('k \<times> 'a list) list \<Rightarrow> ('k \<times> 'a list) list" where
  "multi_insert k x m = om_set k (insort_insert x (case om_find m k of None \<Rightarrow> [] | Some s \<Rightarrow> s)) m"

definition index_bind :: "invalidation_key \<Rightarrow> evaluation_id \<Rightarrow> invalidation_index \<Rightarrow> status \<times> invalidation_index" where
  "index_bind key evaluation ix =
     (if \<not> is_valid evaluation then (InvalidArgument, ix)
      else (Ok, ix\<lparr>ix_forward := multi_insert key evaluation (ix_forward ix),
                   ix_reverse := multi_insert evaluation key (ix_reverse ix)\<rparr>))"

definition forward_erase ::
  "evaluation_id \<Rightarrow> (invalidation_key \<times> evaluation_id list) list \<Rightarrow> invalidation_key \<Rightarrow>
   (invalidation_key \<times> evaluation_id list) list" where
  "forward_erase evaluation forward key =
     (case om_find forward key of
        None \<Rightarrow> forward
      | Some s \<Rightarrow> (let s' = filter (\<lambda>e. e \<noteq> evaluation) s
                  in if s' = [] then om_erase key forward else om_set key s' forward))"

definition index_unbind :: "evaluation_id \<Rightarrow> invalidation_index \<Rightarrow> status \<times> invalidation_index" where
  "index_unbind evaluation ix =
     (case om_find (ix_reverse ix) evaluation of
        None \<Rightarrow> (Ok, ix)
      | Some keys \<Rightarrow> (Ok, ix\<lparr>ix_forward := foldl (forward_erase evaluation) (ix_forward ix) keys,
                            ix_reverse := om_erase evaluation (ix_reverse ix)\<rparr>))"

definition index_dependents :: "invalidation_index \<Rightarrow> invalidation_key \<Rightarrow> evaluation_id list" where
  "index_dependents ix key = (case om_find (ix_forward ix) key of None \<Rightarrow> [] | Some s \<Rightarrow> s)"

definition keys_of_kinds :: "invalidation_index \<Rightarrow> invalidation_key_kind list \<Rightarrow> invalidation_key list" where
  "keys_of_kinds ix kinds =
     map fst (filter (\<lambda>entry. list_ex (\<lambda>kind. ik_kind (fst entry) = kind) kinds) (ix_forward ix))"

definition is_bound :: "invalidation_index \<Rightarrow> evaluation_id \<Rightarrow> bool" where
  "is_bound ix evaluation \<longleftrightarrow> om_find (ix_reverse ix) evaluation \<noteq> None"

definition index_validate :: "invalidation_index \<Rightarrow> status" where
  "index_validate ix =
     (if \<not> list_all (\<lambda>entry. list_all (\<lambda>evaluation.
            case om_find (ix_reverse ix) evaluation of None \<Rightarrow> False | Some ks \<Rightarrow> fst entry \<in> set ks) (snd entry))
          (ix_forward ix) then Internal
      else if \<not> list_all (\<lambda>entry. snd entry \<noteq> [] \<and> list_all (\<lambda>key.
            case om_find (ix_forward ix) key of None \<Rightarrow> False | Some es \<Rightarrow> fst entry \<in> set es) (snd entry))
          (ix_reverse ix) then Internal
      else Ok)"

definition index_check_limits :: "invalidation_index \<Rightarrow> limits \<Rightarrow> status" where
  "index_check_limits ix limits =
     (if length (ix_forward ix) > unat (max_decoded_count limits) then ResourceLimit
      else if length (ix_reverse ix) > unat (max_evaluations_retained limits) then ResourceLimit
      else Ok)"

subsection \<open>Dependency keys\<close>

definition generation_for_family :: "evidence_generation_set \<Rightarrow> evidence_family \<Rightarrow> u64" where
  "generation_for_family evidence family = (case family of
      EF_Topology \<Rightarrow> eg_topology evidence
    | EF_LinkState \<Rightarrow> eg_link_state evidence
    | EF_Capability \<Rightarrow> eg_capability evidence
    | EF_FailureDomain \<Rightarrow> eg_failure_domain evidence
    | EF_Policy \<Rightarrow> eg_policy evidence
    | EF_Planner \<Rightarrow> eg_planner evidence
    | EF_PathAuthority \<Rightarrow> eg_path_authority evidence
    | _ \<Rightarrow> 0)"

definition family_consulted :: "evaluation_record \<Rightarrow> evidence_family \<Rightarrow> bool" where
  "family_consulted r family \<longleftrightarrow> ev_consulted r AND family_bit family \<noteq> 0"

definition topology_keys :: "candidate_path \<Rightarrow> invalidation_key list" where
  "topology_keys cand =
     InvalidationKey IK_Topology 0 #
     concat (map (\<lambda>node. InvalidationKey IK_Node (nf_node node) #
       map (\<lambda>locality. InvalidationKey IK_LocalityDomain (lr_domain locality)) (nf_localities node)) (cp_nodes cand)) @
     map (\<lambda>link. InvalidationKey IK_Link (lf_link link)) (cp_links cand)"

definition capability_keys :: "constraint_set \<Rightarrow> candidate_path \<Rightarrow> invalidation_key list" where
  "capability_keys s cand =
     InvalidationKey IK_Capability 0 #
     concat (map (\<lambda>c. map (InvalidationKey IK_Capability) (c_capabilities c)) (cs_constraints s)) @
     concat (map (\<lambda>node. InvalidationKey IK_Node (nf_node node) #
       map (\<lambda>ref. InvalidationKey IK_Capability (cr_capability ref)) (nf_capabilities node)) (cp_nodes cand)) @
     concat (map (\<lambda>link. InvalidationKey IK_Link (lf_link link) #
       map (\<lambda>ref. InvalidationKey IK_Capability (cr_capability ref)) (lf_capabilities link)) (cp_links cand))"

definition failure_domain_keys :: "candidate_path \<Rightarrow> invalidation_key list" where
  "failure_domain_keys cand =
     InvalidationKey IK_FailureDomain 0 #
     concat (map (\<lambda>node. InvalidationKey IK_Node (nf_node node) #
       map (\<lambda>ref. InvalidationKey IK_FailureDomain (fr_domain ref)) (nf_domains node) @
       map (\<lambda>ref. InvalidationKey IK_IsolationClass (ia_class ref)) (nf_isolation node)) (cp_nodes cand)) @
     concat (map (\<lambda>link. InvalidationKey IK_Link (lf_link link) #
       map (\<lambda>ref. InvalidationKey IK_FailureDomain (fr_domain ref)) (lf_domains link) @
       map (\<lambda>ref. InvalidationKey IK_IsolationClass (ia_class ref)) (lf_isolation link)) (cp_links cand))"

definition policy_keys :: "candidate_path \<Rightarrow> invalidation_key list" where
  "policy_keys cand =
     InvalidationKey IK_Policy 0 # map (\<lambda>ref. InvalidationKey IK_Policy (pa_policy ref)) (cp_policies cand)"

definition dependency_keys :: "evaluation_record \<Rightarrow> constraint_set \<Rightarrow> candidate_path \<Rightarrow> invalidation_key list" where
  "dependency_keys r s cand = sort_unique (
     [InvalidationKey IK_ConstraintSet (cs_id s), InvalidationKey IK_Path (cp_path cand)] @
     (if family_consulted r EF_Topology then topology_keys cand else []) @
     (if family_consulted r EF_Capability then capability_keys s cand else []) @
     (if family_consulted r EF_FailureDomain then failure_domain_keys cand else []) @
     (if family_consulted r EF_Policy then policy_keys cand else []) @
     (if family_consulted r EF_Planner then [InvalidationKey IK_Planner 0] else []) @
     (if family_consulted r EF_LinkState then [InvalidationKey IK_LinkState 0] else []) @
     (if family_consulted r EF_PathAuthority then [InvalidationKey IK_PathAuthority 0] else []))"

definition kFamilies :: "evidence_family list" where
  "kFamilies = [EF_Topology, EF_LinkState, EF_Capability, EF_FailureDomain, EF_Policy, EF_Planner, EF_PathAuthority]"

definition evaluation_current :: "evaluation_record \<Rightarrow> watermarks \<Rightarrow> bool" where
  "evaluation_current r w \<longleftrightarrow> ev_state r = RS_Current \<and>
     list_all (\<lambda>family. \<not> (family_consulted r family \<and> wm_family w family > generation_for_family (ev_evidence r) family))
       kFamilies"

subsection \<open>Watermark codec\<close>

definition put_padding :: "byte list" where
  "put_padding = put_u8 0 @ put_u16 0 @ put_u32 0"

definition encode_watermarks :: "watermarks \<Rightarrow> byte list" where
  "encode_watermarks w =
     put_u32 (word_of_nat (length (wm_keys w))) @
     concat (map (\<lambda>entry. put_u8 (invalidation_key_kind_value (ik_kind (fst entry))) @ put_padding @
       put_u64 (ik_value (fst entry)) @ put_u64 (snd entry)) (wm_keys w)) @
     put_u32 7 @
     concat (map (\<lambda>family. put_u8 (evidence_family_value family) @ put_padding @ put_u64 (wm_family w family)) kFamilies)"

text \<open>One iteration of the key loop of \<open>decode_watermarks\<close>: the raw fields, the checks, the order
  check against the previous key, then \<open>advance_key\<close> whose result is ignored.\<close>

definition rd_padded :: "(u8 \<Rightarrow> bool) \<Rightarrow> 'a parser \<Rightarrow> (u8 \<Rightarrow> 'a \<Rightarrow> 'b parser) \<Rightarrow> 'b parser" where
  "rd_padded in_range rest k =
     rd_bind rd_u8 (\<lambda>kind. rd_bind rd_u8 (\<lambda>padding8. rd_bind rd_u16 (\<lambda>padding16. rd_bind rd_u32 (\<lambda>padding32.
     rd_bind rest (\<lambda>x.
     rd_guard (in_range kind \<and> padding8 = 0 \<and> padding16 = 0 \<and> padding32 = 0) (k kind x))))))"

definition advance_or_keep :: "('a \<Rightarrow> 'a option) \<Rightarrow> 'a \<Rightarrow> 'a" where
  "advance_or_keep f x = (case f x of None \<Rightarrow> x | Some y \<Rightarrow> y)"

fun read_watermark_keys :: "nat \<Rightarrow> invalidation_key option \<Rightarrow> watermarks \<Rightarrow> watermarks parser" where
  "read_watermark_keys 0 previous w = rd_return w"
| "read_watermark_keys (Suc n) previous w =
     rd_padded (\<lambda>kind. \<not> (kind = 0 \<or> kind > 13))
       (rd_bind rd_u64 (\<lambda>value. rd_bind rd_u64 (\<lambda>watermark. rd_return (value, watermark))))
       (\<lambda>kind (value, watermark).
          let key = InvalidationKey (invalidation_key_kind_of kind) value in
          rd_guard (case previous of None \<Rightarrow> True | Some p \<Rightarrow> p < key)
            (read_watermark_keys n (Some key) (advance_or_keep (wm_advance_key key watermark) w)))"

fun read_watermark_families :: "nat \<Rightarrow> watermarks \<Rightarrow> watermarks parser" where
  "read_watermark_families 0 w = rd_return w"
| "read_watermark_families (Suc n) w =
     rd_padded (\<lambda>family. \<not> (family = 0 \<or> family > 8)) rd_u64
       (\<lambda>family watermark. read_watermark_families n
          (advance_or_keep (wm_advance_family (evidence_family_of family) watermark) w))"

definition decode_watermarks :: "limits \<Rightarrow> watermarks parser" where
  "decode_watermarks limits =
     rd_bind (rd_bounded_length (max_decoded_count limits)) (\<lambda>key_count.
     rd_bind (read_watermark_keys (unat key_count) None empty_watermarks) (\<lambda>w.
     rd_bind (rd_bounded_length 16) (\<lambda>family_count.
     rd_guard (family_count = 7) (read_watermark_families (unat family_count) w))))"

subsection \<open>Multimaps as relations\<close>

definition rel_of :: "('k \<times> 'a list) list \<Rightarrow> ('k \<times> 'a) set" where
  "rel_of m = {(k, x). \<exists>s. om_find m k = Some s \<and> x \<in> set s}"

definition multi_wf :: "('k::linorder \<times> 'a::linorder list) list \<Rightarrow> bool" where
  "multi_wf m \<longleftrightarrow> om_sorted m \<and> (\<forall>k s. om_find m k = Some s \<longrightarrow> s \<noteq> [] \<and> sorted_wrt (<) s)"

lemma rel_of_case: "(case om_find m k of None \<Rightarrow> False | Some s \<Rightarrow> x \<in> set s) \<longleftrightarrow> (k, x) \<in> rel_of m"
  by (auto simp: rel_of_def split: option.splits)

lemma rel_of_Nil [simp]: "rel_of [] = {}"
  by (simp add: rel_of_def)

lemma multi_wf_Nil [simp]: "multi_wf []"
  by (simp add: multi_wf_def)

lemma strict_sorted_insort_insert:
  "sorted_wrt (<) xs \<Longrightarrow> sorted_wrt (<) (insort_insert (x :: 'a::linorder) xs)"
  by (simp add: strict_sorted_iff sorted_insort_insert distinct_insort_insert)

lemma rel_of_multi_insert: "rel_of (multi_insert k x m) = insert (k, x) (rel_of m)"
  by (auto simp: rel_of_def multi_insert_def om.find_insert set_insort_insert split: option.splits if_splits)

lemma multi_wf_insert: "multi_wf m \<Longrightarrow> multi_wf (multi_insert k x m)"
proof -
  assume wf: "multi_wf m"
  let ?s = "case om_find m k of None \<Rightarrow> [] | Some s \<Rightarrow> s"
  have "insort_insert x ?s \<noteq> []"
    by (metis empty_iff insert_iff list.set(1) set_insort_insert)
  moreover have "sorted_wrt (<) ?s"
    using wf by (auto simp: multi_wf_def split: option.splits)
  ultimately show ?thesis
    using wf strict_sorted_insort_insert [of ?s x]
    unfolding multi_wf_def multi_insert_def
    by (auto simp: om.find_insert om.ordered_insert split: if_splits)
qed

lemma rel_of_erase: "rel_of (om_erase (k :: 'k::linorder) m) = rel_of m - {k} \<times> UNIV"
  by (auto simp: rel_of_def om.find_erase split: if_splits)

lemma multi_wf_erase: "multi_wf m \<Longrightarrow> multi_wf (om_erase k m)"
  by (auto simp: multi_wf_def om.find_erase om.ordered_erase split: if_splits)

lemma rel_of_forward_erase: "rel_of (forward_erase e m k) = rel_of m - {(k, e)}"
proof (cases "om_find m k")
  case None
  then show ?thesis by (auto simp: forward_erase_def rel_of_def)
next
  case (Some s)
  then show ?thesis
    by (auto simp: forward_erase_def Let_def rel_of_def om.find_insert om.find_erase filter_empty_conv
        split: if_splits)
qed

lemma multi_wf_forward_erase: "multi_wf m \<Longrightarrow> multi_wf (forward_erase e m k)"
proof (cases "om_find m k")
  case (Some s)
  assume wf: "multi_wf m"
  then have "sorted_wrt (<) (filter (\<lambda>e'. e' \<noteq> e) s)"
    using Some by (auto simp: multi_wf_def intro: sorted_wrt_filter)
  then show ?thesis
    using Some wf multi_wf_erase [OF wf, of k]
    by (auto simp: forward_erase_def Let_def multi_wf_def om.find_insert om.ordered_insert split: if_splits)
qed (simp add: forward_erase_def)

lemma forward_erase_all:
  "rel_of (foldl (forward_erase e) m ks) = rel_of m - set ks \<times> {e} \<and>
   (multi_wf m \<longrightarrow> multi_wf (foldl (forward_erase e) m ks))"
  by (induction ks arbitrary: m) (auto simp: rel_of_forward_erase multi_wf_forward_erase)

subsection \<open>The index invariant and its abstraction\<close>

definition index_wf :: "invalidation_index \<Rightarrow> bool" where
  "index_wf ix \<longleftrightarrow> multi_wf (ix_forward ix) \<and> multi_wf (ix_reverse ix) \<and>
     rel_of (ix_reverse ix) = (rel_of (ix_forward ix))\<inverse> \<and> 0 \<notin> snd ` rel_of (ix_forward ix)"

text \<open>The abstract index: which evaluations depend on which keys.\<close>

definition depends :: "invalidation_index \<Rightarrow> (invalidation_key \<times> evaluation_id) set" where
  "depends ix = rel_of (ix_forward ix)"

lemma dependents_iff: "e \<in> set (index_dependents ix k) \<longleftrightarrow> (k, e) \<in> depends ix"
  by (cases "om_find (ix_forward ix) k") (auto simp: index_dependents_def depends_def rel_of_def)

lemma index_wf_empty [simp]: "index_wf empty_index" "depends empty_index = {}"
  by (simp_all add: index_wf_def depends_def empty_index_def)

lemma wf_bind: "index_wf ix \<Longrightarrow> index_wf (snd (index_bind k e ix))"
  by (auto simp: index_wf_def index_bind_def is_valid_def multi_wf_insert rel_of_multi_insert)

lemma depends_bind:
  "depends (snd (index_bind k e ix)) = (if e = 0 then depends ix else insert (k, e) (depends ix))"
  by (simp add: depends_def index_bind_def is_valid_def rel_of_multi_insert)

lemma reverse_entry:
  assumes "index_wf ix" "om_find (ix_reverse ix) e = Some ks"
  shows "rel_of (ix_forward ix) \<inter> UNIV \<times> {e} = set ks \<times> {e}"
proof -
  have "(k, e) \<in> rel_of (ix_forward ix) \<longleftrightarrow> (e, k) \<in> rel_of (ix_reverse ix)" for k
    using assms(1) by (simp add: index_wf_def)
  then have "(k, e) \<in> rel_of (ix_forward ix) \<longleftrightarrow> k \<in> set ks" for k
    using assms(2) by (simp add: rel_of_def [of "ix_reverse ix"])
  then show ?thesis by auto
qed

lemma reverse_missing:
  assumes "index_wf ix" "om_find (ix_reverse ix) e = None"
  shows "rel_of (ix_forward ix) \<inter> UNIV \<times> {e} = {}"
proof -
  have "(k, e) \<in> rel_of (ix_forward ix) \<longleftrightarrow> (e, k) \<in> rel_of (ix_reverse ix)" for k
    using assms(1) by (simp add: index_wf_def)
  then show ?thesis using assms(2) by (auto simp: rel_of_def [of "ix_reverse ix"])
qed

lemma depends_unbind:
  "index_wf ix \<Longrightarrow> depends (snd (index_unbind e ix)) = depends ix - UNIV \<times> {e}"
proof (cases "om_find (ix_reverse ix) e")
  case None
  assume "index_wf ix"
  then show ?thesis using None reverse_missing [of ix e] by (auto simp: index_unbind_def depends_def)
next
  case (Some ks)
  assume "index_wf ix"
  then have "rel_of (ix_forward ix) - set ks \<times> {e} = rel_of (ix_forward ix) - UNIV \<times> {e}"
    using reverse_entry [of ix e ks] Some by blast
  then show ?thesis
    using Some forward_erase_all [of e "ix_forward ix" ks] by (simp add: index_unbind_def depends_def)
qed

lemma wf_unbind: "index_wf ix \<Longrightarrow> index_wf (snd (index_unbind e ix))"
proof (cases "om_find (ix_reverse ix) e")
  case (Some ks)
  assume wf: "index_wf ix"
  let ?ix = "snd (index_unbind e ix)"
  have f: "rel_of (ix_forward ?ix) = rel_of (ix_forward ix) - UNIV \<times> {e}"
    using depends_unbind [OF wf] by (simp add: depends_def)
  have "multi_wf (ix_forward ?ix)" "multi_wf (ix_reverse ?ix)"
    using wf Some forward_erase_all [of e "ix_forward ix" ks]
    by (simp_all add: index_wf_def index_unbind_def multi_wf_erase)
  moreover have "rel_of (ix_reverse ?ix) = (rel_of (ix_forward ix))\<inverse> - {e} \<times> UNIV"
    using wf Some by (simp add: index_unbind_def rel_of_erase index_wf_def)
  ultimately show ?thesis using wf f by (auto simp: index_wf_def)
qed (simp add: index_unbind_def)

text \<open>What a client of an index relies on: binding adds one pair, unbinding removes the pairs of an
  evaluation, and both keep the invariant.\<close>

locale dependency_index =
  fixes inv :: "'i \<Rightarrow> bool"
    and bind :: "'k \<Rightarrow> 'e \<Rightarrow> 'i \<Rightarrow> 'i"
    and unbind :: "'e \<Rightarrow> 'i \<Rightarrow> 'i"
    and deps :: "'i \<Rightarrow> ('k \<times> 'e) set"
    and valid :: "'e \<Rightarrow> bool"
  assumes inv_bind: "inv i \<Longrightarrow> inv (bind k e i)"
    and inv_unbind: "inv i \<Longrightarrow> inv (unbind e i)"
    and deps_bind: "deps (bind k e i) = (if valid e then insert (k, e) (deps i) else deps i)"
    and deps_unbind: "inv i \<Longrightarrow> deps (unbind e i) = deps i - UNIV \<times> {e}"
begin

lemma inv_bind_all: "inv i \<Longrightarrow> inv (foldl (\<lambda>i k. bind k e i) i ks)"
  by (induction ks arbitrary: i) (simp_all add: inv_bind)

lemma deps_bind_all:
  "deps (foldl (\<lambda>i k. bind k e i) i ks) = (if valid e then set ks \<times> {e} \<union> deps i else deps i)"
  by (induction ks arbitrary: i) (auto simp: deps_bind)

lemma bind_idempotent: "deps (bind k e (bind k e i)) = deps (bind k e i)"
  by (simp add: deps_bind)

lemma bind_commute: "deps (bind k e (bind k' e' i)) = deps (bind k' e' (bind k e i))"
  by (auto simp: deps_bind)

lemma unbind_other: "inv i \<Longrightarrow> (k, e') \<in> deps (unbind e i) \<longleftrightarrow> e' \<noteq> e \<and> (k, e') \<in> deps i"
  by (auto simp: deps_unbind)

lemma unbind_bind_all:
  "inv i \<Longrightarrow> deps (unbind e (foldl (\<lambda>i k. bind k e i) i ks)) = deps i - UNIV \<times> {e}"
  by (auto simp: deps_unbind inv_bind_all deps_bind_all)

end

interpretation ix: dependency_index index_wf "\<lambda>k e i. snd (index_bind k e i)" "\<lambda>e i. snd (index_unbind e i)"
  depends "\<lambda>e. e \<noteq> 0"
  by unfold_locales (auto simp: wf_bind wf_unbind depends_bind depends_unbind)

lemma wf_validates: "index_wf ix \<Longrightarrow> index_validate ix = Ok"
proof -
  assume wf: "index_wf ix"
  have mirror: "(e, k) \<in> rel_of (ix_reverse ix) \<longleftrightarrow> (k, e) \<in> rel_of (ix_forward ix)" for k e
    using wf by (simp add: index_wf_def)
  have f: "om_find (ix_forward ix) k = Some s \<longleftrightarrow> (k, s) \<in> set (ix_forward ix)" for k s
    using wf by (simp add: index_wf_def multi_wf_def om_find_iff)
  have r: "om_find (ix_reverse ix) e = Some s \<longleftrightarrow> (e, s) \<in> set (ix_reverse ix)" for e s
    using wf by (simp add: index_wf_def multi_wf_def om_find_iff)
  have "(e, k) \<in> rel_of (ix_reverse ix)" if "(k, s) \<in> set (ix_forward ix)" "e \<in> set s" for k s e
    unfolding mirror using that by (auto simp: rel_of_def f)
  moreover have "s \<noteq> [] \<and> (\<forall>k\<in>set s. (k, e) \<in> rel_of (ix_forward ix))" if "(e, s) \<in> set (ix_reverse ix)" for e s
  proof -
    have "s \<noteq> []" using that wf r [of e s] by (auto simp: index_wf_def multi_wf_def)
    moreover have "(e, k) \<in> rel_of (ix_reverse ix)" if "k \<in> set s" for k
      using that \<open>(e, s) \<in> set (ix_reverse ix)\<close> by (auto simp: rel_of_def r)
    ultimately show ?thesis by (simp add: mirror)
  qed
  ultimately show ?thesis by (force simp: index_validate_def list_all_iff rel_of_case)
qed

subsection \<open>Watermarks are monotone\<close>

lemma advance_family_greater:
  assumes "wm_advance_family f g w = Some w'"
  shows "wm_family w' f' = (if f' = f then g else wm_family w f')" "wm_family w f \<le> g" "wm_keys w' = wm_keys w"
  using assms
  by (auto simp: wm_advance_family_def wm_family_def om.find_insert split: option.splits if_splits)

lemma advance_key_greater:
  assumes "wm_advance_key k g w = Some w'"
  shows "wm_key w' k' = (if k' = k then g else wm_key w k')" "wm_key w k \<le> g" "wm_families w' = wm_families w"
  using assms by (auto simp: wm_advance_key_def wm_key_def om.find_insert split: option.splits if_splits)

lemma om_sorted_advance_key:
  "wm_advance_key k g w = Some w' \<Longrightarrow> om_sorted (wm_keys w) \<Longrightarrow> om_sorted (wm_keys w')"
  by (auto simp: wm_advance_key_def om.ordered_insert split: option.splits if_splits)

subsection \<open>The watermark codec\<close>

text \<open>Decoding makes the seven family entries explicit; no reader can tell the difference.\<close>

definition wm_normal :: "watermarks \<Rightarrow> watermarks" where
  "wm_normal w = w\<lparr>wm_families := map (\<lambda>f. (f, wm_family w f)) kFamilies\<rparr>"

lemma wm_normal_family: "f \<in> set kFamilies \<Longrightarrow> wm_family (wm_normal w) f = wm_family w f"
  by (auto simp: wm_normal_def wm_family_def [of "_\<lparr>wm_families := _\<rparr>"] om_find_def map_of_map_restrict kFamilies_def)

lemma parses_padded:
  assumes "in_range kind" "parses rest bs x" "parses (k kind x) bs' y"
  shows "parses (rd_padded in_range rest k) (put_u8 kind @ put_padding @ bs @ bs') y"
  unfolding rd_padded_def put_padding_def append_assoc
  by (intro parses_bind [OF parses_u8] parses_bind [OF parses_u16] parses_bind [OF parses_u32]
      parses_bind [OF assms(2)] parses_guard assms(3)) (use assms(1) in simp_all)

lemma advance_key_last:
  "\<forall>x\<in>set (wm_keys w). fst x < k \<Longrightarrow>
   advance_or_keep (wm_advance_key k v) w = w\<lparr>wm_keys := wm_keys w @ [(k, v)]\<rparr>"
  by (simp add: advance_or_keep_def wm_advance_key_def om_find_above om_set_last)

lemma advance_family_last:
  "\<forall>x\<in>set (wm_families w). fst x < f \<Longrightarrow>
   advance_or_keep (wm_advance_family f v) w = w\<lparr>wm_families := wm_families w @ [(f, v)]\<rparr>"
  by (simp add: advance_or_keep_def wm_advance_family_def om_find_above om_set_last)

lemma parses_watermark_keys:
  assumes "om_sorted (wm_keys w @ ks)" "\<forall>p. prev = Some p \<longrightarrow> (\<forall>x\<in>set ks. p < fst x)"
  shows "parses (read_watermark_keys (length ks) prev w)
    (concat (map (\<lambda>entry. put_u8 (invalidation_key_kind_value (ik_kind (fst entry))) @ put_padding @
       put_u64 (ik_value (fst entry)) @ put_u64 (snd entry)) ks)) (w\<lparr>wm_keys := wm_keys w @ ks\<rparr>)"
  using assms
proof (induction ks arbitrary: prev w)
  case (Cons p ks)
  obtain k v where p: "p = (k, v)" by force
  let ?w = "w\<lparr>wm_keys := wm_keys w @ [(k, v)]\<rparr>"
  have key: "InvalidationKey (ik_kind k) (ik_value k) = k" by (cases k) simp
  have adv: "advance_or_keep (wm_advance_key k v) w = ?w"
    using om_sorted_append_last [OF Cons.prems(1)] p by (intro advance_key_last) simp
  have above: "\<forall>x\<in>set ks. k < fst x"
    using Cons.prems(1) p by (auto simp: om_sorted_def sorted_wrt_append)
  have IH: "parses (read_watermark_keys (length ks) (Some k) ?w)
      (concat (map (\<lambda>entry. put_u8 (invalidation_key_kind_value (ik_kind (fst entry))) @ put_padding @
         put_u64 (ik_value (fst entry)) @ put_u64 (snd entry)) ks)) (w\<lparr>wm_keys := wm_keys w @ p # ks\<rparr>)"
    using Cons.IH [of ?w "Some k"] Cons.prems(1) above p by simp
  have pair: "parses (rd_bind rd_u64 (\<lambda>value. rd_bind rd_u64 (\<lambda>watermark. rd_return (value, watermark))))
      (put_u64 (ik_value k) @ put_u64 v) (ik_value k, v)"
    by (rule parses_bind [OF parses_u64]) (rule parses_bind_Nil [OF parses_u64 parses_return])
  have prev: "case prev of None \<Rightarrow> True | Some q \<Rightarrow> q < InvalidationKey (ik_kind k) (ik_value k)"
    using Cons.prems(2) p key by (auto split: option.splits)
  have "parses (read_watermark_keys (Suc (length ks)) prev w)
      (put_u8 (invalidation_key_kind_value (ik_kind k)) @ put_padding @ (put_u64 (ik_value k) @ put_u64 v) @
       concat (map (\<lambda>entry. put_u8 (invalidation_key_kind_value (ik_kind (fst entry))) @ put_padding @
         put_u64 (ik_value (fst entry)) @ put_u64 (snd entry)) ks)) (w\<lparr>wm_keys := wm_keys w @ p # ks\<rparr>)"
    unfolding read_watermark_keys.simps
    by (rule parses_padded [OF _ pair]) (simp_all add: Let_def key adv IH parses_guard prev del: invalidation_key.collapse)
  then show ?case by (simp add: p)
qed simp

lemma parses_watermark_families:
  assumes "sorted_wrt (<) (map fst (wm_families w) @ fs)" "EF_None \<notin> set fs"
  shows "parses (read_watermark_families (length fs) w)
    (concat (map (\<lambda>f. put_u8 (evidence_family_value f) @ put_padding @ put_u64 (g f)) fs))
    (w\<lparr>wm_families := wm_families w @ map (\<lambda>f. (f, g f)) fs\<rparr>)"
  using assms
proof (induction fs arbitrary: w)
  case (Cons f fs)
  let ?w = "w\<lparr>wm_families := wm_families w @ [(f, g f)]\<rparr>"
  have adv: "advance_or_keep (wm_advance_family f (g f)) w = ?w"
    using Cons.prems(1) by (intro advance_family_last) (auto simp: sorted_wrt_append)
  have range: "\<not> (evidence_family_value f = 0 \<or> evidence_family_value f > 8)"
    using Cons.prems(2) by (cases f) simp_all
  have IH: "parses (read_watermark_families (length fs) ?w)
      (concat (map (\<lambda>f. put_u8 (evidence_family_value f) @ put_padding @ put_u64 (g f)) fs))
      (w\<lparr>wm_families := wm_families w @ map (\<lambda>f. (f, g f)) (f # fs)\<rparr>)"
    using Cons.IH [of ?w] Cons.prems by simp
  show ?case
    unfolding list.size add_Suc_right add_0_right read_watermark_families.simps list.map concat.simps append_assoc
    by (rule parses_padded [where x = "g f"]) (use range IH in \<open>simp_all add: parses_u64 adv\<close>)
qed simp

lemma parses_watermarks:
  assumes "om_sorted (wm_keys w)" "length (wm_keys w) \<le> unat (max_decoded_count l)"
  shows "parses (decode_watermarks l) (encode_watermarks w) (wm_normal w)"
proof -
  let ?w = "empty_watermarks\<lparr>wm_keys := wm_keys w\<rparr>"
  have len: "length (wm_keys w) < 2 ^ 32"
    by (rule le_less_trans [OF assms(2)]) (rule order_less_le_trans [OF unsigned_less], simp)
  have keys: "parses (read_watermark_keys (length (wm_keys w)) None empty_watermarks)
    (concat (map (\<lambda>entry. put_u8 (invalidation_key_kind_value (ik_kind (fst entry))) @ put_padding @
       put_u64 (ik_value (fst entry)) @ put_u64 (snd entry)) (wm_keys w))) ?w"
    using parses_watermark_keys [of empty_watermarks "wm_keys w" None] assms(1) by (simp add: empty_watermarks_def)
  have sorted: "sorted_wrt (<) (map fst (wm_families ?w) @ kFamilies)" "EF_None \<notin> set kFamilies"
    by (simp_all add: empty_watermarks_def kFamilies_def less_evidence_family_def)
  have seven: "length kFamilies = 7" by (simp add: kFamilies_def)
  have "?w\<lparr>wm_families := wm_families ?w @ map (\<lambda>f. (f, wm_family w f)) kFamilies\<rparr> = wm_normal w"
    by (simp add: empty_watermarks_def wm_normal_def)
  then have fams: "parses (read_watermark_families 7 ?w)
    (concat (map (\<lambda>f. put_u8 (evidence_family_value f) @ put_padding @ put_u64 (wm_family w f)) kFamilies)) (wm_normal w)"
    using parses_watermark_families [OF sorted, of "wm_family w"] unfolding seven by (simp only:)
  show ?thesis
    unfolding decode_watermarks_def encode_watermarks_def
    by (intro parses_bind [OF parses_bounded_length] parses_bind [where x = ?w] parses_guard)
      (use assms(2) len keys fams in \<open>simp_all add: word_less_nat_alt\<close>)
qed

lemma regular_watermarks: "regular (decode_watermarks l)"
proof -
  have keys: "regular (read_watermark_keys n prev w)" for n prev w
    by (induction n prev w rule: read_watermark_keys.induct)
      (auto simp: rd_padded_def Let_def split: prod.splits intro!: regular_bind regular_guard)
  have fams: "regular (read_watermark_families n w)" for n w
    by (induction n w rule: read_watermark_families.induct)
      (auto simp: rd_padded_def intro!: regular_bind regular_guard)
  show ?thesis
    unfolding decode_watermarks_def by (intro regular_bind regular_guard regular_primitives keys fams)
qed

end
