(* ===== verification/Persistence.thy ===== *)
theory Persistence
  imports Authority Invalidation
begin

text \<open>
  The durable state (\<open>persistence.hpp\<close>, \<open>persistence.cpp\<close>): the persistent record, its codec, its
  semantic validation, the checksummed envelope and the store that writes it. The file is the byte
  list it holds (\<^const>\<open>None\<close> when it does not exist); the outcome of the operating-system calls of
  \<open>atomic_write\<close>, \<open>read_file\<close> and of the quarantine renames is an argument. The store lock and the
  Windows branch are not modelled.
\<close>

subsection \<open>Data\<close>

record candidate_population =
  po_set_id :: constraint_set_id
  po_candidates :: "candidate_path list"

record persistent_state =
  ps_epoch :: coordinator_epoch
  ps_evidence :: evidence_requirements
  ps_watermarks :: watermarks
  ps_sets :: "constraint_set list"
  ps_evaluations :: "evaluation_record list"
  ps_populations :: "candidate_population list"
  ps_live_boots :: "worker_boot_id list"
  ps_fenced_boots :: "fenced_boot_record list"
  ps_attempts :: "mutation_attempt_record list"
  ps_last_evaluation_generation :: generation
  ps_initialized :: bool

subsection \<open>Envelope\<close>

definition kStoreMagic :: "byte list" where
  "kStoreMagic = [0x43, 0x52, 0x46, 0x53, 0x54, 0x4f, 0x52, 0x45]"

definition kPersistenceFormatVersion :: u32 where
  "kPersistenceFormatVersion = 1"

definition kHeaderSize :: nat where
  "kHeaderSize = 8 + 4 + 8"

definition kTrailerSize :: nat where
  "kTrailerSize = 4 + 32"

definition kEnvelopeOverhead :: nat where
  "kEnvelopeOverhead = kHeaderSize + kTrailerSize"

definition encode_envelope :: "byte list \<Rightarrow> byte list" where
  "encode_envelope payload =
     concat (map (\<lambda>index. put_u8 (kStoreMagic ! index)) [0..<8]) @
     put_u32 kPersistenceFormatVersion @
     put_u64 (word_of_nat (length payload)) @
     put_raw payload @
     put_u32 (crc32c payload) @
     put_raw (sha256_of payload)"

definition decode_envelope :: "byte list \<Rightarrow> limits \<Rightarrow> byte list result" where
  "decode_envelope raw limits =
     (if length raw < kEnvelopeOverhead then Inl Truncated
      else if list_ex (\<lambda>index. raw ! index \<noteq> kStoreMagic ! index) [0..<8] then Inl PersistenceCorrupt
      else case rd_bind rd_u32 (\<lambda>version. rd_bind rd_u64 (\<lambda>len. rd_return (version, len)))
                  (byte_reader_of (drop 8 raw)) of
        (None, _) \<Rightarrow> Inl Truncated
      | (Some (version, payload_length), _) \<Rightarrow>
          if version \<noteq> kPersistenceFormatVersion then Inl UnsupportedVersion
          else if payload_length > ucast (max_persistence_record_bytes limits) then Inl ResourceLimit
          else let expected_total = word_of_nat kEnvelopeOverhead + payload_length :: u64 in
          if (word_of_nat (length raw) :: u64) \<noteq> expected_total then
            Inl (if (word_of_nat (length raw) :: u64) < expected_total then Truncated else TrailingBytes)
          else let body = take (unat payload_length) (drop kHeaderSize raw);
                   trailer = drop (kHeaderSize + unat payload_length) raw in
          if crc32c body \<noteq> le_accumulate 4 trailer then Inl IntegrityMismatch
          else if list_ex (\<lambda>index. trailer ! (4 + index) \<noteq> sha256_of body ! index) [0..<32] then Inl IntegrityMismatch
          else Inr body)"

subsection \<open>State codec\<close>

definition encode_population :: "candidate_population \<Rightarrow> byte list" where
  "encode_population p = put_u64 (po_set_id p) @ write_counted encode_candidate (po_candidates p)"

definition encode_persistent_state :: "persistent_state \<Rightarrow> byte list" where
  "encode_persistent_state s =
     put_u64 (ps_epoch s) @ put_bool (ps_initialized s) @ put_u8 0 @ put_u16 0 @ put_u32 0 @
     write_requirements (ps_evidence s) @
     put_u64 (ps_last_evaluation_generation s) @
     encode_watermarks (ps_watermarks s) @
     write_counted encode_constraint_set (ps_sets s) @
     write_counted encode_evaluation (ps_evaluations s) @
     write_counted encode_population (ps_populations s) @
     write_counted put_u64 (ps_live_boots s) @
     write_counted encode_fenced_boot (ps_fenced_boots s) @
     write_counted encode_mutation_attempt (ps_attempts s)"

definition decode_population :: "limits \<Rightarrow> candidate_population parser" where
  "decode_population l =
     rd_bind rd_u64 (\<lambda>set_id. rd_guard (set_id \<noteq> 0)
     (rd_bind (read_counted (max_candidates_per_evaluation l) (decode_candidate l)) (\<lambda>candidates.
      rd_return \<lparr> po_set_id = set_id, po_candidates = candidates \<rparr>)))"

definition decode_live_boot :: "worker_boot_id parser" where
  "decode_live_boot = rd_bind rd_u64 (\<lambda>boot. rd_guard (boot \<noteq> 0) (rd_return boot))"

definition rd_at_end :: "'a \<Rightarrow> 'a parser" where
  "rd_at_end x r = (if \<not> rd_ok r \<or> \<not> at_end r then (None, r) else (Some x, r))"

definition decode_persistent_state :: "limits \<Rightarrow> persistent_state parser" where
  "decode_persistent_state l =
     rd_bind rd_u64 (\<lambda>epoch. rd_bind rd_boolean (\<lambda>initialized.
     rd_bind rd_u8 (\<lambda>padding8. rd_bind rd_u16 (\<lambda>padding16. rd_bind rd_u32 (\<lambda>padding32.
     rd_guard (\<not> ((epoch \<noteq> 0 \<and> \<not> is_representable epoch) \<or> padding8 \<noteq> 0 \<or> padding16 \<noteq> 0 \<or> padding32 \<noteq> 0))
     (rd_bind read_requirements (\<lambda>evidence.
      rd_bind read_generation_field (\<lambda>last_generation.
      rd_bind (decode_watermarks l) (\<lambda>watermarks.
      rd_bind (read_counted (max_constraint_sets l) (decode_constraint_set l)) (\<lambda>sets.
      rd_bind (read_counted (max_evaluations_retained l) (decode_evaluation l)) (\<lambda>evaluations.
      rd_bind (read_counted 64 (decode_population l)) (\<lambda>populations.
      rd_bind (read_counted (max_fenced_boots l) decode_live_boot) (\<lambda>live_boots.
      rd_bind (read_counted (max_fenced_boots l) decode_fenced_boot) (\<lambda>fenced_boots.
      rd_bind (read_counted (max_mutation_attempts l) decode_mutation_attempt) (\<lambda>attempts.
      rd_at_end \<lparr> ps_epoch = epoch, ps_evidence = evidence, ps_watermarks = watermarks, ps_sets = sets,
        ps_evaluations = evaluations, ps_populations = populations, ps_live_boots = live_boots,
        ps_fenced_boots = fenced_boots, ps_attempts = attempts,
        ps_last_evaluation_generation = last_generation, ps_initialized = initialized \<rparr>)))))))))))))))"

definition persistent_state_digest :: "persistent_state \<Rightarrow> digest256" where
  "persistent_state_digest s = digest_of ''crf.persistent-state.v1'' [hash_bytes (encode_persistent_state s)]"

subsection \<open>Validation\<close>

text \<open>The loops of \<open>validate_persistent_state\<close>: each carries the identities already seen and stops
  at the first defect.\<close>

fun validate_sets :: "limits \<Rightarrow> constraint_set_id list \<Rightarrow> constraint_set list \<Rightarrow> status" where
  "validate_sets l seen [] = Ok"
| "validate_sets l seen (s # rest) =
     (if cs_id s \<in> set seen then DuplicateIdentity
      else if verify_canonical_constraint_set s l \<noteq> Ok then verify_canonical_constraint_set s l
      else validate_sets l (cs_id s # seen) rest)"

fun validate_candidates :: "limits \<Rightarrow> candidate_path list \<Rightarrow> status" where
  "validate_candidates l [] = Ok"
| "validate_candidates l (c # rest) =
     (if validate_candidate c l \<noteq> Ok then validate_candidate c l else validate_candidates l rest)"

fun validate_populations ::
  "limits \<Rightarrow> constraint_set_id list \<Rightarrow> constraint_set_id list \<Rightarrow> candidate_population list \<Rightarrow> status" where
  "validate_populations l set_ids seen [] = Ok"
| "validate_populations l set_ids seen (p # rest) =
     (if po_set_id p \<notin> set set_ids then NotFound
      else if po_set_id p \<in> set seen then DuplicateIdentity
      else if length (po_candidates p) > unat (max_candidates_per_evaluation l) then ResourceLimit
      else if validate_candidates l (po_candidates p) \<noteq> Ok then validate_candidates l (po_candidates p)
      else validate_populations l set_ids (po_set_id p # seen) rest)"

fun validate_reasons :: "reason option \<Rightarrow> reason list \<Rightarrow> status" where
  "validate_reasons previous [] = Ok"
| "validate_reasons previous (r # rest) =
     (if reason_class_of (r_code r) \<noteq> r_class r then Malformed
      else if (case previous of None \<Rightarrow> False | Some p \<Rightarrow> \<not> reason_less p r) then Malformed
      else validate_reasons (Some r) rest)"

definition unbound_family :: "evaluation_record \<Rightarrow> bool" where
  "unbound_family r \<longleftrightarrow> list_ex (\<lambda>family. ev_consulted r AND family_bit family \<noteq> 0 \<and>
     generation_for_family (ev_evidence r) family = 0) kFamilies"

definition validate_evaluation ::
  "limits \<Rightarrow> constraint_set_id list \<Rightarrow> evaluation_id list \<Rightarrow> (u64 \<times> u64) list \<Rightarrow> evaluation_record \<Rightarrow> status" where
  "validate_evaluation l set_ids ids current r =
     (if ev_id r \<in> set ids then DuplicateIdentity
      else if \<not> is_valid (ev_set_id r) \<or> \<not> is_valid (ev_path r) \<or> \<not> is_valid (ev_authority_generation r) \<or>
              \<not> is_valid (ev_generation r) then ImpossibleGeneration
      else if ev_set_id r \<notin> set set_ids then NotFound
      else if validate_reasons None (ev_reasons r) \<noteq> Ok then validate_reasons None (ev_reasons r)
      else if ev_reasons r = [] \<and> ev_primary_reason r \<noteq> RC_None then Malformed
      else if ev_reasons r \<noteq> [] \<and> ev_primary_reason r \<noteq> r_code (hd (ev_reasons r)) then Malformed
      else if length (ev_reasons r) > unat (max_explanation_reasons l) then ResourceLimit
      else if ev_state r = RS_Current \<and> (ev_set_id r, ev_path r) \<in> set current then DuplicateIdentity
      else if unbound_family r then Malformed
      else Ok)"

fun validate_evaluations ::
  "limits \<Rightarrow> constraint_set_id list \<Rightarrow> evaluation_id list \<Rightarrow> (u64 \<times> u64) list \<Rightarrow> evaluation_record list \<Rightarrow> status" where
  "validate_evaluations l set_ids ids current [] = Ok"
| "validate_evaluations l set_ids ids current (r # rest) =
     (if validate_evaluation l set_ids ids current r \<noteq> Ok then validate_evaluation l set_ids ids current r
      else validate_evaluations l set_ids (ev_id r # ids)
             (if ev_state r = RS_Current then (ev_set_id r, ev_path r) # current else current) rest)"

definition highest_generation :: "evaluation_record list \<Rightarrow> generation" where
  "highest_generation rs = foldl (\<lambda>h r. if h < ev_generation r then ev_generation r else h) 0 rs"

fun validate_ids :: "u64 list \<Rightarrow> u64 list \<Rightarrow> status" where
  "validate_ids seen [] = Ok"
| "validate_ids seen (i # rest) =
     (if \<not> is_valid i then InvalidArgument
      else if i \<in> set seen then DuplicateIdentity
      else validate_ids (i # seen) rest)"

definition validate_persistent_state :: "persistent_state \<Rightarrow> limits \<Rightarrow> status" where
  "validate_persistent_state s l =
     (let set_ids = map cs_id (ps_sets s);
          sets = validate_sets l [] (ps_sets s);
          populations = validate_populations l set_ids [] (ps_populations s);
          evaluations = validate_evaluations l set_ids [] [] (ps_evaluations s);
          live = validate_ids [] (ps_live_boots s);
          boots = validate_ids [] (map fb_boot (ps_fenced_boots s)) in
      if \<not> validate_limits l then InvalidArgument
      else if is_valid (ps_epoch s) \<and> \<not> is_representable (ps_epoch s) then ImpossibleGeneration
      else if length (ps_sets s) > unat (max_constraint_sets l) then ResourceLimit
      else if length (ps_evaluations s) > unat (max_evaluations_retained l) then ResourceLimit
      else if length (ps_fenced_boots s) > unat (max_fenced_boots l) then ResourceLimit
      else if length (ps_attempts s) > unat (max_mutation_attempts l) then ResourceLimit
      else if sets \<noteq> Ok then sets
      else if populations \<noteq> Ok then populations
      else if evaluations \<noteq> Ok then evaluations
      else if ps_evaluations s \<noteq> [] \<and> (\<not> is_valid (ps_last_evaluation_generation s) \<or>
              ps_last_evaluation_generation s < highest_generation (ps_evaluations s)) then ImpossibleGeneration
      else if length (ps_live_boots s) > unat (max_fenced_boots l) then ResourceLimit
      else if live \<noteq> Ok then live
      else if boots \<noteq> Ok then boots
      else validate_ids [] (map ma_attempt (ps_attempts s)))"

subsection \<open>The store\<close>

record durable_store =
  ds_limits :: limits
  ds_writes :: u64
  ds_failures :: u64
  ds_file :: "byte list option"

text \<open>\<open>atomic_write\<close>: the temporary file is renamed over the target only after every byte was written
  and flushed, so a failure of any call leaves the target as it was.\<close>

definition atomic_write :: "status \<Rightarrow> byte list \<Rightarrow> byte list option \<Rightarrow> status \<times> byte list option" where
  "atomic_write io data file = (if io \<noteq> Ok then (DurableWriteFailed, file) else (Ok, Some data))"

definition store_save :: "status \<Rightarrow> persistent_state \<Rightarrow> durable_store \<Rightarrow> status \<times> durable_store" where
  "store_save io state ds =
     (let valid = validate_persistent_state state (ds_limits ds);
          payload = encode_persistent_state state in
      if valid \<noteq> Ok then (valid, ds)
      else if length payload > unat (max_persistence_record_bytes (ds_limits ds)) then
        (ResourceLimit, ds\<lparr>ds_failures := ds_failures ds + 1\<rparr>)
      else case atomic_write io (encode_envelope payload) (ds_file ds) of
        (written, file) \<Rightarrow>
          if written \<noteq> Ok then (written, ds\<lparr>ds_failures := ds_failures ds + 1\<rparr>)
          else (Ok, ds\<lparr>ds_file := file, ds_writes := ds_writes ds + 1\<rparr>))"

text \<open>What the operating system answers \<open>read_file\<close> on an existing file. The POSIX branch reports a
  failed \<open>open\<close> as a file that does not exist.\<close>

datatype read_outcome = Readable | OpenFailed | ReadFailed

definition read_file :: "read_outcome \<Rightarrow> byte list option \<Rightarrow> byte list result" where
  "read_file answer file =
     (case file of
        None \<Rightarrow> Inl NotFound
      | Some raw \<Rightarrow> (case answer of
            Readable \<Rightarrow> Inr raw
          | OpenFailed \<Rightarrow> Inl NotFound
          | ReadFailed \<Rightarrow> Inl PersistenceUnavailable))"

definition store_load :: "read_outcome \<Rightarrow> durable_store \<Rightarrow> persistent_state result" where
  "store_load answer ds =
     (case read_file answer (ds_file ds) of
        Inl e \<Rightarrow> Inl e
      | Inr raw \<Rightarrow>
          (case decode_envelope raw (ds_limits ds) of
             Inl e \<Rightarrow> Inl e
           | Inr payload \<Rightarrow>
               (case decode_persistent_state (ds_limits ds) (byte_reader_of payload) of
                  (None, _) \<Rightarrow> Inl PersistenceCorrupt
                | (Some state, _) \<Rightarrow>
                    if validate_persistent_state state (ds_limits ds) \<noteq> Ok then Inl PersistenceCorrupt
                    else Inr state)))"

text \<open>\<open>DurableStore::open\<close>. \<open>locked\<close> says whether the lock file could be locked, \<open>renamed\<close> whether one of the 64 quarantine
  names was free and the rename succeeded; the bytes then live under the quarantine name.\<close>

definition store_open ::
  "bool \<Rightarrow> bool \<Rightarrow> read_outcome \<Rightarrow> bool \<Rightarrow> limits \<Rightarrow> bool \<Rightarrow> byte list option \<Rightarrow> durable_store result" where
  "store_open path_empty locked answer renamed limits allow_initialize file =
     (let ds = \<lparr> ds_limits = limits, ds_writes = 0, ds_failures = 0, ds_file = file \<rparr> in
      if \<not> validate_limits limits then Inl InvalidArgument
      else if path_empty then Inl InvalidArgument
      else if \<not> locked then Inl PersistenceUnavailable
      else case store_load answer ds of
        Inr _ \<Rightarrow> Inr ds
      | Inl e \<Rightarrow> if e = NotFound then Inr ds
                 else if \<not> allow_initialize then Inl e
                 else Inr (if renamed then ds\<lparr>ds_file := None\<rparr> else ds))"

definition store_exists :: "durable_store \<Rightarrow> bool" where
  "store_exists ds \<longleftrightarrow> ds_file ds \<noteq> None"

subsection \<open>Bytes determine the integers and back\<close>

lemma bit_byte_high: "8 \<le> n \<Longrightarrow> \<not> bit (x :: byte) n"
  by (auto dest: bit_imp_le_length)

lemma put_le_accumulate_u32: "length bs = 4 \<Longrightarrow> put_u32 (le_accumulate 4 bs) = bs"
proof -
  assume "length bs = 4"
  then obtain a b c d where bs: "bs = [a, b, c, d]" by (auto simp: length_Suc_conv numeral_eq_Suc)
  show ?thesis
    unfolding bs put_u32_bytes le_accumulate_4
    by (auto intro!: bit_word_eqI simp: bit_simps bit_byte_high)
qed

lemma put_le_accumulate_u64: "length bs = 8 \<Longrightarrow> put_u64 (le_accumulate 8 bs) = bs"
proof -
  assume "length bs = 8"
  then obtain a b c d e f g h where bs: "bs = [a, b, c, d, e, f, g, h]"
    by (auto simp: length_Suc_conv numeral_eq_Suc)
  show ?thesis
    unfolding bs put_u64_bytes le_accumulate_8
    by (auto intro!: bit_word_eqI simp: bit_simps bit_byte_high)
qed

subsection \<open>The envelope\<close>

lemma length_kStoreMagic [simp]: "length kStoreMagic = 8"
  by (simp add: kStoreMagic_def)

lemma envelope_magic: "concat (map (\<lambda>index. put_u8 (kStoreMagic ! index)) [0..<8]) = kStoreMagic"
  using map_nth [of kStoreMagic] by (simp add: put_u8_def concat_map_singleton)

lemma envelope_parts:
  "encode_envelope p = kStoreMagic @ put_u32 kPersistenceFormatVersion @ put_u64 (word_of_nat (length p)) @ p @
     put_u32 (crc32c p) @ sha256_of p"
  by (simp add: encode_envelope_def envelope_magic put_raw_def)

lemma length_sha256_of [simp]: "length (sha256_of d) = 32"
  by (simp add: sha256_of_def)

lemma length_envelope: "length (encode_envelope p) = 56 + length p"
  by (simp add: envelope_parts)

lemma header_fields:
  "fst (rd_bind rd_u32 (\<lambda>version. rd_bind rd_u64 (\<lambda>len. rd_return (version, len)))
     (byte_reader_of (put_u32 v @ put_u64 n @ rest))) = Some (v, n)"
proof -
  have "parses (rd_bind rd_u32 (\<lambda>version. rd_bind rd_u64 (\<lambda>len. rd_return (version, len)))) (put_u32 v @ put_u64 n) (v, n)"
    by (rule parses_bind [OF parses_u32]) (rule parses_bind_Nil [OF parses_u64 parses_return])
  from parsesD [OF this, of "[]" rest] show ?thesis
    by (simp add: at_reader_def byte_reader_of_def)
qed

text \<open>Splitting raw bytes at the boundaries of the envelope.\<close>

lemma envelope_split:
  assumes "length raw = 56 + n"
  obtains v m body crc dig where "raw = take 8 raw @ put_u32 v @ put_u64 m @ body @ crc @ dig"
    "length body = n" "length crc = 4" "length dig = 32"
proof -
  let ?v = "take 4 (drop 8 raw)" and ?m = "take 8 (drop 12 raw)"
  let ?body = "take n (drop 20 raw)" and ?crc = "take 4 (drop (20 + n) raw)" and ?dig = "drop (24 + n) raw"
  have "drop 8 raw = ?v @ drop 12 raw" "drop 12 raw = ?m @ drop 20 raw"
    "drop 20 raw = ?body @ drop (20 + n) raw" "drop (20 + n) raw = ?crc @ ?dig"
    using append_take_drop_id [of 4 "drop 8 raw"] append_take_drop_id [of 8 "drop 12 raw"]
      append_take_drop_id [of n "drop 20 raw"] append_take_drop_id [of 4 "drop (20 + n) raw"]
    by (simp_all add: add.commute)
  then have "raw = take 8 raw @ ?v @ ?m @ ?body @ ?crc @ ?dig"
    using append_take_drop_id [of 8 raw] by metis
  moreover have "put_u32 (le_accumulate 4 ?v) = ?v" "put_u64 (le_accumulate 8 ?m) = ?m"
    using assms by (simp_all add: put_le_accumulate_u32 put_le_accumulate_u64)
  ultimately show thesis
    using that [of "le_accumulate 4 ?v" "le_accumulate 8 ?m" ?body ?crc ?dig] assms by simp
qed

lemma envelope_body:
  assumes "raw = mg @ put_u32 v @ put_u64 m @ body @ rest" "length mg = 8" "length body = n"
  shows "take n (drop 20 raw) = body" "drop (20 + n) raw = rest"
  using assms by simp_all

lemma magic_iff:
  "8 \<le> length raw \<Longrightarrow> list_ex (\<lambda>index. raw ! index \<noteq> kStoreMagic ! index) [0..<8] \<longleftrightarrow> take 8 raw \<noteq> kStoreMagic"
  by (auto simp: list_ex_iff list_eq_iff_nth_eq)

lemma trailer_iff:
  "length crc = 4 \<Longrightarrow> length dig = 32 \<Longrightarrow>
   list_ex (\<lambda>index. (crc @ dig) ! (4 + index) \<noteq> sha256_of body ! index) [0..<32] \<longleftrightarrow> dig \<noteq> sha256_of body"
  by (auto simp: list_ex_iff list_eq_iff_nth_eq nth_append)

lemma le_accumulate_append: "n \<le> length xs \<Longrightarrow> le_accumulate n (xs @ ys) = le_accumulate n xs"
  unfolding le_accumulate_def by (rule foldl_cong) (auto simp: nth_append)

lemma crc_iff: "length crc = 4 \<Longrightarrow> c = le_accumulate 4 (crc @ dig) \<longleftrightarrow> crc = put_u32 c"
  by (metis le_accumulate_append le_accumulate_u32 order_refl put_le_accumulate_u32)

lemma put_u32_inj: "put_u32 a = put_u32 b \<longleftrightarrow> a = b"
  by (metis le_accumulate_u32)

lemma put_u64_inj: "put_u64 a = put_u64 b \<longleftrightarrow> a = b"
  by (metis le_accumulate_u64)

lemma declared_length_iff:
  fixes m :: u64 and k :: u32
  assumes "56 + n < 2 ^ 64"
  shows "m \<le> ucast k \<and> (word_of_nat (56 + n) :: u64) = 56 + m \<longleftrightarrow> m = word_of_nat n \<and> n \<le> unat k"
proof -
  have k: "unat (ucast k :: u64) = unat k"
    using unsigned_less [where ?'a = nat and w = k] by (simp add: unsigned_ucast_eq take_bit_nat_eq_self)
  have split: "(word_of_nat (56 + n) :: u64) = 56 + word_of_nat n" by simp
  have "(word_of_nat (56 + n) :: u64) = 56 + m \<longleftrightarrow> m = word_of_nat n"
    unfolding split by auto
  moreover have "(word_of_nat n :: u64) \<le> ucast k \<longleftrightarrow> n \<le> unat k"
    using assms by (simp add: word_le_nat_alt k)
  ultimately show ?thesis by auto
qed

text \<open>An envelope is accepted exactly when it is the encoding of its payload.\<close>

lemma decode_envelope_iff:
  assumes "length raw < 2 ^ 64"
  shows "decode_envelope raw l = Inr p \<longleftrightarrow>
    raw = encode_envelope p \<and> length p \<le> unat (max_persistence_record_bytes l)"
proof (cases "56 \<le> length raw")
  case True
  then obtain n where n: "length raw = 56 + n" by (metis le_Suc_ex)
  obtain v m body crc dig where raw: "raw = take 8 raw @ put_u32 v @ put_u64 m @ body @ crc @ dig"
    and len: "length body = n" "length crc = 4" "length dig = 32"
    using envelope_split [OF n] by blast
  have magic: "length (take 8 raw) = 8" using n by simp
  have hdr: "fst (rd_bind rd_u32 (\<lambda>version. rd_bind rd_u64 (\<lambda>len. rd_return (version, len))) (byte_reader_of (drop 8 raw))) = Some (v, m)"
    using header_fields [of v m "body @ crc @ dig"] raw magic by (metis append_eq_conv_conj)
  have dec: "decode_envelope raw l = (if take 8 raw \<noteq> kStoreMagic then Inl PersistenceCorrupt
      else if v \<noteq> kPersistenceFormatVersion then Inl UnsupportedVersion
      else if m > ucast (max_persistence_record_bytes l) then Inl ResourceLimit
      else if (word_of_nat (56 + n) :: u64) \<noteq> 56 + m then
        Inl (if (word_of_nat (56 + n) :: u64) < 56 + m then Truncated else TrailingBytes)
      else let body = take (unat m) (drop 20 raw); trailer = drop (20 + unat m) raw in
        if crc32c body \<noteq> le_accumulate 4 trailer then Inl IntegrityMismatch
        else if list_ex (\<lambda>index. trailer ! (4 + index) \<noteq> sha256_of body ! index) [0..<32] then Inl IntegrityMismatch
        else Inr body)"
    unfolding decode_envelope_def using n hdr magic_iff [of raw]
    by (auto simp: kEnvelopeOverhead_def kHeaderSize_def kTrailerSize_def split: prod.splits option.splits)
  have "decode_envelope raw l = Inr p \<longleftrightarrow> take 8 raw = kStoreMagic \<and> v = kPersistenceFormatVersion \<and>
      (m = word_of_nat n \<and> n \<le> unat (max_persistence_record_bytes l)) \<and>
      crc = put_u32 (crc32c body) \<and> dig = sha256_of body \<and> p = body"
  proof (cases "m = word_of_nat n \<and> n \<le> unat (max_persistence_record_bytes l)")
    case declared: True
    have "unat m = n" using declared n assms by simp
    then have "take (unat m) (drop 20 raw) = body" "drop (20 + unat m) raw = crc @ dig"
      using raw magic len by (metis envelope_body)+
    then show ?thesis
      using declared declared_length_iff [of n m "max_persistence_record_bytes l"] assms n
        crc_iff [OF len(2), of "crc32c body" dig] trailer_iff [OF len(2,3), of body]
      unfolding dec by (auto simp: not_less)
  next
    case False
    then show ?thesis
      using declared_length_iff [of n m "max_persistence_record_bytes l"] assms n unfolding dec by (auto simp: not_less)
  qed
  also have "\<dots> \<longleftrightarrow> raw = encode_envelope p \<and> length p \<le> unat (max_persistence_record_bytes l)"
  proof -
    have "raw = encode_envelope p \<longleftrightarrow> take 8 raw = kStoreMagic \<and> v = kPersistenceFormatVersion \<and>
       m = word_of_nat n \<and> crc = put_u32 (crc32c body) \<and> dig = sha256_of body \<and> p = body" if "length p = n"
      by (subst raw) (use that magic len in \<open>auto simp: envelope_parts put_u32_inj put_u64_inj\<close>)
    moreover have "length p = n" if "raw = encode_envelope p"
      using that n length_envelope [of p] by simp
    ultimately show ?thesis using len(1) by blast
  qed
  finally show ?thesis .
next
  case False
  then show ?thesis
    using length_envelope [of p] by (auto simp: decode_envelope_def kEnvelopeOverhead_def kHeaderSize_def kTrailerSize_def)
qed

subsection \<open>The state codec\<close>

text \<open>A parser that must reach the end of its input.\<close>

definition parses_end :: "'a parser \<Rightarrow> byte list \<Rightarrow> 'a \<Rightarrow> bool" where
  "parses_end p bs x \<longleftrightarrow> (\<forall>pre. p (at_reader pre bs) = (Some x, at_reader (pre @ bs) []))"

lemma parses_end_bind:
  assumes "parses p b1 x" "parses_end (f x) b2 y"
  shows "parses_end (rd_bind p f) (b1 @ b2) y"
  using parsesD [OF assms(1), of _ b2] assms(2) by (simp add: parses_end_def rd_bind_def)

lemma parses_end_guard: "c \<Longrightarrow> parses_end p bs x \<Longrightarrow> parses_end (rd_guard c p) bs x"
  by (simp add: parses_end_def rd_guard_def)

lemma parses_end_last:
  assumes "parses p b x" "parses_end (f x) [] y"
  shows "parses_end (rd_bind p f) b y"
  using parses_end_bind [of p b x f "[]" y] assms by simp

lemma parses_at_end: "parses_end (rd_at_end x) [] x"
  by (simp add: parses_end_def rd_at_end_def at_end_def at_reader_def)

lemma parses_end_whole: "parses_end p bs x \<Longrightarrow> p (byte_reader_of bs) = (Some x, at_reader bs [])"
  unfolding parses_end_def by (drule spec [of _ "[]"]) (simp add: byte_reader_of_def at_reader_def)

definition population_wire :: "limits \<Rightarrow> candidate_population \<Rightarrow> bool" where
  "population_wire l p \<longleftrightarrow> po_set_id p \<noteq> 0 \<and>
     length (po_candidates p) \<le> unat (max_candidates_per_evaluation l) \<and>
     list_all (\<lambda>c. wire_candidate c l) (po_candidates p)"

definition fenced_wire :: "fenced_boot_record \<Rightarrow> bool" where
  "fenced_wire r \<longleftrightarrow> fb_boot r \<noteq> 0 \<and> (fb_fenced_at r = 0 \<or> is_representable (fb_fenced_at r))"

definition attempt_wire :: "mutation_attempt_record \<Rightarrow> bool" where
  "attempt_wire r \<longleftrightarrow> ma_attempt r \<noteq> 0 \<and> length (ma_payload r) = 32"

definition state_wire :: "limits \<Rightarrow> persistent_state \<Rightarrow> bool" where
  "state_wire l s \<longleftrightarrow>
     (ps_epoch s = 0 \<or> is_representable (ps_epoch s)) \<and> requirements_wire (ps_evidence s) \<and>
     gen_ok (ps_last_evaluation_generation s) \<and>
     om_sorted (wm_keys (ps_watermarks s)) \<and> length (wm_keys (ps_watermarks s)) \<le> unat (max_decoded_count l) \<and>
     length (ps_sets s) \<le> unat (max_constraint_sets l) \<and> list_all (\<lambda>x. wire_constraint_set x l) (ps_sets s) \<and>
     length (ps_evaluations s) \<le> unat (max_evaluations_retained l) \<and>
     list_all (\<lambda>x. wire_evaluation x l) (ps_evaluations s) \<and>
     length (ps_populations s) \<le> 64 \<and> list_all (population_wire l) (ps_populations s) \<and>
     length (ps_live_boots s) \<le> unat (max_fenced_boots l) \<and> list_all (\<lambda>b. b \<noteq> 0) (ps_live_boots s) \<and>
     length (ps_fenced_boots s) \<le> unat (max_fenced_boots l) \<and> list_all fenced_wire (ps_fenced_boots s) \<and>
     length (ps_attempts s) \<le> unat (max_mutation_attempts l) \<and> list_all attempt_wire (ps_attempts s)"

definition normal_state :: "persistent_state \<Rightarrow> persistent_state" where
  "normal_state s = s\<lparr>ps_watermarks := wm_normal (ps_watermarks s)\<rparr>"

lemma parses_population: "population_wire l p \<Longrightarrow> parses (decode_population l) (encode_population p) p"
  unfolding decode_population_def encode_population_def
  by (rule parses_bind [OF parses_u64], rule parses_guard, simp add: population_wire_def,
      rule parses_bind_Nil [OF parses_counted])
    (auto simp: population_wire_def list_all_iff parses_return_eq intro: parses_decode_candidate)

lemma parses_live_boot: "b \<noteq> 0 \<Longrightarrow> parses decode_live_boot (put_u64 b) b"
  unfolding decode_live_boot_def by (rule parses_bind_Nil [OF parses_u64]) (simp add: parses_guard)

lemma parses_persistent_state:
  assumes "state_wire l s"
  shows "parses_end (decode_persistent_state l) (encode_persistent_state s) (normal_state s)"
proof -
  note w = assms [unfolded state_wire_def list_all_iff]
  have sets: "parses (read_counted (max_constraint_sets l) (decode_constraint_set l))
      (write_counted encode_constraint_set (ps_sets s)) (ps_sets s)"
    using w by (intro parses_counted parses_decode_constraint_set) auto
  have evals: "parses (read_counted (max_evaluations_retained l) (decode_evaluation l))
      (write_counted encode_evaluation (ps_evaluations s)) (ps_evaluations s)"
    using w by (intro parses_counted parses_decode_evaluation) auto
  have pops: "parses (read_counted 64 (decode_population l)) (write_counted encode_population (ps_populations s)) (ps_populations s)"
    using w by (intro parses_counted parses_population) auto
  have live: "parses (read_counted (max_fenced_boots l) decode_live_boot) (write_counted put_u64 (ps_live_boots s)) (ps_live_boots s)"
    using w by (intro parses_counted parses_live_boot) auto
  have fenced: "parses (read_counted (max_fenced_boots l) decode_fenced_boot)
      (write_counted encode_fenced_boot (ps_fenced_boots s)) (ps_fenced_boots s)"
    using w by (intro parses_counted parses_fenced_boot) (auto simp: fenced_wire_def)
  have attempts: "parses (read_counted (max_mutation_attempts l) decode_mutation_attempt)
      (write_counted encode_mutation_attempt (ps_attempts s)) (ps_attempts s)"
    using w by (intro parses_counted parses_mutation_attempt) (auto simp: attempt_wire_def)
  have "normal_state s = \<lparr> ps_epoch = ps_epoch s, ps_evidence = ps_evidence s,
      ps_watermarks = wm_normal (ps_watermarks s), ps_sets = ps_sets s, ps_evaluations = ps_evaluations s,
      ps_populations = ps_populations s, ps_live_boots = ps_live_boots s, ps_fenced_boots = ps_fenced_boots s,
      ps_attempts = ps_attempts s, ps_last_evaluation_generation = ps_last_evaluation_generation s,
      ps_initialized = ps_initialized s \<rparr>"
    by (simp add: normal_state_def)
  then show ?thesis
    unfolding decode_persistent_state_def encode_persistent_state_def
    using w
    by (auto intro!: parses_end_bind [OF parses_u64] parses_end_bind [OF parses_boolean] parses_end_bind [OF parses_u8]
        parses_end_bind [OF parses_u16] parses_end_bind [OF parses_u32] parses_end_guard
        parses_end_bind [OF parses_requirements] parses_end_bind [OF parses_generation_field]
        parses_end_bind [OF parses_watermarks] parses_end_bind [OF sets] parses_end_bind [OF evals]
        parses_end_bind [OF pops] parses_end_bind [OF live] parses_end_bind [OF fenced]
        parses_end_last [OF attempts] parses_at_end)
qed

subsection \<open>Saving and loading\<close>

lemma validate_normal_state: "validate_persistent_state (normal_state s) l = validate_persistent_state s l"
  unfolding validate_persistent_state_def Let_def normal_state_def by simp

lemma store_save_Ok:
  "fst (store_save io s ds) = Ok \<longleftrightarrow> validate_persistent_state s (ds_limits ds) = Ok \<and>
     length (encode_persistent_state s) \<le> unat (max_persistence_record_bytes (ds_limits ds)) \<and> io = Ok"
  by (auto simp: store_save_def Let_def atomic_write_def)

lemma store_save_file:
  "ds_file (snd (store_save io s ds)) =
     (if fst (store_save io s ds) = Ok then Some (encode_envelope (encode_persistent_state s)) else ds_file ds)"
  "ds_limits (snd (store_save io s ds)) = ds_limits ds"
  by (auto simp: store_save_def Let_def atomic_write_def)

lemma load_of_encoding:
  assumes "ds_file ds = Some (encode_envelope (encode_persistent_state s))"
    and "length (encode_persistent_state s) \<le> unat (max_persistence_record_bytes (ds_limits ds))"
    and "validate_persistent_state s (ds_limits ds) = Ok" "state_wire (ds_limits ds) s"
  shows "store_load Readable ds = Inr (normal_state s)"
proof -
  have "length (encode_envelope (encode_persistent_state s)) < 2 ^ 64"
    using unat_u32_less [OF assms(2)] by (simp add: length_envelope)
  then have "decode_envelope (encode_envelope (encode_persistent_state s)) (ds_limits ds) = Inr (encode_persistent_state s)"
    using assms(2) by (simp add: decode_envelope_iff)
  then show ?thesis
    using assms(1,3) parses_end_whole [OF parses_persistent_state [OF assms(4)]] validate_normal_state [of s "ds_limits ds"]
    by (simp add: store_load_def read_file_def)
qed

end
