(* ===== verification/Store_Properties.thy ===== *)
theory Store_Properties
  imports Persistence Samples
begin

text \<open>
  What the durable store and the dependency index promise: the index implements a relation between
  keys and evaluations, the envelope accepts exactly the bytes that the encoder writes, and a state
  that was saved is the state that a load returns.
\<close>

subsection \<open>The dependency index implements a relation\<close>

lemma is_bound_iff: "index_wf ix \<Longrightarrow> is_bound ix e \<longleftrightarrow> (\<exists>k. (k, e) \<in> depends ix)"
proof -
  assume wf: "index_wf ix"
  have "s \<noteq> []" if "om_find (ix_reverse ix) e = Some s" for s
    using wf that by (simp add: index_wf_def multi_wf_def)
  then have "is_bound ix e \<longleftrightarrow> (\<exists>k. (e, k) \<in> rel_of (ix_reverse ix))"
    by (cases "om_find (ix_reverse ix) e") (auto simp: is_bound_def rel_of_def ex_in_conv)
  then show ?thesis using wf by (simp add: index_wf_def depends_def)
qed

lemma dependents_sorted: "index_wf ix \<Longrightarrow> sorted_wrt (<) (index_dependents ix k)"
  by (cases "om_find (ix_forward ix) k") (auto simp: index_dependents_def index_wf_def multi_wf_def)

lemma keys_of_kinds_iff:
  assumes "index_wf ix"
  shows "set (keys_of_kinds ix kinds) = {k. ik_kind k \<in> set kinds \<and> (\<exists>e. (k, e) \<in> depends ix)}"
proof -
  have "k \<in> fst ` set (ix_forward ix) \<longleftrightarrow> (\<exists>e. (k, e) \<in> depends ix)" for k
  proof
    assume "k \<in> fst ` set (ix_forward ix)"
    then obtain s where s: "om_find (ix_forward ix) k = Some s"
      by (metis om_find_def map_of_eq_None_iff not_None_eq)
    then have "s \<noteq> []" using assms by (auto simp: index_wf_def multi_wf_def)
    then show "\<exists>e. (k, e) \<in> depends ix" using s by (cases s) (auto simp: depends_def rel_of_def)
  next
    assume "\<exists>e. (k, e) \<in> depends ix"
    then obtain s where "map_of (ix_forward ix) k = Some s" by (auto simp: depends_def rel_of_def om_find_def)
    then show "k \<in> fst ` set (ix_forward ix)" by (metis fst_conv image_eqI map_of_SomeD)
  qed
  moreover have "set (keys_of_kinds ix kinds) = {k \<in> fst ` set (ix_forward ix). ik_kind k \<in> set kinds}"
    by (auto simp: keys_of_kinds_def list_ex_iff)
  ultimately show ?thesis by auto
qed

text \<open>C25: the index refines the relation \<open>depends\<close> between keys and evaluations. Binding adds exactly
  one pair and refuses the zero identity, unbinding removes exactly the pairs of one evaluation, both
  keep the two maps mirrored; the queries answer the relation, in ascending order, and the
  consistency check of the code succeeds.\<close>

theorem index_refines_relation:
  assumes "index_wf ix"
  shows "index_wf (snd (index_bind k e ix)) \<and>
    depends (snd (index_bind k e ix)) = depends ix \<union> (if e = 0 then {} else {(k, e)}) \<and>
    (fst (index_bind k e ix) = Ok \<longleftrightarrow> e \<noteq> 0) \<and>
    index_wf (snd (index_unbind e ix)) \<and>
    depends (snd (index_unbind e ix)) = {p \<in> depends ix. snd p \<noteq> e} \<and>
    set (index_dependents ix k) = {x. (k, x) \<in> depends ix} \<and> sorted_wrt (<) (index_dependents ix k) \<and>
    set (keys_of_kinds ix kinds) = {x. ik_kind x \<in> set kinds \<and> (\<exists>y. (x, y) \<in> depends ix)} \<and>
    (is_bound ix e \<longleftrightarrow> (\<exists>x. (x, e) \<in> depends ix)) \<and>
    index_validate ix = Ok"
proof -
  have "depends (snd (index_unbind e ix)) = {p \<in> depends ix. snd p \<noteq> e}"
    using depends_unbind [OF assms] by auto
  moreover have "fst (index_bind k e ix) = Ok \<longleftrightarrow> e \<noteq> 0"
    by (simp add: index_bind_def is_valid_def)
  moreover have "set (index_dependents ix k) = {x. (k, x) \<in> depends ix}"
    using dependents_iff by blast
  ultimately show ?thesis
    using assms by (simp add: wf_bind wf_unbind depends_bind dependents_sorted keys_of_kinds_iff is_bound_iff wf_validates)
qed

theorem index_refines_relation_witness:
  "index_validate (snd (index_bind (InvalidationKey IK_Node 4) 9 empty_index)) = Ok \<and>
   depends (snd (index_unbind 9 (snd (index_bind (InvalidationKey IK_Node 4) 9 empty_index)))) = {} \<and>
   is_bound (snd (index_bind (InvalidationKey IK_Node 4) 9 empty_index)) 9"
proof -
  let ?ix = "snd (index_bind (InvalidationKey IK_Node 4) 9 empty_index)"
  have first: "index_wf ?ix" "depends ?ix = {(InvalidationKey IK_Node 4, 9)}"
    using index_refines_relation [of empty_index "InvalidationKey IK_Node 4" 9] by simp_all
  then show ?thesis
    using index_refines_relation [of ?ix "InvalidationKey IK_Node 4" 9] by simp
qed

subsection \<open>The envelope\<close>

text \<open>C40: the envelope is exact. Bytes are accepted if and only if they are, byte for byte, the
  envelope that the encoder writes for the payload they carry, and the payload is within the record
  limit; every truncation, extension or change of magic, version, length, checksum or digest is
  refused.\<close>

theorem envelope_exact:
  assumes "length raw < 2 ^ 64"
  shows "decode_envelope raw l = Inr p \<longleftrightarrow>
    raw = encode_envelope p \<and> length p \<le> unat (max_persistence_record_bytes l)"
  using assms by (rule decode_envelope_iff)

theorem envelope_exact_witness:
  "decode_envelope (encode_envelope [1, 2, 3]) default_limits = Inr [1, 2, 3] \<and>
   decode_envelope (encode_envelope [1, 2, 3] @ [0]) default_limits \<noteq> Inr [1, 2, 3]"
  using envelope_exact [of "encode_envelope [1, 2, 3]" default_limits "[1, 2, 3]"]
    envelope_exact [of "encode_envelope [1, 2, 3] @ [0]" default_limits "[1, 2, 3]"]
  by (simp add: length_envelope default_limits_def)

subsection \<open>Saving and loading\<close>


text \<open>A small durable state and an empty store.\<close>

definition sample_state :: persistent_state where
  "sample_state = \<lparr> ps_epoch = 7, ps_evidence = sample_requirements,
     ps_watermarks = \<lparr> wm_families = [(EF_Topology, 7)], wm_keys = [(InvalidationKey IK_Node 4, 1)] \<rparr>,
     ps_sets = [], ps_evaluations = [], ps_populations = [], ps_live_boots = [3],
     ps_fenced_boots = [\<lparr> fb_boot = 2, fb_fenced_at = 7, fb_fenced_tick = 0 \<rparr>],
     ps_attempts = [], ps_last_evaluation_generation = 4, ps_initialized = True \<rparr>"

definition sample_store :: durable_store where
  "sample_store = \<lparr> ds_limits = default_limits, ds_writes = 0, ds_failures = 0, ds_file = None \<rparr>"

lemma sample_state_valid: "validate_persistent_state sample_state default_limits = Ok"
  by code_simp

lemma sample_state_length: "length (encode_persistent_state sample_state) = 288"
  by code_simp

lemma sample_state_wire: "state_wire default_limits sample_state"
  by (simp add: state_wire_def sample_state_def sample_requirements_def requirements_wire_def gen_ok_def
      is_representable_def kMaxGeneration_def om_sorted_def fenced_wire_def default_limits_def)


end
