(* ===== verification/Coordinator.thy ===== *)
theory Coordinator
  imports Persistence Evaluator
begin

text \<open>
  The coordinator (\<open>coordinator.hpp\<close>, \<open>coordinator.cpp\<close>): the runtime that owns the authority
  registry, the evidence generations, the watermarks, the constraint sets, the evaluation records
  and their derived indexes. Every public operation is a function from the coordinator to its result
  and the coordinator it leaves behind, on every early return. The clock readings and the outcome
  of the durable write are arguments. \<open>evaluate\<close> releases the mutex while it evaluates, so it is
  three functions: the locked snapshot, the unlocked evaluation of the batch and the locked commit;
  other operations may run in between. The phase hook is a test seam and is not modelled.
\<close>

subsection \<open>Data\<close>

record publisher_grant =
  gr_publisher :: publisher_id
  gr_scopes :: authority_scope_mask

record coordinator_config =
  cf_limits :: limits
  cf_store_path :: "byte list"
  cf_grants :: "publisher_grant list"
  cf_allow_initialize :: bool
  cf_evidence :: evidence_requirements
  cf_max_candidate_populations :: u32

datatype currentness_cause =
    CC_None | CC_ConstraintSetStateChanged | CC_ConstraintSetSuperseded
  | CC_ConstraintSetGenerationAdvanced | CC_PathAuthorityAdvanced | CC_TopologyAdvanced
  | CC_LinkStateAdvanced | CC_CapabilityAdvanced | CC_FailureDomainAdvanced | CC_PolicyAdvanced
  | CC_PlannerAdvanced | CC_EvidenceRequirementChanged | CC_DependencyInvalidated
  | CC_EpochAdvanced | CC_RecoveredUnproven | CC_NoCurrentResult

primrec currentness_cause_value :: "currentness_cause \<Rightarrow> u8" where
  "currentness_cause_value CC_None = 0"
| "currentness_cause_value CC_ConstraintSetStateChanged = 1"
| "currentness_cause_value CC_ConstraintSetSuperseded = 2"
| "currentness_cause_value CC_ConstraintSetGenerationAdvanced = 3"
| "currentness_cause_value CC_PathAuthorityAdvanced = 4"
| "currentness_cause_value CC_TopologyAdvanced = 5"
| "currentness_cause_value CC_LinkStateAdvanced = 6"
| "currentness_cause_value CC_CapabilityAdvanced = 7"
| "currentness_cause_value CC_FailureDomainAdvanced = 8"
| "currentness_cause_value CC_PolicyAdvanced = 9"
| "currentness_cause_value CC_PlannerAdvanced = 10"
| "currentness_cause_value CC_EvidenceRequirementChanged = 11"
| "currentness_cause_value CC_DependencyInvalidated = 12"
| "currentness_cause_value CC_EpochAdvanced = 13"
| "currentness_cause_value CC_RecoveredUnproven = 14"
| "currentness_cause_value CC_NoCurrentResult = 15"

record currentness_report =
  cu_set_id :: constraint_set_id
  cu_set_generation :: generation
  cu_state :: constraint_set_state
  cu_evaluation_generation :: generation
  cu_required_evidence :: evidence_requirements
  cu_published_evidence :: evidence_requirements
  cu_current_results :: nat
  cu_revalidation_required :: nat
  cu_recovered_unproven :: nat
  cu_publisher_authority_live :: bool
  cu_causes :: "currentness_cause list"

record commit_outcome =
  oc_batch :: evaluation_batch
  oc_committed :: bool
  oc_rejection_reason :: reason_code
  oc_mask_at_snapshot :: evidence_family_mask
  oc_mask_at_commit :: evidence_family_mask

record coordinator =
  co_config :: coordinator_config
  co_store :: "durable_store option"
  co_authority :: authority_registry
  co_evidence :: evidence_requirements
  co_watermarks :: watermarks
  co_sets :: "constraint_set list"
  co_evaluations :: "evaluation_record list"
  co_populations :: "candidate_population list"
  co_current :: "((u64 \<times> u64) \<times> evaluation_id) list"
  co_index :: invalidation_index
  co_last_generation :: generation
  co_invalidation_sequence :: u64
  co_durable :: bool

abbreviation co_limits :: "coordinator \<Rightarrow> limits" where
  "co_limits c \<equiv> cf_limits (co_config c)"

subsection \<open>Helpers\<close>

text \<open>\<open>families_of\<close> of \<open>coordinator.cpp\<close> has the body of the one in \<open>evaluator.cpp\<close>.\<close>

definition consulted_mask :: "constraint_set \<Rightarrow> evidence_family_mask" where
  "consulted_mask s =
     (let m = foldl (\<lambda>m c. m OR families_of c) 0 (cs_constraints s) OR family_bit EF_PathAuthority
      in if rp_consume_planner_cost (cs_ranking s) then m OR family_bit EF_Planner else m)"

definition generation_for :: "evidence_requirements \<Rightarrow> evidence_family \<Rightarrow> u64" where
  "generation_for e family = (case family of
      EF_Topology \<Rightarrow> er_topology e
    | EF_LinkState \<Rightarrow> er_link_state e
    | EF_Capability \<Rightarrow> er_capability e
    | EF_FailureDomain \<Rightarrow> er_failure_domain e
    | EF_Policy \<Rightarrow> er_policy e
    | EF_Planner \<Rightarrow> er_planner e
    | EF_PathAuthority \<Rightarrow> er_path_authority e
    | _ \<Rightarrow> 0)"

definition evidence_equal :: "evidence_requirements \<Rightarrow> evidence_requirements \<Rightarrow> bool" where
  "evidence_equal a b \<longleftrightarrow>
     er_topology a = er_topology b \<and> er_link_state a = er_link_state b \<and> er_capability a = er_capability b \<and>
     er_failure_domain a = er_failure_domain b \<and> er_policy a = er_policy b \<and> er_planner a = er_planner b \<and>
     er_path_authority a = er_path_authority b \<and> er_max_evidence_age_ticks a = er_max_evidence_age_ticks b"

definition request_digest :: "candidate_path list \<Rightarrow> constraint_set_id \<Rightarrow> generation \<Rightarrow> u64" where
  "request_digest candidates set_id generation =
     leading_u64 (digest_of ''crf.evaluation-request.v1''
       ([hash_u64 set_id, hash_u64 generation, hash_u32 (word_of_nat (length candidates))] @
        concat (map (\<lambda>cand. [hash_u64 (cp_path cand), hash_digest (candidate_digest cand)]) candidates)))"

definition staleness_reason :: "evidence_family \<Rightarrow> reason_code" where
  "staleness_reason family = (case family of
      EF_Topology \<Rightarrow> RC_StaleTopologyEvidence
    | EF_LinkState \<Rightarrow> RC_StaleLinkStateEvidence
    | EF_Capability \<Rightarrow> RC_StaleCapabilityEvidence
    | EF_FailureDomain \<Rightarrow> RC_StaleFailureDomainEvidence
    | EF_Policy \<Rightarrow> RC_StalePolicyEvidence
    | EF_Planner \<Rightarrow> RC_StalePlannerEvidence
    | EF_PathAuthority \<Rightarrow> RC_StalePathAuthority
    | _ \<Rightarrow> RC_EvidenceNotBound)"

subsection \<open>Projection and restoration of the durable state\<close>

fun live_boot_loop :: "worker_boot_id list \<Rightarrow> publisher_registration list \<Rightarrow> worker_boot_id list" where
  "live_boot_loop seen [] = []"
| "live_boot_loop seen (r # rest) =
     (if pr_live r \<and> pr_boot r \<notin> set seen then pr_boot r # live_boot_loop (pr_boot r # seen) rest
      else live_boot_loop seen rest)"

definition refresh_authority_projection :: "authority_registry \<Rightarrow> persistent_state \<Rightarrow> persistent_state" where
  "refresh_authority_projection a s =
     s\<lparr>ps_fenced_boots := map snd (au_fenced a), ps_live_boots := live_boot_loop [] (au_registrations a)\<rparr>"

definition to_state :: "coordinator \<Rightarrow> persistent_state" where
  "to_state c = refresh_authority_projection (co_authority c)
     \<lparr> ps_epoch = au_epoch (co_authority c), ps_evidence = co_evidence c, ps_watermarks = co_watermarks c,
       ps_sets = co_sets c, ps_evaluations = co_evaluations c, ps_populations = co_populations c,
       ps_live_boots = [], ps_fenced_boots = [], ps_attempts = au_attempts (co_authority c),
       ps_last_evaluation_generation = co_last_generation c, ps_initialized = True \<rparr>"

definition find_set :: "constraint_set list \<Rightarrow> constraint_set_id \<Rightarrow> constraint_set option" where
  "find_set sets i = List.find (\<lambda>s. cs_id s = i) sets"

definition find_candidate ::
  "candidate_population list \<Rightarrow> constraint_set_id \<Rightarrow> path_id \<Rightarrow> candidate_path option" where
  "find_candidate populations set_id path =
     List.find (\<lambda>cand. cp_path cand = path)
       (concat (map po_candidates (filter (\<lambda>p. po_set_id p = set_id) populations)))"

definition bind_all :: "evaluation_id \<Rightarrow> invalidation_key list \<Rightarrow> invalidation_index \<Rightarrow> invalidation_index" where
  "bind_all e keys ix = foldl (\<lambda>ix key. snd (index_bind key e ix)) ix keys"

definition rebuild_step ::
  "constraint_set list \<Rightarrow> candidate_population list \<Rightarrow>
   ((u64 \<times> u64) \<times> evaluation_id) list \<times> invalidation_index \<Rightarrow> evaluation_record \<Rightarrow>
   ((u64 \<times> u64) \<times> evaluation_id) list \<times> invalidation_index" where
  "rebuild_step sets populations st r =
     (case st of (current, ix) \<Rightarrow>
        if ev_state r \<noteq> RS_Current then (current, ix)
        else let current' = om_set (ev_set_id r, ev_path r) (ev_id r) current in
          case find_set sets (ev_set_id r) of
            None \<Rightarrow> (current', ix)
          | Some s \<Rightarrow> (case find_candidate populations (ev_set_id r) (ev_path r) of
                None \<Rightarrow> (current', ix)
              | Some cand \<Rightarrow> (current', bind_all (ev_id r) (dependency_keys r s cand) ix)))"

definition rebuild_derived :: "coordinator \<Rightarrow> coordinator" where
  "rebuild_derived c =
     (case foldl (rebuild_step (co_sets c) (co_populations c)) ([], empty_index) (co_evaluations c) of
        (current, ix) \<Rightarrow> c\<lparr>co_current := current, co_index := ix\<rparr>)"

definition apply_state :: "persistent_state \<Rightarrow> coordinator \<Rightarrow> coordinator" where
  "apply_state s c = rebuild_derived
     (c\<lparr>co_evidence := ps_evidence s, co_watermarks := ps_watermarks s, co_sets := ps_sets s,
       co_evaluations := ps_evaluations s, co_populations := ps_populations s,
       co_last_generation := ps_last_evaluation_generation s\<rparr>)"

definition persist :: "status \<Rightarrow> persistent_state \<Rightarrow> coordinator \<Rightarrow> status \<times> coordinator" where
  "persist io s c =
     (if \<not> co_durable c then (Ok, c)
      else case co_store c of
        None \<Rightarrow> (Ok, c)
      | Some ds \<Rightarrow> (case store_save io s ds of (st, ds') \<Rightarrow> (st, c\<lparr>co_store := Some ds'\<rparr>)))"

text \<open>\<open>persist(next)\<close>, then \<open>apply_state(next)\<close> when the write succeeded.\<close>

definition persist_and_apply :: "status \<Rightarrow> persistent_state \<Rightarrow> coordinator \<Rightarrow> status \<times> coordinator" where
  "persist_and_apply io s c =
     (case persist io s c of (st, c') \<Rightarrow> if st \<noteq> Ok then (st, c') else (Ok, apply_state s c'))"

subsection \<open>Dependents\<close>

definition kinds_of_family :: "evidence_family \<Rightarrow> invalidation_key_kind list" where
  "kinds_of_family family = (case family of
      EF_Topology \<Rightarrow> [IK_Topology, IK_Node, IK_Link, IK_LocalityDomain]
    | EF_LinkState \<Rightarrow> [IK_LinkState]
    | EF_Capability \<Rightarrow> [IK_Capability]
    | EF_FailureDomain \<Rightarrow> [IK_FailureDomain, IK_IsolationClass]
    | EF_Policy \<Rightarrow> [IK_Policy]
    | EF_Planner \<Rightarrow> [IK_Planner]
    | EF_PathAuthority \<Rightarrow> [IK_PathAuthority]
    | _ \<Rightarrow> [])"

definition dependents_of :: "invalidation_index \<Rightarrow> invalidation_key list \<Rightarrow> evaluation_id list" where
  "dependents_of ix keys = sort_unique (concat (map (index_dependents ix) keys))"

definition dependents_of_family :: "invalidation_index \<Rightarrow> evidence_family \<Rightarrow> evaluation_id list" where
  "dependents_of_family ix family =
     sort_unique (concat (map (index_dependents ix) (keys_of_kinds ix (kinds_of_family family))))"

text \<open>The loop that turns the current records among the targets into revalidation-required ones.\<close>

definition mark_dependents :: "(evaluation_record \<Rightarrow> bool) \<Rightarrow> evaluation_record list \<Rightarrow> evaluation_record list" where
  "mark_dependents target rs =
     map (\<lambda>r. if target r \<and> ev_state r = RS_Current then r\<lparr>ev_state := RS_RevalidationRequired\<rparr> else r) rs"

subsection \<open>Opening\<close>

text \<open>The boots of the previous incarnation that held live authority, fenced unless they already are.\<close>

fun fence_restored :: "coordinator_epoch \<Rightarrow> u64 \<Rightarrow> fenced_boot_record list \<Rightarrow> worker_boot_id list \<Rightarrow> fenced_boot_record list" where
  "fence_restored epoch now fenced [] = fenced"
| "fence_restored epoch now fenced (boot # rest) =
     fence_restored epoch now
       (if list_ex (\<lambda>record. fb_boot record = boot) fenced then fenced
        else fenced @ [\<lparr> fb_boot = boot, fb_fenced_at = epoch, fb_fenced_tick = now \<rparr>]) rest"

definition recover_record :: "evaluation_record \<Rightarrow> evaluation_record" where
  "recover_record r = r\<lparr>ev_state := RS_RecoveredUnproven\<rparr>"

definition blank_coordinator :: "coordinator_config \<Rightarrow> coordinator" where
  "blank_coordinator config = \<lparr> co_config = config, co_store = None, co_authority = empty_authority,
     co_evidence = cf_evidence config, co_watermarks = empty_watermarks, co_sets = [], co_evaluations = [],
     co_populations = [], co_current = [], co_index = empty_index, co_last_generation = 0,
     co_invalidation_sequence = 0, co_durable = (cf_store_path config \<noteq> []) \<rparr>"

text \<open>The authority registry of a new incarnation: \<open>Inl\<close> is the failure of \<open>open\<close>.\<close>

definition open_authority :: "u64 \<Rightarrow> persistent_state option \<Rightarrow> authority_registry result" where
  "open_authority now restored =
     (case (case restored of
         Some s \<Rightarrow>
           if is_valid (ps_epoch s) then
             (case next_gen (ps_epoch s) of
                None \<Rightarrow> Inl ImpossibleGeneration
              | Some next_epoch \<Rightarrow> Inr (next_epoch, restore_durable_state (ps_epoch s)
                    (fence_restored (ps_epoch s) now (ps_fenced_boots s) (ps_live_boots s))))
           else Inr (1, empty_authority)
       | None \<Rightarrow> Inr (1, empty_authority)) of
       Inl e \<Rightarrow> Inl e
     | Inr (next_epoch, a) \<Rightarrow> (case establish_epoch next_epoch a of (st, a') \<Rightarrow> if st \<noteq> Ok then Inl st else Inr a'))"

definition restore_definitions :: "persistent_state option \<Rightarrow> coordinator \<Rightarrow> coordinator" where
  "restore_definitions restored c = (case restored of
      Some s \<Rightarrow> c\<lparr>co_evidence := ps_evidence s, co_watermarks := ps_watermarks s, co_sets := ps_sets s,
        co_populations := ps_populations s, co_last_generation := ps_last_evaluation_generation s,
        co_evaluations := map recover_record (ps_evaluations s)\<rparr>
    | None \<Rightarrow> c\<lparr>co_last_generation := 0\<rparr>)"

text \<open>\<open>load_state\<close>: what \<open>open\<close> finds in the store, \<open>Inl\<close> when it must fail.\<close>

definition load_state :: "coordinator_config \<Rightarrow> read_outcome \<Rightarrow> durable_store \<Rightarrow> persistent_state option result" where
  "load_state config answer ds =
     (if \<not> store_exists ds then Inr None
      else case store_load answer ds of
        Inr s \<Rightarrow> Inr (Some s)
      | Inl e \<Rightarrow> if \<not> cf_allow_initialize config then Inl e else Inr None)"

definition finish_open :: "u64 \<Rightarrow> status \<Rightarrow> persistent_state option \<Rightarrow> coordinator \<Rightarrow> coordinator result" where
  "finish_open now io restored c =
     (case open_authority now restored of
        Inl e \<Rightarrow> Inl e
      | Inr a \<Rightarrow>
          (let c1 = rebuild_derived (restore_definitions restored (c\<lparr>co_authority := a\<rparr>)) in
           case persist io (to_state c1) c1 of (st, c2) \<Rightarrow> if st \<noteq> Ok then Inl st else Inr c2))"

text \<open>\<open>Coordinator::open\<close> on the file it finds. \<open>locked\<close>, \<open>answer\<close> and \<open>renamed\<close> are the outcomes
  of the operating-system calls of \<open>DurableStore::open\<close>, \<open>answer2\<close> of the second read.\<close>

definition coordinator_open ::
  "coordinator_config \<Rightarrow> bool \<Rightarrow> u64 \<Rightarrow> bool \<Rightarrow> read_outcome \<Rightarrow> bool \<Rightarrow> read_outcome \<Rightarrow> status \<Rightarrow>
   byte list option \<Rightarrow> coordinator result" where
  "coordinator_open config have_clock now locked answer renamed answer2 io file =
     (let c0 = blank_coordinator config in
      if \<not> validate_limits (cf_limits config) then Inl InvalidArgument
      else if \<not> have_clock then Inl InvalidArgument
      else if \<not> co_durable c0 then finish_open now io None c0
      else case store_open (cf_store_path config = []) locked answer renamed (cf_limits config)
                 (cf_allow_initialize config) file of
        Inl e \<Rightarrow> Inl e
      | Inr ds \<Rightarrow>
          (case load_state config answer2 ds of
             Inl e \<Rightarrow> Inl e
           | Inr restored \<Rightarrow> finish_open now io restored (c0\<lparr>co_store := Some ds\<rparr>)))"

definition open_in_memory :: "coordinator_config \<Rightarrow> bool \<Rightarrow> u64 \<Rightarrow> coordinator result" where
  "open_in_memory config have_clock now =
     coordinator_open (config\<lparr>cf_store_path := [], cf_allow_initialize := True\<rparr>) have_clock now True Readable True Readable Ok None"

definition coordinator_flush :: "status \<Rightarrow> coordinator \<Rightarrow> status \<times> coordinator" where
  "coordinator_flush io c = persist io (to_state c) c"

subsection \<open>Authority\<close>

definition find_grant :: "publisher_grant list \<Rightarrow> publisher_id \<Rightarrow> authority_scope_mask option" where
  "find_grant gs publisher = map_option gr_scopes (List.find (\<lambda>g. gr_publisher g = publisher) gs)"

definition coordinator_register_publisher ::
  "u64 \<Rightarrow> status \<Rightarrow> authority_context \<Rightarrow> publisher_id \<Rightarrow> worker_boot_id \<Rightarrow> authority_scope_mask \<Rightarrow> session_id \<Rightarrow>
   coordinator \<Rightarrow> publisher_registration result \<times> coordinator" where
  "coordinator_register_publisher now io context publisher boot scopes session c =
     (if \<not> is_valid (ac_epoch context) \<or> ac_epoch context \<noteq> au_epoch (co_authority c) then (Inl EpochMismatch, c)
      else case find_grant (cf_grants (co_config c)) publisher of
        None \<Rightarrow> (Inl Unauthorized, c)
      | Some granted \<Rightarrow>
          if granted AND scopes = 0 then (Inl Unauthorized, c)
          else
            let next = to_state c;
                registration = \<lparr> pr_publisher = publisher, pr_boot = boot, pr_session = session,
                  pr_scopes = granted AND scopes, pr_registered_tick = now,
                  pr_registered_at = au_epoch (co_authority c), pr_live = True \<rparr> in
            case register_publisher registration (co_limits c) (co_authority c) of
              (st, a) \<Rightarrow>
                let c1 = c\<lparr>co_authority := a\<rparr> in
                if st \<noteq> Ok then (Inl st, c1)
                else case persist io (refresh_authority_projection a (next\<lparr>ps_epoch := au_epoch a\<rparr>)) c1 of
                  (st', c2) \<Rightarrow> if st' \<noteq> Ok then (Inl st', c2) else (Inr registration, c2))"

definition fence_on_session_loss :: "u64 \<Rightarrow> status \<Rightarrow> session_id \<Rightarrow> coordinator \<Rightarrow> status \<times> coordinator" where
  "fence_on_session_loss now io session c =
     (case boot_of_session (co_authority c) session of
        None \<Rightarrow> (Ok, c)
      | Some boot \<Rightarrow>
          (case fence_boot boot (au_epoch (co_authority c)) now (co_limits c) (co_authority c) of
             (st, a) \<Rightarrow>
               if st \<noteq> Ok then (st, c\<lparr>co_authority := a\<rparr>)
               else let a' = snd (drop_session session a);
                        c1 = c\<lparr>co_authority := a'\<rparr>
                    in persist io (refresh_authority_projection a' (to_state c1)) c1))"

definition coordinator_drop_session :: "authority_context \<Rightarrow> session_id \<Rightarrow> coordinator \<Rightarrow> status \<times> coordinator" where
  "coordinator_drop_session context session c =
     (let authorized = authorize (co_authority c) context (scope_bit AdministerFencing) in
      if authorized \<noteq> Ok then (authorized, c)
      else case drop_session session (co_authority c) of (st, a) \<Rightarrow> (st, c\<lparr>co_authority := a\<rparr>))"

definition coordinator_observe_attempt ::
  "u64 \<Rightarrow> authority_context \<Rightarrow> digest256 \<Rightarrow> coordinator \<Rightarrow> replay_verdict result \<times> coordinator" where
  "coordinator_observe_attempt now context payload c =
     (case observe_attempt (ac_attempt context) payload now (co_limits c) (co_authority c) of
        (v, a) \<Rightarrow> (v, c\<lparr>co_authority := a\<rparr>))"

subsection \<open>Mutations\<close>

text \<open>The prologue of every mutation: authorize, then de-duplicate the attempt, then continue with
  the verdict \<open>Fresh\<close> or \<open>ExactReplay\<close>.\<close>

definition guarded ::
  "u64 \<Rightarrow> authority_context \<Rightarrow> authority_scope \<Rightarrow> digest256 \<Rightarrow> (status \<Rightarrow> 'r) \<Rightarrow>
   (bool \<Rightarrow> coordinator \<Rightarrow> 'r \<times> coordinator) \<Rightarrow> coordinator \<Rightarrow> 'r \<times> coordinator" where
  "guarded now context scope payload failure continue c =
     (let authorized = authorize (co_authority c) context (scope_bit scope) in
      if authorized \<noteq> Ok then (failure authorized, c)
      else case observe_attempt (ac_attempt context) payload now (co_limits c) (co_authority c) of
        (replay, a) \<Rightarrow>
          let c1 = c\<lparr>co_authority := a\<rparr> in
          case replay of
            Inl e \<Rightarrow> (failure e, c1)
          | Inr Conflict \<Rightarrow> (failure MutationAttemptConflict, c1)
          | Inr ExactReplay \<Rightarrow> continue True c1
          | Inr Fresh \<Rightarrow> continue False c1)"

definition coordinator_fence_boot ::
  "u64 \<Rightarrow> u64 \<Rightarrow> status \<Rightarrow> authority_context \<Rightarrow> worker_boot_id \<Rightarrow> coordinator \<Rightarrow> status \<times> coordinator" where
  "coordinator_fence_boot now1 now2 io context boot =
     guarded now1 context AdministerFencing zero_digest (\<lambda>st. st)
       (\<lambda>replayed c.
          if replayed then (Ok, c)
          else case fence_boot boot (au_epoch (co_authority c)) now2 (co_limits c) (co_authority c) of
            (st, a) \<Rightarrow>
              let c1 = c\<lparr>co_authority := a\<rparr> in
              if st \<noteq> Ok then (st, c1) else persist io (refresh_authority_projection a (to_state c1)) c1)"

definition requirements_digest :: "evidence_requirements \<Rightarrow> digest256" where
  "requirements_digest e = digest_of ''crf.evidence-requirements.v1''
     [hash_u64 (er_topology e), hash_u64 (er_link_state e), hash_u64 (er_capability e),
      hash_u64 (er_failure_domain e), hash_u64 (er_policy e), hash_u64 (er_planner e),
      hash_u64 (er_path_authority e), hash_u64 (er_max_evidence_age_ticks e)]"

text \<open>The loop over the advanced families; the flag is \<open>false\<close> when a watermark did not move.\<close>

fun advance_watermarks :: "evidence_requirements \<Rightarrow> evidence_family list \<Rightarrow> watermarks \<Rightarrow> bool \<times> watermarks" where
  "advance_watermarks e [] w = (True, w)"
| "advance_watermarks e (family # rest) w =
     (case wm_advance_family family (generation_for e family) w of
        None \<Rightarrow> (False, w)
      | Some w' \<Rightarrow> advance_watermarks e rest w')"

definition change_evidence :: "status \<Rightarrow> evidence_requirements \<Rightarrow> coordinator \<Rightarrow> status \<times> coordinator" where
  "change_evidence io e c =
     (if list_ex (\<lambda>family. generation_for e family < generation_for (co_evidence c) family) kFamilies
        then (StaleGeneration, c)
      else
        let advanced = filter (\<lambda>family. generation_for e family > generation_for (co_evidence c) family) kFamilies;
            dependents = sort_unique (concat (map (dependents_of_family (co_index c)) advanced)) in
        case advance_watermarks e advanced (co_watermarks c) of
          (advanced_all, w) \<Rightarrow>
            let c1 = c\<lparr>co_watermarks := w\<rparr> in
            if \<not> advanced_all then (StaleGeneration, c1)
            else persist_and_apply io
              ((to_state c)\<lparr>ps_evidence := e, ps_watermarks := w,
                 ps_evaluations := mark_dependents (\<lambda>r. ev_id r \<in> set dependents) (co_evaluations c)\<rparr>) c1)"

definition set_evidence_requirements ::
  "u64 \<Rightarrow> status \<Rightarrow> authority_context \<Rightarrow> evidence_requirements \<Rightarrow> coordinator \<Rightarrow> status \<times> coordinator" where
  "set_evidence_requirements now io context e =
     guarded now context PublishEvaluation (requirements_digest e) (\<lambda>st. st)
       (\<lambda>replayed c. if replayed then (Ok, c) else change_evidence io e c)"

definition with_family :: "evidence_family \<Rightarrow> generation \<Rightarrow> evidence_requirements \<Rightarrow> evidence_requirements" where
  "with_family family g e = (case family of
      EF_Topology \<Rightarrow> e\<lparr>er_topology := g\<rparr>
    | EF_LinkState \<Rightarrow> e\<lparr>er_link_state := g\<rparr>
    | EF_Capability \<Rightarrow> e\<lparr>er_capability := g\<rparr>
    | EF_FailureDomain \<Rightarrow> e\<lparr>er_failure_domain := g\<rparr>
    | EF_Policy \<Rightarrow> e\<lparr>er_policy := g\<rparr>
    | EF_Planner \<Rightarrow> e\<lparr>er_planner := g\<rparr>
    | EF_PathAuthority \<Rightarrow> e\<lparr>er_path_authority := g\<rparr>
    | _ \<Rightarrow> e)"

definition coordinator_advance_family ::
  "u64 \<Rightarrow> status \<Rightarrow> authority_context \<Rightarrow> evidence_family \<Rightarrow> u64 \<Rightarrow> coordinator \<Rightarrow> status \<times> coordinator" where
  "coordinator_advance_family now io context family g c =
     (if family = EF_None \<or> family = EF_ConstraintSet then (InvalidArgument, c)
      else if \<not> is_representable g then (ImpossibleGeneration, c)
      else set_evidence_requirements now io context (with_family family g (co_evidence c)) c)"

definition invalidate_digest :: "invalidation_key \<Rightarrow> digest256" where
  "invalidate_digest key = digest_of ''crf.invalidate-key.v1''
     [hash_u8 (invalidation_key_kind_value (ik_kind key)), hash_u64 (ik_value key)]"

definition invalidate_key ::
  "u64 \<Rightarrow> status \<Rightarrow> authority_context \<Rightarrow> invalidation_key \<Rightarrow> coordinator \<Rightarrow> status \<times> coordinator" where
  "invalidate_key now io context key =
     guarded now context PublishEvaluation (invalidate_digest key) (\<lambda>st. st)
       (\<lambda>replayed c.
          if replayed then (Ok, c)
          else let c1 = c\<lparr>co_invalidation_sequence := co_invalidation_sequence c + 1\<rparr> in
            case wm_advance_key key (co_invalidation_sequence c1) (co_watermarks c1) of
              None \<Rightarrow> (StaleGeneration, c1)
            | Some w \<Rightarrow>
                let c2 = c1\<lparr>co_watermarks := w\<rparr>;
                    target = dependents_of (co_index c2) [key] in
                persist_and_apply io
                  ((to_state c2)\<lparr>ps_evaluations := mark_dependents (\<lambda>r. ev_id r \<in> set target) (co_evaluations c2)\<rparr>) c2)"

subsection \<open>Constraint set definitions\<close>

definition publish_digest :: "constraint_set \<Rightarrow> digest256" where
  "publish_digest s = digest_of ''crf.publish.v1''
     ([hash_u64 (cs_id s), hash_u32 (word_of_nat (length (cs_constraints s)))] @
      concat (map feed_constraint (cs_constraints s)))"

text \<open>\<open>*existing = finalized\<close> for the first set with the identity.\<close>

fun replace_set :: "constraint_set \<Rightarrow> constraint_set list \<Rightarrow> constraint_set list" where
  "replace_set s [] = []"
| "replace_set s (x # xs) = (if cs_id x = cs_id s then s # xs else x # replace_set s xs)"

text \<open>The generation and state the coordinator assigns to a finalized set.\<close>

definition assign_generation :: "limits \<Rightarrow> constraint_set list \<Rightarrow> constraint_set \<Rightarrow> (constraint_set \<times> constraint_set list) result" where
  "assign_generation l sets finalized =
     (case find_set sets (cs_id finalized) of
        None \<Rightarrow>
          if length sets \<ge> unat (max_constraint_sets l) then Inl ResourceLimit
          else let stored = finalized\<lparr>cs_generation := 1, cs_state := Declared\<rparr> in Inr (stored, sets @ [stored])
      | Some existing \<Rightarrow>
          if cs_digest existing = cs_digest finalized then
            let stored = finalized\<lparr>cs_generation := cs_generation existing, cs_state := cs_state existing\<rparr>
            in Inr (stored, replace_set stored sets)
          else case next_gen (cs_generation existing) of
            None \<Rightarrow> Inl ImpossibleGeneration
          | Some advanced \<Rightarrow>
              let stored = finalized\<lparr>cs_generation := advanced,
                    cs_state := (if cs_state existing \<noteq> Active then RevalidationRequired else cs_state existing)\<rparr>
              in Inr (stored, replace_set stored sets))"

definition store_definition :: "status \<Rightarrow> constraint_set \<Rightarrow> coordinator \<Rightarrow> constraint_set result \<times> coordinator" where
  "store_definition io finalized c =
     (case assign_generation (co_limits c) (co_sets c) finalized of
        Inl e \<Rightarrow> (Inl e, c)
      | Inr (stored, sets) \<Rightarrow>
          (case persist_and_apply io
              ((to_state c)\<lparr>ps_sets := sets,
                 ps_evaluations := mark_dependents (\<lambda>r. ev_set_id r = cs_id stored) (co_evaluations c)\<rparr>) c of
             (st, c') \<Rightarrow>
               if st \<noteq> Ok then (Inl st, c')
               else (Inr (case find_set (co_sets c') (cs_id stored) of None \<Rightarrow> stored | Some s \<Rightarrow> s), c')))"

definition publish_constraint_set ::
  "u64 \<Rightarrow> u64 \<Rightarrow> status \<Rightarrow> authority_context \<Rightarrow> constraint_set \<Rightarrow> coordinator \<Rightarrow> constraint_set result \<times> coordinator" where
  "publish_constraint_set now1 now2 io context s =
     guarded now1 context PublishConstraintSet (publish_digest s) Inl
       (\<lambda>replayed c.
          if replayed then
            (case find_set (co_sets c) (cs_id s) of
               None \<Rightarrow> (Inl IdempotentReplay, c)
             | Some existing \<Rightarrow> (Inr existing, c))
          else case validate_and_finalize_constraint_set (s\<lparr>cs_declared_tick := now2\<rparr>) (co_limits c) of
            (valid, finalized, _) \<Rightarrow>
              if valid \<noteq> Ok then (Inl valid, c) else store_definition io finalized c)"

fun lifecycle_event_value :: "lifecycle_event \<Rightarrow> u8" where
  "lifecycle_event_value Activate = 1"
| "lifecycle_event_value Suspend = 2"
| "lifecycle_event_value Resume = 3"
| "lifecycle_event_value RequireRevalidation = 4"
| "lifecycle_event_value Revalidated = 5"
| "lifecycle_event_value Revoke = 6"
| "lifecycle_event_value Supersede = 7"
| "lifecycle_event_value Retire = 8"
| "lifecycle_event_value Reinstate = 9"

definition lifecycle_digest :: "constraint_set_id \<Rightarrow> lifecycle_event \<Rightarrow> digest256" where
  "lifecycle_digest set_id event = digest_of ''crf.lifecycle.v1''
     [hash_u64 set_id, hash_u8 (lifecycle_event_value event)]"

text \<open>The final dereference of \<open>find_set\<close> cannot miss: the set was just replaced, not removed.\<close>

definition apply_lifecycle ::
  "u64 \<Rightarrow> status \<Rightarrow> authority_context \<Rightarrow> constraint_set_id \<Rightarrow> lifecycle_event \<Rightarrow> coordinator \<Rightarrow>
   constraint_set result \<times> coordinator" where
  "apply_lifecycle now io context set_id event =
     guarded now context ApplyLifecycle (lifecycle_digest set_id event) Inl
       (\<lambda>replayed c.
          case find_set (co_sets c) set_id of
            None \<Rightarrow> (Inl NotFound, c)
          | Some target \<Rightarrow>
              if replayed then (Inr target, c)
              else case apply_lifecycle_event (cs_state target) event of
                Reject \<Rightarrow> (Inl InvalidArgument, c)
              | Accept next_state \<Rightarrow>
                  let stored = target\<lparr>cs_state := next_state\<rparr>;
                      evaluations = (if next_state \<noteq> Active
                        then mark_dependents (\<lambda>r. ev_set_id r = set_id) (co_evaluations c) else co_evaluations c) in
                  case persist_and_apply io
                      ((to_state c)\<lparr>ps_sets := replace_set stored (co_sets c), ps_evaluations := evaluations\<rparr>) c of
                    (st, c') \<Rightarrow>
                      if st \<noteq> Ok then (Inl st, c')
                      else (case find_set (co_sets c') set_id of Some s \<Rightarrow> (Inr s, c') | None \<Rightarrow> (Inl Internal, c')))"

definition get_constraint_set :: "coordinator \<Rightarrow> constraint_set_id \<Rightarrow> constraint_set result" where
  "get_constraint_set c set_id = (case find_set (co_sets c) set_id of None \<Rightarrow> Inl NotFound | Some s \<Rightarrow> Inr s)"

definition constraint_set_ids :: "coordinator \<Rightarrow> constraint_set_id list" where
  "constraint_set_ids c = map cs_id (co_sets c)"

subsection \<open>Evaluation\<close>

text \<open>What the first locked phase of \<open>evaluate\<close> captures.\<close>

record evaluation_ticket =
  tk_context :: authority_context
  tk_set_id :: constraint_set_id
  tk_candidates :: "candidate_path list"
  tk_expected :: generation
  tk_generation :: generation
  tk_set :: constraint_set
  tk_evidence :: evidence_requirements
  tk_mask :: evidence_family_mask

definition evaluate_digest :: "coordinator \<Rightarrow> candidate_path list \<Rightarrow> constraint_set_id \<Rightarrow> generation \<Rightarrow> digest256" where
  "evaluate_digest c candidates set_id expected = digest_of ''crf.evaluate.v1''
     [hash_u64 (request_digest candidates set_id expected), hash_u64 (er_topology (co_evidence c)),
      hash_u64 (er_capability (co_evidence c))]"

definition replay_outcome :: "coordinator \<Rightarrow> constraint_set_id \<Rightarrow> commit_outcome" where
  "replay_outcome c set_id =
     (let records = filter (\<lambda>r. ev_set_id r = set_id \<and> ev_state r = RS_Current) (co_evaluations c);
          has_admissible = (records \<noteq> [] \<and> list_ex (\<lambda>r. is_admissible (ev_outcome r)) records) in
      \<lparr> oc_batch = \<lparr> eb_set_id = set_id,
          eb_set_generation = (case find_set (co_sets c) set_id of None \<Rightarrow> 0 | Some s \<Rightarrow> cs_generation s),
          eb_generation = 0,
          eb_batch_outcome = (if has_admissible then BO_AdmissibleCandidatesAvailable else BO_NoAdmissibleCandidate),
          eb_has_admissible = has_admissible, eb_records = records, eb_admissible_order = [],
          eb_primary_batch_reason = RC_None \<rparr>,
        oc_committed = True, oc_rejection_reason = RC_None, oc_mask_at_snapshot = 0, oc_mask_at_commit = 0 \<rparr>)"

definition take_snapshot ::
  "authority_context \<Rightarrow> constraint_set_id \<Rightarrow> candidate_path list \<Rightarrow> generation \<Rightarrow> coordinator \<Rightarrow>
   evaluation_ticket result \<times> coordinator" where
  "take_snapshot context set_id candidates expected c =
     (case find_set (co_sets c) set_id of
        None \<Rightarrow> (Inl NotFound, c)
      | Some s \<Rightarrow>
          if length candidates > unat (max_batch_size (co_limits c)) then (Inl ResourceLimit, c)
          else case next_gen (co_last_generation c) of
            None \<Rightarrow> (Inl ImpossibleGeneration, c)
          | Some g \<Rightarrow>
              (Inr \<lparr> tk_context = context, tk_set_id = set_id, tk_candidates = candidates, tk_expected = expected,
                 tk_generation = g, tk_set = s, tk_evidence = co_evidence c, tk_mask = consulted_mask s \<rparr>,
               c\<lparr>co_last_generation := g\<rparr>))"

text \<open>Phase one. An exact replay answers at once (\<open>Inl\<close> of the outcome), otherwise the ticket.\<close>

definition evaluate_begin ::
  "u64 \<Rightarrow> authority_context \<Rightarrow> constraint_set_id \<Rightarrow> candidate_path list \<Rightarrow> generation \<Rightarrow> coordinator \<Rightarrow>
   (commit_outcome + evaluation_ticket) result \<times> coordinator" where
  "evaluate_begin now context set_id candidates expected c =
     guarded now context PublishEvaluation (evaluate_digest c candidates set_id expected) Inl
       (\<lambda>replayed c.
          if replayed then (Inr (Inl (replay_outcome c set_id)), c)
          else case take_snapshot context set_id candidates expected c of
            (Inl e, c') \<Rightarrow> (Inl e, c')
          | (Inr ticket, c') \<Rightarrow> (Inr (Inr ticket), c')) c"

text \<open>Phase two, without the lock.\<close>

definition ticket_context :: "limits \<Rightarrow> u64 \<Rightarrow> evaluation_ticket \<Rightarrow> evaluation_context" where
  "ticket_context l now t =
     \<lparr> ctx_set = Some (tk_set t), ctx_current = tk_evidence t, ctx_requested_set_generation = tk_expected t,
       ctx_limits = Some l, ctx_now_tick = now,
       ctx_provenance = \<lparr> pv_epoch = ac_epoch (tk_context t), pv_publisher = ac_publisher (tk_context t),
         pv_worker_boot = ac_worker_boot (tk_context t), pv_attempt = ac_attempt (tk_context t),
         pv_request = ac_request (tk_context t) \<rparr>,
       ctx_generation = tk_generation t, ctx_authority_verified = True \<rparr>"

definition evaluate_work :: "limits \<Rightarrow> u64 \<Rightarrow> evaluation_ticket \<Rightarrow> evaluation_batch result" where
  "evaluate_work l now t = evaluate_batch (ticket_context l now t) (tk_candidates t)"

text \<open>Phase three: the dependencies are compared with the snapshot.\<close>

definition first_family :: "(evidence_family \<Rightarrow> bool) \<Rightarrow> evidence_family_mask \<Rightarrow> reason_code \<Rightarrow> reason_code" where
  "first_family P m fallback =
     (case List.find (\<lambda>family. m AND family_bit family \<noteq> 0 \<and> P family) kFamilies of
        None \<Rightarrow> fallback | Some family \<Rightarrow> staleness_reason family)"

definition commit_staleness :: "evaluation_ticket \<Rightarrow> coordinator \<Rightarrow> reason_code" where
  "commit_staleness t c =
     (case find_set (co_sets c) (tk_set_id t) of
        None \<Rightarrow> RC_ConstraintSetNotFound
      | Some live \<Rightarrow>
          if cs_generation live \<noteq> cs_generation (tk_set t) \<or> cs_digest live \<noteq> cs_digest (tk_set t) \<or>
             cs_state live \<noteq> cs_state (tk_set t) then RC_StaleConstraintSetGeneration
          else if \<not> evidence_equal (co_evidence c) (tk_evidence t) then
            first_family (\<lambda>f. generation_for (co_evidence c) f \<noteq> generation_for (tk_evidence t) f) (tk_mask t) RC_EvidenceNotBound
          else first_family (\<lambda>f. wm_family (co_watermarks c) f > generation_for (tk_evidence t) f) (tk_mask t) RC_None)"

text \<open>Bounded history: the position of the first non-current record with the least generation.\<close>

fun victim_loop :: "nat \<Rightarrow> (nat \<times> generation) option \<Rightarrow> evaluation_record list \<Rightarrow> nat option" where
  "victim_loop i best [] = map_option fst best"
| "victim_loop i best (r # rs) =
     (if ev_state r = RS_Current then victim_loop (Suc i) best rs
      else case best of
        None \<Rightarrow> victim_loop (Suc i) (Some (i, ev_generation r)) rs
      | Some (v, oldest) \<Rightarrow>
          if ev_generation r < oldest then victim_loop (Suc i) (Some (i, ev_generation r)) rs
          else victim_loop (Suc i) best rs)"

definition erase_at :: "nat \<Rightarrow> 'a list \<Rightarrow> 'a list" where
  "erase_at i xs = take i xs @ drop (Suc i) xs"

text \<open>The eviction loop removes one record per iteration, so the number of records bounds it.\<close>

fun evict_loop :: "nat \<Rightarrow> nat \<Rightarrow> evaluation_record list \<Rightarrow> evaluation_record list" where
  "evict_loop 0 limit rs = rs"
| "evict_loop (Suc n) limit rs =
     (if length rs > limit then
        (case victim_loop 0 None rs of None \<Rightarrow> rs | Some i \<Rightarrow> evict_loop n limit (erase_at i rs))
      else rs)"

definition evict_history :: "nat \<Rightarrow> evaluation_record list \<Rightarrow> evaluation_record list" where
  "evict_history limit rs = evict_loop (length rs) limit rs"

definition retire_records :: "constraint_set_id \<Rightarrow> evaluation_id list \<Rightarrow> evaluation_record list \<Rightarrow> evaluation_record list" where
  "retire_records set_id committed rs =
     map (\<lambda>r. if ev_set_id r = set_id \<and> ev_state r \<noteq> RS_StaleAtCommit then r\<lparr>ev_state := RS_Superseded\<rparr> else r)
       (filter (\<lambda>r. ev_id r \<notin> set committed) rs)"

definition replace_population ::
  "u32 \<Rightarrow> constraint_set_id \<Rightarrow> candidate_path list \<Rightarrow> candidate_population list \<Rightarrow> candidate_population list" where
  "replace_population max_populations set_id stored ps =
     (if list_ex (\<lambda>p. po_set_id p = set_id) ps then
        (let before = takeWhile (\<lambda>p. po_set_id p \<noteq> set_id) ps;
             rest = dropWhile (\<lambda>p. po_set_id p \<noteq> set_id) ps
         in before @ (hd rest)\<lparr>po_candidates := stored\<rparr> # tl rest)
      else (if length ps \<ge> unat max_populations then tl ps else ps) @
             [\<lparr> po_set_id = set_id, po_candidates = stored \<rparr>])"

definition commit_records :: "u64 \<Rightarrow> evaluation_record list \<Rightarrow> evaluation_record list" where
  "commit_records now rs = map (\<lambda>r. r\<lparr>ev_state := RS_Current, ev_committed_tick := now\<rparr>) rs"

definition commit_state :: "u64 \<Rightarrow> evaluation_batch \<Rightarrow> evaluation_ticket \<Rightarrow> coordinator \<Rightarrow> persistent_state" where
  "commit_state now batch t c =
     (to_state c)\<lparr>
       ps_evaluations := evict_history (unat (max_evaluations_retained (co_limits c)))
         (retire_records (tk_set_id t) (map ev_id (eb_records batch)) (co_evaluations c) @
          commit_records now (eb_records batch)),
       ps_populations := replace_population (cf_max_candidate_populations (co_config c)) (tk_set_id t)
         (stable_sort candidate_canonical_less (tk_candidates t)) (co_populations c),
       ps_last_evaluation_generation := tk_generation t\<rparr>"

definition evaluate_commit ::
  "u64 \<Rightarrow> status \<Rightarrow> evaluation_batch \<Rightarrow> evaluation_ticket \<Rightarrow> coordinator \<Rightarrow> commit_outcome result \<times> coordinator" where
  "evaluate_commit now io batch t c =
     (let stale = commit_staleness t c;
          mask = (case find_set (co_sets c) (tk_set_id t) of None \<Rightarrow> 0 | Some live \<Rightarrow> consulted_mask live);
          outcome = \<lparr> oc_batch = batch, oc_committed = False, oc_rejection_reason = RC_None,
            oc_mask_at_snapshot = tk_mask t, oc_mask_at_commit = mask \<rparr> in
      if stale \<noteq> RC_None then
        (Inr (outcome\<lparr>oc_batch := batch\<lparr>eb_records := map (\<lambda>r. r\<lparr>ev_state := RS_StaleAtCommit\<rparr>) (eb_records batch)\<rparr>,
           oc_rejection_reason := stale\<rparr>), c)
      else case persist_and_apply io (commit_state now batch t c) c of
        (st, c') \<Rightarrow>
          if st \<noteq> Ok then (Inl st, c')
          else (Inr (outcome\<lparr>oc_batch := batch\<lparr>eb_records := commit_records now (eb_records batch)\<rparr>,
                  oc_committed := True\<rparr>), c'))"

text \<open>The second clock reading of \<open>evaluate\<close> is taken once and used by both later phases.\<close>

definition evaluate_finish :: "u64 \<Rightarrow> status \<Rightarrow> evaluation_ticket \<Rightarrow> coordinator \<Rightarrow> commit_outcome result \<times> coordinator" where
  "evaluate_finish now io t c =
     (case evaluate_work (co_limits c) now t of
        Inl e \<Rightarrow> (Inl e, c)
      | Inr batch \<Rightarrow> evaluate_commit now io batch t c)"

definition coordinator_evaluate ::
  "u64 \<Rightarrow> u64 \<Rightarrow> status \<Rightarrow> authority_context \<Rightarrow> constraint_set_id \<Rightarrow> candidate_path list \<Rightarrow> generation \<Rightarrow>
   coordinator \<Rightarrow> commit_outcome result \<times> coordinator" where
  "coordinator_evaluate now1 now2 io context set_id candidates expected c =
     (case evaluate_begin now1 context set_id candidates expected c of
        (Inl e, c') \<Rightarrow> (Inl e, c')
      | (Inr (Inl outcome), c') \<Rightarrow> (Inr outcome, c')
      | (Inr (Inr t), c') \<Rightarrow> evaluate_finish now2 io t c')"

definition retained_candidates :: "coordinator \<Rightarrow> constraint_set_id \<Rightarrow> candidate_path list result" where
  "retained_candidates c set_id =
     (case List.find (\<lambda>p. po_set_id p = set_id) (co_populations c) of
        None \<Rightarrow> Inl NotFound | Some p \<Rightarrow> Inr (po_candidates p))"

definition revalidate ::
  "u64 \<Rightarrow> u64 \<Rightarrow> status \<Rightarrow> authority_context \<Rightarrow> constraint_set_id \<Rightarrow> coordinator \<Rightarrow> commit_outcome result \<times> coordinator" where
  "revalidate now1 now2 io context set_id c =
     (let population = (case List.find (\<lambda>p. po_set_id p = set_id) (co_populations c) of
          None \<Rightarrow> [] | Some p \<Rightarrow> po_candidates p) in
      if population = [] then (Inl NotFound, c)
      else coordinator_evaluate now1 now2 io context set_id population 0 c)"

subsection \<open>Queries\<close>

definition serialized_state_bytes :: "coordinator \<Rightarrow> nat" where
  "serialized_state_bytes c = length (encode_persistent_state (to_state c))"

definition handoffs :: "coordinator \<Rightarrow> authority_context \<Rightarrow> constraint_set_id \<Rightarrow> route_fabric_handoff list result" where
  "handoffs c context set_id =
     (let authorized = authorize (co_authority c) context (scope_bit ReadResults) in
      if authorized \<noteq> Ok then Inl authorized
      else Inr (stable_sort (\<lambda>a b. ho_path a < ho_path b)
        (map handoff_of (filter (\<lambda>r. ev_set_id r = set_id \<and> ev_state r = RS_Current) (co_evaluations c)))))"

definition current_result :: "coordinator \<Rightarrow> constraint_set_id \<Rightarrow> path_id \<Rightarrow> evaluation_record result" where
  "current_result c set_id path =
     (case om_find (co_current c) (set_id, path) of
        None \<Rightarrow> Inl NotFound
      | Some i \<Rightarrow> (case List.find (\<lambda>r. ev_id r = i) (co_evaluations c) of None \<Rightarrow> Inl NotFound | Some r \<Rightarrow> Inr r))"

definition cause_of_family :: "evidence_family \<Rightarrow> currentness_cause list" where
  "cause_of_family family = (case family of
      EF_PathAuthority \<Rightarrow> [CC_PathAuthorityAdvanced]
    | EF_Topology \<Rightarrow> [CC_TopologyAdvanced]
    | EF_LinkState \<Rightarrow> [CC_LinkStateAdvanced]
    | EF_Capability \<Rightarrow> [CC_CapabilityAdvanced]
    | EF_FailureDomain \<Rightarrow> [CC_FailureDomainAdvanced]
    | EF_Policy \<Rightarrow> [CC_PolicyAdvanced]
    | EF_Planner \<Rightarrow> [CC_PlannerAdvanced]
    | _ \<Rightarrow> [])"

definition sort_causes :: "currentness_cause list \<Rightarrow> currentness_cause list" where
  "sort_causes cs = remdups_adj (stable_sort (\<lambda>a b. currentness_cause_value a < currentness_cause_value b) cs)"

definition currentness :: "coordinator \<Rightarrow> constraint_set_id \<Rightarrow> currentness_report result" where
  "currentness c set_id =
     (case find_set (co_sets c) set_id of
        None \<Rightarrow> Inl NotFound
      | Some s \<Rightarrow>
          let mine = filter (\<lambda>r. ev_set_id r = set_id) (co_evaluations c);
              of_state = (\<lambda>st. filter (\<lambda>r. ev_state r = st) mine) in
          Inr \<lparr> cu_set_id = set_id, cu_set_generation = cs_generation s, cu_state = cs_state s,
            cu_evaluation_generation = co_last_generation c, cu_required_evidence = co_evidence c,
            cu_published_evidence = cs_evidence s,
            cu_current_results = length (of_state RS_Current),
            cu_revalidation_required = length (of_state RS_RevalidationRequired),
            cu_recovered_unproven = length (of_state RS_RecoveredUnproven),
            cu_publisher_authority_live = (live_publishers (co_authority c) \<noteq> 0),
            cu_causes = sort_causes (
              (if cs_state s \<noteq> Active then [CC_ConstraintSetStateChanged] else []) @
              (if \<not> evidence_equal (cs_evidence s) (co_evidence c) then [CC_EvidenceRequirementChanged] else []) @
              (if of_state RS_RevalidationRequired \<noteq> [] then [CC_DependencyInvalidated] else []) @
              (if of_state RS_RecoveredUnproven \<noteq> [] then [CC_RecoveredUnproven] else []) @
              (if of_state RS_Current = [] then [CC_NoCurrentResult] else []) @
              concat (map (\<lambda>f. if wm_family (co_watermarks c) f > generation_for (co_evidence c) f
                               then cause_of_family f else []) kFamilies)) \<rparr>)"

end
