(* ===== verification/Coordinator_Invariant.thy ===== *)
theory Coordinator_Invariant
  imports Coordinator Satisfaction
begin

text \<open>
  The coordinator as a transition system and its central invariant: an admissible result that is
  offered as current is bound to the live, active generation of its constraint set, to the current
  Path Authority generation and to the current generation of every evidence family it consulted.
  Evaluations run between a snapshot and a commit while other operations change the coordinator;
  the step relation interleaves them freely.
\<close>

subsection \<open>The derived indexes\<close>

text \<open>The keys that the current records of a list bind.\<close>

definition bindings ::
  "constraint_set list \<Rightarrow> candidate_population list \<Rightarrow> evaluation_record list \<Rightarrow> (invalidation_key \<times> evaluation_id) set" where
  "bindings sets populations rs = {(k, ev_id r) | k r s cand. r \<in> set rs \<and> ev_state r = RS_Current \<and>
     find_set sets (ev_set_id r) = Some s \<and> find_candidate populations (ev_set_id r) (ev_path r) = Some cand \<and>
     k \<in> set (dependency_keys r s cand) \<and> ev_id r \<noteq> 0}"

definition derived_ok :: "coordinator \<Rightarrow> bool" where
  "derived_ok c \<longleftrightarrow> (co_current c, co_index c) =
     foldl (rebuild_step (co_sets c) (co_populations c)) ([], empty_index) (co_evaluations c)"

lemma rebuild_derived_fields [simp]:
  "co_config (rebuild_derived c) = co_config c" "co_store (rebuild_derived c) = co_store c"
  "co_authority (rebuild_derived c) = co_authority c" "co_evidence (rebuild_derived c) = co_evidence c"
  "co_watermarks (rebuild_derived c) = co_watermarks c" "co_sets (rebuild_derived c) = co_sets c"
  "co_evaluations (rebuild_derived c) = co_evaluations c" "co_populations (rebuild_derived c) = co_populations c"
  "co_last_generation (rebuild_derived c) = co_last_generation c" "co_durable (rebuild_derived c) = co_durable c"
  "co_invalidation_sequence (rebuild_derived c) = co_invalidation_sequence c"
  by (simp_all add: rebuild_derived_def split: prod.splits)

lemma derived_ok_rebuild [simp]: "derived_ok (rebuild_derived c)"
  by (simp add: derived_ok_def rebuild_derived_def split: prod.splits)

lemma rebuild_step_index:
  assumes "index_wf ix"
  shows "index_wf (snd (rebuild_step sets ps (cur, ix) r)) \<and>
    depends (snd (rebuild_step sets ps (cur, ix) r)) = depends ix \<union> bindings sets ps [r]"
proof (cases "ev_state r = RS_Current")
  case cur: True
  show ?thesis
  proof (cases "find_set sets (ev_set_id r)")
    case None
    then show ?thesis using cur assms by (auto simp: rebuild_step_def Let_def bindings_def)
  next
    case (Some s)
    show ?thesis
    proof (cases "find_candidate ps (ev_set_id r) (ev_path r)")
      case None
      then show ?thesis using cur Some assms by (auto simp: rebuild_step_def Let_def bindings_def)
    next
      case cand: (Some cand)
      have "bindings sets ps [r] = (if ev_id r \<noteq> 0 then set (dependency_keys r s cand) \<times> {ev_id r} else {})"
        using cur Some cand by (auto simp: bindings_def)
      then show ?thesis
        using cur Some cand assms ix.inv_bind_all [of ix "ev_id r"] ix.deps_bind_all [of "ev_id r" ix]
        by (auto simp: rebuild_step_def Let_def bind_all_def)
    qed
  qed
qed (use assms in \<open>simp add: rebuild_step_def bindings_def\<close>)

lemma bindings_Cons: "bindings sets ps (r # rs) = bindings sets ps [r] \<union> bindings sets ps rs"
  by (auto simp: bindings_def)

lemma rebuild_index:
  "index_wf (snd st) \<Longrightarrow> index_wf (snd (foldl (rebuild_step sets ps) st rs)) \<and>
   depends (snd (foldl (rebuild_step sets ps) st rs)) = depends (snd st) \<union> bindings sets ps rs"
proof (induction rs arbitrary: st)
  case (Cons r rs)
  obtain cur ix where st: "st = (cur, ix)" by force
  let ?st = "rebuild_step sets ps st r"
  have wf: "index_wf (snd ?st)" and dep: "depends (snd ?st) = depends (snd st) \<union> bindings sets ps [r]"
    using rebuild_step_index [of ix sets ps cur r] Cons.prems st by simp_all
  have "depends (snd (foldl (rebuild_step sets ps) ?st rs)) = depends (snd ?st) \<union> bindings sets ps rs"
    using Cons.IH [OF wf] by (rule conjunct2)
  also have "\<dots> = depends (snd st) \<union> bindings sets ps (r # rs)"
    unfolding dep bindings_Cons [of sets ps r rs] by (rule Un_assoc)
  finally show ?case using Cons.IH [OF wf] by simp
qed (simp add: bindings_def)

lemma derived_index:
  assumes "derived_ok c"
  shows "index_wf (co_index c)" "depends (co_index c) = bindings (co_sets c) (co_populations c) (co_evaluations c)"
proof -
  have "co_index c = snd (foldl (rebuild_step (co_sets c) (co_populations c)) ([], empty_index) (co_evaluations c))"
    using assms [unfolded derived_ok_def, symmetric] by simp
  then show "index_wf (co_index c)" "depends (co_index c) = bindings (co_sets c) (co_populations c) (co_evaluations c)"
    using rebuild_index [of "([], empty_index)" "co_sets c" "co_populations c" "co_evaluations c"] by simp_all
qed

subsection \<open>Results and what they are bound to\<close>

definition bound_to :: "evidence_requirements \<Rightarrow> constraint_set list \<Rightarrow> evaluation_record \<Rightarrow> bool" where
  "bound_to e sets r \<longleftrightarrow>
     (\<exists>s. find_set sets (ev_set_id r) = Some s \<and> cs_generation s = ev_set_generation r \<and> cs_state s = Active) \<and>
     ev_authority_generation r = er_path_authority e \<and>
     list_all (\<lambda>f. family_consulted r f \<longrightarrow> generation_for_family (ev_evidence r) f = generation_for e f) currentness_families"

definition retained :: "constraint_set list \<Rightarrow> candidate_population list \<Rightarrow> evaluation_record \<Rightarrow> bool" where
  "retained sets ps r \<longleftrightarrow> ev_id r \<noteq> 0 \<and> family_consulted r EF_PathAuthority \<and>
     find_set sets (ev_set_id r) \<noteq> None \<and> find_candidate ps (ev_set_id r) (ev_path r) \<noteq> None"

definition results_ok ::
  "evidence_requirements \<Rightarrow> constraint_set list \<Rightarrow> candidate_population list \<Rightarrow> evaluation_record list \<Rightarrow> bool" where
  "results_ok e sets ps rs \<longleftrightarrow> (\<forall>r\<in>set rs. ev_state r = RS_Current \<longrightarrow>
     retained sets ps r \<and> (is_admissible (ev_outcome r) \<longrightarrow> bound_to e sets r))"

definition sets_ok :: "coordinator_config \<Rightarrow> constraint_set list \<Rightarrow> candidate_population list \<Rightarrow> bool" where
  "sets_ok config sets ps \<longleftrightarrow> distinct (map cs_id sets) \<and> distinct (map po_set_id ps) \<and>
     po_set_id ` set ps \<subseteq> cs_id ` set sets \<and> length sets \<le> unat (max_constraint_sets (cf_limits config))"

text \<open>Every set can keep its candidate population.\<close>

definition populations_fit :: "coordinator_config \<Rightarrow> bool" where
  "populations_fit config \<longleftrightarrow>
     unat (max_constraint_sets (cf_limits config)) \<le> unat (cf_max_candidate_populations config)"

definition definitions_ok ::
  "coordinator_config \<Rightarrow> evidence_requirements \<Rightarrow> constraint_set list \<Rightarrow> candidate_population list \<Rightarrow>
   evaluation_record list \<Rightarrow> bool" where
  "definitions_ok config e sets ps rs \<longleftrightarrow> sets_ok config sets ps \<and> results_ok e sets ps rs"

definition coordinator_ok :: "coordinator \<Rightarrow> bool" where
  "coordinator_ok c \<longleftrightarrow> derived_ok c \<and>
     definitions_ok (co_config c) (co_evidence c) (co_sets c) (co_populations c) (co_evaluations c)"

lemma coordinator_ok_irrelevant [simp]:
  "coordinator_ok (c\<lparr>co_store := ds\<rparr>) = coordinator_ok c"
  "coordinator_ok (c\<lparr>co_authority := a\<rparr>) = coordinator_ok c"
  "coordinator_ok (c\<lparr>co_watermarks := w\<rparr>) = coordinator_ok c"
  "coordinator_ok (c\<lparr>co_last_generation := g\<rparr>) = coordinator_ok c"
  "coordinator_ok (c\<lparr>co_invalidation_sequence := n\<rparr>) = coordinator_ok c"
  by (simp_all add: coordinator_ok_def derived_ok_def)

lemma coordinator_ok_apply:
  "coordinator_ok (apply_state s c) \<longleftrightarrow>
     definitions_ok (co_config c) (ps_evidence s) (ps_sets s) (ps_populations s) (ps_evaluations s)"
  by (simp add: coordinator_ok_def apply_state_def)

subsection \<open>Writing and applying\<close>

lemma persist_store: "persist io s c = (st, c') \<Longrightarrow> \<exists>ds. c' = c\<lparr>co_store := ds\<rparr>"
proof (cases "co_store c")
  case None
  assume "persist io s c = (st, c')"
  then have "c' = c\<lparr>co_store := co_store c\<rparr>" using None by (auto simp: persist_def split: if_splits)
  then show ?thesis by blast
next
  case (Some ds)
  assume p: "persist io s c = (st, c')"
  show ?thesis
  proof (cases "co_durable c")
    case True
    then show ?thesis using p Some by (auto simp: persist_def split: prod.splits)
  next
    case False
    then have "c' = c\<lparr>co_store := co_store c\<rparr>" using p by (simp add: persist_def)
    then show ?thesis by blast
  qed
qed

lemma persist_and_apply_cases:
  assumes "persist_and_apply io s c = (st, c')"
  obtains ds where "st \<noteq> Ok" "c' = c\<lparr>co_store := ds\<rparr>"
  | ds where "st = Ok" "c' = apply_state s (c\<lparr>co_store := ds\<rparr>)"
proof -
  obtain st1 c1 where p: "persist io s c = (st1, c1)" by force
  obtain ds where "c1 = c\<lparr>co_store := ds\<rparr>" using persist_store [OF p] by blast
  then show thesis using that assms p by (auto simp: persist_and_apply_def split: if_splits)
qed

lemma persist_and_apply_ok:
  assumes "persist_and_apply io s c = (st, c')" "coordinator_ok c"
    and "definitions_ok (co_config c) (ps_evidence s) (ps_sets s) (ps_populations s) (ps_evaluations s)"
  shows "coordinator_ok c'"
  using assms(1)
  by (rule persist_and_apply_cases) (use assms(2,3) in \<open>simp_all add: coordinator_ok_apply\<close>)

lemma to_state_fields [simp]:
  "ps_evidence (to_state c) = co_evidence c" "ps_sets (to_state c) = co_sets c"
  "ps_populations (to_state c) = co_populations c" "ps_evaluations (to_state c) = co_evaluations c"
  "ps_watermarks (to_state c) = co_watermarks c" "ps_last_evaluation_generation (to_state c) = co_last_generation c"
  "ps_attempts (to_state c) = au_attempts (co_authority c)" "ps_epoch (to_state c) = au_epoch (co_authority c)"
  by (simp_all add: to_state_def refresh_authority_projection_def)

lemma guarded_inv:
  assumes "guarded now context scope d failure k c = (r, c')"
    and "\<And>a. P (c\<lparr>co_authority := a\<rparr>)"
    and "\<And>b a r c'. k b (c\<lparr>co_authority := a\<rparr>) = (r, c') \<Longrightarrow> P c'"
  shows "P c'"
proof -
  have "P c" using assms(2) [of "co_authority c"] by simp
  then show ?thesis
    using assms unfolding guarded_def Let_def
    by (auto split: if_splits prod.splits sum.splits replay_verdict.splits)
qed

subsection \<open>Invalidation reaches every dependent\<close>

lemma dependents_of_family_iff:
  "i \<in> set (dependents_of_family ix f) \<longleftrightarrow> (\<exists>k. (k, i) \<in> depends ix \<and> ik_kind k \<in> set (kinds_of_family f))"
proof -
  have keys: "k \<in> fst ` set (ix_forward ix)" if k: "(k, i) \<in> depends ix" for k
  proof -
    obtain s where "map_of (ix_forward ix) k = Some s" using k by (auto simp: depends_def rel_of_def om_find_def)
    then show ?thesis by (metis fst_conv image_eqI map_of_SomeD)
  qed
  have "set (keys_of_kinds ix ks) = {k \<in> fst ` set (ix_forward ix). ik_kind k \<in> set ks}" for ks
    by (auto simp: keys_of_kinds_def list_ex_iff)
  then have "i \<in> set (dependents_of_family ix f) \<longleftrightarrow>
      (\<exists>k. k \<in> fst ` set (ix_forward ix) \<and> ik_kind k \<in> set (kinds_of_family f) \<and> (k, i) \<in> depends ix)"
    by (auto simp: dependents_of_family_def dependents_iff)
  then show ?thesis using keys by blast
qed

lemma dependents_of_iff: "i \<in> set (dependents_of ix ks) \<longleftrightarrow> (\<exists>k\<in>set ks. (k, i) \<in> depends ix)"
  by (simp add: dependents_of_def dependents_iff)

lemma consulted_family_key:
  assumes "f \<in> set kFamilies" "family_consulted r f"
  shows "\<exists>k\<in>set (dependency_keys r s cand). ik_kind k \<in> set (kinds_of_family f)"
proof -
  let ?k = "InvalidationKey (hd (kinds_of_family f)) 0"
  have "ik_kind ?k \<in> set (kinds_of_family f)"
    using assms(1) by (auto simp: kFamilies_def kinds_of_family_def)
  moreover have "?k \<in> set (dependency_keys r s cand)"
    by (insert assms, cases f) (simp_all add: kFamilies_def dependency_keys_def kinds_of_family_def topology_keys_def
        capability_keys_def failure_domain_keys_def policy_keys_def)
  ultimately show ?thesis by blast
qed

text \<open>A current record whose set and candidate are retained is a dependent of every family it
  consulted.\<close>

lemma retained_is_dependent:
  assumes "derived_ok c" "r \<in> set (co_evaluations c)" "ev_state r = RS_Current"
    and "retained (co_sets c) (co_populations c) r" "f \<in> set kFamilies" "family_consulted r f"
  shows "ev_id r \<in> set (dependents_of_family (co_index c) f)"
proof -
  obtain s cand where "find_set (co_sets c) (ev_set_id r) = Some s"
    "find_candidate (co_populations c) (ev_set_id r) (ev_path r) = Some cand" "ev_id r \<noteq> 0"
    using assms(4) by (auto simp: retained_def)
  moreover obtain k where "k \<in> set (dependency_keys r s cand)" "ik_kind k \<in> set (kinds_of_family f)"
    using consulted_family_key [OF assms(5,6)] by blast
  ultimately have "(k, ev_id r) \<in> depends (co_index c)"
    unfolding derived_index(2) [OF assms(1)] bindings_def using assms(2,3) by blast
  then show ?thesis
    using \<open>ik_kind k \<in> set (kinds_of_family f)\<close> dependents_of_family_iff by blast
qed

subsection \<open>Preservation by the mutations\<close>

lemma results_ok_mark:
  assumes "results_ok e sets ps rs"
    and "\<And>r. r \<in> set rs \<Longrightarrow> ev_state r = RS_Current \<Longrightarrow> \<not> T r \<Longrightarrow> retained sets ps r \<Longrightarrow> retained sets' ps' r"
    and "\<And>r. r \<in> set rs \<Longrightarrow> ev_state r = RS_Current \<Longrightarrow> \<not> T r \<Longrightarrow> retained sets ps r \<Longrightarrow> bound_to e sets r \<Longrightarrow> bound_to e' sets' r"
  shows "results_ok e' sets' ps' (mark_dependents T rs)"
  using assms unfolding results_ok_def mark_dependents_def by (force split: if_splits)

lemma generation_for_required: "generation_for e f = required_generation_of e f"
  by (simp add: generation_for_def required_generation_of_def split: evidence_family.splits)

lemma generation_for_evidence: "generation_for_family e f = evidence_generation_of e f"
  by (simp add: generation_for_family_def evidence_generation_of_def split: evidence_family.splits)

lemma currentness_in_kFamilies: "set currentness_families \<subseteq> set kFamilies" "EF_PathAuthority \<in> set kFamilies"
  by (auto simp: currentness_families_def kFamilies_def)

lemma bound_to_evidence:
  assumes "bound_to e sets r" "family_consulted r EF_PathAuthority"
    and "\<And>f. f \<in> set kFamilies \<Longrightarrow> family_consulted r f \<Longrightarrow> generation_for e' f = generation_for e f"
  shows "bound_to e' sets r"
proof -
  have "er_path_authority e' = er_path_authority e"
    using assms(3) [of EF_PathAuthority] assms(2) currentness_in_kFamilies(2) by (simp add: generation_for_def)
  then show ?thesis
    using assms(1,3) currentness_in_kFamilies(1) by (auto simp: bound_to_def list_all_iff)
qed

lemma change_evidence_ok:
  assumes ok: "coordinator_ok c" and run: "change_evidence io e c = (st, c')"
  shows "coordinator_ok c'"
proof (cases "list_ex (\<lambda>f. generation_for e f < generation_for (co_evidence c) f) kFamilies")
  case True
  then show ?thesis using ok run by (simp add: change_evidence_def)
next
  case False
  let ?adv = "filter (\<lambda>f. generation_for e f > generation_for (co_evidence c) f) kFamilies"
  let ?dep = "sort_unique (concat (map (dependents_of_family (co_index c)) ?adv))"
  let ?rs = "mark_dependents (\<lambda>r. ev_id r \<in> set ?dep) (co_evaluations c)"
  obtain all w where adv: "advance_watermarks e ?adv (co_watermarks c) = (all, w)" by force
  have derived: "derived_ok c" and sets: "sets_ok (co_config c) (co_sets c) (co_populations c)"
    and res: "results_ok (co_evidence c) (co_sets c) (co_populations c) (co_evaluations c)"
    using ok by (simp_all add: coordinator_ok_def definitions_ok_def)
  have keep: "generation_for e f = generation_for (co_evidence c) f"
    if "r \<in> set (co_evaluations c)" "ev_state r = RS_Current" "ev_id r \<notin> set ?dep"
      "retained (co_sets c) (co_populations c) r" "f \<in> set kFamilies" "family_consulted r f" for r f
  proof -
    have "ev_id r \<in> set (dependents_of_family (co_index c) f)"
      using retained_is_dependent [OF derived] that by blast
    then have "\<not> generation_for e f > generation_for (co_evidence c) f" using that(3,5) by auto
    then show ?thesis using False that(5) by (auto simp: list_ex_iff)
  qed
  have "results_ok e (co_sets c) (co_populations c) ?rs"
  proof (rule results_ok_mark [OF res])
    fix r
    assume r: "r \<in> set (co_evaluations c)" "ev_state r = RS_Current" "\<not> ev_id r \<in> set ?dep"
      "retained (co_sets c) (co_populations c) r" and bound: "bound_to (co_evidence c) (co_sets c) r"
    show "bound_to e (co_sets c) r"
      by (rule bound_to_evidence [OF bound _ keep [OF r]]) (use r(4) in \<open>simp_all add: retained_def\<close>)
  qed
  then have new: "definitions_ok (co_config c) e (co_sets c) (co_populations c) ?rs"
    using sets by (simp add: definitions_ok_def)
  show ?thesis
  proof (cases all)
    case True
    have "persist_and_apply io ((to_state c)\<lparr>ps_evidence := e, ps_watermarks := w, ps_evaluations := ?rs\<rparr>)
        (c\<lparr>co_watermarks := w\<rparr>) = (st, c')"
      using run False adv True by (simp add: change_evidence_def)
    then show ?thesis by (rule persist_and_apply_ok) (use ok new in simp_all)
  next
    case all: False
    then have "c' = c\<lparr>co_watermarks := w\<rparr>"
      using run False adv by (simp add: change_evidence_def)
    then show ?thesis using ok by simp
  qed
qed

lemma set_evidence_ok:
  assumes "coordinator_ok c" "set_evidence_requirements now io ctx e c = (st, c')"
  shows "coordinator_ok c'"
  by (rule guarded_inv [OF assms(2) [unfolded set_evidence_requirements_def]])
    (use assms(1) in \<open>auto split: if_splits intro: change_evidence_ok [rotated]\<close>)

lemma advance_family_ok:
  assumes "coordinator_ok c" "coordinator_advance_family now io ctx f g c = (st, c')"
  shows "coordinator_ok c'"
  using assms set_evidence_ok by (auto simp: coordinator_advance_family_def split: if_splits)

lemma invalidate_key_ok:
  assumes ok: "coordinator_ok c" and run: "invalidate_key now io ctx key c = (st, c')"
  shows "coordinator_ok c'"
proof (rule guarded_inv [OF run [unfolded invalidate_key_def]])
  show "coordinator_ok (c\<lparr>co_authority := a\<rparr>)" for a using ok by simp
next
  fix b a r c'
  let ?c1 = "c\<lparr>co_authority := a, co_invalidation_sequence := co_invalidation_sequence c + 1\<rparr>"
  assume k: "(if b then (Ok, c\<lparr>co_authority := a\<rparr>)
      else let c1 = c\<lparr>co_authority := a\<rparr>\<lparr>co_invalidation_sequence := co_invalidation_sequence (c\<lparr>co_authority := a\<rparr>) + 1\<rparr> in
        case wm_advance_key key (co_invalidation_sequence c1) (co_watermarks c1) of
          None \<Rightarrow> (StaleGeneration, c1)
        | Some w \<Rightarrow>
            let c2 = c1\<lparr>co_watermarks := w\<rparr>; target = dependents_of (co_index c2) [key] in
            persist_and_apply io
              ((to_state c2)\<lparr>ps_evaluations := mark_dependents (\<lambda>r. ev_id r \<in> set target) (co_evaluations c2)\<rparr>) c2) = (r, c')"
  have "results_ok (co_evidence c) (co_sets c) (co_populations c) (mark_dependents T (co_evaluations c))" for T
    using ok by (intro results_ok_mark) (auto simp: coordinator_ok_def definitions_ok_def)
  then have def_ok: "definitions_ok (co_config c) (co_evidence c) (co_sets c) (co_populations c)
      (mark_dependents T (co_evaluations c))" for T
    using ok by (simp add: coordinator_ok_def definitions_ok_def)
  show "coordinator_ok c'"
    using k ok def_ok
    by (auto simp: Let_def split: if_splits option.splits elim!: persist_and_apply_ok)
qed

text \<open>Replacing or adding a definition leaves the others alone.\<close>

lemma find_set_replace:
  "find_set (replace_set s sets) i = (if i = cs_id s \<and> find_set sets i \<noteq> None then Some s else find_set sets i)"
  by (induction sets) (auto simp: find_set_def)

lemma find_set_append: "find_set (sets @ [s]) i = (case find_set sets i of None \<Rightarrow> if i = cs_id s then Some s else None | Some x \<Rightarrow> Some x)"
  by (induction sets) (auto simp: find_set_def)

lemma replace_set_ids [simp]: "map cs_id (replace_set s sets) = map cs_id sets" "length (replace_set s sets) = length sets"
  by (induction sets) auto

lemma find_set_None: "find_set sets i = None \<longleftrightarrow> i \<notin> cs_id ` set sets"
  by (auto simp: find_set_def find_None_iff)

lemma find_set_id: "find_set sets i = Some s \<Longrightarrow> cs_id s = i"
  by (auto simp: find_set_def find_Some_iff)

lemma assign_generation_cases:
  assumes "assign_generation l sets f = Inr (stored, sets')"
  shows "cs_id stored = cs_id f"
    and "(find_set sets (cs_id f) = None \<and> length sets < unat (max_constraint_sets l) \<and> sets' = sets @ [stored]) \<or>
      (find_set sets (cs_id f) \<noteq> None \<and> sets' = replace_set stored sets)"
  using assms by (auto simp: assign_generation_def Let_def split: option.splits if_splits)

lemma sets_ok_assign:
  assumes "assign_generation (cf_limits config) sets f = Inr (stored, sets')" "sets_ok config sets ps"
  shows "sets_ok config sets' ps"
proof -
  note a = assign_generation_cases [OF assms(1)]
  have ids: "cs_id ` set (replace_set stored sets) = cs_id ` set sets"
    using replace_set_ids(1) [of stored sets] by (metis set_map)
  show ?thesis using a(2)
  proof
    assume "find_set sets (cs_id f) = None \<and> length sets < unat (max_constraint_sets (cf_limits config)) \<and> sets' = sets @ [stored]"
    then show ?thesis using assms(2) a(1) by (auto simp: sets_ok_def find_set_None)
  next
    assume "find_set sets (cs_id f) \<noteq> None \<and> sets' = replace_set stored sets"
    then show ?thesis using assms(2) ids by (simp add: sets_ok_def)
  qed
qed

lemma find_set_other:
  "find_set sets' i = find_set sets i \<Longrightarrow> bound_to e sets r \<Longrightarrow> ev_set_id r = i \<Longrightarrow> bound_to e sets' r"
  by (auto simp: bound_to_def)

lemma results_ok_sets:
  assumes "results_ok e sets ps rs" "\<And>i. i \<noteq> j \<Longrightarrow> find_set sets' i = find_set sets i"
  shows "results_ok e sets' ps (mark_dependents (\<lambda>r. ev_set_id r = j) rs)"
  by (rule results_ok_mark [OF assms(1)]) (use assms(2) in \<open>auto simp: retained_def intro: find_set_other\<close>)

lemma store_definition_ok:
  assumes ok: "coordinator_ok c" and run: "store_definition io f c = (r, c')"
  shows "coordinator_ok c'"
proof (cases "assign_generation (co_limits c) (co_sets c) f")
  case (Inl e)
  then show ?thesis using ok run by (simp add: store_definition_def)
next
  case (Inr p)
  obtain stored sets' where p: "assign_generation (co_limits c) (co_sets c) f = Inr (stored, sets')"
    using Inr by (cases p) auto
  let ?s = "(to_state c)\<lparr>ps_sets := sets', ps_evaluations := mark_dependents (\<lambda>r. ev_set_id r = cs_id stored) (co_evaluations c)\<rparr>"
  have parts: "sets_ok (co_config c) (co_sets c) (co_populations c)"
    "results_ok (co_evidence c) (co_sets c) (co_populations c) (co_evaluations c)"
    using ok by (simp_all add: coordinator_ok_def definitions_ok_def)
  have "find_set sets' i = find_set (co_sets c) i" if "i \<noteq> cs_id stored" for i
    using assign_generation_cases [OF p] that by (auto simp: find_set_replace find_set_append split: option.splits)
  then have new: "definitions_ok (co_config c) (ps_evidence ?s) (ps_sets ?s) (ps_populations ?s) (ps_evaluations ?s)"
    using sets_ok_assign [OF p parts(1)] results_ok_sets [OF parts(2)] by (simp add: definitions_ok_def)
  obtain st c1 where pa: "persist_and_apply io ?s c = (st, c1)" by force
  have "c1 = c'" using run p pa by (auto simp: store_definition_def split: if_splits)
  then show ?thesis using persist_and_apply_ok [OF pa ok new] by simp
qed

lemma publish_ok:
  assumes ok: "coordinator_ok c" and run: "publish_constraint_set now1 now2 io ctx s c = (r, c')"
  shows "coordinator_ok c'"
  by (rule guarded_inv [OF run [unfolded publish_constraint_set_def]])
    (use ok in \<open>auto split: if_splits option.splits prod.splits intro: store_definition_ok [rotated]\<close>)

lemma apply_lifecycle_ok:
  assumes ok: "coordinator_ok c" and run: "apply_lifecycle now io ctx i event c = (r, c')"
  shows "coordinator_ok c'"
proof (rule guarded_inv [OF run [unfolded apply_lifecycle_def]])
  show "coordinator_ok (c\<lparr>co_authority := a\<rparr>)" for a using ok by simp
next
  fix b a r c'
  let ?c = "c\<lparr>co_authority := a\<rparr>"
  let ?post = "\<lambda>stored rs. persist_and_apply io ((to_state ?c)\<lparr>ps_sets := replace_set stored (co_sets c), ps_evaluations := rs\<rparr>) ?c"
  assume k: "(case find_set (co_sets ?c) i of
      None \<Rightarrow> (Inl NotFound, ?c)
    | Some target \<Rightarrow>
        if b then (Inr target, ?c)
        else case apply_lifecycle_event (cs_state target) event of
          Reject \<Rightarrow> (Inl InvalidArgument, ?c)
        | Accept next_state \<Rightarrow>
            let stored = target\<lparr>cs_state := next_state\<rparr>;
                evaluations = (if next_state \<noteq> Active then mark_dependents (\<lambda>r. ev_set_id r = i) (co_evaluations ?c) else co_evaluations ?c) in
            case persist_and_apply io ((to_state ?c)\<lparr>ps_sets := replace_set stored (co_sets ?c), ps_evaluations := evaluations\<rparr>) ?c of
              (st, c') \<Rightarrow> if st \<noteq> Ok then (Inl st, c')
                else (case find_set (co_sets c') i of Some s \<Rightarrow> (Inr s, c') | None \<Rightarrow> (Inl Internal, c'))) = (r, c')"
  have parts: "sets_ok (co_config c) (co_sets c) (co_populations c)"
    "results_ok (co_evidence c) (co_sets c) (co_populations c) (co_evaluations c)"
    using ok by (simp_all add: coordinator_ok_def definitions_ok_def)
  consider "c' = ?c" | target next_state st c1 where "find_set (co_sets c) i = Some target"
      "apply_lifecycle_event (cs_state target) event = Accept next_state"
      "?post (target\<lparr>cs_state := next_state\<rparr>)
        (if next_state \<noteq> Active then mark_dependents (\<lambda>r. ev_set_id r = i) (co_evaluations c) else co_evaluations c) = (st, c1)" "c' = c1"
    using k by (auto simp: Let_def split: option.splits if_splits transition_outcome.splits prod.splits)
  then show "coordinator_ok c'"
  proof cases
    case 1
    then show ?thesis using ok by simp
  next
    case 2
    let ?stored = "target\<lparr>cs_state := next_state\<rparr>"
    let ?rs = "if next_state \<noteq> Active then mark_dependents (\<lambda>r. ev_set_id r = i) (co_evaluations c) else co_evaluations c"
    have i: "cs_id target = i" using 2(1) by (rule find_set_id)
    have other: "find_set (replace_set ?stored (co_sets c)) j = find_set (co_sets c) j" if "j \<noteq> i" for j
      using that i by (simp add: find_set_replace)
    have "results_ok (co_evidence c) (replace_set ?stored (co_sets c)) (co_populations c) ?rs"
    proof (cases "next_state = Active")
      case False
      then show ?thesis using results_ok_sets [OF parts(2) other] by simp
    next
      case True
      have "bound_to (co_evidence c) (replace_set ?stored (co_sets c)) r" if "bound_to (co_evidence c) (co_sets c) r" for r
        using that 2(1) i True by (auto simp: bound_to_def find_set_replace)
      then show ?thesis
        using parts(2) True by (auto simp: results_ok_def retained_def find_set_replace)
    qed
    moreover have "sets_ok (co_config c) (replace_set ?stored (co_sets c)) (co_populations c)"
      using parts(1) replace_set_ids(1) [of ?stored "co_sets c"] unfolding sets_ok_def by (metis replace_set_ids(2) set_map)
    ultimately show ?thesis
      using persist_and_apply_ok [OF 2(3)] ok 2(4) by (simp add: definitions_ok_def)
  qed
qed

subsection \<open>Preservation by the commit\<close>

lemma traverse_member: "traverse f xs = Inr ys \<Longrightarrow> y \<in> set ys \<Longrightarrow> \<exists>x\<in>set xs. f x = Inr y"
  by (induction xs arbitrary: ys) (auto split: sum.splits)

lemma drop_duplicates_subset: "set (drop_duplicates canonical cs) \<subseteq> set canonical \<union> set cs"
  by (induction canonical cs rule: drop_duplicates.induct) auto

lemma evaluate_batch_member:
  assumes "evaluate_batch ctx candidates = Inr batch" "r \<in> set (eb_records batch)"
  shows "\<exists>cand\<in>set candidates. evaluate_candidate ctx cand = Inr r"
proof -
  obtain s l where sl: "ctx_set ctx = Some s" "ctx_limits ctx = Some l"
    using assms(1) by (auto simp: evaluate_batch_def split: option.splits)
  let ?can = "drop_duplicates [] (stable_sort candidate_canonical_less candidates)"
  obtain records where "traverse (evaluate_candidate ctx) ?can = Inr records" "eb_records batch = records"
    using assms sl by (auto simp: evaluate_batch_def Let_def rejected_batch_def split: if_splits sum.splits)
  then obtain cand where "cand \<in> set ?can" "evaluate_candidate ctx cand = Inr r"
    using assms(2) traverse_member by metis
  then show ?thesis
    using drop_duplicates_subset [of "[]" "stable_sort candidate_canonical_less candidates"] by auto
qed

lemma evaluated_limits: "evaluate_candidate ctx cand = Inr r \<Longrightarrow> ctx_limits ctx = Some l \<Longrightarrow> validate_limits l"
  by (auto simp: evaluate_candidate_def split: option.splits if_splits)

lemma consulted_path_authority: "consulted_families s AND family_bit EF_PathAuthority \<noteq> 0"
proof -
  have "bit (consulted_families s) 8"
    by (auto simp: consulted_families_def Let_def bit_or_iff family_bit_def bit_push_bit_iff foldl_or_keeps)
  then have "bit (consulted_families s AND family_bit EF_PathAuthority) 8"
    by (simp add: bit_and_iff family_bit_def bit_push_bit_iff)
  then show ?thesis by auto
qed

text \<open>What an evaluated record of a ticket is bound to.\<close>

lemma ticket_record:
  assumes "evaluate_candidate (ticket_context l now t) cand = Inr r"
  shows "ev_set_id r = cs_id (tk_set t)" "ev_set_generation r = cs_generation (tk_set t)" "ev_path r = cp_path cand"
    "ev_id r \<noteq> 0" "family_consulted r EF_PathAuthority"
    "is_admissible (ev_outcome r) \<Longrightarrow> cs_state (tk_set t) = Active \<and>
       ev_authority_generation r = er_path_authority (tk_evidence t) \<and>
       list_all (\<lambda>f. family_consulted r f \<longrightarrow> generation_for_family (ev_evidence r) f = generation_for (tk_evidence t) f) currentness_families"
proof -
  let ?ctx = "ticket_context l now t"
  have ctx: "ctx_set ?ctx = Some (tk_set t)" "ctx_limits ?ctx = Some l" "ctx_current ?ctx = tk_evidence t"
    by (simp_all add: ticket_context_def)
  have lim: "validate_limits l" using evaluated_limits [OF assms ctx(2)] .
  obtain r' where r': "evaluate_candidate ?ctx cand = Inr r'" "ev_path r' = cp_path cand" "ev_set_id r' = cs_id (tk_set t)"
    "ev_set_generation r' = cs_generation (tk_set t)" "ev_evidence r' = cp_evidence cand"
    "ev_consulted r' = consulted_families (tk_set t)" "ev_authority_generation r' = cp_authority_generation cand"
    using evaluate_candidate_fields [OF ctx(1,2) lim, of cand] by metis
  have [simp]: "r' = r" using assms r'(1) by simp
  show "ev_set_id r = cs_id (tk_set t)" "ev_set_generation r = cs_generation (tk_set t)" "ev_path r = cp_path cand"
    using r' by simp_all
  show "family_consulted r EF_PathAuthority"
    using r'(6) consulted_path_authority by (simp add: family_consulted_def)
  show "ev_id r \<noteq> 0"
    using assms ctx lim derived_evaluation_id_valid
    by (auto simp: evaluate_candidate_def candidate_record_def Let_def is_valid_def)
  assume "is_admissible (ev_outcome r)"
  then have g: "gates_open ?ctx (tk_set t) l cand"
    using evaluate_candidate_admits [OF ctx(1,2) lim, of cand] assms by auto
  then show "cs_state (tk_set t) = Active \<and> ev_authority_generation r = er_path_authority (tk_evidence t) \<and>
     list_all (\<lambda>f. family_consulted r f \<longrightarrow> generation_for_family (ev_evidence r) f = generation_for (tk_evidence t) f) currentness_families"
    using r' ctx(3) by (auto simp: gates_open_def legally_authorised_def family_current_def list_all_iff
        family_consulted_def generation_for_required generation_for_evidence)
qed

lemma first_family_fresh:
  "first_family P m RC_None = RC_None \<Longrightarrow> f \<in> set kFamilies \<Longrightarrow> m AND family_bit f \<noteq> 0 \<Longrightarrow> \<not> P f"
proof
  assume none: "first_family P m RC_None = RC_None" and f: "f \<in> set kFamilies" "m AND family_bit f \<noteq> 0" "P f"
  obtain g where "List.find (\<lambda>family. m AND family_bit family \<noteq> 0 \<and> P family) kFamilies = Some g"
    using f by (metis (mono_tags, lifting) find_None_iff not_Some_eq)
  moreover have "staleness_reason g \<noteq> RC_None" by (cases g) (simp_all add: staleness_reason_def)
  ultimately show False using none by (simp add: first_family_def)
qed

lemma first_family_stale: "first_family P m RC_EvidenceNotBound \<noteq> RC_None"
proof -
  have "staleness_reason g \<noteq> RC_None" for g by (cases g) (simp_all add: staleness_reason_def)
  then show ?thesis by (simp add: first_family_def split: option.splits)
qed

text \<open>A commit is accepted only when the set and the evidence are those of the snapshot.\<close>

lemma commit_fresh:
  assumes "commit_staleness t c = RC_None"
  obtains live where "find_set (co_sets c) (tk_set_id t) = Some live"
    "cs_generation live = cs_generation (tk_set t)" "cs_digest live = cs_digest (tk_set t)"
    "cs_state live = cs_state (tk_set t)" "co_evidence c = tk_evidence t"
proof -
  have eq: "evidence_equal a b \<Longrightarrow> a = b" for a b
    by (simp add: evidence_equal_def)
  show thesis
    using assms that first_family_stale eq
    by (auto simp: commit_staleness_def split: option.splits if_splits)
qed

lemma evict_subset: "set (evict_loop n limit rs) \<subseteq> set rs"
proof (induction n limit rs rule: evict_loop.induct)
  case (2 n limit rs)
  have "set (erase_at i rs) \<subseteq> set rs" for i
    by (auto simp: erase_at_def dest: in_set_takeD in_set_dropD)
  then show ?case using 2 by (auto split: option.splits)
qed simp

lemma evict_history_subset: "set (evict_history limit rs) \<subseteq> set rs"
  by (simp add: evict_history_def evict_subset)

lemma results_ok_subset: "results_ok e sets ps rs \<Longrightarrow> set rs' \<subseteq> set rs \<Longrightarrow> results_ok e sets ps rs'"
  by (auto simp: results_ok_def)

lemma results_ok_append: "results_ok e sets ps (xs @ ys) \<longleftrightarrow> results_ok e sets ps xs \<and> results_ok e sets ps ys"
  by (auto simp: results_ok_def)

text \<open>Populations: replacing one leaves the others, and nothing is evicted while there is room.\<close>

lemma population_split:
  assumes "list_ex (\<lambda>p. po_set_id p = i) ps"
  obtains pre p post where "ps = pre @ p # post" "po_set_id p = i" "\<forall>q\<in>set pre. po_set_id q \<noteq> i"
    "replace_population m i stored ps = pre @ p\<lparr>po_candidates := stored\<rparr> # post"
proof -
  have ex: "\<exists>p\<in>set ps. po_set_id p = i" using assms by (simp add: list_ex_iff)
  obtain pre p post where s: "ps = pre @ p # post" "po_set_id p = i" "\<forall>q\<in>set pre. po_set_id q \<noteq> i"
    using split_list_first_prop [OF ex] by blast
  have "replace_population m i stored ps = pre @ p\<lparr>po_candidates := stored\<rparr> # post"
    using s assms by (simp add: replace_population_def Let_def takeWhile_tail dropWhile_append2)
  then show thesis using that [of pre p post] s by simp
qed

lemma find_candidate_split:
  "find_candidate (ps @ qs) i path = (case find_candidate ps i path of None \<Rightarrow> find_candidate qs i path | Some x \<Rightarrow> Some x)"
proof -
  have "List.find P (xs @ ys) = (case List.find P xs of None \<Rightarrow> List.find P ys | Some x \<Rightarrow> Some x)" for P and xs ys :: "candidate_path list"
    by (induction xs) auto
  then show ?thesis unfolding find_candidate_def by simp
qed

lemma find_candidate_Nil [simp]: "find_candidate [] i path = None"
  by (simp add: find_candidate_def)

lemma find_candidate_Cons:
  "find_candidate (p # ps) i path =
     (case (if po_set_id p = i then List.find (\<lambda>c. cp_path c = path) (po_candidates p) else None) of
        None \<Rightarrow> find_candidate ps i path | Some x \<Rightarrow> Some x)"
  using find_candidate_split [of "[p]" ps i path] by (simp add: find_candidate_def)

lemma replace_population_ok:
  fixes stored :: "candidate_path list"
  assumes "sets_ok config sets ps" "populations_fit config" "find_set sets i \<noteq> None"
  defines "ps' \<equiv> replace_population (cf_max_candidate_populations config) i stored ps"
  shows "sets_ok config sets ps'" "j \<noteq> i \<Longrightarrow> find_candidate ps' j path = find_candidate ps j path"
    "cand \<in> set stored \<Longrightarrow> find_candidate ps' i (cp_path cand) \<noteq> None"
proof -
  have i: "i \<in> cs_id ` set sets" using assms(3) by (simp add: find_set_None)
  have found: "List.find (\<lambda>c. cp_path c = cp_path cand) stored \<noteq> None" if "cand \<in> set stored"
    using that by (auto simp: find_None_iff)
  have "sets_ok config sets ps' \<and> (j \<noteq> i \<longrightarrow> find_candidate ps' j path = find_candidate ps j path) \<and>
      (cand \<in> set stored \<longrightarrow> find_candidate ps' i (cp_path cand) \<noteq> None)"
  proof (cases "list_ex (\<lambda>p. po_set_id p = i) ps")
    case True
    obtain pre p post where s: "ps = pre @ p # post" "po_set_id p = i"
      "replace_population (cf_max_candidate_populations config) i stored ps = pre @ p\<lparr>po_candidates := stored\<rparr> # post"
      using population_split [OF True] by metis
    show ?thesis
      unfolding ps'_def s(3)
      using assms(1) s(1,2) found
      by (auto simp: sets_ok_def find_candidate_split find_candidate_Cons split: option.splits)
  next
    case False
    have new: "i \<notin> po_set_id ` set ps" using False by (auto simp: list_ex_iff)
    have "card (po_set_id ` set ps) < card (cs_id ` set sets)"
      using assms(1) new i by (intro psubset_card_mono) (auto simp: sets_ok_def)
    moreover have "card (po_set_id ` set ps) = length ps" "card (cs_id ` set sets) = length sets"
      using assms(1) distinct_card [of "map po_set_id ps"] distinct_card [of "map cs_id sets"] by (simp_all add: sets_ok_def)
    ultimately have "\<not> unat (cf_max_candidate_populations config) \<le> length ps"
      using assms(1,2) by (simp add: sets_ok_def populations_fit_def)
    then have "ps' = ps @ [\<lparr> po_set_id = i, po_candidates = stored \<rparr>]"
      using False by (simp add: ps'_def replace_population_def)
    then show ?thesis
      using assms(1) new i found
      by (auto simp: sets_ok_def find_candidate_split find_candidate_Cons split: option.splits)
  qed
  then show "sets_ok config sets ps'" "j \<noteq> i \<Longrightarrow> find_candidate ps' j path = find_candidate ps j path"
    "cand \<in> set stored \<Longrightarrow> find_candidate ps' i (cp_path cand) \<noteq> None"
    by blast+
qed

lemma retire_records_ok:
  assumes "results_ok e sets ps rs" "\<And>j path. j \<noteq> i \<Longrightarrow> find_candidate ps' j path = find_candidate ps j path"
  shows "results_ok e sets ps' (retire_records i ids rs)"
  using assms by (force simp: results_ok_def retire_records_def retained_def bound_to_def split: if_splits)

lemma commit_records_ok:
  assumes batch: "evaluate_work l now t = Inr batch" and fresh: "commit_staleness t c = RC_None"
    and t: "cs_id (tk_set t) = tk_set_id t"
    and pop: "\<And>cand. cand \<in> set (tk_candidates t) \<Longrightarrow> find_candidate ps' (tk_set_id t) (cp_path cand) \<noteq> None"
  shows "results_ok (co_evidence c) (co_sets c) ps' (commit_records now (eb_records batch))"
  unfolding results_ok_def
proof (intro ballI impI)
  fix x assume "x \<in> set (commit_records now (eb_records batch))"
  then obtain r where r: "r \<in> set (eb_records batch)" and x: "x = r\<lparr>ev_state := RS_Current, ev_committed_tick := now\<rparr>"
    by (auto simp: commit_records_def)
  obtain cand where cand: "cand \<in> set (tk_candidates t)" "evaluate_candidate (ticket_context l now t) cand = Inr r"
    using evaluate_batch_member [OF batch [unfolded evaluate_work_def] r] by blast
  note rec = ticket_record [OF cand(2)]
  obtain live where live: "find_set (co_sets c) (tk_set_id t) = Some live" "cs_generation live = cs_generation (tk_set t)"
    "cs_state live = cs_state (tk_set t)" "co_evidence c = tk_evidence t"
    using commit_fresh [OF fresh] by metis
  have "retained (co_sets c) ps' x"
    using rec(1,3,4,5) live(1) pop [OF cand(1)] t by (simp add: retained_def x family_consulted_def)
  moreover have "bound_to (co_evidence c) (co_sets c) x" if "is_admissible (ev_outcome x)"
    using rec(1,2) rec(6) live t that by (simp add: bound_to_def x family_consulted_def)
  ultimately show "retained (co_sets c) ps' x \<and> (is_admissible (ev_outcome x) \<longrightarrow> bound_to (co_evidence c) (co_sets c) x)"
    by blast
qed

lemma evaluate_commit_ok:
  assumes ok: "coordinator_ok c" and fit: "populations_fit (co_config c)"
    and batch: "evaluate_work l now t = Inr batch" and t: "cs_id (tk_set t) = tk_set_id t"
    and run: "evaluate_commit now io batch t c = (r, c')"
  shows "coordinator_ok c'"
proof (cases "commit_staleness t c = RC_None")
  case fresh: True
  let ?s = "commit_state now batch t c"
  let ?ps = "replace_population (cf_max_candidate_populations (co_config c)) (tk_set_id t)
      (stable_sort candidate_canonical_less (tk_candidates t)) (co_populations c)"
  have parts: "sets_ok (co_config c) (co_sets c) (co_populations c)"
    "results_ok (co_evidence c) (co_sets c) (co_populations c) (co_evaluations c)"
    using ok by (simp_all add: coordinator_ok_def definitions_ok_def)
  have found: "find_set (co_sets c) (tk_set_id t) \<noteq> None" using commit_fresh [OF fresh] by fastforce
  note pops = replace_population_ok [OF parts(1) fit found, where stored = "stable_sort candidate_canonical_less (tk_candidates t)"]
  have "results_ok (co_evidence c) (co_sets c) ?ps (retire_records (tk_set_id t) (map ev_id (eb_records batch)) (co_evaluations c))"
    by (rule retire_records_ok [OF parts(2)]) (rule pops(2))
  moreover have "results_ok (co_evidence c) (co_sets c) ?ps (commit_records now (eb_records batch))"
    by (rule commit_records_ok [OF batch fresh t]) (rule pops(3), simp)
  ultimately have "results_ok (co_evidence c) (co_sets c) ?ps (ps_evaluations ?s)"
    using results_ok_subset [OF _ evict_history_subset] by (simp add: commit_state_def results_ok_append)
  then have new: "definitions_ok (co_config c) (ps_evidence ?s) (ps_sets ?s) (ps_populations ?s) (ps_evaluations ?s)"
    using pops(1) by (simp add: definitions_ok_def commit_state_def)
  obtain st c1 where pa: "persist_and_apply io ?s c = (st, c1)" by force
  have "c1 = c'" using run pa fresh by (auto simp: evaluate_commit_def Let_def split: if_splits)
  then show ?thesis using persist_and_apply_ok [OF pa ok new] by simp
next
  case False
  then show ?thesis using run ok by (simp add: evaluate_commit_def Let_def)
qed

subsection \<open>The coordinator as a transition system\<close>

text \<open>A state is the coordinator with the evaluations in flight. A ticket is produced by the locked
  first phase and consumed by the commit; any other operation may run in between.\<close>

inductive coordinator_step ::
  "coordinator \<times> evaluation_ticket list \<Rightarrow> coordinator \<times> evaluation_ticket list \<Rightarrow> bool" where
  register: "coordinator_register_publisher now io ctx p b sc se c = (r, c') \<Longrightarrow> coordinator_step (c, ts) (c', ts)"
| fence: "coordinator_fence_boot now1 now2 io ctx b c = (st, c') \<Longrightarrow> coordinator_step (c, ts) (c', ts)"
| session_loss: "fence_on_session_loss now io se c = (st, c') \<Longrightarrow> coordinator_step (c, ts) (c', ts)"
| drop: "coordinator_drop_session ctx se c = (st, c') \<Longrightarrow> coordinator_step (c, ts) (c', ts)"
| observe: "coordinator_observe_attempt now ctx d c = (v, c') \<Longrightarrow> coordinator_step (c, ts) (c', ts)"
| publish: "publish_constraint_set now1 now2 io ctx s c = (r, c') \<Longrightarrow> coordinator_step (c, ts) (c', ts)"
| lifecycle: "apply_lifecycle now io ctx i ev c = (r, c') \<Longrightarrow> coordinator_step (c, ts) (c', ts)"
| evidence: "set_evidence_requirements now io ctx e c = (st, c') \<Longrightarrow> coordinator_step (c, ts) (c', ts)"
| advance: "coordinator_advance_family now io ctx f g c = (st, c') \<Longrightarrow> coordinator_step (c, ts) (c', ts)"
| invalidate: "invalidate_key now io ctx k c = (st, c') \<Longrightarrow> coordinator_step (c, ts) (c', ts)"
| flush: "coordinator_flush io c = (st, c') \<Longrightarrow> coordinator_step (c, ts) (c', ts)"
| snapshot: "evaluate_begin now ctx i cands expected c = (Inr (Inr t), c') \<Longrightarrow> coordinator_step (c, ts) (c', t # ts)"
| refuse: "evaluate_begin now ctx i cands expected c = (r, c') \<Longrightarrow> coordinator_step (c, ts) (c', ts)"
| finish: "t \<in> set ts \<Longrightarrow> evaluate_finish now io t c = (r, c') \<Longrightarrow> coordinator_step (c, ts) (c', remove1 t ts)"

inductive_cases coordinator_stepE: "coordinator_step (c, ts) (c', ts')"

definition tickets_ok :: "evaluation_ticket list \<Rightarrow> bool" where
  "tickets_ok ts \<longleftrightarrow> (\<forall>t\<in>set ts. cs_id (tk_set t) = tk_set_id t)"

lemma evaluate_begin_cases:
  assumes "evaluate_begin now ctx i cands expected c = (r, c')"
  shows "\<exists>a g. c' = c\<lparr>co_authority := a, co_last_generation := g\<rparr>"
    and "r = Inr (Inr t) \<Longrightarrow> tk_set_id t = i \<and> cs_id (tk_set t) = i"
proof -
  have same: "c\<lparr>co_authority := a\<rparr> = c\<lparr>co_authority := a, co_last_generation := co_last_generation c\<rparr>" for a by simp
  show "\<exists>a g. c' = c\<lparr>co_authority := a, co_last_generation := g\<rparr>"
    by (rule guarded_inv [OF assms [unfolded evaluate_begin_def]], use same in blast)
      (auto simp: take_snapshot_def split: if_splits option.splits prod.splits sum.splits intro: same)
  show "tk_set_id t = i \<and> cs_id (tk_set t) = i" if "r = Inr (Inr t)"
    using assms that unfolding evaluate_begin_def guarded_def Let_def
    by (auto simp: take_snapshot_def find_set_id split: if_splits option.splits prod.splits sum.splits replay_verdict.splits)
qed

lemma evaluate_finish_ok:
  assumes "coordinator_ok c" "populations_fit (co_config c)" "cs_id (tk_set t) = tk_set_id t"
    and "evaluate_finish now io t c = (r, c')"
  shows "coordinator_ok c'"
  using assms evaluate_commit_ok [OF assms(1,2) _ assms(3)]
  by (auto simp: evaluate_finish_def split: sum.splits)

lemma persist_irrelevant: "persist io s c = (st, c') \<Longrightarrow> coordinator_ok c' = coordinator_ok c"
  using persist_store by fastforce

lemma authority_operations_ok:
  assumes "coordinator_ok c"
  shows "coordinator_register_publisher now io ctx p b sc se c = (r, c') \<Longrightarrow> coordinator_ok c'"
    and "coordinator_fence_boot now1 now2 io ctx b c = (st, c') \<Longrightarrow> coordinator_ok c'"
    and "fence_on_session_loss now io se c = (st, c') \<Longrightarrow> coordinator_ok c'"
    and "coordinator_drop_session ctx se c = (st, c') \<Longrightarrow> coordinator_ok c'"
    and "coordinator_observe_attempt now ctx d c = (v, c') \<Longrightarrow> coordinator_ok c'"
    and "coordinator_flush io c = (st, c') \<Longrightarrow> coordinator_ok c'"
proof -
  note a = assms coordinator_ok_irrelevant(2)
  show "coordinator_register_publisher now io ctx p b sc se c = (r, c') \<Longrightarrow> coordinator_ok c'"
    unfolding coordinator_register_publisher_def Let_def
    using a by (auto split: if_splits option.splits prod.splits dest!: persist_irrelevant)
  show "coordinator_ok c'" if run: "coordinator_fence_boot now1 now2 io ctx b c = (st, c')"
    by (rule guarded_inv [OF run [unfolded coordinator_fence_boot_def]])
      (use a in \<open>auto simp: Let_def split: if_splits prod.splits dest!: persist_irrelevant\<close>)
  show "fence_on_session_loss now io se c = (st, c') \<Longrightarrow> coordinator_ok c'"
    unfolding fence_on_session_loss_def Let_def
    using a by (auto split: if_splits option.splits prod.splits dest!: persist_irrelevant)
  show "coordinator_drop_session ctx se c = (st, c') \<Longrightarrow> coordinator_ok c'"
    "coordinator_observe_attempt now ctx d c = (v, c') \<Longrightarrow> coordinator_ok c'"
    "coordinator_flush io c = (st, c') \<Longrightarrow> coordinator_ok c'"
    using a by (auto simp: coordinator_drop_session_def coordinator_observe_attempt_def coordinator_flush_def Let_def
        split: if_splits prod.splits dest!: persist_irrelevant)
qed

lemma step_ok:
  assumes "coordinator_step x y" "coordinator_ok (fst x)" "populations_fit (co_config (fst x))" "tickets_ok (snd x)"
  shows "coordinator_ok (fst y) \<and> tickets_ok (snd y)"
  using assms
proof (induction rule: coordinator_step.induct)
  case (snapshot now ctx i cands expected c t c' ts)
  then show ?case
    using evaluate_begin_cases [OF snapshot(1)] by (fastforce simp: tickets_ok_def)
next
  case (refuse now ctx i cands expected c r c' ts)
  then show ?case using evaluate_begin_cases(1) [OF refuse(1)] by fastforce
next
  case (finish t ts now io c r c')
  then show ?case
    using evaluate_finish_ok [of c t now io r c'] notin_set_remove1 by (fastforce simp: tickets_ok_def)
qed (auto dest: authority_operations_ok publish_ok apply_lifecycle_ok set_evidence_ok advance_family_ok invalidate_key_ok)

subsection \<open>Every coordinator operation runs the authority registry\<close>

definition authority_run :: "coordinator \<Rightarrow> coordinator \<Rightarrow> bool" where
  "authority_run c c' \<longleftrightarrow> co_config c' = co_config c \<and>
     (authority_step (co_limits c))\<^sup>*\<^sup>* (co_authority c) (co_authority c')"

lemma authority_run_refl: "co_config c' = co_config c \<Longrightarrow> co_authority c' = co_authority c \<Longrightarrow> authority_run c c'"
  by (simp add: authority_run_def)

lemma authority_run_trans: "authority_run c c1 \<Longrightarrow> authority_run c1 c' \<Longrightarrow> authority_run c c'"
  by (auto simp: authority_run_def)

lemma authority_run_step:
  "authority_step (co_limits c) (co_authority c) a \<Longrightarrow> authority_run c (c\<lparr>co_authority := a\<rparr>)"
  by (simp add: authority_run_def r_into_rtranclp)

lemma authority_run_persist: "persist io s c1 = (st, c') \<Longrightarrow> authority_run c c1 \<Longrightarrow> authority_run c c'"
  using persist_store by (fastforce simp: authority_run_def)

lemma authority_run_apply: "persist_and_apply io s c1 = (st, c') \<Longrightarrow> authority_run c c1 \<Longrightarrow> authority_run c c'"
  by (erule persist_and_apply_cases) (auto simp: authority_run_def apply_state_def)

lemma authority_run_guarded:
  assumes "guarded now ctx scope d failure k c = (r, c')"
    and "\<And>b c1 r c'. authority_run c c1 \<Longrightarrow> k b c1 = (r, c') \<Longrightarrow> authority_run c c'"
  shows "authority_run c c'"
proof -
  have "authority_run c (c\<lparr>co_authority := snd (observe_attempt (ac_attempt ctx) d now (co_limits c) (co_authority c))\<rparr>)"
    by (rule authority_run_step) (rule authority_step.observe, rule prod.collapse [symmetric])
  then show ?thesis
    using assms unfolding guarded_def Let_def
    by (auto intro: authority_run_refl split: if_splits prod.splits sum.splits replay_verdict.splits)
qed

lemma authority_run_change_evidence: "change_evidence io e c1 = (st, c') \<Longrightarrow> authority_run c c1 \<Longrightarrow> authority_run c c'"
  unfolding change_evidence_def Let_def
  by (auto simp: authority_run_def split: if_splits prod.splits dest!: authority_run_apply [where c = c])

lemma authority_run_store: "store_definition io f c1 = (r, c') \<Longrightarrow> authority_run c c1 \<Longrightarrow> authority_run c c'"
  unfolding store_definition_def
  by (auto split: if_splits prod.splits sum.splits dest: authority_run_apply)

lemma authority_run_fence:
  assumes "fence_boot b at t (co_limits c) (co_authority c1) = (st, a)" "authority_run c c1"
  shows "authority_run c (c1\<lparr>co_authority := a\<rparr>)"
proof -
  have "co_config c1 = co_config c" using assms(2) by (simp add: authority_run_def)
  then have "authority_step (co_limits c1) (co_authority c1) a"
    using authority_step.fence assms(1) by metis
  then show ?thesis using authority_run_trans [OF assms(2) authority_run_step] by blast
qed

lemma authority_run_fence_boot:
  assumes "coordinator_fence_boot now1 now2 io ctx b c = (st, c')"
  shows "authority_run c c'"
  using assms unfolding coordinator_fence_boot_def
proof (rule authority_run_guarded)
  fix rb c1 r c'
  assume run: "authority_run c c1" and k: "(if rb then (Ok, c1)
      else case fence_boot b (au_epoch (co_authority c1)) now2 (co_limits c1) (co_authority c1) of
        (st, a) \<Rightarrow> let c1 = c1\<lparr>co_authority := a\<rparr> in
          if st \<noteq> Ok then (st, c1) else persist io (refresh_authority_projection a (to_state c1)) c1) = (r, c')"
  obtain st1 a where f: "fence_boot b (au_epoch (co_authority c1)) now2 (co_limits c1) (co_authority c1) = (st1, a)" by force
  have "co_config c1 = co_config c" using run by (simp add: authority_run_def)
  then have "authority_run c (c1\<lparr>co_authority := a\<rparr>)" using authority_run_fence f run by metis
  then show "authority_run c c'"
    using k f run by (auto simp: Let_def split: if_splits intro: authority_run_persist)
qed

lemma authority_run_session_loss:
  assumes "fence_on_session_loss now io se c = (st, c')"
  shows "authority_run c c'"
proof (cases "boot_of_session (co_authority c) se")
  case None
  then show ?thesis using assms by (simp add: fence_on_session_loss_def authority_run_refl)
next
  case (Some boot)
  obtain st1 a where f: "fence_boot boot (au_epoch (co_authority c)) now (co_limits c) (co_authority c) = (st1, a)" by force
  have r1: "authority_run c (c\<lparr>co_authority := a\<rparr>)"
    by (rule authority_run_fence [OF f]) (simp add: authority_run_refl)
  have "authority_run (c\<lparr>co_authority := a\<rparr>) (c\<lparr>co_authority := a, co_authority := snd (drop_session se a)\<rparr>)"
    by (rule authority_run_step) (simp, rule authority_step.drop, rule prod.collapse [symmetric])
  then have r2: "authority_run c (c\<lparr>co_authority := snd (drop_session se a)\<rparr>)"
    using authority_run_trans [OF r1] by simp
  show ?thesis
    using assms Some f r1 by (auto simp: fence_on_session_loss_def Let_def split: if_splits intro: authority_run_persist [OF _ r2])
qed

lemma authority_run_step_all:
  "coordinator_step x y \<Longrightarrow> authority_run (fst x) (fst y)"
proof (induction rule: coordinator_step.induct)
  case (register now io ctx p b sc se c r c' ts)
  then show ?case
    unfolding coordinator_register_publisher_def Let_def
    by (auto simp: authority_run_refl split: if_splits option.splits prod.splits
        intro: authority_run_step authority_step.register authority_run_persist)
next
  case (fence now1 now2 io ctx b c st c' ts)
  then show ?case using authority_run_fence_boot by simp
next
  case (session_loss now io se c st c' ts)
  then show ?case using authority_run_session_loss by simp
next
  case (drop ctx se c st c' ts)
  then show ?case
    by (auto simp: coordinator_drop_session_def Let_def authority_run_refl split: if_splits prod.splits
        intro: authority_run_step authority_step.drop)
next
  case (observe now ctx d c v c' ts)
  then show ?case
    by (auto simp: coordinator_observe_attempt_def split: prod.splits intro: authority_run_step authority_step.observe)
next
  case (publish now1 now2 io ctx s c r c' ts)
  have "authority_run c c'"
    using publish unfolding publish_constraint_set_def
    by (rule authority_run_guarded) (auto split: if_splits option.splits prod.splits intro: authority_run_store)
  then show ?case by simp
next
  case (lifecycle now io ctx i ev c r c' ts)
  have "authority_run c c'"
    using lifecycle unfolding apply_lifecycle_def
    by (rule authority_run_guarded)
      (auto simp: Let_def split: if_splits option.splits prod.splits transition_outcome.splits intro: authority_run_apply)
  then show ?case by simp
next
  case (evidence now io ctx e c st c' ts)
  have "authority_run c c'"
    using evidence unfolding set_evidence_requirements_def
    by (rule authority_run_guarded) (auto split: if_splits intro: authority_run_change_evidence)
  then show ?case by simp
next
  case (advance now io ctx f g c st c' ts)
  have "authority_run c c'" if "set_evidence_requirements now io ctx (with_family f g (co_evidence c)) c = (st, c')"
    using that unfolding set_evidence_requirements_def
    by (rule authority_run_guarded) (auto split: if_splits intro: authority_run_change_evidence)
  then show ?case using advance by (auto simp: coordinator_advance_family_def authority_run_refl split: if_splits)
next
  case (invalidate now io ctx k c st c' ts)
  have "authority_run c c'"
    using invalidate unfolding invalidate_key_def
    by (rule authority_run_guarded)
      (auto simp: Let_def authority_run_def split: if_splits option.splits dest!: authority_run_apply [where c = c])
  then show ?case by simp
next
  case (flush io c st c' ts)
  then show ?case by (auto simp: coordinator_flush_def intro: authority_run_persist authority_run_refl)
next
  case (snapshot now ctx i cands expected c t c' ts)
  have "authority_run c c'"
    using snapshot unfolding evaluate_begin_def
    by (rule authority_run_guarded)
      (auto simp: take_snapshot_def authority_run_def split: if_splits option.splits prod.splits sum.splits)
  then show ?case by simp
next
  case (refuse now ctx i cands expected c r c' ts)
  have "authority_run c c'"
    using refuse unfolding evaluate_begin_def
    by (rule authority_run_guarded)
      (auto simp: take_snapshot_def authority_run_def split: if_splits option.splits prod.splits sum.splits)
  then show ?case by simp
next
  case (finish t ts now io c r c')
  then show ?case
    by (auto simp: evaluate_finish_def evaluate_commit_def Let_def authority_run_refl split: sum.splits if_splits prod.splits
        intro: authority_run_apply)
qed

lemma run_ok:
  assumes "coordinator_step\<^sup>*\<^sup>* x y" "coordinator_ok (fst x)" "populations_fit (co_config (fst x))" "tickets_ok (snd x)"
  shows "coordinator_ok (fst y) \<and> tickets_ok (snd y) \<and> authority_run (fst x) (fst y)"
  using assms
proof (induction rule: rtranclp_induct)
  case base
  then show ?case by (simp add: authority_run_refl)
next
  case (step y z)
  then have y: "coordinator_ok (fst y)" "tickets_ok (snd y)" "authority_run (fst x) (fst y)" by blast+
  then have "populations_fit (co_config (fst y))" using step.prems(2) by (simp add: authority_run_def)
  then show ?case
    using step_ok [OF step.hyps(2)] y authority_run_trans [OF y(3) authority_run_step_all [OF step.hyps(2)]] by blast
qed

subsection \<open>Opening\<close>

lemma validate_sets_distinct:
  "validate_sets l seen sets = Ok \<Longrightarrow> distinct (map cs_id sets) \<and> set seen \<inter> cs_id ` set sets = {}"
  by (induction l seen sets rule: validate_sets.induct) (auto split: if_splits)

lemma validate_populations_distinct:
  "validate_populations l ids seen ps = Ok \<Longrightarrow>
   distinct (map po_set_id ps) \<and> set seen \<inter> po_set_id ` set ps = {} \<and> po_set_id ` set ps \<subseteq> set ids"
  by (induction l ids seen ps rule: validate_populations.induct) (auto split: if_splits)

lemma validated_sets_ok:
  assumes "validate_persistent_state s (cf_limits config) = Ok"
  shows "sets_ok config (ps_sets s) (ps_populations s)"
proof -
  have "validate_sets (cf_limits config) [] (ps_sets s) = Ok" "length (ps_sets s) \<le> unat (max_constraint_sets (cf_limits config))"
    "validate_populations (cf_limits config) (map cs_id (ps_sets s)) [] (ps_populations s) = Ok"
    using assms unfolding validate_persistent_state_def Let_def by (auto split: if_splits)
  then show ?thesis
    using validate_sets_distinct [of "cf_limits config" "[]" "ps_sets s"]
      validate_populations_distinct [of "cf_limits config" "map cs_id (ps_sets s)" "[]" "ps_populations s"]
    by (auto simp: sets_ok_def)
qed

lemma results_ok_recovered: "results_ok e sets ps (map recover_record rs)"
  by (simp add: results_ok_def recover_record_def)

lemma finish_open_ok:
  assumes "finish_open now io restored c0 = Inr c" "co_sets c0 = []" "co_populations c0 = []" "co_evaluations c0 = []"
    and "\<forall>s. restored = Some s \<longrightarrow> validate_persistent_state s (co_limits c0) = Ok"
  shows "coordinator_ok c \<and> co_config c = co_config c0 \<and> (\<forall>r\<in>set (co_evaluations c). ev_state r \<noteq> RS_Current)"
proof -
  obtain a where a: "open_authority now restored = Inr a"
    using assms(1) by (auto simp: finish_open_def split: sum.splits)
  let ?c1 = "rebuild_derived (restore_definitions restored (c0\<lparr>co_authority := a\<rparr>))"
  obtain st where p: "persist io (to_state ?c1) ?c1 = (st, c)"
    using assms(1) a by (auto simp: finish_open_def Let_def split: prod.splits if_splits)
  have c: "coordinator_ok c = coordinator_ok ?c1" "co_config c = co_config ?c1" "co_evaluations c = co_evaluations ?c1"
    using persist_irrelevant [OF p] persist_store [OF p] by auto
  show ?thesis
  proof (cases restored)
    case None
    then show ?thesis
      using c assms(2-4) by (simp add: coordinator_ok_def restore_definitions_def definitions_ok_def sets_ok_def results_ok_def)
  next
    case (Some s)
    then show ?thesis
      using c assms(5) validated_sets_ok [of s "co_config c0"]
      by (simp add: coordinator_ok_def restore_definitions_def definitions_ok_def results_ok_recovered)
        (auto simp: recover_record_def)
  qed
qed

lemma load_validated: "store_load rd ds = Inr s \<Longrightarrow> validate_persistent_state s (ds_limits ds) = Ok"
  by (auto simp: store_load_def split: option.splits if_splits sum.splits prod.splits)

lemma store_open_limits: "store_open pe lk rd rn l ai file = Inr ds \<Longrightarrow> ds_limits ds = l"
  by (auto simp: store_open_def Let_def split: if_splits sum.splits)

lemma coordinator_open_ok:
  assumes "coordinator_open config clk now lk rd rn rd2 io file = Inr c"
  shows "coordinator_ok c \<and> co_config c = config \<and> (\<forall>r\<in>set (co_evaluations c). ev_state r \<noteq> RS_Current)"
proof -
  have blank: "co_config (blank_coordinator config) = config" "co_sets (blank_coordinator config) = []"
    "co_populations (blank_coordinator config) = []" "co_evaluations (blank_coordinator config) = []"
    by (simp_all add: blank_coordinator_def)
  consider "finish_open now io None (blank_coordinator config) = Inr c"
    | ds restored where "ds_limits ds = cf_limits config" "load_state config rd2 ds = Inr restored"
        "finish_open now io restored ((blank_coordinator config)\<lparr>co_store := Some ds\<rparr>) = Inr c"
    using assms store_open_limits by (fastforce simp: coordinator_open_def Let_def split: if_splits sum.splits)
  then show ?thesis
  proof cases
    case 1
    then show ?thesis using finish_open_ok [OF 1] blank by simp
  next
    case 2
    have "validate_persistent_state s (cf_limits config) = Ok" if "restored = Some s" for s
      using 2(1,2) that load_validated [of rd2 ds s]
      by (auto simp: load_state_def split: if_splits sum.splits)
    then show ?thesis using finish_open_ok [OF 2(3)] blank by simp
  qed
qed

end
