(* ===== verification/Coordinator_Commit.thy ===== *)
theory Coordinator_Commit
  imports Coordinator_Invariant
begin

text \<open>
  When a commit is accepted, which records it leaves current, what the durable image of a coordinator
  is and what opening makes of it.
\<close>

subsection \<open>Acceptance\<close>

lemma first_family_none:
  "first_family P m RC_None = RC_None \<longleftrightarrow> (\<forall>f\<in>set kFamilies. m AND family_bit f \<noteq> 0 \<longrightarrow> \<not> P f)"
proof
  assume none: "\<forall>f\<in>set kFamilies. m AND family_bit f \<noteq> 0 \<longrightarrow> \<not> P f"
  then have "List.find (\<lambda>family. m AND family_bit family \<noteq> 0 \<and> P family) kFamilies = None"
    by (auto simp: find_None_iff)
  then show "first_family P m RC_None = RC_None" by (simp add: first_family_def)
qed (blast dest: first_family_fresh)

text \<open>The snapshot of a ticket is still what the coordinator holds.\<close>

definition undisturbed :: "evaluation_ticket \<Rightarrow> coordinator \<Rightarrow> bool" where
  "undisturbed t c \<longleftrightarrow>
     (\<exists>live. find_set (co_sets c) (tk_set_id t) = Some live \<and> cs_generation live = cs_generation (tk_set t) \<and>
       cs_digest live = cs_digest (tk_set t) \<and> cs_state live = cs_state (tk_set t)) \<and>
     co_evidence c = tk_evidence t \<and>
     (\<forall>f\<in>set kFamilies. tk_mask t AND family_bit f \<noteq> 0 \<longrightarrow> wm_family (co_watermarks c) f \<le> generation_for (tk_evidence t) f)"

lemma evidence_equal_iff: "evidence_equal a b \<longleftrightarrow> a = b"
  by (auto simp: evidence_equal_def)

lemma staleness_none_iff: "commit_staleness t c = RC_None \<longleftrightarrow> undisturbed t c"
proof (cases "find_set (co_sets c) (tk_set_id t)")
  case None
  then show ?thesis by (simp add: commit_staleness_def undisturbed_def)
next
  case (Some live)
  then show ?thesis
    using first_family_stale
    by (auto simp: commit_staleness_def undisturbed_def evidence_equal_iff first_family_none not_less)
qed

subsection \<open>Current records survive the eviction\<close>

lemma victim_is_old:
  "victim_loop i best rs = Some v \<Longrightarrow>
   (\<exists>g. best = Some (v, g)) \<or> (i \<le> v \<and> v < i + length rs \<and> ev_state (rs ! (v - i)) \<noteq> RS_Current)"
proof (induction i best rs rule: victim_loop.induct)
  case (2 i best r rs)
  have tail: "(r # rs) ! (v - i) = rs ! (v - Suc i)" if "Suc i \<le> v"
    using that by (simp add: nth_Cons')
  show ?case
  proof (cases "ev_state r = RS_Current")
    case True
    then show ?thesis using 2 tail by fastforce
  next
    case old: False
    have head: "ev_state ((r # rs) ! (i - i)) \<noteq> RS_Current" using old by simp
    show ?thesis
      using 2 tail head old by (fastforce split: option.splits prod.splits if_splits)
  qed
qed auto

lemma evict_keeps_current:
  "r \<in> set rs \<Longrightarrow> ev_state r = RS_Current \<Longrightarrow> r \<in> set (evict_loop n limit rs)"
proof (induction n limit rs rule: evict_loop.induct)
  case (2 n limit rs)
  show ?case
  proof (cases "length rs > limit")
    case long: True
    show ?thesis
    proof (cases "victim_loop 0 None rs")
      case None
      then show ?thesis using 2 long by simp
    next
      case (Some v)
      have v: "v < length rs" "ev_state (rs ! v) \<noteq> RS_Current" using victim_is_old [OF Some] by auto
      have "set rs = set (erase_at v rs) \<union> {rs ! v}"
        by (subst id_take_nth_drop [OF v(1)]) (auto simp: erase_at_def)
      then have "r \<in> set (erase_at v rs)" using 2(2,3) v by blast
      then show ?thesis using 2 long Some by simp
    qed
  qed (use 2 in simp)
qed simp

lemma current_after_commit:
  assumes "ev_state r = RS_Current" "\<And>b. b \<in> set bs \<Longrightarrow> ev_set_id b = i"
  shows "r \<in> set (evict_history limit (retire_records i ids rs @ commit_records now bs)) \<and> ev_set_id r = i \<longleftrightarrow>
    r \<in> set (commit_records now bs)"
proof
  assume "r \<in> set (evict_history limit (retire_records i ids rs @ commit_records now bs)) \<and> ev_set_id r = i"
  then have "r \<in> set (retire_records i ids rs @ commit_records now bs)" "ev_set_id r = i"
    using evict_history_subset by blast+
  moreover have "r \<notin> set (retire_records i ids rs)" if "ev_set_id r = i"
  proof
    assume "r \<in> set (retire_records i ids rs)"
    then obtain x where "r = (if ev_set_id x = i \<and> ev_state x \<noteq> RS_StaleAtCommit then x\<lparr>ev_state := RS_Superseded\<rparr> else x)"
      unfolding retire_records_def set_map by blast
    then show False using assms(1) that by (cases "ev_state x") (auto split: if_splits)
  qed
  ultimately show "r \<in> set (commit_records now bs)" by simp
next
  assume r: "r \<in> set (commit_records now bs)"
  then have "r \<in> set (evict_history limit (retire_records i ids rs @ commit_records now bs))"
    unfolding evict_history_def by (intro evict_keeps_current) (simp_all add: assms(1))
  then show "r \<in> set (evict_history limit (retire_records i ids rs @ commit_records now bs)) \<and> ev_set_id r = i"
    using r assms(2) by (auto simp: commit_records_def)
qed

lemma commit_records_state: "r \<in> set (commit_records now bs) \<Longrightarrow> ev_state r = RS_Current"
  by (auto simp: commit_records_def)

subsection \<open>A batch always has a result\<close>

lemma evaluate_batch_total:
  assumes "ctx_set ctx = Some s" "ctx_limits ctx = Some l" "validate_limits l"
  shows "\<exists>b. evaluate_batch ctx candidates = Inr b"
proof -
  let ?can = "drop_duplicates [] (stable_sort candidate_canonical_less candidates)"
  have "\<exists>r. evaluate_candidate ctx c = Inr r" for c
    using evaluate_candidate_admits [OF assms, of c] by blast
  then obtain rs where "traverse (evaluate_candidate ctx) ?can = Inr rs"
    using traverse_total by metis
  then show ?thesis
    using assms(1,2) by (simp add: evaluate_batch_def Let_def)
qed

lemma batch_set_id:
  "evaluate_work l now t = Inr batch \<Longrightarrow> cs_id (tk_set t) = i \<Longrightarrow> b \<in> set (eb_records batch) \<Longrightarrow> ev_set_id b = i"
  using evaluate_batch_member ticket_record(1) unfolding evaluate_work_def by metis

subsection \<open>The durable image\<close>

text \<open>The store holds exactly the encoding of the state the coordinator would save now, and that state
  validates and fits.\<close>

definition durable_image :: "coordinator \<Rightarrow> bool" where
  "durable_image c \<longleftrightarrow> (case co_store c of
      None \<Rightarrow> False
    | Some ds \<Rightarrow> ds_file ds = Some (encode_envelope (encode_persistent_state (to_state c))) \<and>
        validate_persistent_state (to_state c) (ds_limits ds) = Ok \<and>
        length (encode_persistent_state (to_state c)) \<le> unat (max_persistence_record_bytes (ds_limits ds)))"

lemma to_state_store [simp]: "to_state (c\<lparr>co_store := ds\<rparr>) = to_state c"
  by (simp add: to_state_def)

lemma to_state_irrelevant [simp]: "to_state (rebuild_derived c) = to_state c"
  by (simp add: to_state_def)

text \<open>Applying a state that was derived from \<open>to_state\<close> projects back to that state.\<close>

lemma to_state_apply:
  "to_state (apply_state ((to_state c0)\<lparr>ps_evidence := e, ps_watermarks := w, ps_sets := ss, ps_evaluations := rs,
      ps_populations := ps, ps_last_evaluation_generation := g\<rparr>) c) =
     (to_state c)\<lparr>ps_evidence := e, ps_watermarks := w, ps_sets := ss, ps_evaluations := rs,
      ps_populations := ps, ps_last_evaluation_generation := g\<rparr>"
  by (simp add: apply_state_def to_state_def refresh_authority_projection_def)

lemma state_surjective:
  "s = (to_state c)\<lparr>ps_evidence := ps_evidence s, ps_watermarks := ps_watermarks s, ps_sets := ps_sets s,
      ps_evaluations := ps_evaluations s, ps_populations := ps_populations s,
      ps_last_evaluation_generation := ps_last_evaluation_generation s\<rparr> \<Longrightarrow> to_state (apply_state s c) = s"
  by (metis to_state_apply)

lemma persist_writes:
  assumes "persist io s c = (Ok, c')" "co_durable c" "co_store c = Some ds"
  shows "\<exists>ds'. c' = c\<lparr>co_store := Some ds'\<rparr> \<and> ds_file ds' = Some (encode_envelope (encode_persistent_state s)) \<and>
    validate_persistent_state s (ds_limits ds') = Ok \<and>
    length (encode_persistent_state s) \<le> unat (max_persistence_record_bytes (ds_limits ds'))"
  using assms store_save_file [of io s ds] store_save_Ok [of io s ds]
  by (cases "store_save io s ds") (auto simp: persist_def)

lemma persist_image:
  assumes "persist io (to_state c) c = (Ok, c')" "co_durable c" "co_store c = Some ds"
  shows "durable_image c'"
  using persist_writes [OF assms] by (auto simp: durable_image_def)

lemma persist_and_apply_image:
  assumes "persist_and_apply io s c = (Ok, c')" "co_durable c" "co_store c = Some ds" "to_state (apply_state s c) = s"
  shows "durable_image c'"
proof -
  obtain c1 where p: "persist io s c = (Ok, c1)" "c' = apply_state s c1"
    using assms(1) by (auto simp: persist_and_apply_def split: prod.splits if_splits)
  obtain ds' where ds': "c1 = c\<lparr>co_store := Some ds'\<rparr>" "ds_file ds' = Some (encode_envelope (encode_persistent_state s))"
    "validate_persistent_state s (ds_limits ds') = Ok"
    "length (encode_persistent_state s) \<le> unat (max_persistence_record_bytes (ds_limits ds'))"
    using persist_writes [OF p(1) assms(2,3)] by blast
  have "apply_state s c1 = (apply_state s c)\<lparr>co_store := Some ds'\<rparr>"
    by (simp add: ds'(1) apply_state_def rebuild_derived_def split: prod.splits)
  then show ?thesis using assms(4) ds'(2-4) by (simp add: p(2) durable_image_def)
qed

text \<open>The prologue of a mutation whose attempt was not seen before.\<close>

definition fresh_attempt :: "authority_context \<Rightarrow> coordinator \<Rightarrow> bool" where
  "fresh_attempt ctx c \<longleftrightarrow> list_all (\<lambda>r. ma_attempt r \<noteq> ac_attempt ctx) (au_attempts (co_authority c))"

lemma guarded_fresh:
  assumes "guarded now ctx scope d failure k c = (r, c')" "fresh_attempt ctx c"
  shows "(\<exists>st. st \<noteq> Ok \<and> r = failure st \<and> (\<exists>a. c' = c\<lparr>co_authority := a\<rparr>)) \<or> (\<exists>a. k False (c\<lparr>co_authority := a\<rparr>) = (r, c'))"
proof -
  have none: "List.find (\<lambda>record. ma_attempt record = ac_attempt ctx) (au_attempts (co_authority c)) = None"
    using assms(2) by (auto simp: fresh_attempt_def list_all_iff find_None_iff)
  have self: "c = c\<lparr>co_authority := co_authority c\<rparr>" by simp
  have self: "\<exists>a. c = c\<lparr>co_authority := a\<rparr>" using self by blast
  consider st where "st \<noteq> Ok" "r = failure st" "c' = c" | a where "k False (c\<lparr>co_authority := a\<rparr>) = (r, c')"
    | a where "r = failure InvalidArgument" "c' = c\<lparr>co_authority := a\<rparr>"
    using assms(1) none by (auto simp: guarded_def observe_attempt_def Let_def split: if_splits)
  then show ?thesis
  proof cases
    case 1
    then show ?thesis using self by metis
  next
    case 3
    then have "InvalidArgument \<noteq> Ok \<and> r = failure InvalidArgument \<and> (\<exists>a. c' = c\<lparr>co_authority := a\<rparr>)" by auto
    then show ?thesis by blast
  qed blast
qed

subsection \<open>Acknowledged operations\<close>

text \<open>An operation that reports success to its caller.\<close>

inductive acknowledges :: "authority_context \<Rightarrow> coordinator \<Rightarrow> coordinator \<Rightarrow> bool" for ctx c c' where
  register: "coordinator_register_publisher now io ctx p b sc se c = (Inr r, c') \<Longrightarrow> acknowledges ctx c c'"
| fence: "coordinator_fence_boot now1 now2 io ctx b c = (Ok, c') \<Longrightarrow> acknowledges ctx c c'"
| publish: "publish_constraint_set now1 now2 io ctx s c = (Inr s', c') \<Longrightarrow> acknowledges ctx c c'"
| lifecycle: "apply_lifecycle now io ctx i ev c = (Inr s', c') \<Longrightarrow> acknowledges ctx c c'"
| evidence: "set_evidence_requirements now io ctx e c = (Ok, c') \<Longrightarrow> acknowledges ctx c c'"
| invalidate: "invalidate_key now io ctx k c = (Ok, c') \<Longrightarrow> acknowledges ctx c c'"
| commit: "coordinator_evaluate now1 now2 io ctx i cands expected c = (Inr out, c') \<Longrightarrow> oc_committed out \<Longrightarrow>
    acknowledges ctx c c'"

text \<open>The mutation body: a state derived from the coordinator is written and applied.\<close>

lemma apply_image:
  assumes "persist_and_apply io ((to_state c0)\<lparr>ps_evidence := e, ps_watermarks := w, ps_sets := ss, ps_evaluations := rs,
      ps_populations := ps, ps_last_evaluation_generation := g\<rparr>) c = (Ok, c')"
    and "co_durable c" "co_store c = Some ds" "co_authority c0 = co_authority c"
  shows "durable_image c'"
proof (rule persist_and_apply_image [OF assms(1-3)])
  have "(to_state c0)\<lparr>ps_evidence := e, ps_watermarks := w, ps_sets := ss, ps_evaluations := rs,
      ps_populations := ps, ps_last_evaluation_generation := g\<rparr> =
    (to_state c)\<lparr>ps_evidence := e, ps_watermarks := w, ps_sets := ss, ps_evaluations := rs,
      ps_populations := ps, ps_last_evaluation_generation := g\<rparr>"
    using assms(4) by (simp add: to_state_def refresh_authority_projection_def)
  then show "to_state (apply_state ((to_state c0)\<lparr>ps_evidence := e, ps_watermarks := w, ps_sets := ss, ps_evaluations := rs,
      ps_populations := ps, ps_last_evaluation_generation := g\<rparr>) c) = (to_state c0)\<lparr>ps_evidence := e, ps_watermarks := w,
      ps_sets := ss, ps_evaluations := rs, ps_populations := ps, ps_last_evaluation_generation := g\<rparr>"
    by (simp add: to_state_apply)
qed

lemma refresh_to_state [simp]: "refresh_authority_projection (co_authority c) (to_state c) = to_state c"
  by (simp add: to_state_def refresh_authority_projection_def)

text \<open>Updates that write a field back complete an update to the shape above.\<close>

lemma state_shapes:
  "(to_state c)\<lparr>ps_evidence := e, ps_watermarks := w, ps_evaluations := rs\<rparr> =
     (to_state c)\<lparr>ps_evidence := e, ps_watermarks := w, ps_sets := co_sets c, ps_evaluations := rs,
       ps_populations := co_populations c, ps_last_evaluation_generation := co_last_generation c\<rparr>"
  "(to_state c)\<lparr>ps_evaluations := rs\<rparr> =
     (to_state c)\<lparr>ps_evidence := co_evidence c, ps_watermarks := co_watermarks c, ps_sets := co_sets c, ps_evaluations := rs,
       ps_populations := co_populations c, ps_last_evaluation_generation := co_last_generation c\<rparr>"
  "(to_state c)\<lparr>ps_sets := ss, ps_evaluations := rs\<rparr> =
     (to_state c)\<lparr>ps_evidence := co_evidence c, ps_watermarks := co_watermarks c, ps_sets := ss, ps_evaluations := rs,
       ps_populations := co_populations c, ps_last_evaluation_generation := co_last_generation c\<rparr>"
  "(to_state c)\<lparr>ps_evaluations := rs, ps_populations := ps, ps_last_evaluation_generation := g\<rparr> =
     (to_state c)\<lparr>ps_evidence := co_evidence c, ps_watermarks := co_watermarks c, ps_sets := co_sets c, ps_evaluations := rs,
       ps_populations := ps, ps_last_evaluation_generation := g\<rparr>"
  by (simp_all add: to_state_def refresh_authority_projection_def)

lemma change_evidence_image:
  assumes "change_evidence io e c = (Ok, c')" "co_durable c" "co_store c = Some ds"
  shows "durable_image c'"
  using assms by (auto simp: change_evidence_def Let_def state_shapes split: if_splits prod.splits intro: apply_image)

lemma store_definition_image:
  assumes "store_definition io f c = (Inr s, c')" "co_durable c" "co_store c = Some ds"
  shows "durable_image c'"
  using assms by (auto simp: store_definition_def state_shapes split: if_splits prod.splits sum.splits intro: apply_image)

lemma commit_image:
  assumes "evaluate_commit now io batch t c = (Inr out, c')" "oc_committed out" "co_durable c" "co_store c = Some ds"
  shows "durable_image c'"
  using assms
  by (auto simp: evaluate_commit_def commit_state_def state_shapes Let_def split: if_splits prod.splits intro: apply_image)

text \<open>Publisher registration projects the registry it leaves behind.\<close>

lemma register_image:
  assumes run: "coordinator_register_publisher now io ctx p b sc se c = (Inr r, c')"
    and "authority_wf (co_authority c)" "co_durable c" "co_store c = Some ds"
  shows "durable_image c'"
proof -
  obtain reg a where reg: "register_publisher reg (co_limits c) (co_authority c) = (Ok, a)"
    and p: "persist io (refresh_authority_projection a ((to_state c)\<lparr>ps_epoch := au_epoch a\<rparr>)) (c\<lparr>co_authority := a\<rparr>) = (Ok, c')"
    using run by (auto simp: coordinator_register_publisher_def Let_def split: if_splits option.splits prod.splits)
  obtain a1 where "fence_previous reg (co_limits c) [0..<length (au_registrations (co_authority c))] (co_authority c) = (Ok, a1)"
    and "a = a1\<lparr>au_registrations := au_registrations a1 @ [reg]\<rparr>"
    using register_publisher_Ok [OF reg] by metis
  moreover have "au_attempts a1 = au_attempts (co_authority c)"
    using fence_all_keeps [OF assms(2) calculation(1)] by blast
  ultimately have "refresh_authority_projection a ((to_state c)\<lparr>ps_epoch := au_epoch a\<rparr>) = to_state (c\<lparr>co_authority := a\<rparr>)"
    by (simp add: to_state_def refresh_authority_projection_def)
  then show ?thesis using p persist_image [of io "c\<lparr>co_authority := a\<rparr>" c' ds] assms(3,4) by simp
qed

lemma fence_image:
  assumes "coordinator_fence_boot now1 now2 io ctx b c = (Ok, c')" "fresh_attempt ctx c" "co_durable c" "co_store c = Some ds"
  shows "durable_image c'"
proof -
  obtain a where "(case fence_boot b (au_epoch a) now2 (co_limits c) a of
      (st, a) \<Rightarrow> let c1 = c\<lparr>co_authority := a\<rparr> in
        if st \<noteq> Ok then (st, c1) else persist io (refresh_authority_projection a (to_state c1)) c1) = (Ok, c')"
    using guarded_fresh [OF assms(1) [unfolded coordinator_fence_boot_def] assms(2)] by auto
  then obtain a1 where "persist io (refresh_authority_projection a1 (to_state (c\<lparr>co_authority := a1\<rparr>))) (c\<lparr>co_authority := a1\<rparr>) = (Ok, c')"
    by (auto simp: Let_def split: prod.splits if_splits)
  then show ?thesis
    using persist_image [of io "c\<lparr>co_authority := a1\<rparr>" c' ds] refresh_to_state [of "c\<lparr>co_authority := a1\<rparr>"] assms(3,4) by simp
qed

lemma invalidate_image:
  assumes "invalidate_key now io ctx k c = (Ok, c')" "fresh_attempt ctx c" "co_durable c" "co_store c = Some ds"
  shows "durable_image c'"
  using guarded_fresh [OF assms(1) [unfolded invalidate_key_def] assms(2)] assms(3,4)
  by (auto simp: Let_def state_shapes split: option.splits intro: apply_image)

lemma lifecycle_image:
  assumes "apply_lifecycle now io ctx i ev c = (Inr s, c')" "fresh_attempt ctx c" "co_durable c" "co_store c = Some ds"
  shows "durable_image c'"
proof -
  note run = guarded_fresh [OF assms(1) [unfolded apply_lifecycle_def] assms(2)]
  obtain target where target: "find_set (co_sets c) i = Some target"
    using run by (cases "find_set (co_sets c) i") auto
  obtain next_state where "apply_lifecycle_event (cs_state target) ev = Accept next_state"
    using run target by (cases "apply_lifecycle_event (cs_state target) ev") auto
  then have "\<exists>a ss rs. persist_and_apply io ((to_state (c\<lparr>co_authority := a\<rparr>))\<lparr>ps_sets := ss, ps_evaluations := rs\<rparr>)
      (c\<lparr>co_authority := a\<rparr>) = (Ok, c')"
    using run target by (fastforce simp: Let_def split: prod.split_asm if_split_asm option.split_asm)
  then obtain a ss rs where "persist_and_apply io ((to_state (c\<lparr>co_authority := a\<rparr>))\<lparr>ps_sets := ss, ps_evaluations := rs\<rparr>)
      (c\<lparr>co_authority := a\<rparr>) = (Ok, c')"
    by blast
  then show ?thesis
    unfolding state_shapes by (rule apply_image) (use assms(3,4) in simp_all)
qed

lemma evaluate_image:
  assumes "coordinator_evaluate now1 now2 io ctx i cands expected c = (Inr out, c')" "oc_committed out"
    and "fresh_attempt ctx c" "co_durable c" "co_store c = Some ds"
  shows "durable_image c'"
proof -
  obtain r c1 where b: "evaluate_begin now1 ctx i cands expected c = (r, c1)" by force
  obtain t where t: "r = Inr (Inr t)" "evaluate_finish now2 io t c1 = (Inr out, c')"
    using assms(1) b guarded_fresh [OF b [unfolded evaluate_begin_def] assms(3)]
    by (auto simp: coordinator_evaluate_def split: sum.splits prod.splits)
  obtain a g where "c1 = c\<lparr>co_authority := a, co_last_generation := g\<rparr>"
    using evaluate_begin_cases(1) [OF b] by blast
  then have "co_durable c1" "co_store c1 = Some ds" using assms(4,5) by simp_all
  then show ?thesis
    using t(2) commit_image assms(2) by (auto simp: evaluate_finish_def split: sum.splits)
qed

lemma acknowledged_image:
  assumes "acknowledges ctx c c'" "fresh_attempt ctx c" "authority_wf (co_authority c)" "co_durable c" "co_store c = Some ds"
  shows "durable_image c'"
  using assms
proof (induction rule: acknowledges.induct)
  case (publish now1 now2 io s s')
  obtain valid f cts where f: "validate_and_finalize_constraint_set (s\<lparr>cs_declared_tick := now2\<rparr>) (co_limits c) = (valid, f, cts)"
    by (metis prod_cases3)
  obtain a where "store_definition io f (c\<lparr>co_authority := a\<rparr>) = (Inr s', c')"
    using guarded_fresh [OF publish(1) [unfolded publish_constraint_set_def] publish(2)] f by (auto split: if_splits)
  then show ?case by (rule store_definition_image) (use publish in simp_all)
next
  case (evidence now io e)
  then show ?case
    using guarded_fresh [OF evidence(1) [unfolded set_evidence_requirements_def] evidence(2)]
    by (auto intro: change_evidence_image)
qed (blast intro: register_image fence_image lifecycle_image invalidate_image evaluate_image)+

lemma image_loads:
  assumes "durable_image c"
  shows "\<exists>ds. co_store c = Some ds \<and> ds_file ds = Some (encode_envelope (encode_persistent_state (to_state c))) \<and>
    (state_wire (ds_limits ds) (to_state c) \<longrightarrow> store_load Readable ds = Inr (normal_state (to_state c)))"
  using assms load_of_encoding by (auto simp: durable_image_def split: option.splits)

subsection \<open>An evaluation that meets no other operation\<close>

text \<open>The state after an accepted commit of a coordinator without a store.\<close>

lemma commit_in_memory:
  assumes "undisturbed t c" "\<not> co_durable c"
  shows "\<exists>out. evaluate_commit now io batch t c = (Inr out, apply_state (commit_state now batch t c) c) \<and>
    oc_committed out \<and> eb_records (oc_batch out) = commit_records now (eb_records batch)"
  using assms by (simp add: evaluate_commit_def Let_def staleness_none_iff persist_and_apply_def persist_def)

lemma begin_fresh:
  assumes "authorize (co_authority c) ctx (scope_bit PublishEvaluation) = Ok" "fresh_attempt ctx c"
    and "find_set (co_sets c) i = Some s" "length cands \<le> unat (max_batch_size (co_limits c))"
    and "co_last_generation c < kMaxGeneration"
  obtains a where "evaluate_begin now ctx i cands expected c =
    (Inr (Inr \<lparr> tk_context = ctx, tk_set_id = i, tk_candidates = cands, tk_expected = expected,
       tk_generation = co_last_generation c + 1, tk_set = s, tk_evidence = co_evidence c, tk_mask = consulted_mask s \<rparr>),
     c\<lparr>co_authority := a, co_last_generation := co_last_generation c + 1\<rparr>)"
    "authorize a = authorize (co_authority c)"
proof -
  have none: "List.find (\<lambda>record. ma_attempt record = ac_attempt ctx) (au_attempts (co_authority c)) = None"
    using assms(2) by (auto simp: fresh_attempt_def list_all_iff find_None_iff)
  have "ac_attempt ctx \<noteq> 0"
    using assms(1) by (auto simp: authorize_def context_complete_def is_valid_def split: if_splits)
  moreover have "next_gen (co_last_generation c) = Some (co_last_generation c + 1)"
    using assms(5) by (simp add: next_gen_def)
  moreover have "authorize (co_authority c\<lparr>au_attempts := ms\<rparr>) = authorize (co_authority c)" for ms
    by (intro ext) (simp add: authorize_def is_boot_fenced_def)
  ultimately show thesis
    using that assms(1,3,4) none
    by (simp add: evaluate_begin_def guarded_def observe_attempt_def is_valid_def take_snapshot_def Let_def)
qed

lemma members_by_state:
  "(\<And>r. P r \<Longrightarrow> r \<in> A \<and> Q r \<longleftrightarrow> r \<in> B) \<Longrightarrow> (\<And>r. r \<in> B \<Longrightarrow> P r) \<Longrightarrow> {r \<in> A. Q r \<and> P r} = B"
  by blast

lemma evaluation_commits:
  assumes "validate_limits (co_limits c)" "\<not> co_durable c"
    and "authorize (co_authority c) ctx (scope_bit PublishEvaluation) = Ok" "fresh_attempt ctx c"
    and "find_set (co_sets c) i = Some s" "length cands \<le> unat (max_batch_size (co_limits c))"
    and "co_last_generation c < kMaxGeneration"
    and "\<forall>f\<in>set kFamilies. wm_family (co_watermarks c) f \<le> generation_for (co_evidence c) f"
  obtains out c' batch where "coordinator_evaluate now1 now2 io ctx i cands expected c = (Inr out, c')" "oc_committed out"
    "{r \<in> set (co_evaluations c'). ev_set_id r = i \<and> ev_state r = RS_Current} = set (eb_records (oc_batch out))"
    "co_last_generation c' = co_last_generation c + 1"
    "evaluate_batch (ticket_context (co_limits c) now2 \<lparr> tk_context = ctx, tk_set_id = i, tk_candidates = cands,
       tk_expected = expected, tk_generation = co_last_generation c + 1, tk_set = s, tk_evidence = co_evidence c,
       tk_mask = consulted_mask s \<rparr>) cands = Inr batch"
    "eb_records (oc_batch out) = commit_records now2 (eb_records batch)"
    "authorize (co_authority c') = authorize (co_authority c)"
proof -
  let ?t = "\<lparr> tk_context = ctx, tk_set_id = i, tk_candidates = cands, tk_expected = expected,
       tk_generation = co_last_generation c + 1, tk_set = s, tk_evidence = co_evidence c, tk_mask = consulted_mask s \<rparr>"
  obtain a where begin_eq: "evaluate_begin now1 ctx i cands expected c =
      (Inr (Inr ?t), c\<lparr>co_authority := a, co_last_generation := co_last_generation c + 1\<rparr>)"
    and auth: "authorize a = authorize (co_authority c)"
    by (rule begin_fresh [OF assms(3-7)])
  let ?c1 = "c\<lparr>co_authority := a, co_last_generation := co_last_generation c + 1\<rparr>"
  obtain batch where batch: "evaluate_batch (ticket_context (co_limits c) now2 ?t) cands = Inr batch"
    using evaluate_batch_total [of "ticket_context (co_limits c) now2 ?t" s "co_limits c" cands] assms(1)
    by (auto simp: ticket_context_def)
  then have work: "evaluate_work (co_limits c) now2 ?t = Inr batch" by (simp add: evaluate_work_def)
  have "undisturbed ?t ?c1" using assms(5,8) by (simp add: undisturbed_def)
  then obtain out where out: "evaluate_commit now2 io batch ?t ?c1 = (Inr out, apply_state (commit_state now2 batch ?t ?c1) ?c1)"
    "oc_committed out" "eb_records (oc_batch out) = commit_records now2 (eb_records batch)"
    using commit_in_memory [of ?t ?c1 now2 io batch] assms(2) by auto
  let ?c' = "apply_state (commit_state now2 batch ?t ?c1) ?c1"
  have ids: "ev_set_id b = i" if "b \<in> set (eb_records batch)" for b
    using batch_set_id [OF work _ that] find_set_id [OF assms(5)] by simp
  have cur: "r \<in> set (co_evaluations ?c') \<and> ev_set_id r = i \<longleftrightarrow> r \<in> set (commit_records now2 (eb_records batch))"
    if "ev_state r = RS_Current" for r
    using current_after_commit [OF that ids] by (simp add: apply_state_def commit_state_def)
  have "{r \<in> set (co_evaluations ?c'). ev_set_id r = i \<and> ev_state r = RS_Current} = set (eb_records (oc_batch out))"
    unfolding out(3) by (rule members_by_state [OF cur commit_records_state])
  moreover have "co_last_generation ?c' = co_last_generation c + 1"
    by (simp add: apply_state_def commit_state_def)
  moreover have "coordinator_evaluate now1 now2 io ctx i cands expected c = (Inr out, ?c')"
    using begin_eq work out(1) by (simp add: coordinator_evaluate_def evaluate_finish_def)
  moreover have "authorize (co_authority ?c') = authorize (co_authority c)"
    using auth by (simp add: apply_state_def)
  ultimately show thesis using that [OF _ out(2) _ _ batch out(3)] by blast
qed

lemma evaluate_steps:
  assumes "coordinator_evaluate now1 now2 io ctx i cands expected c = (r, c')"
  shows "coordinator_step\<^sup>*\<^sup>* (c, ts) (c', ts)"
proof -
  obtain b c1 where b: "evaluate_begin now1 ctx i cands expected c = (b, c1)" by force
  show ?thesis
  proof (cases "\<exists>t. b = Inr (Inr t)")
    case False
    then have "c' = c1" using assms b by (auto simp: coordinator_evaluate_def split: sum.splits)
    then show ?thesis using coordinator_step.refuse [OF b] by blast
  next
    case True
    then obtain t where t: "b = Inr (Inr t)" by blast
    have "coordinator_step (c, ts) (c1, t # ts)" using coordinator_step.snapshot b t by blast
    moreover have "coordinator_step (c1, t # ts) (c', remove1 t (t # ts))"
      by (rule coordinator_step.finish) (use assms b t in \<open>simp_all add: coordinator_evaluate_def\<close>)
    ultimately show ?thesis by simp
  qed
qed

lemma single_batch:
  assumes "ctx_set ctx = Some s" "ctx_limits ctx = Some l" "validate_limits l"
    and "0 < unat (max_candidates_per_evaluation l)" "0 < unat (max_batch_size l)"
  obtains b r where "evaluate_batch ctx [cand] = Inr b" "eb_records b = [r]" "evaluate_candidate ctx cand = Inr r"
proof -
  obtain r where "evaluate_candidate ctx cand = Inr r"
    using evaluate_candidate_admits [OF assms(1-3), of cand] by blast
  moreover have "stable_sort candidate_canonical_less [cand] = [cand]" by (simp add: stable_sort_def)
  ultimately show thesis
    using that assms by (simp add: evaluate_batch_def Let_def)
qed

end
