(* ===== verification/Recovery.thy ===== *)
theory Recovery
  imports Coordinator_Commit
begin

text \<open>
  What \<open>Coordinator::open\<close> makes of a stored state: the next epoch, every boot of the previous
  incarnation fenced, no live authority, the definitions restored and no result current.
\<close>

subsection \<open>The restored registry\<close>

definition fenced_ok :: "(worker_boot_id \<times> fenced_boot_record) list \<Rightarrow> bool" where
  "fenced_ok m \<longleftrightarrow> om_sorted m \<and> (\<forall>(b, r) \<in> set m. fb_boot r = b \<and> b \<noteq> 0)"

lemma fenced_ok_emplace:
  assumes "fenced_ok m" "fb_boot r \<noteq> 0"
  shows "fenced_ok (om_emplace (fb_boot r) r m)"
proof -
  have sorted: "om_sorted m" "om_sorted (om_emplace (fb_boot r) r m)"
    using assms(1) by (simp_all add: fenced_ok_def om_sorted_emplace)
  then show ?thesis
    using assms unfolding fenced_ok_def
    by (auto simp: om_find_iff [OF sorted(2), symmetric] om_find_emplace om_find_iff split: if_splits option.splits)
qed

lemma restore_foldl:
  assumes "fenced_ok m"
  defines "f \<equiv> \<lambda>m record. if is_valid (fb_boot record) then om_emplace (fb_boot record) record m else m"
  shows "fenced_ok (foldl f m fs) \<and>
    (om_find (foldl f m fs) b \<noteq> None \<longleftrightarrow> om_find m b \<noteq> None \<or> b \<noteq> 0 \<and> b \<in> fb_boot ` set fs)"
  using assms(1)
proof (induction fs arbitrary: m)
  case (Cons r fs)
  have "fenced_ok (f m r)" using Cons.prems fenced_ok_emplace by (simp add: f_def is_valid_def)
  then show ?case using Cons.IH [of "f m r"] by (auto simp: f_def is_valid_def om_find_emplace)
qed simp

lemma restored_registry:
  shows "authority_wf (restore_durable_state e fs)"
    and "is_boot_fenced (restore_durable_state e fs) b \<longleftrightarrow> b \<noteq> 0 \<and> b \<in> fb_boot ` set fs"
    and "au_epoch (restore_durable_state e fs) = e"
    and "au_registrations (restore_durable_state e fs) = []" "au_attempts (restore_durable_state e fs) = []"
  using restore_foldl [of "[]" fs b]
  by (simp_all add: restore_durable_state_def authority_wf_def fenced_wf_def fenced_ok_def is_boot_fenced_def)

lemma fence_restored_boots: "fb_boot ` set (fence_restored e now fs bs) = fb_boot ` set fs \<union> set bs"
proof (induction e now fs bs rule: fence_restored.induct)
  case (2 e now fs b bs)
  show ?case
    unfolding fence_restored.simps 2 by (auto simp: list_ex_iff)
qed simp

lemma next_gen_Suc: "next_gen g = Some g' \<Longrightarrow> g' = g + 1"
  by (auto simp: next_gen_def split: if_splits)

text \<open>Every way of opening gives a well-formed registry with a valid epoch and no live authority.\<close>

lemma open_authority_wf:
  assumes "open_authority now restored = Inr a"
  shows "authority_wf a \<and> au_registrations a = [] \<and> au_attempts a = [] \<and> au_epoch a \<noteq> 0"
proof -
  obtain e a0 where a: "establish_epoch e a0 = (Ok, a)" "authority_wf a0" "au_registrations a0 = []" "au_attempts a0 = []"
    using assms restored_registry
    by (auto simp: open_authority_def empty_authority_def split: option.splits if_splits sum.splits prod.splits)
      (simp_all add: authority_wf_def fenced_wf_def)
  then show ?thesis
    using wf_establish [OF a(2), of e] by (auto simp: establish_epoch_def is_valid_def split: if_splits)
qed

lemma open_authority_restored:
  assumes "open_authority now (Some s) = Inr a" "ps_epoch s \<noteq> 0"
  shows "au_epoch a = ps_epoch s + 1" "ps_epoch s < au_epoch a"
    and "is_boot_fenced a b \<longleftrightarrow> b \<noteq> 0 \<and> (b \<in> set (ps_live_boots s) \<or> b \<in> fb_boot ` set (ps_fenced_boots s))"
proof -
  let ?r = "restore_durable_state (ps_epoch s) (fence_restored (ps_epoch s) now (ps_fenced_boots s) (ps_live_boots s))"
  obtain e where e: "next_gen (ps_epoch s) = Some e" "establish_epoch e ?r = (Ok, a)"
    using assms by (auto simp: open_authority_def is_valid_def split: option.splits if_splits sum.splits prod.splits)
  then show "au_epoch a = ps_epoch s + 1" "ps_epoch s < au_epoch a"
    using next_gen_Suc [OF e(1)] restored_registry(3) assms(2)
    by (auto simp: establish_epoch_def is_valid_def split: if_splits)
  have "au_fenced a = au_fenced ?r" using e(2) by (auto simp: establish_epoch_def split: if_splits)
  then show "is_boot_fenced a b \<longleftrightarrow> b \<noteq> 0 \<and> (b \<in> set (ps_live_boots s) \<or> b \<in> fb_boot ` set (ps_fenced_boots s))"
    using restored_registry(2) [of "ps_epoch s"] fence_restored_boots by (auto simp: is_boot_fenced_def)
qed

subsection \<open>Opening\<close>

lemma finish_open_parts:
  assumes "finish_open now io restored c0 = Inr c"
  obtains a ds where "open_authority now restored = Inr a"
    "c = (rebuild_derived (restore_definitions restored (c0\<lparr>co_authority := a\<rparr>)))\<lparr>co_store := ds\<rparr>"
    "co_durable c0 \<Longrightarrow> co_store c0 \<noteq> None \<Longrightarrow> durable_image c"
proof -
  obtain a where a: "open_authority now restored = Inr a"
    using assms by (auto simp: finish_open_def split: sum.splits)
  let ?c1 = "rebuild_derived (restore_definitions restored (c0\<lparr>co_authority := a\<rparr>))"
  have p: "persist io (to_state ?c1) ?c1 = (Ok, c)"
    using assms a by (auto simp: finish_open_def Let_def split: prod.splits if_splits)
  obtain ds where ds: "c = ?c1\<lparr>co_store := ds\<rparr>" using persist_store [OF p] by blast
  have "co_durable ?c1 = co_durable c0" "co_store ?c1 = co_store c0"
    by (simp_all add: restore_definitions_def split: option.splits)
  then have "durable_image c" if "co_durable c0" "co_store c0 \<noteq> None"
    using persist_image [OF p] that by auto
  then show thesis using that a ds by blast
qed

lemma open_wf:
  assumes "coordinator_open config clk now lk rd rn rd2 io file = Inr c"
  shows "authority_wf (co_authority c) \<and> au_registrations (co_authority c) = [] \<and> au_epoch (co_authority c) \<noteq> 0"
proof -
  obtain restored c0 where f: "finish_open now io restored c0 = Inr c"
    using assms by (auto simp: coordinator_open_def Let_def split: if_splits sum.splits)
  obtain a ds where a: "open_authority now restored = Inr a"
    and "c = (rebuild_derived (restore_definitions restored (c0\<lparr>co_authority := a\<rparr>)))\<lparr>co_store := ds\<rparr>"
    by (rule finish_open_parts [OF f])
  moreover have "co_authority (restore_definitions restored x) = co_authority x" for x
    by (simp add: restore_definitions_def split: option.splits)
  ultimately show ?thesis using open_authority_wf [OF a] by simp
qed

text \<open>The store a durable coordinator is opened on.\<close>

definition store_at :: "coordinator_config \<Rightarrow> byte list option \<Rightarrow> durable_store" where
  "store_at config file = \<lparr> ds_limits = cf_limits config, ds_writes = 0, ds_failures = 0, ds_file = file \<rparr>"

lemma open_restores:
  assumes "coordinator_open config clk now lk Readable rn Readable io (Some raw) = Inr c"
    and "cf_store_path config \<noteq> []" "store_load Readable (store_at config (Some raw)) = Inr s"
  obtains ds where "finish_open now io (Some s) ((blank_coordinator config)\<lparr>co_store := Some ds\<rparr>) = Inr c"
proof -
  have "co_durable (blank_coordinator config)" using assms(2) by (simp add: blank_coordinator_def)
  then show thesis
    using assms that [of "store_at config (Some raw)"]
    by (auto simp: coordinator_open_def store_open_def load_state_def store_exists_def Let_def store_at_def [symmetric]
        split: if_splits) (simp_all add: store_at_def)
qed

end
