(* ===== verification/Coordinator_Samples.thy ===== *)
theory Coordinator_Samples
  imports Recovery Set_Properties
begin

text \<open>
  A run of the coordinator on concrete values: opened in memory, a publisher registers, publishes the
  sample set, activates it, and evaluates the sample candidate, which ends as a current admissible
  result.
\<close>

definition sample_config :: coordinator_config where
  "sample_config = \<lparr> cf_limits = default_limits, cf_store_path = [],
     cf_grants = [\<lparr> gr_publisher = 5, gr_scopes = 127 \<rparr>], cf_allow_initialize = True,
     cf_evidence = sample_requirements, cf_max_candidate_populations = 64 \<rparr>"

definition attempt_context :: "mutation_attempt_id \<Rightarrow> authority_context" where
  "attempt_context m = \<lparr> ac_epoch = 1, ac_publisher = 5, ac_worker_boot = 3, ac_attempt = m,
     ac_request = 1, ac_session = 9, ac_scopes = 127 \<rparr>"

definition run_registration :: publisher_registration where
  "run_registration = \<lparr> pr_publisher = 5, pr_boot = 3, pr_session = 9, pr_scopes = 127,
     pr_registered_tick = 1, pr_registered_at = 1, pr_live = True \<rparr>"

definition run_authority :: "mutation_attempt_record list \<Rightarrow> authority_registry" where
  "run_authority ms = \<lparr> au_epoch = 1, au_fenced = [], au_registrations = [run_registration], au_attempts = ms \<rparr>"

definition sample_opened :: coordinator where
  "sample_opened = (blank_coordinator sample_config)\<lparr>co_authority := empty_authority\<lparr>au_epoch := 1\<rparr>\<rparr>"

definition sample_at :: "mutation_attempt_record list \<Rightarrow> constraint_set list \<Rightarrow> coordinator" where
  "sample_at ms sets = (blank_coordinator sample_config)\<lparr>co_authority := run_authority ms, co_sets := sets\<rparr>"

definition attempt_at :: "mutation_attempt_id \<Rightarrow> digest256 \<Rightarrow> mutation_attempt_record" where
  "attempt_at m d = \<lparr> ma_attempt = m, ma_payload = d, ma_recorded_tick = 1 \<rparr>"

lemma default_limit_values:
  "unat (max_mutation_attempts default_limits) = 256" "unat (max_constraint_sets default_limits) = 64"
  "unat (max_batch_size default_limits) = 64" "unat (max_publishers default_limits) = 32"
  by (simp_all add: default_limits_def)

lemma blank_fields [simp]:
  "co_config (blank_coordinator f) = f" "co_store (blank_coordinator f) = None"
  "co_authority (blank_coordinator f) = empty_authority" "co_evidence (blank_coordinator f) = cf_evidence f"
  "co_watermarks (blank_coordinator f) = empty_watermarks" "co_sets (blank_coordinator f) = []"
  "co_evaluations (blank_coordinator f) = []" "co_populations (blank_coordinator f) = []"
  "co_current (blank_coordinator f) = []" "co_index (blank_coordinator f) = empty_index"
  "co_last_generation (blank_coordinator f) = 0" "co_durable (blank_coordinator f) = (cf_store_path f \<noteq> [])"
  by (simp_all add: blank_coordinator_def)

lemma config_fields [simp]:
  "cf_limits sample_config = default_limits" "cf_store_path sample_config = []"
  "cf_evidence sample_config = sample_requirements" "cf_max_candidate_populations sample_config = 64"
  "find_grant (cf_grants sample_config) 5 = Some 127"
  by (simp_all add: sample_config_def find_grant_def)

lemma sample_config_fits: "populations_fit sample_config"
  by (simp add: populations_fit_def default_limit_values)

lemma run_open: "coordinator_open sample_config True 1 True Readable True Readable Ok None = Inr sample_opened"
proof -
  have "rebuild_derived (restore_definitions None ((blank_coordinator sample_config)\<lparr>co_authority := empty_authority\<lparr>au_epoch := 1\<rparr>\<rparr>)) = sample_opened"
    by (simp add: sample_opened_def restore_definitions_def rebuild_derived_def blank_coordinator_def)
  moreover have "co_durable sample_opened = False" by (simp add: sample_opened_def)
  ultimately show ?thesis
    by (simp add: coordinator_open_def validate_default_limits finish_open_def open_authority_def establish_epoch_def
        empty_authority_def is_valid_def persist_def)
qed

lemma run_register:
  "coordinator_register_publisher 1 Ok (attempt_context 1) 5 3 127 9 sample_opened = (Inr run_registration, sample_at [] [])"
proof -
  have "register_publisher run_registration default_limits (empty_authority\<lparr>au_epoch := 1\<rparr>) = (Ok, run_authority [])"
    by (simp add: register_publisher_def run_registration_def run_authority_def empty_authority_def is_valid_def
        is_boot_fenced_def live_publishers_def live_sessions_def live_session_set_def default_limits_def)
  then show ?thesis
    by (simp add: coordinator_register_publisher_def sample_opened_def attempt_context_def is_valid_def
        run_registration_def sample_at_def persist_def Let_def)
qed

lemma sample_at_fields [simp]:
  "co_sets (sample_at ms sets) = sets" "co_evaluations (sample_at ms sets) = []" "co_limits (sample_at ms sets) = default_limits"
  "co_config (sample_at ms sets) = sample_config" "co_durable (sample_at ms sets) = False"
  "co_evidence (sample_at ms sets) = sample_requirements" "co_watermarks (sample_at ms sets) = empty_watermarks"
  "co_last_generation (sample_at ms sets) = 0" "co_authority (sample_at ms sets) = run_authority ms"
  by (simp_all add: sample_at_def)

lemma sample_at_authority: "(sample_at ms sets)\<lparr>co_authority := run_authority ms'\<rparr> = sample_at ms' sets"
  by (simp add: sample_at_def blank_coordinator_def)

text \<open>The prologue of a mutation of the registered publisher with a new attempt.\<close>

lemma run_guarded:
  assumes "m \<noteq> 0" "m \<notin> ma_attempt ` set ms" "length ms < 256" "127 AND scope_bit scope = scope_bit scope"
  shows "guarded 1 (attempt_context m) scope d failure k (sample_at ms sets) = k False (sample_at (ms @ [attempt_at m d]) sets)"
proof -
  have "authorize (run_authority ms) (attempt_context m) (scope_bit scope) = Ok"
    using assms(1,4) by (simp add: authorize_def context_complete_def attempt_context_def run_authority_def
        run_registration_def is_valid_def is_boot_fenced_def)
  moreover have "observe_attempt m d 1 default_limits (run_authority ms) = (Inr Fresh, run_authority (ms @ [attempt_at m d]))"
    using assms(1-3) find_None_iff [of "\<lambda>r. ma_attempt r = m" ms]
    by (auto simp: observe_attempt_def is_valid_def run_authority_def attempt_at_def default_limit_values Let_def)
  moreover have "ac_attempt (attempt_context m) = m" by (simp add: attempt_context_def)
  ultimately show ?thesis
    by (simp add: guarded_def sample_at_authority)
qed

lemma persist_memory: "persist_and_apply io s (sample_at ms sets) = (Ok, apply_state s (sample_at ms sets))"
  by (simp add: persist_and_apply_def persist_def sample_at_def)

lemma apply_sets:
  "apply_state ((to_state (sample_at ms sets))\<lparr>ps_sets := sets', ps_evaluations := []\<rparr>) (sample_at ms sets) = sample_at ms sets'"
  by (simp add: apply_state_def to_state_def refresh_authority_projection_def rebuild_derived_def sample_at_def
      blank_coordinator_def)

definition published_set :: constraint_set where
  "published_set = sample_set\<lparr>cs_state := Declared\<rparr>"

lemma run_publish:
  "publish_constraint_set 1 0 Ok (attempt_context 1) sample_unsorted (sample_at [] []) =
     (Inr published_set, sample_at [attempt_at 1 (publish_digest sample_unsorted)] [published_set])"
proof -
  have s: "sample_unsorted\<lparr>cs_declared_tick := 0\<rparr> = sample_unsorted"
    by (simp add: sample_unsorted_def sample_body_def)
  have gen: "sample_set\<lparr>cs_generation := 1, cs_state := Declared\<rparr> = published_set" "cs_id published_set = 5"
    by (simp_all add: published_set_def sample_set_def sample_body_def)
  show ?thesis
    unfolding publish_constraint_set_def
    by (subst run_guarded)
      (simp_all add: s sample_finalize store_definition_def assign_generation_def find_set_def default_limit_values
        gen persist_memory mark_dependents_def apply_sets)
qed

lemma run_activate:
  "apply_lifecycle 1 Ok (attempt_context 2) 5 Activate (sample_at [attempt_at 1 d] [published_set]) =
     (Inr sample_set, sample_at [attempt_at 1 d, attempt_at 2 (lifecycle_digest 5 Activate)] [sample_set])"
proof -
  have gen: "published_set\<lparr>cs_state := Active\<rparr> = sample_set" "cs_id published_set = 5" "cs_id sample_set = 5" "cs_state published_set = Declared"
    by (simp_all add: published_set_def sample_set_def sample_body_def)
  show ?thesis
    unfolding apply_lifecycle_def
    by (subst run_guarded) (simp_all add: attempt_at_def [of 1] find_set_def gen persist_memory apply_sets)
qed

end
