(* ===== verification/Coordinator_Properties.thy ===== *)
theory Coordinator_Properties
  imports Coordinator_Samples
begin

text \<open>
  What the coordinator promises, over every interleaving of its operations: current results are bound
  to the live definitions and evidence, stale completions leave nothing behind, an uncontended
  evaluation commits, invalidation is precise, fenced boots stay out, acknowledged mutations are
  durable and a restart restores definitions without authority or current results.
\<close>

subsection \<open>Commit\<close>



subsection \<open>The sample run\<close>

lemma run_gates: "gates_open (ticket_context default_limits 1 t) sample_set default_limits (sample_candidate 9)"
  if "tk_set t = sample_set" "tk_evidence t = sample_requirements" "tk_expected t = 0"
    "tk_context t = attempt_context 3"
proof -
  have "\<forall>f\<in>set currentness_families. family_current sample_requirements (sample_candidate 9) f"
    by code_simp
  then show ?thesis
    using sample_verified sample_candidate_valid that
    by (simp add: gates_open_def caller_known_def legally_authorised_def evidence_young_def
        cost_model_agrees_def ticket_context_def sample_requirements_def sample_candidate_def
        sample_set_fields default_ranking_policy_def attempt_context_def)
qed

definition run_active :: coordinator where
  "run_active = sample_at [attempt_at 1 (publish_digest sample_unsorted), attempt_at 2 (lifecycle_digest 5 Activate)] [sample_set]"

lemma run_to_active: "coordinator_step\<^sup>*\<^sup>* (sample_opened, ts) (run_active, ts)"
proof -
  have "coordinator_step (sample_opened, ts) (sample_at [] [], ts)"
    by (rule coordinator_step.register [OF run_register])
  also have "coordinator_step\<^sup>*\<^sup>* (sample_at [] [], ts) (sample_at [attempt_at 1 (publish_digest sample_unsorted)] [published_set], ts)"
    by (rule r_into_rtranclp, rule coordinator_step.publish [OF run_publish])
  also have "coordinator_step (sample_at [attempt_at 1 (publish_digest sample_unsorted)] [published_set], ts) (run_active, ts)"
    unfolding run_active_def by (rule coordinator_step.lifecycle [OF run_activate])
  finally show ?thesis .
qed

lemma run_active_ready:
  "validate_limits (co_limits run_active)" "\<not> co_durable run_active"
  "authorize (co_authority run_active) (attempt_context 3) (scope_bit PublishEvaluation) = Ok"
  "fresh_attempt (attempt_context 3) run_active" "find_set (co_sets run_active) 5 = Some sample_set"
  "length [sample_candidate 9] \<le> unat (max_batch_size (co_limits run_active))"
  "co_last_generation run_active < kMaxGeneration"
  "\<forall>f\<in>set kFamilies. wm_family (co_watermarks run_active) f \<le> generation_for (co_evidence run_active) f"
proof -
  show "authorize (co_authority run_active) (attempt_context 3) (scope_bit PublishEvaluation) = Ok"
    by (simp add: run_active_def authorize_def context_complete_def attempt_context_def run_authority_def
        run_registration_def is_valid_def is_boot_fenced_def)
  show "fresh_attempt (attempt_context 3) run_active"
    by (simp add: run_active_def fresh_attempt_def run_authority_def attempt_at_def attempt_context_def)
qed (simp_all add: run_active_def validate_default_limits find_set_def sample_set_fields default_limit_values
      kMaxGeneration_def empty_watermarks_def wm_family_def)



lemma run_result:
  obtains c r where "coordinator_step\<^sup>*\<^sup>* (sample_opened, []) (c, [])" "r \<in> set (co_evaluations c)"
    "ev_set_id r = 5" "ev_state r = RS_Current" "is_admissible (ev_outcome r)"
    "authorize (co_authority c) = authorize (co_authority run_active)"
proof -
  let ?t = "\<lparr> tk_context = attempt_context 3, tk_set_id = 5, tk_candidates = [sample_candidate 9], tk_expected = 0,
       tk_generation = co_last_generation run_active + 1, tk_set = sample_set, tk_evidence = co_evidence run_active,
       tk_mask = consulted_mask sample_set \<rparr>"
  let ?ctx = "ticket_context (co_limits run_active) 1 ?t"
  obtain out c' batch where ev: "coordinator_evaluate 1 1 Ok (attempt_context 3) 5 [sample_candidate 9] 0 run_active = (Inr out, c')"
    and cur: "{r \<in> set (co_evaluations c'). ev_set_id r = 5 \<and> ev_state r = RS_Current} = set (eb_records (oc_batch out))"
    and batch: "evaluate_batch ?ctx [sample_candidate 9] = Inr batch" "eb_records (oc_batch out) = commit_records 1 (eb_records batch)"
    and auth: "authorize (co_authority c') = authorize (co_authority run_active)"
    by (rule evaluation_commits [OF run_active_ready])
  have ctx: "ctx_set ?ctx = Some sample_set" "ctx_limits ?ctx = Some default_limits" "ctx_current ?ctx = sample_requirements"
    by (simp_all add: ticket_context_def run_active_def)
  obtain b r where r: "evaluate_batch ?ctx [sample_candidate 9] = Inr b" "eb_records b = [r]" "evaluate_candidate ?ctx (sample_candidate 9) = Inr r"
    by (rule single_batch [OF ctx(1,2) validate_default_limits]) (simp_all add: default_limits_def)
  have "gates_open ?ctx sample_set default_limits (sample_candidate 9)"
    using run_gates [of ?t] by (simp add: run_active_def)
  then have "is_admissible (ev_outcome r)"
    using evaluate_candidate_admits [OF ctx(1,2) validate_default_limits, of "sample_candidate 9"] r(3) sample_satisfied ctx(3) by auto
  let ?r = "r\<lparr>ev_state := RS_Current, ev_committed_tick := 1\<rparr>"
  have "?r \<in> set (eb_records (oc_batch out))" using batch r(1,2) by (simp add: commit_records_def)
  then have "?r \<in> set (co_evaluations c') \<and> ev_set_id ?r = 5" using cur by blast
  moreover have "coordinator_step\<^sup>*\<^sup>* (sample_opened, []) (c', [])"
    using run_to_active [of "[]"] evaluate_steps [OF ev, of "[]"] by simp
  ultimately show thesis using that [of c' ?r] auth \<open>is_admissible (ev_outcome r)\<close> by simp
qed

lemma handoffs_members:
  assumes "handoffs c ctx i = Inr hs"
  shows "set hs = handoff_of ` {r \<in> set (co_evaluations c). ev_set_id r = i \<and> ev_state r = RS_Current}"
  using assms by (auto simp: handoffs_def Let_def split: if_splits)

subsection \<open>Current results\<close>



subsection \<open>Fencing\<close>

lemma steps_authority_run:
  "coordinator_step\<^sup>*\<^sup>* x y \<Longrightarrow> authority_run (fst x) (fst y)"
proof (induction rule: rtranclp_induct)
  case (step y z)
  then show ?case using authority_run_trans authority_run_step_all by blast
qed (simp add: authority_run_refl)

lemma guarded_refused:
  "authorize (co_authority c) ctx (scope_bit scope) = e \<Longrightarrow> e \<noteq> Ok \<Longrightarrow> guarded now ctx scope d failure k c = (failure e, c)"
  by (simp add: guarded_def)

lemma fenced_refused:
  assumes "is_boot_fenced a (ac_worker_boot ctx)"
  obtains e where "e \<noteq> Ok" "\<And>required. authorize a ctx required = e"
  using assms that [of "authorize a ctx 0"] by (simp add: authorize_def)


text \<open>The sample publisher loses its session; its boot is fenced.\<close>

definition run_lost :: coordinator where
  "run_lost = snd (fence_on_session_loss 1 Ok 9 (sample_at [] []))"

lemma run_lost_fenced: "is_boot_fenced (co_authority run_lost) 3"
  by (simp add: run_lost_def fence_on_session_loss_def boot_of_session_def run_authority_def run_registration_def
      fence_boot_def is_valid_def default_limits_def persist_def Let_def is_boot_fenced_def om_find_emplace
      drop_session_def retire_boot_def split: prod.splits)


end
