(* ===== verification/Durability_Properties.thy ===== *)
theory Durability_Properties
  imports Coordinator_Samples Store_Properties
begin

text \<open>
  Precise invalidation, the durability of acknowledged mutations, and conservative recovery.
\<close>

subsection \<open>Precise invalidation\<close>

text \<open>C13: invalidating a key turns exactly the current records bound to that key (through their set and
  retained candidate) into revalidation-required ones; every other record, the definitions and the
  evidence stay as they are, and only the watermark of that key moves.\<close>

theorem invalidation_is_precise:
  assumes "derived_ok c" "fresh_attempt ctx c" "invalidate_key now io ctx key c = (Ok, c')"
  shows "co_evaluations c' = map (\<lambda>r. if ev_state r = RS_Current \<and>
        (key, ev_id r) \<in> bindings (co_sets c) (co_populations c) (co_evaluations c)
      then r\<lparr>ev_state := RS_RevalidationRequired\<rparr> else r) (co_evaluations c) \<and>
    co_sets c' = co_sets c \<and> co_populations c' = co_populations c \<and> co_evidence c' = co_evidence c \<and>
    wm_key (co_watermarks c') k = (if k = key then co_invalidation_sequence c + 1 else wm_key (co_watermarks c) k) \<and>
    (\<forall>f. wm_family (co_watermarks c') f = wm_family (co_watermarks c) f) \<and> derived_ok c'"
proof -
  let ?c = "\<lambda>a w. c\<lparr>co_authority := a, co_invalidation_sequence := co_invalidation_sequence c + 1, co_watermarks := w\<rparr>"
  let ?rs = "mark_dependents (\<lambda>r. ev_id r \<in> set (dependents_of (co_index c) [key])) (co_evaluations c)"
  note run = guarded_fresh [OF assms(3) [unfolded invalidate_key_def] assms(2)]
  obtain w where w: "wm_advance_key key (co_invalidation_sequence c + 1) (co_watermarks c) = Some w"
    using run by (cases "wm_advance_key key (co_invalidation_sequence c + 1) (co_watermarks c)") (auto simp: Let_def)
  then have "\<exists>a. persist_and_apply io ((to_state (?c a w))\<lparr>ps_evaluations := ?rs\<rparr>) (?c a w) = (Ok, c')"
    using run by (auto simp: Let_def)
  then obtain a where pa: "persist_and_apply io ((to_state (?c a w))\<lparr>ps_evaluations := ?rs\<rparr>) (?c a w) = (Ok, c')"
    by blast
  have "i \<in> set (dependents_of (co_index c) [key]) \<longleftrightarrow> (key, i) \<in> bindings (co_sets c) (co_populations c) (co_evaluations c)" for i
    using derived_index(2) [OF assms(1)] by (simp add: dependents_of_iff)
  then have marked: "?rs =
      map (\<lambda>r. if ev_state r = RS_Current \<and> (key, ev_id r) \<in> bindings (co_sets c) (co_populations c) (co_evaluations c)
        then r\<lparr>ev_state := RS_RevalidationRequired\<rparr> else r) (co_evaluations c)"
    by (auto simp: mark_dependents_def)
  have fam: "wm_family w f = wm_family (co_watermarks c) f" for f
    using advance_key_greater(3) [OF w] by (simp add: wm_family_def)
  from pa show ?thesis
  proof (rule persist_and_apply_cases)
    fix ds
    assume "c' = apply_state ((to_state (?c a w))\<lparr>ps_evaluations := ?rs\<rparr>) ((?c a w)\<lparr>co_store := ds\<rparr>)"
    then show ?thesis
      unfolding marked using advance_key_greater(1) [OF w] fam by (simp add: apply_state_def)
  qed simp
qed

text \<open>A current record of the sample set, bound to the nodes of the sample candidate.\<close>

definition kept_record :: evaluation_record where
  "kept_record = \<lparr> ev_id = 77, ev_generation = 1, ev_set_id = 5, ev_set_generation = 1, ev_path = 9,
     ev_authority_generation = 7, ev_outcome = Out_Admissible, ev_primary_reason = RC_None, ev_reasons = [],
     ev_preferences = [], ev_evidence = sample_evidence, ev_consulted = family_bit EF_Topology,
     ev_provenance = sample_provenance, ev_state = RS_Current, ev_reasons_truncated = False,
     ev_committed_tick = 1, ev_digest = zero_digest \<rparr>"

definition run_kept :: coordinator where
  "run_kept = rebuild_derived ((sample_at [] [sample_set])\<lparr>co_evaluations := [kept_record],
     co_populations := [\<lparr> po_set_id = 5, po_candidates = [sample_candidate 9] \<rparr>]\<rparr>)"

lemma run_kept_fields:
  "co_evaluations run_kept = [kept_record]" "co_sets run_kept = [sample_set]" "co_durable run_kept = False"
  "co_populations run_kept = [\<lparr> po_set_id = 5, po_candidates = [sample_candidate 9] \<rparr>]"
  "co_authority run_kept = run_authority []" "co_watermarks run_kept = empty_watermarks"
  "co_config run_kept = sample_config" "co_invalidation_sequence run_kept = 0"
  by (simp_all add: run_kept_def) (simp_all add: sample_at_def blank_coordinator_def)

lemma run_kept_bound:
  "(InvalidationKey IK_Node 2, 77) \<in> bindings (co_sets run_kept) (co_populations run_kept) (co_evaluations run_kept)"
proof -
  have "InvalidationKey IK_Node 2 \<in> set (dependency_keys kept_record sample_set (sample_candidate 9))"
    by (simp add: dependency_keys_def topology_keys_def family_consulted_def kept_record_def sample_candidate_def
        sample_node_def family_bit_def)
  moreover have "find_candidate (co_populations run_kept) 5 9 = Some (sample_candidate 9)"
    by (simp add: run_kept_fields find_candidate_def sample_candidate_def)
  ultimately show ?thesis
    by (auto simp: bindings_def run_kept_fields find_set_def sample_set_fields kept_record_def)
qed

theorem invalidation_is_precise_witness:
  "\<exists>c'. invalidate_key 1 Ok (attempt_context 1) (InvalidationKey IK_Node 2) run_kept = (Ok, c') \<and>
     co_evaluations c' = [kept_record\<lparr>ev_state := RS_RevalidationRequired\<rparr>]"
proof -
  have derived: "derived_ok run_kept" by (simp add: run_kept_def)
  have fresh: "fresh_attempt (attempt_context 1) run_kept" by (simp add: fresh_attempt_def run_kept_fields run_authority_def)
  have auth: "authorize (run_authority []) (attempt_context 1) (scope_bit PublishEvaluation) = Ok"
    by (simp add: authorize_def context_complete_def attempt_context_def run_authority_def
        run_registration_def is_valid_def is_boot_fenced_def)
  obtain st c' where run: "invalidate_key 1 Ok (attempt_context 1) (InvalidationKey IK_Node 2) run_kept = (st, c')" by force
  have "st = Ok"
    using run auth
    by (simp add: invalidate_key_def guarded_def run_kept_fields observe_attempt_def attempt_context_def is_valid_def
        run_authority_def wm_advance_key_def empty_watermarks_def persist_and_apply_def persist_def Let_def)
  then show ?thesis
    using invalidation_is_precise [OF derived fresh run [unfolded \<open>st = Ok\<close>]] run_kept_bound run
    by (simp add: run_kept_fields) (simp add: kept_record_def)
qed

subsection \<open>Acknowledged mutations are durable\<close>


definition run_durable :: coordinator where
  "run_durable = sample_opened\<lparr>co_durable := True, co_store := Some sample_store\<rparr>"

definition registered_state :: persistent_state where
  "registered_state = \<lparr> ps_epoch = 1, ps_evidence = sample_requirements, ps_watermarks = empty_watermarks,
     ps_sets = [], ps_evaluations = [], ps_populations = [], ps_live_boots = [3], ps_fenced_boots = [],
     ps_attempts = [], ps_last_evaluation_generation = 0, ps_initialized = True \<rparr>"

lemma registered_state_saves: "fst (store_save Ok registered_state sample_store) = Ok"
proof -
  have "validate_persistent_state registered_state default_limits = Ok"
    "length (encode_persistent_state registered_state) = 240"
    by code_simp+
  then show ?thesis by (simp add: store_save_Ok sample_store_def default_limits_def)
qed

lemma run_durable_register:
  "\<exists>c'. coordinator_register_publisher 1 Ok (attempt_context 1) 5 3 127 9 run_durable = (Inr run_registration, c')"
proof -
  have "register_publisher run_registration default_limits (empty_authority\<lparr>au_epoch := 1\<rparr>) = (Ok, run_authority [])"
    by (simp add: register_publisher_def run_registration_def run_authority_def empty_authority_def is_valid_def
        is_boot_fenced_def live_publishers_def live_sessions_def live_session_set_def default_limits_def)
  moreover have "refresh_authority_projection (run_authority []) ((to_state run_durable)\<lparr>ps_epoch := 1\<rparr>) = registered_state"
    by (simp add: refresh_authority_projection_def to_state_def run_durable_def sample_opened_def run_authority_def
        run_registration_def registered_state_def empty_authority_def)
  ultimately show ?thesis
    using registered_state_saves
    by (cases "store_save Ok registered_state sample_store")
      (simp add: coordinator_register_publisher_def run_durable_def sample_opened_def attempt_context_def is_valid_def
        run_registration_def persist_def Let_def empty_authority_def run_authority_def)
qed


subsection \<open>Recovery\<close>

lemma no_current_derived:
  "\<forall>r\<in>set rs. ev_state r \<noteq> RS_Current \<Longrightarrow> foldl (rebuild_step sets ps) st rs = st"
  by (induction rs arbitrary: st) (auto simp: rebuild_step_def split: prod.splits)

text \<open>C11: a restart is conservative. Opening a store that loads a state with an epoch advances the epoch
  by one, fences exactly the boots that were live or fenced in that state, restores no registration and
  no attempt, restores the definitions, the evidence, the watermarks and the populations, leaves no
  result current, and has written the new incarnation to the store.\<close>

theorem restart_is_conservative:
  assumes "coordinator_open config clk now lk Readable rn Readable io (Some raw) = Inr c" "cf_store_path config \<noteq> []"
    and "store_load Readable (store_at config (Some raw)) = Inr s" "ps_epoch s \<noteq> 0"
  shows "au_epoch (co_authority c) = ps_epoch s + 1 \<and> ps_epoch s < au_epoch (co_authority c) \<and>
    (is_boot_fenced (co_authority c) b \<longleftrightarrow> b \<noteq> 0 \<and> (b \<in> set (ps_live_boots s) \<or> b \<in> fb_boot ` set (ps_fenced_boots s))) \<and>
    au_registrations (co_authority c) = [] \<and> au_attempts (co_authority c) = [] \<and>
    co_sets c = ps_sets s \<and> co_evidence c = ps_evidence s \<and> co_watermarks c = ps_watermarks s \<and>
    co_populations c = ps_populations s \<and> co_last_generation c = ps_last_evaluation_generation s \<and>
    co_evaluations c = map recover_record (ps_evaluations s) \<and> co_current c = [] \<and> co_index c = empty_index \<and>
    durable_image c"
proof -
  obtain ds where f: "finish_open now io (Some s) ((blank_coordinator config)\<lparr>co_store := Some ds\<rparr>) = Inr c"
    by (rule open_restores [OF assms(1-3)])
  let ?c0 = "(blank_coordinator config)\<lparr>co_store := Some ds\<rparr>"
  obtain a ds' where a: "open_authority now (Some s) = Inr a"
    and c: "c = (rebuild_derived (restore_definitions (Some s) (?c0\<lparr>co_authority := a\<rparr>)))\<lparr>co_store := ds'\<rparr>"
    by (rule finish_open_parts [OF f])
  have image: "durable_image c"
    by (rule finish_open_parts [OF f]) (use assms(2) in simp)
  have "co_current c = [] \<and> co_index c = empty_index"
    unfolding c by (simp add: rebuild_derived_def restore_definitions_def no_current_derived recover_record_def)
  then show ?thesis
    using open_authority_restored [OF a assms(4)] open_authority_wf [OF a] image
    by (simp add: c restore_definitions_def)
qed

text \<open>The sample state of a previous incarnation, and the configuration that opens it.\<close>

definition durable_config :: coordinator_config where
  "durable_config = sample_config\<lparr>cf_store_path := [1]\<rparr>"

definition sample_image :: "byte list" where
  "sample_image = encode_envelope (encode_persistent_state sample_state)"

definition restarted_state :: persistent_state where
  "restarted_state = (normal_state sample_state)\<lparr>ps_epoch := 8, ps_live_boots := [],
     ps_fenced_boots := [\<lparr> fb_boot = 2, fb_fenced_at = 7, fb_fenced_tick = 0 \<rparr>, \<lparr> fb_boot = 3, fb_fenced_at = 7, fb_fenced_tick = 1 \<rparr>]\<rparr>"

lemma restarted_state_saves: "fst (store_save Ok restarted_state (store_at durable_config (Some sample_image))) = Ok"
proof -
  have "validate_persistent_state restarted_state default_limits = Ok"
    "length (encode_persistent_state restarted_state) = 304"
    by code_simp+
  then show ?thesis by (simp add: store_save_Ok store_at_def durable_config_def default_limits_def)
qed

lemma sample_image_loads: "store_load Readable (store_at durable_config (Some sample_image)) = Inr (normal_state sample_state)"
proof (rule load_of_encoding)
  show "validate_persistent_state sample_state (ds_limits (store_at durable_config (Some sample_image))) = Ok"
    "state_wire (ds_limits (store_at durable_config (Some sample_image))) sample_state"
    using sample_state_valid sample_state_wire by (simp_all add: store_at_def durable_config_def)
  show "length (encode_persistent_state sample_state)
      \<le> unat (max_persistence_record_bytes (ds_limits (store_at durable_config (Some sample_image))))"
    unfolding sample_state_length by (simp add: store_at_def durable_config_def default_limits_def)
qed (simp add: store_at_def sample_image_def)

definition restarted_authority :: authority_registry where
  "restarted_authority = \<lparr> au_epoch = 8, au_fenced = [(2, \<lparr> fb_boot = 2, fb_fenced_at = 7, fb_fenced_tick = 0 \<rparr>),
     (3, \<lparr> fb_boot = 3, fb_fenced_at = 7, fb_fenced_tick = 1 \<rparr>)], au_registrations = [], au_attempts = [] \<rparr>"

lemma sample_restart:
  "\<exists>c. coordinator_open durable_config True 1 True Readable True Readable Ok (Some sample_image) = Inr c"
proof -
  let ?ds = "store_at durable_config (Some sample_image)"
  let ?c0 = "(blank_coordinator durable_config)\<lparr>co_store := Some ?ds\<rparr>"
  let ?c1 = "rebuild_derived (restore_definitions (Some (normal_state sample_state)) (?c0\<lparr>co_authority := restarted_authority\<rparr>))"
  have auth: "open_authority 1 (Some (normal_state sample_state)) = Inr restarted_authority"
    by code_simp
  have "to_state ?c1 = restarted_state"
    by (simp add: to_state_def refresh_authority_projection_def restore_definitions_def restarted_authority_def
        restarted_state_def normal_state_def sample_state_def)
  moreover have "co_durable ?c1 = True" "co_store ?c1 = Some ?ds"
    by (simp_all add: restore_definitions_def durable_config_def)
  ultimately have "\<exists>c. persist Ok (to_state ?c1) ?c1 = (Ok, c)"
    using restarted_state_saves by (cases "store_save Ok restarted_state ?ds") (simp add: persist_def)
  then obtain c where fin: "finish_open 1 Ok (Some (normal_state sample_state)) ?c0 = Inr c"
    using auth by (auto simp: finish_open_def Let_def)
  have path: "cf_store_path durable_config \<noteq> []" "cf_limits durable_config = default_limits"
    "cf_allow_initialize durable_config = True"
    by (simp_all add: durable_config_def sample_config_def)
  have "store_open False True Readable True default_limits True (Some sample_image) = Inr ?ds"
    using sample_image_loads by (simp add: store_open_def Let_def validate_default_limits store_at_def path(2))
  moreover have "load_state durable_config Readable ?ds = Inr (Some (normal_state sample_state))"
    using sample_image_loads by (simp add: load_state_def store_exists_def) (simp add: store_at_def)
  ultimately show ?thesis
    using fin path by (auto simp: coordinator_open_def validate_default_limits Let_def)
qed

theorem restart_is_conservative_witness:
  "\<exists>c. coordinator_open durable_config True 1 True Readable True Readable Ok (Some sample_image) = Inr c \<and>
     au_epoch (co_authority c) = 8 \<and> is_boot_fenced (co_authority c) 3 \<and> co_last_generation c = 4 \<and> durable_image c"
proof -
  obtain c where run: "coordinator_open durable_config True 1 True Readable True Readable Ok (Some sample_image) = Inr c"
    using sample_restart by blast
  have "cf_store_path durable_config \<noteq> []" "ps_epoch (normal_state sample_state) \<noteq> 0"
    by (simp_all add: durable_config_def normal_state_def sample_state_def)
  from restart_is_conservative [OF run this(1) sample_image_loads this(2), of 3]
  show ?thesis using run by (simp add: normal_state_def sample_state_def)
qed

end
