(* ===== verification/Protocol.thy ===== *)
theory Protocol
  imports Persistence
begin

text \<open>
  The versioned wire protocol (\<open>protocol.hpp\<close>, \<open>protocol.cpp\<close>): the frame header, the frame with
  its integrity trailer, the assembler that cuts a byte stream into frames, and the payload codecs
  of the handshake, evaluation, publication and error messages. A function that fails returns the
  error code on the left of a sum; the payload decoders are parsers of the byte codec.
\<close>

subsection \<open>Messages\<close>

datatype message_id =
    MI_Invalid | MI_Hello | MI_HelloAck | MI_RegisterPublisher
  | MI_RegisterPublisherAck | MI_PublishConstraintSet | MI_PublishConstraintSetAck | MI_ApplyLifecycle
  | MI_ApplyLifecycleAck | MI_EvaluateCandidates | MI_EvaluateCandidatesAck | MI_QueryDefinitions
  | MI_DefinitionsReport | MI_QueryResults | MI_ResultsReport | MI_QueryCurrentness
  | MI_CurrentnessReport | MI_Heartbeat | MI_SessionFenced | MI_ErrorReport
  | MI_Shutdown

primrec message_id_value :: "message_id \<Rightarrow> u16" where
  "message_id_value MI_Invalid = 0"
| "message_id_value MI_Hello = 1"
| "message_id_value MI_HelloAck = 2"
| "message_id_value MI_RegisterPublisher = 3"
| "message_id_value MI_RegisterPublisherAck = 4"
| "message_id_value MI_PublishConstraintSet = 5"
| "message_id_value MI_PublishConstraintSetAck = 6"
| "message_id_value MI_ApplyLifecycle = 7"
| "message_id_value MI_ApplyLifecycleAck = 8"
| "message_id_value MI_EvaluateCandidates = 9"
| "message_id_value MI_EvaluateCandidatesAck = 10"
| "message_id_value MI_QueryDefinitions = 11"
| "message_id_value MI_DefinitionsReport = 12"
| "message_id_value MI_QueryResults = 13"
| "message_id_value MI_ResultsReport = 14"
| "message_id_value MI_QueryCurrentness = 15"
| "message_id_value MI_CurrentnessReport = 16"
| "message_id_value MI_Heartbeat = 17"
| "message_id_value MI_SessionFenced = 18"
| "message_id_value MI_ErrorReport = 19"
| "message_id_value MI_Shutdown = 20"

text \<open>The cast from a decoded value; the callers have checked that it is known.\<close>

definition message_id_of :: "u16 \<Rightarrow> message_id" where
  "message_id_of v =
     (if v = 0 then MI_Invalid else if v = 1 then MI_Hello else if v = 2 then MI_HelloAck else
      if v = 3 then MI_RegisterPublisher else if v = 4 then MI_RegisterPublisherAck else if v = 5 then MI_PublishConstraintSet else
      if v = 6 then MI_PublishConstraintSetAck else if v = 7 then MI_ApplyLifecycle else if v = 8 then MI_ApplyLifecycleAck else
      if v = 9 then MI_EvaluateCandidates else if v = 10 then MI_EvaluateCandidatesAck else if v = 11 then MI_QueryDefinitions else
      if v = 12 then MI_DefinitionsReport else if v = 13 then MI_QueryResults else if v = 14 then MI_ResultsReport else
      if v = 15 then MI_QueryCurrentness else if v = 16 then MI_CurrentnessReport else if v = 17 then MI_Heartbeat else
      if v = 18 then MI_SessionFenced else if v = 19 then MI_ErrorReport else
      MI_Shutdown)"

lemma message_id_of_value [simp]: "message_id_of (message_id_value m) = m"
  by (cases m) (simp_all add: message_id_of_def)

lemma message_id_value_inj [simp]: "message_id_value x = message_id_value y \<longleftrightarrow> x = y"
  by (metis message_id_of_value)

definition is_known_message :: "u16 \<Rightarrow> bool" where
  "is_known_message raw \<longleftrightarrow> raw \<ge> message_id_value MI_Hello \<and> raw \<le> message_id_value MI_Shutdown"

definition kProtocolVersionValue :: u16 where
  "kProtocolVersionValue = 1"

definition kWireMagic :: u32 where
  "kWireMagic = 0x46465243"

subsection \<open>Frames\<close>

record frame_header =
  fh_protocol_version :: u16
  fh_message :: message_id
  fh_flags :: u16
  fh_payload_length :: u32
  fh_epoch :: coordinator_epoch
  fh_publisher :: publisher_id
  fh_worker_boot :: worker_boot_id
  fh_attempt :: mutation_attempt_id
  fh_request :: strong_id
  fh_scopes :: authority_scope_mask

text \<open>The member initialisers.\<close>

definition default_frame_header :: frame_header where
  "default_frame_header = \<lparr> fh_protocol_version = kProtocolVersionValue, fh_message = MI_Invalid,
     fh_flags = 0, fh_payload_length = 0, fh_epoch = 0, fh_publisher = 0, fh_worker_boot = 0,
     fh_attempt = 0, fh_request = 0, fh_scopes = 0 \<rparr>"

record frame =
  fr_header :: frame_header
  fr_payload :: "byte list"

definition kSemanticHeaderBytes :: nat where
  "kSemanticHeaderBytes = 60"

definition kTrailerBytes :: nat where
  "kTrailerBytes = 4 + 32"

definition kHeaderBytes :: nat where
  "kHeaderBytes = kSemanticHeaderBytes + kTrailerBytes"

definition semantic_header :: "byte list \<Rightarrow> byte list" where
  "semantic_header raw = take kSemanticHeaderBytes raw"

definition integrity_digest :: "byte list \<Rightarrow> byte list \<Rightarrow> digest256" where
  "integrity_digest header payload = sha_finish (sha_update (sha_update sha_reset header) payload)"

definition integrity_crc :: "byte list \<Rightarrow> byte list \<Rightarrow> u32" where
  "integrity_crc header payload = crc32c (header @ payload)"

text \<open>\<open>std::size_t\<close> has 64 bits, so the sum does not wrap.\<close>

definition frame_size :: "u32 \<Rightarrow> nat" where
  "frame_size payload_length = kHeaderBytes + unat payload_length"

definition encode_frame_header :: "frame_header \<Rightarrow> byte list" where
  "encode_frame_header h =
     put_u32 kWireMagic @ put_u16 (fh_protocol_version h) @ put_u16 (message_id_value (fh_message h)) @
     put_u16 (fh_flags h) @ put_u16 0 @ put_u32 (fh_payload_length h) @ put_u64 (fh_epoch h) @
     put_u64 (fh_publisher h) @ put_u64 (fh_worker_boot h) @ put_u64 (fh_attempt h) @
     put_u64 (fh_request h) @ put_u32 (fh_scopes h)"

definition decode_frame_header :: "frame_header parser" where
  "decode_frame_header =
     rd_bind rd_u32 (\<lambda>magic. rd_bind rd_u16 (\<lambda>version. rd_bind rd_u16 (\<lambda>message. rd_bind rd_u16 (\<lambda>flags.
     rd_bind rd_u16 (\<lambda>reserved. rd_bind rd_u32 (\<lambda>payload_length. rd_bind rd_u64 (\<lambda>epoch.
     rd_bind rd_u64 (\<lambda>publisher. rd_bind rd_u64 (\<lambda>boot. rd_bind rd_u64 (\<lambda>attempt.
     rd_bind rd_u64 (\<lambda>request. rd_bind rd_u32 (\<lambda>scopes.
     rd_guard (\<not> (magic \<noteq> kWireMagic \<or> reserved \<noteq> 0 \<or> \<not> is_known_message message))
     (rd_guard (\<not> (epoch \<noteq> 0 \<and> \<not> is_representable epoch))
     (rd_return \<lparr> fh_protocol_version = version, fh_message = message_id_of message, fh_flags = flags,
        fh_payload_length = payload_length, fh_epoch = (if epoch = 0 then 0 else epoch),
        fh_publisher = publisher, fh_worker_boot = boot, fh_attempt = attempt, fh_request = request,
        fh_scopes = scopes \<rparr>))))))))))))))"

definition encode_frame :: "frame \<Rightarrow> limits \<Rightarrow> byte list result" where
  "encode_frame f limits =
     (if length (fr_payload f) > unat (max_frame_bytes limits) then Inl ResourceLimit
      else let header = (fr_header f)\<lparr>fh_protocol_version := kProtocolVersionValue,
                 fh_payload_length := word_of_nat (length (fr_payload f))\<rparr> in
      if fh_message header = MI_Invalid then Inl InvalidArgument
      else let header_bytes = encode_frame_header header;
               semantic = take kSemanticHeaderBytes header_bytes in
        Inr (header_bytes @ put_raw (fr_payload f) @ put_u32 (integrity_crc semantic (fr_payload f)) @
             put_raw (integrity_digest semantic (fr_payload f))))"

definition decode_frame :: "byte list \<Rightarrow> limits \<Rightarrow> frame result" where
  "decode_frame raw limits =
     (if length raw < kHeaderBytes then Inl Truncated
      else case decode_frame_header (byte_reader_of raw) of
        (None, _) \<Rightarrow> Inl Malformed
      | (Some header, _) \<Rightarrow>
          if fh_protocol_version header \<noteq> kProtocolVersionValue then Inl UnsupportedVersion
          else if fh_payload_length header > max_frame_bytes limits then Inl ResourceLimit
          else if length raw \<noteq> frame_size (fh_payload_length header) then
            Inl (if length raw < frame_size (fh_payload_length header) then Truncated else TrailingBytes)
          else let semantic = semantic_header raw;
                   payload = take (unat (fh_payload_length header)) (drop kSemanticHeaderBytes raw);
                   trailer = drop (kSemanticHeaderBytes + unat (fh_payload_length header)) raw in
          if integrity_crc semantic payload \<noteq> le_accumulate 4 trailer then Inl IntegrityMismatch
          else if list_ex (\<lambda>index. trailer ! (4 + index) \<noteq> integrity_digest semantic payload ! index) [0..<32]
            then Inl IntegrityMismatch
          else Inr \<lparr> fr_header = header, fr_payload = payload \<rparr>)"

subsection \<open>The assembler\<close>

record frame_assembler =
  fa_limits :: limits
  fa_buffer :: "byte list"
  fa_failed :: bool

definition new_assembler :: "limits \<Rightarrow> frame_assembler" where
  "new_assembler l = \<lparr> fa_limits = l, fa_buffer = [], fa_failed = False \<rparr>"

definition buffered_bytes :: "frame_assembler \<Rightarrow> nat" where
  "buffered_bytes a = length (fa_buffer a)"

definition assembler_fail :: "error_code \<Rightarrow> frame_assembler \<Rightarrow> status \<times> frame_assembler" where
  "assembler_fail code a = (code, a\<lparr>fa_failed := True, fa_buffer := []\<rparr>)"

definition assembler_push :: "byte list \<Rightarrow> frame_assembler \<Rightarrow> status \<times> frame_assembler" where
  "assembler_push chunk a =
     (if fa_failed a then (ProtocolViolation, a)
      else if length (fa_buffer a) + length chunk > unat (max_frame_assembly_bytes (fa_limits a)) then
        assembler_fail ResourceLimit a
      else (Ok, a\<lparr>fa_buffer := fa_buffer a @ chunk\<rparr>))"

text \<open>The second component is the frame when \<open>produced\<close> is set.\<close>

definition assembler_pop :: "frame_assembler \<Rightarrow> status \<times> frame option \<times> frame_assembler" where
  "assembler_pop a =
     (let failing = (\<lambda>code a. (case assembler_fail code a of (st, a') \<Rightarrow> (st, None, a'))) in
      if fa_failed a then (ProtocolViolation, None, a)
      else if length (fa_buffer a) < kHeaderBytes then (Ok, None, a)
      else case decode_frame_header (byte_reader_of (take kSemanticHeaderBytes (take kHeaderBytes (fa_buffer a)))) of
        (None, _) \<Rightarrow> failing Malformed a
      | (Some header, _) \<Rightarrow>
          if fh_protocol_version header \<noteq> kProtocolVersionValue then failing UnsupportedVersion a
          else if fh_payload_length header > max_frame_bytes (fa_limits a) then failing ResourceLimit a
          else let total = frame_size (fh_payload_length header) in
          if length (fa_buffer a) < total then (Ok, None, a)
          else let raw = take total (fa_buffer a); a' = a\<lparr>fa_buffer := drop total (fa_buffer a)\<rparr> in
            (case decode_frame raw (fa_limits a') of
               Inl e \<Rightarrow> failing e a'
             | Inr f \<Rightarrow> (Ok, Some f, a')))"

definition assembler_reset :: "frame_assembler \<Rightarrow> frame_assembler" where
  "assembler_reset a = a\<lparr>fa_buffer := [], fa_failed := False\<rparr>"

definition reset_after_violation :: "frame_assembler \<Rightarrow> frame_assembler" where
  "reset_after_violation a = assembler_reset a"

subsection \<open>Payloads\<close>

record hello_payload =
  he_publisher :: publisher_id
  he_worker_boot :: worker_boot_id
  he_requested_scopes :: authority_scope_mask
  he_client_name :: "byte list"

record hello_ack_payload =
  ha_epoch :: coordinator_epoch
  ha_session :: session_id
  ha_granted_scopes :: authority_scope_mask
  ha_protocol_version :: u16
  ha_accepted :: bool

record publish_ack_payload =
  pk_set_id :: constraint_set_id
  pk_generation :: generation
  pk_digest :: digest256

record evaluate_request_payload =
  rq_set_id :: constraint_set_id
  rq_expected_generation :: generation
  rq_candidates :: "candidate_path list"

record evaluate_response_payload =
  rs_batch :: evaluation_batch

text \<open>A decoded error code is at most \<open>Internal\<close>; the reason is any 16-bit value.\<close>

record error_report_payload =
  rp_code :: error_code
  rp_reason :: reason_code
  rp_detail :: "byte list"

definition encode_hello :: "hello_payload \<Rightarrow> byte list" where
  "encode_hello p = put_u64 (he_publisher p) @ put_u64 (he_worker_boot p) @ put_u32 (he_requested_scopes p) @
     put_string (he_client_name p)"

definition decode_hello :: "limits \<Rightarrow> hello_payload parser" where
  "decode_hello l = rd_bind rd_u64 (\<lambda>publisher. rd_bind rd_u64 (\<lambda>boot. rd_bind rd_u32 (\<lambda>scopes.
     rd_guard (\<not> (publisher = 0 \<or> boot = 0)) (rd_bind rd_string (\<lambda>name.
     rd_guard (\<not> length name > unat (max_name_bytes l))
       (rd_return \<lparr> he_publisher = publisher, he_worker_boot = boot, he_requested_scopes = scopes,
          he_client_name = name \<rparr>))))))"

definition encode_hello_ack :: "hello_ack_payload \<Rightarrow> byte list" where
  "encode_hello_ack p = put_u64 (ha_epoch p) @ put_u64 (ha_session p) @ put_u32 (ha_granted_scopes p) @
     put_u16 (ha_protocol_version p) @ put_bool (ha_accepted p) @ put_u8 0"

definition decode_hello_ack :: "hello_ack_payload parser" where
  "decode_hello_ack = rd_bind rd_u64 (\<lambda>epoch. rd_bind rd_u64 (\<lambda>session. rd_bind rd_u32 (\<lambda>scopes.
     rd_bind rd_u16 (\<lambda>version. rd_bind rd_boolean (\<lambda>accepted. rd_bind rd_u8 (\<lambda>padding.
     rd_guard (\<not> (padding \<noteq> 0 \<or> (epoch \<noteq> 0 \<and> \<not> is_representable epoch)))
       (rd_return \<lparr> ha_epoch = (if epoch = 0 then 0 else epoch), ha_session = session,
          ha_granted_scopes = scopes, ha_protocol_version = version, ha_accepted = accepted \<rparr>)))))))"

definition encode_evaluate_request :: "evaluate_request_payload \<Rightarrow> byte list" where
  "encode_evaluate_request p = put_u64 (rq_set_id p) @ put_u64 (rq_expected_generation p) @
     write_counted encode_candidate (rq_candidates p)"

definition decode_evaluate_request :: "limits \<Rightarrow> evaluate_request_payload parser" where
  "decode_evaluate_request l = rd_bind rd_u64 (\<lambda>set_id. rd_bind rd_u64 (\<lambda>generation.
     rd_guard (\<not> (set_id = 0 \<or> (generation \<noteq> 0 \<and> \<not> is_representable generation)))
     (rd_bind (read_counted (max_candidates_per_evaluation l) (decode_candidate l)) (\<lambda>candidates.
     rd_return \<lparr> rq_set_id = set_id, rq_expected_generation = (if generation = 0 then 0 else generation),
       rq_candidates = candidates \<rparr>))))"

definition write_ranked :: "ranked_candidate \<Rightarrow> byte list" where
  "write_ranked e = put_u64 (rc_path e) @ put_u32 (word_of_nat (rc_record_index e))"

definition read_ranked :: "nat \<Rightarrow> ranked_candidate parser" where
  "read_ranked records = rd_bind rd_u64 (\<lambda>path. rd_bind rd_u32 (\<lambda>record_index.
     rd_guard (\<not> path = 0) (rd_guard (\<not> unat record_index \<ge> records)
       (rd_return \<lparr> rc_path = path, rc_record_index = unat record_index \<rparr>))))"

definition encode_evaluation_batch :: "evaluation_batch \<Rightarrow> byte list" where
  "encode_evaluation_batch b =
     put_u64 (eb_set_id b) @ put_u64 (eb_set_generation b) @ put_u64 (eb_generation b) @
     put_u16 (batch_outcome_value (eb_batch_outcome b)) @ put_u16 (eb_primary_batch_reason b) @
     put_bool (eb_has_admissible b) @ put_u8 0 @ write_counted encode_evaluation (eb_records b) @
     write_counted write_ranked (eb_admissible_order b)"

text \<open>A generation that is not representable leaves the default \<open>0\<close>.\<close>

definition decode_evaluation_batch :: "limits \<Rightarrow> evaluation_batch parser" where
  "decode_evaluation_batch l = rd_bind rd_u64 (\<lambda>set_id. rd_bind rd_u64 (\<lambda>set_generation.
     rd_bind rd_u64 (\<lambda>generation. rd_bind rd_u16 (\<lambda>batch_outcome. rd_bind rd_u16 (\<lambda>primary.
     rd_bind rd_boolean (\<lambda>has_admissible. rd_bind rd_u8 (\<lambda>padding.
     rd_guard (\<not> (padding \<noteq> 0 \<or> batch_outcome > 2))
     (rd_bind (read_counted (max_candidates_per_evaluation l) (decode_evaluation l)) (\<lambda>records.
     rd_bind (read_counted (max_candidates_per_evaluation l) (read_ranked (length records))) (\<lambda>order.
     rd_return \<lparr> eb_set_id = (if set_id \<noteq> 0 then set_id else 0),
       eb_set_generation = (if is_representable set_generation then set_generation else 0),
       eb_generation = (if is_representable generation then generation else 0),
       eb_batch_outcome = batch_outcome_of batch_outcome, eb_has_admissible = has_admissible,
       eb_records = records, eb_admissible_order = order, eb_primary_batch_reason = primary \<rparr>))))))))))"

definition encode_evaluate_response :: "evaluate_response_payload \<Rightarrow> byte list" where
  "encode_evaluate_response p = encode_evaluation_batch (rs_batch p)"

definition decode_evaluate_response :: "limits \<Rightarrow> evaluate_response_payload parser" where
  "decode_evaluate_response l = rd_bind (decode_evaluation_batch l) (\<lambda>b. rd_return \<lparr> rs_batch = b \<rparr>)"

primrec error_code_value :: "error_code \<Rightarrow> u32" where
  "error_code_value Ok = 0"
| "error_code_value InvalidArgument = 1"
| "error_code_value Malformed = 2"
| "error_code_value ResourceLimit = 3"
| "error_code_value ContradictoryConstraintSet = 4"
| "error_code_value DuplicateIdentity = 5"
| "error_code_value UnknownConstraintKind = 6"
| "error_code_value InvalidNumericBound = 7"
| "error_code_value ImpossibleGeneration = 8"
| "error_code_value NotFound = 9"
| "error_code_value Unauthorized = 10"
| "error_code_value Fenced = 11"
| "error_code_value EpochMismatch = 12"
| "error_code_value StaleGeneration = 13"
| "error_code_value IdempotentReplay = 14"
| "error_code_value MutationAttemptConflict = 15"
| "error_code_value PersistenceUnavailable = 16"
| "error_code_value PersistenceCorrupt = 17"
| "error_code_value DurableWriteFailed = 18"
| "error_code_value IntegrityMismatch = 19"
| "error_code_value UnsupportedVersion = 20"
| "error_code_value Truncated = 21"
| "error_code_value TrailingBytes = 22"
| "error_code_value TransportFailure = 23"
| "error_code_value ProtocolViolation = 24"
| "error_code_value NotSupported = 25"
| "error_code_value Internal = 26"

definition error_code_of :: "u32 \<Rightarrow> error_code" where
  "error_code_of v =
     (if v = 0 then Ok else if v = 1 then InvalidArgument else if v = 2 then Malformed else
      if v = 3 then ResourceLimit else if v = 4 then ContradictoryConstraintSet else if v = 5 then DuplicateIdentity else
      if v = 6 then UnknownConstraintKind else if v = 7 then InvalidNumericBound else if v = 8 then ImpossibleGeneration else
      if v = 9 then NotFound else if v = 10 then Unauthorized else if v = 11 then Fenced else
      if v = 12 then EpochMismatch else if v = 13 then StaleGeneration else if v = 14 then IdempotentReplay else
      if v = 15 then MutationAttemptConflict else if v = 16 then PersistenceUnavailable else if v = 17 then PersistenceCorrupt else
      if v = 18 then DurableWriteFailed else if v = 19 then IntegrityMismatch else if v = 20 then UnsupportedVersion else
      if v = 21 then Truncated else if v = 22 then TrailingBytes else if v = 23 then TransportFailure else
      if v = 24 then ProtocolViolation else if v = 25 then NotSupported else
      Internal)"

lemma error_code_of_value [simp]: "error_code_of (error_code_value e) = e"
  by (cases e) (simp_all add: error_code_of_def)

lemma error_code_value_max [simp]: "error_code_value e \<le> error_code_value Internal"
  by (cases e) simp_all

definition encode_error_report :: "error_report_payload \<Rightarrow> byte list" where
  "encode_error_report p = put_u32 (error_code_value (rp_code p)) @ put_u16 (rp_reason p) @ put_u16 0 @
     put_string (rp_detail p)"

definition decode_error_report :: "limits \<Rightarrow> error_report_payload parser" where
  "decode_error_report l = rd_bind rd_u32 (\<lambda>code. rd_bind rd_u16 (\<lambda>reason. rd_bind rd_u16 (\<lambda>padding.
     rd_guard (\<not> (code > error_code_value Internal \<or> padding \<noteq> 0)) (rd_bind rd_string (\<lambda>detail.
     rd_guard (\<not> length detail > unat (max_detail_bytes l))
       (rd_return \<lparr> rp_code = error_code_of code, rp_reason = reason, rp_detail = detail \<rparr>))))))"

definition encode_publish_ack :: "publish_ack_payload \<Rightarrow> byte list" where
  "encode_publish_ack p = put_u64 (pk_set_id p) @ put_u64 (pk_generation p) @ put_raw (pk_digest p)"

definition decode_publish_ack :: "publish_ack_payload parser" where
  "decode_publish_ack = rd_bind rd_u64 (\<lambda>set_id. rd_bind rd_u64 (\<lambda>generation. rd_bind (rd_raw 32) (\<lambda>digest.
     rd_guard (\<not> (set_id = 0 \<or> \<not> is_representable generation))
       (rd_return \<lparr> pk_set_id = set_id, pk_generation = generation, pk_digest = digest \<rparr>))))"


subsection \<open>Payload round trips\<close>

text \<open>A zero epoch or generation decodes to the default value, which is zero.\<close>

lemma zero_default [simp]: "(if a = 0 then 0 else a) = (a :: u64)" "(if a \<noteq> 0 then a else 0) = (a :: u64)"
  by simp_all

lemma hello_payload_eta [simp]:
  "\<lparr> he_publisher = he_publisher p, he_worker_boot = he_worker_boot p, he_requested_scopes = he_requested_scopes p, he_client_name = he_client_name p \<rparr> = p"
  by simp

lemma hello_ack_payload_eta [simp]:
  "\<lparr> ha_epoch = ha_epoch p, ha_session = ha_session p, ha_granted_scopes = ha_granted_scopes p, ha_protocol_version = ha_protocol_version p, ha_accepted = ha_accepted p \<rparr> = p"
  by simp

lemma publish_ack_payload_eta [simp]:
  "\<lparr> pk_set_id = pk_set_id p, pk_generation = pk_generation p, pk_digest = pk_digest p \<rparr> = p"
  by simp

lemma evaluate_request_payload_eta [simp]:
  "\<lparr> rq_set_id = rq_set_id p, rq_expected_generation = rq_expected_generation p, rq_candidates = rq_candidates p \<rparr> = p"
  by simp

lemma error_report_payload_eta [simp]:
  "\<lparr> rp_code = rp_code p, rp_reason = rp_reason p, rp_detail = rp_detail p \<rparr> = p"
  by simp

lemma evaluate_response_eta [simp]: "\<lparr> rs_batch = rs_batch p \<rparr> = p"
  by simp

lemma ranked_candidate_eta [simp]:
  "\<lparr> rc_path = rc_path p, rc_record_index = rc_record_index p \<rparr> = p"
  by simp

lemma evaluation_batch_eta [simp]:
  "\<lparr> eb_set_id = eb_set_id p, eb_set_generation = eb_set_generation p, eb_generation = eb_generation p, eb_batch_outcome = eb_batch_outcome p, eb_has_admissible = eb_has_admissible p, eb_records = eb_records p, eb_admissible_order = eb_admissible_order p, eb_primary_batch_reason = eb_primary_batch_reason p \<rparr> = p"
  by simp

definition hello_wire :: "limits \<Rightarrow> hello_payload \<Rightarrow> bool" where
  "hello_wire l p \<longleftrightarrow> he_publisher p \<noteq> 0 \<and> he_worker_boot p \<noteq> 0 \<and>
     length (he_client_name p) \<le> unat (max_name_bytes l)"

definition request_wire :: "limits \<Rightarrow> evaluate_request_payload \<Rightarrow> bool" where
  "request_wire l p \<longleftrightarrow> rq_set_id p \<noteq> 0 \<and> gen_ok (rq_expected_generation p) \<and>
     length (rq_candidates p) \<le> unat (max_candidates_per_evaluation l) \<and>
     (\<forall>c\<in>set (rq_candidates p). wire_candidate c l)"

definition batch_wire :: "limits \<Rightarrow> evaluation_batch \<Rightarrow> bool" where
  "batch_wire l b \<longleftrightarrow> gen_ok (eb_set_generation b) \<and> gen_ok (eb_generation b) \<and>
     length (eb_records b) \<le> unat (max_candidates_per_evaluation l) \<and>
     (\<forall>r\<in>set (eb_records b). wire_evaluation r l) \<and>
     length (eb_admissible_order b) \<le> unat (max_candidates_per_evaluation l) \<and>
     (\<forall>e\<in>set (eb_admissible_order b). rc_path e \<noteq> 0 \<and> rc_record_index e < length (eb_records b))"

definition error_report_wire :: "limits \<Rightarrow> error_report_payload \<Rightarrow> bool" where
  "error_report_wire l p \<longleftrightarrow> length (rp_detail p) \<le> unat (max_detail_bytes l)"

definition publish_ack_wire :: "publish_ack_payload \<Rightarrow> bool" where
  "publish_ack_wire p \<longleftrightarrow> pk_set_id p \<noteq> 0 \<and> is_representable (pk_generation p) \<and> length (pk_digest p) = 32"

lemma parses_hello [codec_rt]:
  assumes "hello_wire l p"
  shows "parses (decode_hello l) (encode_hello p) p"
proof -
  have ps: "parses rd_string (put_string (he_client_name p)) (he_client_name p)"
    by (rule parses_string) (use assms unat_u32_less in \<open>auto simp: hello_wire_def\<close>)
  show ?thesis
    unfolding decode_hello_def encode_hello_def
    by (rule codec_steps ps | use assms in \<open>simp add: hello_wire_def; fail\<close>)+
qed

lemma parses_hello_ack [codec_rt]: "gen_ok (ha_epoch p) \<Longrightarrow> parses decode_hello_ack (encode_hello_ack p) p"
  unfolding decode_hello_ack_def encode_hello_ack_def
  by (rule codec_steps | simp add: gen_ok_def; fail)+

lemma parses_evaluate_request [codec_rt]:
  assumes "request_wire l p"
  shows "parses (decode_evaluate_request l) (encode_evaluate_request p) p"
proof -
  have pc: "parses (read_counted (max_candidates_per_evaluation l) (decode_candidate l))
      (write_counted encode_candidate (rq_candidates p)) (rq_candidates p)"
    using assms by (intro parses_counted parses_decode_candidate) (auto simp: request_wire_def)
  show ?thesis
    unfolding decode_evaluate_request_def encode_evaluate_request_def
    by (rule codec_steps pc | use assms in \<open>simp add: request_wire_def gen_ok_def; fail\<close>)+
qed

lemma parses_ranked: "rc_path e \<noteq> 0 \<Longrightarrow> rc_record_index e < n \<Longrightarrow> n < 2 ^ 32 \<Longrightarrow>
   parses (read_ranked n) (write_ranked e) e"
  unfolding read_ranked_def write_ranked_def
  by (rule codec_steps | simp; fail)+

lemma parses_evaluation_batch [codec_rt]:
  assumes "batch_wire l b"
  shows "parses (decode_evaluation_batch l) (encode_evaluation_batch b) b"
proof -
  note w = assms [unfolded batch_wire_def]
  have pr: "parses (read_counted (max_candidates_per_evaluation l) (decode_evaluation l))
      (write_counted encode_evaluation (eb_records b)) (eb_records b)"
    using w by (intro parses_counted parses_decode_evaluation) auto
  have "length (eb_records b) < 2 ^ 32" using w unat_u32_less by blast
  then have po: "parses (read_counted (max_candidates_per_evaluation l) (read_ranked (length (eb_records b))))
      (write_counted write_ranked (eb_admissible_order b)) (eb_admissible_order b)"
    using w by (intro parses_counted parses_ranked) auto
  have g: "(if is_representable (eb_set_generation b) then eb_set_generation b else 0) = eb_set_generation b"
    "(if is_representable (eb_generation b) then eb_generation b else 0) = eb_generation b"
    "(if eb_set_id b \<noteq> 0 then eb_set_id b else 0) = eb_set_id b"
    using w by (auto simp: gen_ok_def)
  show ?thesis
    unfolding decode_evaluation_batch_def encode_evaluation_batch_def
    by (rule codec_steps pr po | simp add: g; fail)+
qed

lemma parses_evaluate_response [codec_rt]:
  "batch_wire l (rs_batch p) \<Longrightarrow> parses (decode_evaluate_response l) (encode_evaluate_response p) p"
  unfolding decode_evaluate_response_def encode_evaluate_response_def
  by (rule parses_bind_Nil [OF parses_evaluation_batch]) simp_all

lemma parses_error_report [codec_rt]:
  assumes "error_report_wire l p"
  shows "parses (decode_error_report l) (encode_error_report p) p"
proof -
  have ps: "parses rd_string (put_string (rp_detail p)) (rp_detail p)"
    by (rule parses_string) (use assms unat_u32_less in \<open>auto simp: error_report_wire_def\<close>)
  have g: "\<not> (error_code_value (rp_code p) > error_code_value Internal \<or> (0 :: u16) \<noteq> 0)"
    by (simp only: not_less error_code_value_max de_Morgan_disj) simp
  show ?thesis
    unfolding decode_error_report_def encode_error_report_def
    by (rule codec_steps ps g | use assms in \<open>simp add: error_report_wire_def; fail\<close>)+
qed

lemma parses_publish_ack [codec_rt]:
  assumes "publish_ack_wire p"
  shows "parses decode_publish_ack (encode_publish_ack p) p"
proof -
  have pr: "parses (rd_raw 32) (put_raw (pk_digest p)) (pk_digest p)"
    using assms by (simp add: publish_ack_wire_def parses_raw)
  show ?thesis
    unfolding decode_publish_ack_def encode_publish_ack_def
    by (rule codec_steps pr | use assms in \<open>simp add: publish_ack_wire_def; fail\<close>)+
qed

lemma regular_read_counted [intro]: "regular p \<Longrightarrow> regular (read_counted m p)"
  unfolding read_counted_def by (auto intro!: regular_bind regular_repeat)

lemma regular_payloads [intro, simp]:
  "regular (decode_hello l)" "regular decode_hello_ack" "regular (decode_evaluate_request l)"
  "regular (decode_evaluation_batch l)" "regular (decode_evaluate_response l)"
  "regular (decode_error_report l)" "regular decode_publish_ack"
  unfolding decode_hello_def decode_hello_ack_def decode_evaluate_request_def decode_evaluation_batch_def
    decode_evaluate_response_def decode_error_report_def decode_publish_ack_def read_ranked_def
  by (auto intro!: regular_bind regular_guard regular_read_counted)

end
