(* ===== verification/Framing.thy ===== *)
theory Framing
  imports Protocol
begin

text \<open>
  What the frame codec and the assembler guarantee. A frame is accepted exactly when its bytes are
  the encoding of the frame returned (\<open>decode_frame_iff\<close>), the assembler never holds more than its
  limit, and what it delivers depends on the bytes received, not on how the transport cut them:
  the run over the chunks is the run over their concatenation.
\<close>

subsection \<open>Sixteen-bit fields\<close>

lemma put_u16_bytes: "put_u16 v = [ucast v, ucast (drop_bit 8 v)]"
  by (simp add: put_u16_def put_u8_def byte_of_AND_0xff)

lemma bytes_u16: "length bs = 2 \<Longrightarrow> \<exists>v. bs = put_u16 v"
proof -
  assume "length bs = 2"
  then obtain a b where bs: "bs = [a, b]" by (auto simp: length_Suc_conv numeral_eq_Suc)
  have "put_u16 (ucast a OR push_bit 8 (ucast b)) = bs"
    unfolding bs put_u16_bytes by (auto intro!: bit_word_eqI simp: bit_simps bit_byte_high)
  then show ?thesis by metis
qed

lemma bytes_u32: "length bs = 4 \<Longrightarrow> \<exists>v. bs = put_u32 v"
  by (metis put_le_accumulate_u32)

lemma bytes_u64: "length bs = 8 \<Longrightarrow> \<exists>v. bs = put_u64 v"
  by (metis put_le_accumulate_u64)

lemma take_bytes:
  assumes "m \<le> length bs" "n \<le> m" "\<And>b. length b = n \<Longrightarrow> \<exists>v. b = put v"
  shows "\<exists>v rest. bs = put v @ rest \<and> m - n \<le> length rest"
proof -
  obtain v where "take n bs = put v" using assms(3) [of "take n bs"] assms(1,2) by auto
  then have "bs = put v @ drop n bs" by (metis append_take_drop_id)
  moreover have "m - n \<le> length (drop n bs)" using assms(1) by simp
  ultimately show ?thesis by blast
qed

lemmas take_u16 = take_bytes [where put = put_u16 and n = 2, OF _ _ bytes_u16]
lemmas take_u32 = take_bytes [where put = put_u32 and n = 4, OF _ _ bytes_u32]
lemmas take_u64 = take_bytes [where put = put_u64 and n = 8, OF _ _ bytes_u64]

subsection \<open>The header\<close>

lemma is_known_message_iff: "is_known_message m \<longleftrightarrow> (\<exists>i. i \<noteq> MI_Invalid \<and> m = message_id_value i)"
proof
  assume "is_known_message m"
  then have "1 \<le> unat m" "unat m \<le> 20"
    by (simp_all add: is_known_message_def word_le_nat_alt)
  then have "unat m \<in> set [1..<21]" by simp
  moreover have "m = word_of_nat (unat m)" by simp
  ultimately have "m \<in> word_of_nat ` set [1..<21]" by blast
  then have "m = message_id_value (message_id_of m) \<and> message_id_of m \<noteq> MI_Invalid"
    by (simp add: upt_rec) (elim disjE; simp add: message_id_of_def)
  then show "\<exists>i. i \<noteq> MI_Invalid \<and> m = message_id_value i" by blast
next
  assume "\<exists>i. i \<noteq> MI_Invalid \<and> m = message_id_value i"
  then obtain i where "i \<noteq> MI_Invalid" "m = message_id_value i" by blast
  then show "is_known_message m" by (cases i) (simp_all add: is_known_message_def)
qed

lemma message_id_value_zero [simp]: "message_id_value i = 0 \<longleftrightarrow> i = MI_Invalid"
  by (cases i) simp_all

definition header_wire :: "frame_header \<Rightarrow> bool" where
  "header_wire h \<longleftrightarrow> fh_message h \<noteq> MI_Invalid \<and> gen_ok (fh_epoch h)"

lemma length_encode_frame_header [simp]: "length (encode_frame_header h) = 60"
  by (simp add: encode_frame_header_def)

lemma frame_header_eta [simp]:
  "\<lparr> fh_protocol_version = fh_protocol_version h, fh_message = fh_message h, fh_flags = fh_flags h,
     fh_payload_length = fh_payload_length h, fh_epoch = fh_epoch h, fh_publisher = fh_publisher h,
     fh_worker_boot = fh_worker_boot h, fh_attempt = fh_attempt h, fh_request = fh_request h,
     fh_scopes = fh_scopes h \<rparr> = h"
  by simp

lemma header_split:
  assumes "60 \<le> length raw"
  shows "\<exists>magic version message flags reserved len epoch publisher boot attempt request scopes rest.
    raw = put_u32 magic @ put_u16 version @ put_u16 message @ put_u16 flags @ put_u16 reserved @ put_u32 len @
      put_u64 epoch @ put_u64 publisher @ put_u64 boot @ put_u64 attempt @ put_u64 request @ put_u32 scopes @ rest"
proof -
  obtain magic r1 where 1: "raw = put_u32 magic @ r1" "56 \<le> length r1"
    using take_u32 [OF assms, simplified] by blast
  obtain version r2 where 2: "r1 = put_u16 version @ r2" "54 \<le> length r2"
    using take_u16 [OF 1(2), simplified] by blast
  obtain message r3 where 3: "r2 = put_u16 message @ r3" "52 \<le> length r3"
    using take_u16 [OF 2(2), simplified] by blast
  obtain flags r4 where 4: "r3 = put_u16 flags @ r4" "50 \<le> length r4"
    using take_u16 [OF 3(2), simplified] by blast
  obtain reserved r5 where 5: "r4 = put_u16 reserved @ r5" "48 \<le> length r5"
    using take_u16 [OF 4(2), simplified] by blast
  obtain len r6 where 6: "r5 = put_u32 len @ r6" "44 \<le> length r6"
    using take_u32 [OF 5(2), simplified] by blast
  obtain epoch r7 where 7: "r6 = put_u64 epoch @ r7" "36 \<le> length r7"
    using take_u64 [OF 6(2), simplified] by blast
  obtain publisher r8 where 8: "r7 = put_u64 publisher @ r8" "28 \<le> length r8"
    using take_u64 [OF 7(2), simplified] by blast
  obtain boot r9 where 9: "r8 = put_u64 boot @ r9" "20 \<le> length r9"
    using take_u64 [OF 8(2), simplified] by blast
  obtain attempt r10 where 10: "r9 = put_u64 attempt @ r10" "12 \<le> length r10"
    using take_u64 [OF 9(2), simplified] by blast
  obtain request r11 where 11: "r10 = put_u64 request @ r11" "4 \<le> length r11"
    using take_u64 [OF 10(2), simplified] by blast
  obtain scopes r12 where 12: "r11 = put_u32 scopes @ r12"
    using take_u32 [OF 11(2), simplified] by blast
  show ?thesis
    unfolding 1(1) 2(1) 3(1) 4(1) 5(1) 6(1) 7(1) 8(1) 9(1) 10(1) 11(1) 12 by (intro exI) (rule refl)
qed

lemma decode_header_fields:
  "fst (decode_frame_header (byte_reader_of (put_u32 magic @ put_u16 version @ put_u16 message @ put_u16 flags @
      put_u16 reserved @ put_u32 len @ put_u64 epoch @ put_u64 publisher @ put_u64 boot @ put_u64 attempt @
      put_u64 request @ put_u32 scopes @ rest))) =
   (if magic = kWireMagic \<and> reserved = 0 \<and> is_known_message message \<and> gen_ok epoch then
      Some \<lparr> fh_protocol_version = version, fh_message = message_id_of message, fh_flags = flags,
        fh_payload_length = len, fh_epoch = epoch, fh_publisher = publisher, fh_worker_boot = boot,
        fh_attempt = attempt, fh_request = request, fh_scopes = scopes \<rparr>
    else None)"
  unfolding decode_frame_header_def byte_reader_start rd_fields
  by (simp add: rd_guard_def rd_return_def gen_ok_def)

text \<open>The header decoder accepts exactly the encodings of well-formed headers.\<close>

lemma decode_header_iff:
  assumes "60 \<le> length raw"
  shows "fst (decode_frame_header (byte_reader_of raw)) = Some h \<longleftrightarrow>
    take 60 raw = encode_frame_header h \<and> header_wire h"
proof -
  obtain magic version message flags reserved len epoch publisher boot attempt request scopes rest
    where raw: "raw = put_u32 magic @ put_u16 version @ put_u16 message @ put_u16 flags @ put_u16 reserved @
      put_u32 len @ put_u64 epoch @ put_u64 publisher @ put_u64 boot @ put_u64 attempt @ put_u64 request @
      put_u32 scopes @ rest"
    using header_split [OF assms] by blast
  have hd: "take 60 raw = put_u32 magic @ put_u16 version @ put_u16 message @ put_u16 flags @ put_u16 reserved @
      put_u32 len @ put_u64 epoch @ put_u64 publisher @ put_u64 boot @ put_u64 attempt @ put_u64 request @ put_u32 scopes"
    unfolding raw by simp
  have inj16: "put_u16 a = put_u16 b \<longleftrightarrow> a = b" for a b
    by (metis le_u16)
  have "take 60 raw = encode_frame_header h \<longleftrightarrow>
      magic = kWireMagic \<and> version = fh_protocol_version h \<and> message = message_id_value (fh_message h) \<and>
      flags = fh_flags h \<and> reserved = 0 \<and> len = fh_payload_length h \<and> epoch = fh_epoch h \<and>
      publisher = fh_publisher h \<and> boot = fh_worker_boot h \<and> attempt = fh_attempt h \<and>
      request = fh_request h \<and> scopes = fh_scopes h"
    unfolding hd encode_frame_header_def by (simp add: put_u32_inj put_u64_inj inj16)
  then show ?thesis
    unfolding raw decode_header_fields header_wire_def
    by (auto simp: is_known_message_iff)
qed

subsection \<open>Frames\<close>

text \<open>The header as \<open>encode_frame\<close> writes it, and the frames it writes back unchanged.\<close>

definition stamped :: "frame \<Rightarrow> frame_header" where
  "stamped f = (fr_header f)\<lparr>fh_protocol_version := kProtocolVersionValue,
     fh_payload_length := word_of_nat (length (fr_payload f))\<rparr>"

definition frame_wire :: "frame \<Rightarrow> bool" where
  "frame_wire f \<longleftrightarrow> fr_header f = stamped f \<and> gen_ok (fh_epoch (fr_header f))"

definition trailer_of :: "byte list \<Rightarrow> byte list \<Rightarrow> byte list" where
  "trailer_of header payload = put_u32 (integrity_crc header payload) @ integrity_digest header payload"

lemma length_integrity_digest [simp]: "length (integrity_digest h p) = 32"
  by (simp add: integrity_digest_def)

lemma length_trailer_of [simp]: "length (trailer_of h p) = 36"
  by (simp add: trailer_of_def)

lemma kHeaderBytes_eq [simp]: "kHeaderBytes = 96" "kSemanticHeaderBytes = 60"
  by (simp_all add: kHeaderBytes_def kSemanticHeaderBytes_def kTrailerBytes_def)

lemma encode_frame_iff:
  "encode_frame f l = Inr raw \<longleftrightarrow>
     length (fr_payload f) \<le> unat (max_frame_bytes l) \<and> fh_message (fr_header f) \<noteq> MI_Invalid \<and>
     raw = encode_frame_header (stamped f) @ fr_payload f @ trailer_of (encode_frame_header (stamped f)) (fr_payload f)"
  by (auto simp: encode_frame_def Let_def stamped_def trailer_of_def put_raw_def)

lemma length_encode_frame: "encode_frame f l = Inr raw \<Longrightarrow> length raw = 96 + length (fr_payload f)"
  by (simp add: encode_frame_iff)

lemma stamped_fields:
  "fh_message (stamped f) = fh_message (fr_header f)" "fh_epoch (stamped f) = fh_epoch (fr_header f)"
  "fh_protocol_version (stamped f) = kProtocolVersionValue"
  "fh_payload_length (stamped f) = word_of_nat (length (fr_payload f))"
  by (simp_all add: stamped_def)

text \<open>The two integrity checks together compare the trailer with the expected one.\<close>

lemma trailer_checks:
  assumes "length trailer = 36"
  shows "integrity_crc h p = le_accumulate 4 trailer \<and>
    \<not> list_ex (\<lambda>index. trailer ! (4 + index) \<noteq> integrity_digest h p ! index) [0..<32] \<longleftrightarrow> trailer = trailer_of h p"
proof -
  have split: "trailer = take 4 trailer @ drop 4 trailer" "length (take 4 trailer) = 4" "length (drop 4 trailer) = 32"
    using assms by simp_all
  have "integrity_crc h p = le_accumulate 4 trailer \<longleftrightarrow> take 4 trailer = put_u32 (integrity_crc h p)"
    using crc_iff [OF split(2), of "integrity_crc h p" "drop 4 trailer"] by simp
  moreover have "\<not> list_ex (\<lambda>index. trailer ! (4 + index) \<noteq> integrity_digest h p ! index) [0..<32] \<longleftrightarrow>
      drop 4 trailer = integrity_digest h p"
    using assms by (auto simp: list_ex_iff list_eq_iff_nth_eq)
  moreover have "trailer = trailer_of h p \<longleftrightarrow>
      take 4 trailer = put_u32 (integrity_crc h p) \<and> drop 4 trailer = integrity_digest h p"
    unfolding trailer_of_def eq_commute [of trailer] append_eq_conv_conj by auto
  ultimately show ?thesis by simp
qed

lemma decode_frame_cases:
  assumes "96 \<le> length raw" "fst (decode_frame_header (byte_reader_of raw)) = Some h"
  shows "decode_frame raw l = Inr f \<longleftrightarrow>
    fh_protocol_version h = kProtocolVersionValue \<and> fh_payload_length h \<le> max_frame_bytes l \<and>
    length raw = 96 + unat (fh_payload_length h) \<and>
    drop (60 + unat (fh_payload_length h)) raw =
      trailer_of (take 60 raw) (take (unat (fh_payload_length h)) (drop 60 raw)) \<and>
    f = \<lparr> fr_header = h, fr_payload = take (unat (fh_payload_length h)) (drop 60 raw) \<rparr>"
proof -
  let ?n = "unat (fh_payload_length h)"
  let ?p = "take ?n (drop 60 raw)" and ?t = "drop (60 + ?n) raw"
  obtain r where r: "decode_frame_header (byte_reader_of raw) = (Some h, r)"
    using assms(2) by (metis prod.collapse)
  have dec: "decode_frame raw l = (if fh_protocol_version h \<noteq> kProtocolVersionValue then Inl UnsupportedVersion
      else if fh_payload_length h > max_frame_bytes l then Inl ResourceLimit
      else if length raw \<noteq> 96 + ?n then Inl (if length raw < 96 + ?n then Truncated else TrailingBytes)
      else if integrity_crc (take 60 raw) ?p \<noteq> le_accumulate 4 ?t then Inl IntegrityMismatch
      else if list_ex (\<lambda>index. ?t ! (4 + index) \<noteq> integrity_digest (take 60 raw) ?p ! index) [0..<32]
        then Inl IntegrityMismatch
      else Inr \<lparr> fr_header = h, fr_payload = ?p \<rparr>)"
    using assms(1) by (simp add: decode_frame_def r frame_size_def semantic_header_def Let_def)
  show ?thesis
  proof (cases "fh_protocol_version h = kProtocolVersionValue \<and> fh_payload_length h \<le> max_frame_bytes l \<and> length raw = 96 + ?n")
    case True
    then have "length ?t = 36" by simp
    from trailer_checks [OF this, of "take 60 raw" ?p] True show ?thesis
      unfolding dec by (auto simp: not_less)
  next
    case False
    then show ?thesis unfolding dec by (auto simp: not_less)
  qed
qed

text \<open>A frame is accepted exactly when it is the encoding of the frame that is returned.\<close>

lemma decode_frame_exact:
  "decode_frame raw l = Inr f \<longleftrightarrow> encode_frame f l = Inr raw \<and> frame_wire f"
proof
  assume dec: "decode_frame raw l = Inr f"
  then have len: "96 \<le> length raw" by (simp add: decode_frame_def not_less split: if_splits)
  have "fst (decode_frame_header (byte_reader_of raw)) \<noteq> None"
    using dec len by (auto simp: decode_frame_def split: prod.splits option.splits)
  then obtain h where h: "fst (decode_frame_header (byte_reader_of raw)) = Some h" by blast
  note d = dec [unfolded decode_frame_cases [OF len h]]
  have hd: "take 60 raw = encode_frame_header h" "header_wire h"
    using h decode_header_iff [of raw h] len by simp_all
  let ?n = "unat (fh_payload_length h)"
  have f: "fr_header f = h" "fr_payload f = take ?n (drop 60 raw)" "length (fr_payload f) = ?n"
    using d by simp_all
  have st: "stamped f = h"
    using d f by (simp add: stamped_def)
  have "raw = take 60 raw @ fr_payload f @ trailer_of (take 60 raw) (fr_payload f)"
    using d f(2) append_take_drop_id [of 60 raw] append_take_drop_id [of ?n "drop 60 raw"] by (simp add: add.commute)
  then show "encode_frame f l = Inr raw \<and> frame_wire f"
    using d f st hd by (simp add: encode_frame_iff frame_wire_def header_wire_def word_le_nat_alt)
next
  assume enc: "encode_frame f l = Inr raw \<and> frame_wire f"
  then have st: "stamped f = fr_header f" and ep: "gen_ok (fh_epoch (fr_header f))" by (auto simp: frame_wire_def)
  have e: "length (fr_payload f) \<le> unat (max_frame_bytes l)" "fh_message (fr_header f) \<noteq> MI_Invalid"
    and raw: "raw = encode_frame_header (fr_header f) @ fr_payload f @ trailer_of (encode_frame_header (fr_header f)) (fr_payload f)"
    using enc st by (simp_all add: encode_frame_iff)
  have n: "unat (fh_payload_length (fr_header f)) = length (fr_payload f)"
    using st e(1) by (metis stamped_fields(4) unat_u32_of_nat unat_u32_less)
  have v: "fh_protocol_version (fr_header f) = kProtocolVersionValue"
    using st by (metis stamped_fields(3))
  have len: "length raw = 96 + length (fr_payload f)" by (simp add: raw)
  have tk: "take 60 raw = encode_frame_header (fr_header f)" by (simp add: raw)
  have h: "fst (decode_frame_header (byte_reader_of raw)) = Some (fr_header f)"
    using e(2) ep len tk by (simp add: decode_header_iff header_wire_def)
  show "decode_frame raw l = Inr f"
    using e(1) v len n by (simp add: decode_frame_cases [OF _ h] tk word_le_nat_alt) (simp add: raw)
qed

subsection \<open>The assembler\<close>

lemma header_take:
  assumes "60 \<le> length b"
  shows "fst (decode_frame_header (byte_reader_of (take 60 b))) = fst (decode_frame_header (byte_reader_of b))"
proof -
  have "fst (decode_frame_header (byte_reader_of (take 60 b))) = Some h \<longleftrightarrow>
      fst (decode_frame_header (byte_reader_of b)) = Some h" for h
    using assms by (simp add: decode_header_iff)
  then show ?thesis by (metis option.exhaust)
qed

lemma decode_frame_not_Ok: "decode_frame raw l \<noteq> Inl Ok"
  by (auto simp: decode_frame_def Let_def split: option.splits prod.splits)

abbreviation violated :: "frame_assembler \<Rightarrow> frame_assembler" where
  "violated a \<equiv> a\<lparr>fa_failed := True, fa_buffer := []\<rparr>"

text \<open>\<open>assembler_pop\<close> as a decision on the first header of the buffer.\<close>

lemma assembler_pop_eq:
  "assembler_pop a =
     (if fa_failed a then (ProtocolViolation, None, a)
      else if length (fa_buffer a) < 96 then (Ok, None, a)
      else case fst (decode_frame_header (byte_reader_of (fa_buffer a))) of
        None \<Rightarrow> (Malformed, None, violated a)
      | Some h \<Rightarrow>
          if fh_protocol_version h \<noteq> kProtocolVersionValue then (UnsupportedVersion, None, violated a)
          else if fh_payload_length h > max_frame_bytes (fa_limits a) then (ResourceLimit, None, violated a)
          else if length (fa_buffer a) < 96 + unat (fh_payload_length h) then (Ok, None, a)
          else case decode_frame (take (96 + unat (fh_payload_length h)) (fa_buffer a)) (fa_limits a) of
            Inl e \<Rightarrow> (e, None, violated a)
          | Inr f \<Rightarrow> (Ok, Some f, a\<lparr>fa_buffer := drop (96 + unat (fh_payload_length h)) (fa_buffer a)\<rparr>))"
proof (cases "fa_failed a \<or> length (fa_buffer a) < 96")
  case True
  then show ?thesis by (auto simp: assembler_pop_def)
next
  case False
  obtain o1 r1 where r: "decode_frame_header (byte_reader_of (take 60 (fa_buffer a))) = (o1, r1)"
    by (metis prod.exhaust)
  have "fst (decode_frame_header (byte_reader_of (fa_buffer a))) = o1"
    using header_take [of "fa_buffer a"] False r by simp
  then show ?thesis
    using False r
    by (simp add: assembler_pop_def assembler_fail_def Let_def frame_size_def min_def split: option.split sum.split)
qed

definition extended :: "frame_assembler \<Rightarrow> byte list \<Rightarrow> frame_assembler" where
  "extended a c = a\<lparr>fa_buffer := fa_buffer a @ c\<rparr>"

lemma extended_fields [simp]:
  "fa_buffer (extended a c) = fa_buffer a @ c" "fa_limits (extended a c) = fa_limits a"
  "fa_failed (extended a c) = fa_failed a" "extended a [] = a"
  "extended (extended a c) d = extended a (c @ d)"
  by (simp_all add: extended_def)

lemma header_append:
  "60 \<le> length b \<Longrightarrow> fst (decode_frame_header (byte_reader_of (b @ c))) = fst (decode_frame_header (byte_reader_of b))"
  using header_take [of b] header_take [of "b @ c"] by simp

text \<open>What is decided stays decided when more bytes arrive.\<close>

lemma pop_extended:
  assumes "assembler_pop a = (st, fo, a')" "st \<noteq> Ok \<or> fo \<noteq> None"
  shows "assembler_pop (extended a c) = (st, fo, if fa_failed a then extended a c else if st = Ok then extended a' c else a')"
proof -
  have v: "violated (extended a c) = violated a" by (simp add: extended_def)
  have len: "96 \<le> length (fa_buffer a)" if "\<not> fa_failed a"
    using assms that by (auto simp: assembler_pop_eq split: if_splits)
  show ?thesis
  proof (cases "fa_failed a")
    case True
    then show ?thesis using assms by (simp add: assembler_pop_eq)
  next
    case False
    then have hd: "fst (decode_frame_header (byte_reader_of (fa_buffer a @ c))) = fst (decode_frame_header (byte_reader_of (fa_buffer a)))"
      using len by (intro header_append) simp
    show ?thesis
      using assms False len [OF False]
      unfolding assembler_pop_eq [of a] assembler_pop_eq [of "extended a c"] v
      by (auto simp: hd extended_def decode_frame_not_Ok split: option.splits if_splits sum.splits)
  qed
qed

lemma pop_None_same: "assembler_pop a = (Ok, None, a') \<Longrightarrow> a' = a"
  by (auto simp: assembler_pop_eq decode_frame_not_Ok split: option.splits if_splits sum.splits)

lemma pop_Some_shorter:
  "assembler_pop a = (st, Some f, a') \<Longrightarrow>
     st = Ok \<and> length (fa_buffer a') + 96 \<le> length (fa_buffer a) \<and> fa_limits a' = fa_limits a \<and> \<not> fa_failed a'"
  by (auto simp: assembler_pop_eq split: option.splits if_splits sum.splits)

lemma pop_failed: "assembler_pop a = (st, fo, a') \<Longrightarrow> st \<noteq> Ok \<Longrightarrow> fo = None \<and> (\<not> fa_failed a \<longrightarrow> a' = violated a)"
  by (auto simp: assembler_pop_eq split: option.splits if_splits sum.splits)

subsection \<open>Draining and feeding\<close>

text \<open>The receive loops of the server and of the client: push what arrived, then pop until no frame
  is produced. Every produced frame shortens the buffer.\<close>

function assembler_drain :: "frame_assembler \<Rightarrow> status \<times> frame list \<times> frame_assembler" where
  "assembler_drain a =
     (case assembler_pop a of
        (st, None, a') \<Rightarrow> (st, [], a')
      | (st, Some f, a') \<Rightarrow> (case assembler_drain a' of (st', fs, a'') \<Rightarrow> (st', f # fs, a'')))"
  by pat_completeness auto
termination
  by (relation "measure (\<lambda>a. length (fa_buffer a))") (auto dest!: pop_Some_shorter [OF sym])

declare assembler_drain.simps [simp del]

fun assembler_feed :: "byte list list \<Rightarrow> frame_assembler \<Rightarrow> status \<times> frame list \<times> frame_assembler" where
  "assembler_feed [] a = (Ok, [], a)"
| "assembler_feed (c # cs) a =
     (case assembler_push c a of
        (st, a') \<Rightarrow>
          if st \<noteq> Ok then (st, [], a')
          else case assembler_drain a' of
            (st', fs, a'') \<Rightarrow>
              if st' \<noteq> Ok then (st', fs, a'')
              else (case assembler_feed cs a'' of (st'', gs, a3) \<Rightarrow> (st'', fs @ gs, a3)))"

lemma drain_None: "assembler_pop a = (st, None, a') \<Longrightarrow> assembler_drain a = (st, [], a')"
  by (subst assembler_drain.simps) simp

lemma drain_Some: "assembler_pop a = (Ok, Some f, a') \<Longrightarrow>
  assembler_drain a = (case assembler_drain a' of (st', fs, a'') \<Rightarrow> (st', f # fs, a''))"
  by (subst assembler_drain.simps) simp

lemma drain_extended:
  assumes "\<not> fa_failed a"
  shows "assembler_drain (extended a c) =
    (case assembler_drain a of (st, fs, a') \<Rightarrow>
       if st \<noteq> Ok then (st, fs, a')
       else (case assembler_drain (extended a' c) of (st', gs, a'') \<Rightarrow> (st', fs @ gs, a'')))"
  using assms
proof (induction a rule: assembler_drain.induct)
  case (1 a)
  obtain st fo a' where pop: "assembler_pop a = (st, fo, a')" by (metis prod.exhaust)
  show ?case
  proof (cases fo)
    case (Some f)
    then have p: "assembler_pop a = (Ok, Some f, a')" and a': "\<not> fa_failed a'"
      using pop pop_Some_shorter [of a st f a'] by auto
    then have "assembler_pop (extended a c) = (Ok, Some f, extended a' c)"
      using pop_extended [of a Ok "Some f" a' c] "1.prems" by simp
    from drain_Some [OF this] drain_Some [OF p] "1.IH" [OF p [symmetric] refl _ a'] show ?thesis
      by (auto split: prod.splits)
  next
    case None
    show ?thesis
    proof (cases "st = Ok")
      case True
      then have "a' = a" using pop None pop_None_same by blast
      then show ?thesis
        using drain_None [of a st a'] pop None True by (auto split: prod.splits)
    next
      case False
      then have "assembler_pop (extended a c) = (st, None, a')"
        using pop_extended [OF pop, of c] None "1.prems" by simp
      from drain_None [OF this] drain_None [of a st a'] pop None False show ?thesis by simp
    qed
  qed
qed

text \<open>A successful drain leaves less than a frame of maximal size.\<close>

definition quiet :: "frame_assembler \<Rightarrow> bool" where
  "quiet a \<longleftrightarrow> \<not> fa_failed a \<and> assembler_pop a = (Ok, None, a)"

lemma drain_quiet:
  "assembler_drain a = (Ok, fs, a') \<Longrightarrow> quiet a' \<and> fa_limits a' = fa_limits a"
proof (induction a arbitrary: fs rule: assembler_drain.induct)
  case (1 a)
  obtain st fo b where pop: "assembler_pop a = (st, fo, b)" by (metis prod.exhaust)
  show ?case
  proof (cases fo)
    case None
    then have p: "assembler_pop a = (Ok, None, a')" using drain_None [of a st b] pop "1.prems" by simp
    then have "\<not> fa_failed a" by (auto simp: assembler_pop_eq)
    then show ?thesis using p pop_None_same [OF p] by (simp add: quiet_def)
  next
    case (Some f)
    then have p: "assembler_pop a = (Ok, Some f, b)" using pop pop_Some_shorter by blast
    then obtain gs where "assembler_drain b = (Ok, gs, a')"
      using drain_Some [OF p] "1.prems" by (auto split: prod.splits)
    then show ?thesis using "1.IH" [OF p [symmetric] refl] pop_Some_shorter [OF p] by simp
  qed
qed

lemma quiet_bound: "quiet a \<Longrightarrow> length (fa_buffer a) < 96 + unat (max_frame_bytes (fa_limits a))"
proof -
  assume "quiet a"
  then have "assembler_pop a = (Ok, None, a)" "\<not> fa_failed a" by (simp_all add: quiet_def)
  then show ?thesis
    by (auto simp: assembler_pop_eq decode_frame_not_Ok not_less word_le_nat_alt
        split: option.splits if_splits sum.splits)
qed

lemma push_within:
  assumes "quiet a" "length c + 96 + unat (max_frame_bytes (fa_limits a)) \<le> unat (max_frame_assembly_bytes (fa_limits a))"
  shows "assembler_push c a = (Ok, extended a c)"
proof -
  have "\<not> length (fa_buffer a) + length c > unat (max_frame_assembly_bytes (fa_limits a))"
    using quiet_bound [OF assms(1)] assms(2) by linarith
  then show ?thesis using assms(1) by (simp add: assembler_push_def quiet_def extended_def)
qed

text \<open>The run over the chunks is the run over their concatenation.\<close>

lemma feed_concat:
  assumes "quiet a"
    and "\<forall>c\<in>set chunks. length c + 96 + unat (max_frame_bytes (fa_limits a)) \<le> unat (max_frame_assembly_bytes (fa_limits a))"
  shows "assembler_feed chunks a = assembler_drain (extended a (concat chunks))"
  using assms
proof (induction chunks arbitrary: a)
  case Nil
  then show ?case by (simp add: quiet_def drain_None)
next
  case (Cons c cs)
  then have push: "assembler_push c a = (Ok, extended a c)" by (intro push_within) simp_all
  obtain st fs a' where d: "assembler_drain (extended a c) = (st, fs, a')" by (metis prod.exhaust)
  have ext: "assembler_drain (extended a (c @ concat cs)) =
      (if st \<noteq> Ok then (st, fs, a')
       else (case assembler_drain (extended a' (concat cs)) of (st', gs, a'') \<Rightarrow> (st', fs @ gs, a'')))"
    using drain_extended [of "extended a c" "concat cs"] Cons.prems(1) d by (simp add: quiet_def)
  show ?case
  proof (cases "st = Ok")
    case True
    then have "quiet a'" "fa_limits a' = fa_limits a" using drain_quiet [of "extended a c" fs a'] d by simp_all
    then have "assembler_feed cs a' = assembler_drain (extended a' (concat cs))"
      using Cons by simp
    then show ?thesis using push d ext True by simp
  next
    case False
    then show ?thesis using push d ext by simp
  qed
qed

lemma new_assembler_quiet: "quiet (new_assembler l)"
  by (simp add: quiet_def new_assembler_def assembler_pop_eq)

lemma new_assembler_fields [simp]:
  "fa_limits (new_assembler l) = l" "fa_buffer (new_assembler l) = []" "\<not> fa_failed (new_assembler l)"
  by (simp_all add: new_assembler_def)

subsection \<open>Whole frames\<close>

definition encodes :: "limits \<Rightarrow> frame \<Rightarrow> byte list \<Rightarrow> bool" where
  "encodes l f e \<longleftrightarrow> encode_frame f l = Inr e \<and> frame_wire f"

lemma encodes_header:
  assumes "encodes l f e"
  shows "fst (decode_frame_header (byte_reader_of (e @ rest))) = Some (fr_header f)"
    "fh_protocol_version (fr_header f) = kProtocolVersionValue"
    "unat (fh_payload_length (fr_header f)) = length (fr_payload f)"
    "length (fr_payload f) \<le> unat (max_frame_bytes l)" "length e = 96 + length (fr_payload f)"
proof -
  have st: "fr_header f = stamped f" and ep: "gen_ok (fh_epoch (fr_header f))" and enc: "encode_frame f l = Inr e"
    using assms by (auto simp: encodes_def frame_wire_def)
  show le: "length (fr_payload f) \<le> unat (max_frame_bytes l)" and len: "length e = 96 + length (fr_payload f)"
    using enc length_encode_frame by (simp_all add: encode_frame_iff)
  show "fh_protocol_version (fr_header f) = kProtocolVersionValue"
    using st by (metis stamped_fields(3))
  show "unat (fh_payload_length (fr_header f)) = length (fr_payload f)"
    using st le by (metis stamped_fields(4) unat_u32_of_nat unat_u32_less)
  have "take 60 (e @ rest) = encode_frame_header (fr_header f)"
    using enc st by (simp add: encode_frame_iff)
  moreover have "header_wire (fr_header f)"
    using enc ep by (simp add: encode_frame_iff header_wire_def)
  ultimately show "fst (decode_frame_header (byte_reader_of (e @ rest))) = Some (fr_header f)"
    using len by (simp add: decode_header_iff)
qed

text \<open>A proper prefix of a frame delivers nothing.\<close>

lemma pop_partial:
  assumes "encodes (fa_limits a) g (fa_buffer a @ rest)" "\<not> fa_failed a" "rest \<noteq> []"
  shows "assembler_pop a = (Ok, None, a)"
proof (cases "length (fa_buffer a) < 96")
  case True
  then show ?thesis using assms(2) by (simp add: assembler_pop_eq)
next
  case False
  note h = encodes_header [OF assms(1)]
  have "fst (decode_frame_header (byte_reader_of (fa_buffer a))) = Some (fr_header g)"
    using h(1) [of "[]"] header_append [of "fa_buffer a" rest] False by simp
  moreover have "length (fa_buffer a) < 96 + length (fr_payload g)"
    using h(5) assms(3) by (cases rest) simp_all
  ultimately show ?thesis
    using assms(2) False h(2-4) by (simp add: assembler_pop_eq word_less_nat_alt)
qed

lemma pop_encoded:
  assumes "encodes (fa_limits a) f e" "\<not> fa_failed a" "fa_buffer a = e @ rest"
  shows "assembler_pop a = (Ok, Some f, a\<lparr>fa_buffer := rest\<rparr>)"
proof -
  note h = encodes_header [OF assms(1)]
  have "decode_frame e (fa_limits a) = Inr f"
    using assms(1) by (simp add: decode_frame_exact encodes_def)
  then show ?thesis
    using assms(2,3) h by (simp add: assembler_pop_eq not_less [symmetric] word_less_nat_alt)
qed

lemma drain_encoded:
  assumes "list_all2 (encodes (fa_limits a)) fs es" "\<not> fa_failed a" "fa_buffer a = concat es"
  shows "assembler_drain a = (Ok, fs, a\<lparr>fa_buffer := []\<rparr>)"
  using assms
proof (induction fs arbitrary: es a)
  case Nil
  then show ?case by (simp add: drain_None assembler_pop_eq)
next
  case (Cons f fs)
  then obtain e es' where es: "es = e # es'" "encodes (fa_limits a) f e" "list_all2 (encodes (fa_limits a)) fs es'"
    by (auto simp: list_all2_Cons1)
  then have "assembler_pop a = (Ok, Some f, a\<lparr>fa_buffer := concat es'\<rparr>)"
    using Cons.prems by (intro pop_encoded) simp_all
  from drain_Some [OF this] Cons.IH [of "a\<lparr>fa_buffer := concat es'\<rparr>" es'] es Cons.prems show ?case by simp
qed

subsection \<open>Bounds\<close>

inductive assembler_reach :: "limits \<Rightarrow> frame_assembler \<Rightarrow> bool" where
  reach_new: "assembler_reach l (new_assembler l)"
| reach_push: "assembler_reach l a \<Longrightarrow> assembler_reach l (snd (assembler_push chunk a))"
| reach_pop: "assembler_reach l a \<Longrightarrow> assembler_reach l (snd (snd (assembler_pop a)))"
| reach_reset: "assembler_reach l a \<Longrightarrow> assembler_reach l (assembler_reset a)"

definition assembler_bounded :: "limits \<Rightarrow> frame_assembler \<Rightarrow> bool" where
  "assembler_bounded l a \<longleftrightarrow> fa_limits a = l \<and> length (fa_buffer a) \<le> unat (max_frame_assembly_bytes l) \<and>
     (fa_failed a \<longrightarrow> fa_buffer a = [])"

lemma bounded_push: "assembler_bounded l a \<Longrightarrow> assembler_bounded l (snd (assembler_push chunk a))"
  by (auto simp: assembler_bounded_def assembler_push_def assembler_fail_def)

lemma bounded_pop: "assembler_bounded l a \<Longrightarrow> assembler_bounded l (snd (snd (assembler_pop a)))"
  by (auto simp: assembler_bounded_def assembler_pop_eq split: option.split sum.split)

lemma reach_bounded: "assembler_reach l a \<Longrightarrow> assembler_bounded l a"
proof (induction rule: assembler_reach.induct)
  case (reach_new l)
  then show ?case by (simp add: assembler_bounded_def)
next
  case (reach_push l a chunk)
  then show ?case by (intro bounded_push)
next
  case (reach_pop l a)
  then show ?case by (intro bounded_pop)
next
  case (reach_reset l a)
  then show ?case by (simp add: assembler_bounded_def assembler_reset_def)
qed

lemma popped_size:
  assumes "assembler_bounded l a" "assembler_pop a = (st, Some f, a')"
  shows "96 + length (fr_payload f) \<le> unat (max_frame_assembly_bytes l)"
proof -
  have "\<exists>n. decode_frame (take n (fa_buffer a)) (fa_limits a) = Inr f"
    using assms(2) by (auto simp: assembler_pop_eq split: option.splits if_splits sum.splits)
  then obtain n where "encode_frame f (fa_limits a) = Inr (take n (fa_buffer a))"
    by (auto simp: decode_frame_exact)
  then have "length (take n (fa_buffer a)) = 96 + length (fr_payload f)"
    by (rule length_encode_frame)
  then have "96 + length (fr_payload f) \<le> length (fa_buffer a)" by simp
  then show ?thesis using assms(1) by (simp add: assembler_bounded_def)
qed

end
