(* ===== verification/Snapshot.thy ===== *)
theory Snapshot
  imports Coordinator
begin

text \<open>
  Immutable snapshots, their deterministic identities, the diff of two result snapshots and the
  snapshot codecs (\<open>snapshot.hpp\<close>, \<open>snapshot.cpp\<close>), with the two snapshot queries of the coordinator.
  The evidence codec of \<open>snapshot.cpp\<close> has the bodies of \<^const>\<open>write_requirements\<close> and
  \<^const>\<open>read_requirements\<close>. A \<open>std::map\<close> from paths to entries is an ordered association list.
\<close>

subsection \<open>Data\<close>

type_synonym snapshot_id = strong_id

record definitions_snapshot =
  sd_id :: snapshot_id
  sd_set_id :: constraint_set_id
  sd_generation :: generation
  sd_state :: constraint_set_state
  sd_constraints :: "constraint list"
  sd_evidence :: evidence_requirements
  sd_ranking :: ranking_policy
  sd_digest :: digest256

record candidate_result_view =
  vw_path :: path_id
  vw_authority_generation :: generation
  vw_outcome :: outcome
  vw_primary_reason :: reason_code
  vw_state :: result_state
  vw_evaluation_id :: evaluation_id
  vw_evaluation_generation :: generation
  vw_digest :: digest256

record results_snapshot =
  sr_id :: snapshot_id
  sr_set_id :: constraint_set_id
  sr_set_generation :: generation
  sr_evaluation_generation :: generation
  sr_entries :: "candidate_result_view list"
  sr_digest :: digest256

datatype result_change_kind =
    RH_Appeared | RH_Disappeared | RH_OutcomeChanged | RH_ReasonChanged | RH_CurrentnessChanged
  | RH_AuthorityGenerationChanged | RH_EvidenceDigestChanged

primrec result_change_kind_value :: "result_change_kind \<Rightarrow> u8" where
  "result_change_kind_value RH_Appeared = 1"
| "result_change_kind_value RH_Disappeared = 2"
| "result_change_kind_value RH_OutcomeChanged = 3"
| "result_change_kind_value RH_ReasonChanged = 4"
| "result_change_kind_value RH_CurrentnessChanged = 5"
| "result_change_kind_value RH_AuthorityGenerationChanged = 6"
| "result_change_kind_value RH_EvidenceDigestChanged = 7"

record result_change =
  rh_kind :: result_change_kind
  rh_path :: path_id
  rh_from_outcome :: outcome
  rh_to_outcome :: outcome
  rh_from_reason :: reason_code
  rh_to_reason :: reason_code
  rh_from_state :: result_state
  rh_to_state :: result_state

text \<open>The member initialisers.\<close>

definition default_result_change :: result_change where
  "default_result_change = \<lparr> rh_kind = RH_Appeared, rh_path = 0, rh_from_outcome = Out_Malformed,
     rh_to_outcome = Out_Malformed, rh_from_reason = RC_None, rh_to_reason = RC_None,
     rh_from_state = RS_Current, rh_to_state = RS_Current \<rparr>"

record results_diff =
  rd_from_snapshot :: snapshot_id
  rd_to_snapshot :: snapshot_id
  rd_from_generation :: generation
  rd_to_generation :: generation
  rd_from_evaluation_generation :: generation
  rd_to_evaluation_generation :: generation
  rd_changes :: "result_change list"
  rd_from_digest :: digest256
  rd_to_digest :: digest256

record evidence_generation_change =
  gc_family :: evidence_family
  gc_from_generation :: u64
  gc_to_generation :: u64

subsection \<open>Definitions snapshots\<close>

definition definitions_snapshot_id :: "definitions_snapshot \<Rightarrow> snapshot_id" where
  "definitions_snapshot_id s =
     (let v = leading_u64 (digest_of ''crf.definitions-snapshot.v1''
        [hash_u64 (sd_set_id s), hash_u64 (sd_generation s), hash_u8 (constraint_set_state_value (sd_state s)),
         hash_digest (sd_digest s)])
      in if v = 0 then 1 else v)"

definition snapshot_definitions :: "constraint_set \<Rightarrow> definitions_snapshot" where
  "snapshot_definitions s =
     (let snapshot = \<lparr> sd_id = 0, sd_set_id = cs_id s, sd_generation = cs_generation s, sd_state = cs_state s,
        sd_constraints = cs_constraints s, sd_evidence = cs_evidence s, sd_ranking = cs_ranking s,
        sd_digest = cs_digest s \<rparr>
      in snapshot\<lparr>sd_id := definitions_snapshot_id snapshot\<rparr>)"

subsection \<open>Results snapshots\<close>

definition feed_entry :: "candidate_result_view \<Rightarrow> byte list list" where
  "feed_entry e = [hash_u64 (vw_path e), hash_u64 (vw_authority_generation e), hash_u16 (outcome_value (vw_outcome e)),
     hash_u16 (vw_primary_reason e), hash_u8 (result_state_value (vw_state e)), hash_u64 (vw_evaluation_id e),
     hash_u64 (vw_evaluation_generation e), hash_digest (vw_digest e)]"

definition view_less :: "candidate_result_view \<Rightarrow> candidate_result_view \<Rightarrow> bool" where
  "view_less a b = (if vw_path a \<noteq> vw_path b then vw_path a < vw_path b
     else vw_evaluation_generation a < vw_evaluation_generation b)"

definition results_snapshot_id :: "results_snapshot \<Rightarrow> snapshot_id" where
  "results_snapshot_id s = (let v = leading_u64 (sr_digest s) in if v = 0 then 1 else v)"

definition snapshot_results ::
  "constraint_set_id \<Rightarrow> generation \<Rightarrow> generation \<Rightarrow> candidate_result_view list \<Rightarrow> results_snapshot" where
  "snapshot_results set_id set_generation generation entries =
     (let sorted_entries = stable_sort view_less entries;
          digest = digest_of ''crf.results-snapshot.v1''
            ([hash_u64 set_id, hash_u64 set_generation, hash_u64 generation,
              hash_u32 (word_of_nat (length sorted_entries))] @ concat (map feed_entry sorted_entries));
          snapshot = \<lparr> sr_id = 0, sr_set_id = set_id, sr_set_generation = set_generation,
            sr_evaluation_generation = generation, sr_entries = sorted_entries, sr_digest = digest \<rparr>
      in snapshot\<lparr>sr_id := results_snapshot_id snapshot\<rparr>)"

subsection \<open>Diffs\<close>

text \<open>Only the newest result per path participates in a diff.\<close>

definition newest_step ::
  "(u64 \<times> candidate_result_view) list \<Rightarrow> candidate_result_view \<Rightarrow> (u64 \<times> candidate_result_view) list" where
  "newest_step m entry =
     (case om_find m (vw_path entry) of
        None \<Rightarrow> om_emplace (vw_path entry) entry m
      | Some previous \<Rightarrow>
          if vw_evaluation_generation previous < vw_evaluation_generation entry
          then om_set (vw_path entry) entry m else m)"

definition newest_entries :: "candidate_result_view list \<Rightarrow> (u64 \<times> candidate_result_view) list" where
  "newest_entries entries = foldl newest_step [] entries"

definition entry_change :: "candidate_result_view \<Rightarrow> candidate_result_view \<Rightarrow> result_change list" where
  "entry_change before after =
     (let moved = default_result_change\<lparr> rh_path := vw_path before, rh_from_state := vw_state before,
            rh_to_state := vw_state after \<rparr>;
          full = moved\<lparr> rh_from_outcome := vw_outcome before, rh_to_outcome := vw_outcome after,
            rh_from_reason := vw_primary_reason before, rh_to_reason := vw_primary_reason after \<rparr>
      in if vw_outcome before \<noteq> vw_outcome after then [full\<lparr>rh_kind := RH_OutcomeChanged\<rparr>]
         else if vw_primary_reason before \<noteq> vw_primary_reason after then [full\<lparr>rh_kind := RH_ReasonChanged\<rparr>]
         else if vw_state before \<noteq> vw_state after then [moved\<lparr>rh_kind := RH_CurrentnessChanged\<rparr>]
         else if vw_authority_generation before \<noteq> vw_authority_generation after
           then [moved\<lparr>rh_kind := RH_AuthorityGenerationChanged\<rparr>]
         else if vw_digest before \<noteq> vw_digest after then [moved\<lparr>rh_kind := RH_EvidenceDigestChanged\<rparr>]
         else [])"

definition left_change :: "(u64 \<times> candidate_result_view) list \<Rightarrow> u64 \<times> candidate_result_view \<Rightarrow> result_change list" where
  "left_change right entry =
     (case om_find right (fst entry) of
        None \<Rightarrow> [default_result_change\<lparr> rh_kind := RH_Disappeared, rh_path := vw_path (snd entry),
          rh_from_outcome := vw_outcome (snd entry), rh_from_reason := vw_primary_reason (snd entry),
          rh_from_state := vw_state (snd entry) \<rparr>]
      | Some after \<Rightarrow> entry_change (snd entry) after)"

definition right_change :: "(u64 \<times> candidate_result_view) list \<Rightarrow> u64 \<times> candidate_result_view \<Rightarrow> result_change list" where
  "right_change left entry =
     (if om_find left (fst entry) = None then
        [default_result_change\<lparr> rh_kind := RH_Appeared, rh_path := vw_path (snd entry),
          rh_to_outcome := vw_outcome (snd entry), rh_to_reason := vw_primary_reason (snd entry),
          rh_to_state := vw_state (snd entry) \<rparr>]
      else [])"

definition result_change_less :: "result_change \<Rightarrow> result_change \<Rightarrow> bool" where
  "result_change_less a b =
     (if rh_path a \<noteq> rh_path b then rh_path a < rh_path b
      else if rh_kind a \<noteq> rh_kind b then result_change_kind_value (rh_kind a) < result_change_kind_value (rh_kind b)
      else rh_to_reason a < rh_to_reason b)"

text \<open>The changes have distinct paths, so \<open>std::sort\<close> has one possible result.\<close>

definition result_changes :: "candidate_result_view list \<Rightarrow> candidate_result_view list \<Rightarrow> result_change list" where
  "result_changes from to =
     (let left = newest_entries from; right = newest_entries to in
      stable_sort result_change_less
        (concat (map (left_change right) left) @ concat (map (right_change left) right)))"

definition diff_results :: "results_snapshot \<Rightarrow> results_snapshot \<Rightarrow> results_diff" where
  "diff_results from to =
     \<lparr> rd_from_snapshot = sr_id from, rd_to_snapshot = sr_id to, rd_from_generation = sr_set_generation from,
       rd_to_generation = sr_set_generation to, rd_from_evaluation_generation = sr_evaluation_generation from,
       rd_to_evaluation_generation = sr_evaluation_generation to,
       rd_changes = result_changes (sr_entries from) (sr_entries to),
       rd_from_digest = sr_digest from, rd_to_digest = sr_digest to \<rparr>"

definition add_generation_change :: "evidence_family \<times> u64 \<times> u64 \<Rightarrow> evidence_generation_change list" where
  "add_generation_change c = (case c of (family, before, after) \<Rightarrow>
     if before \<noteq> after then [\<lparr> gc_family = family, gc_from_generation = before, gc_to_generation = after \<rparr>] else [])"

definition diff_evidence_requirements ::
  "evidence_requirements \<Rightarrow> evidence_requirements \<Rightarrow> evidence_generation_change list" where
  "diff_evidence_requirements from to = concat (map add_generation_change
     [(EF_Topology, er_topology from, er_topology to), (EF_LinkState, er_link_state from, er_link_state to),
      (EF_Capability, er_capability from, er_capability to),
      (EF_FailureDomain, er_failure_domain from, er_failure_domain to), (EF_Policy, er_policy from, er_policy to),
      (EF_Planner, er_planner from, er_planner to), (EF_PathAuthority, er_path_authority from, er_path_authority to)])"

subsection \<open>Codecs\<close>

definition encode_definitions_snapshot :: "definitions_snapshot \<Rightarrow> byte list" where
  "encode_definitions_snapshot s =
     put_u64 (sd_id s) @ put_u64 (sd_set_id s) @ put_u64 (sd_generation s) @
     put_u8 (constraint_set_state_value (sd_state s)) @ put_u8 0 @ put_u16 0 @ put_u32 0 @
     write_counted encode_constraint (sd_constraints s) @ write_requirements (sd_evidence s) @
     encode_ranking_policy (sd_ranking s) @ put_raw (sd_digest s)"

definition decode_definitions_snapshot :: "limits \<Rightarrow> definitions_snapshot parser" where
  "decode_definitions_snapshot l =
     rd_bind rd_u64 (\<lambda>id. rd_bind rd_u64 (\<lambda>set_id. rd_bind rd_u64 (\<lambda>generation. rd_bind rd_u8 (\<lambda>state.
     rd_bind rd_u8 (\<lambda>padding8. rd_bind rd_u16 (\<lambda>padding16. rd_bind rd_u32 (\<lambda>padding32.
     rd_guard (\<not> (padding8 \<noteq> 0 \<or> padding16 \<noteq> 0 \<or> padding32 \<noteq> 0 \<or> state = 0 \<or> state > 7))
     (rd_guard (\<not> (generation \<noteq> 0 \<and> \<not> is_representable generation))
     (rd_bind (read_counted (max_constraints_per_set l) (decode_constraint l)) (\<lambda>constraints.
     rd_bind read_requirements (\<lambda>evidence. rd_bind decode_ranking_policy (\<lambda>ranking.
     rd_bind (rd_raw 32) (\<lambda>digest.
     rd_return \<lparr> sd_id = id, sd_set_id = set_id, sd_generation = generation,
       sd_state = constraint_set_state_of state, sd_constraints = constraints, sd_evidence = evidence,
       sd_ranking = ranking, sd_digest = digest \<rparr>)))))))))))))"

definition write_view :: "candidate_result_view \<Rightarrow> byte list" where
  "write_view e = put_u64 (vw_path e) @ put_u64 (vw_authority_generation e) @ put_u16 (outcome_value (vw_outcome e)) @
     put_u16 (vw_primary_reason e) @ put_u8 (result_state_value (vw_state e)) @ put_u8 0 @ put_u16 0 @
     put_u64 (vw_evaluation_id e) @ put_u64 (vw_evaluation_generation e) @ put_raw (vw_digest e)"

definition encode_results_snapshot :: "results_snapshot \<Rightarrow> byte list" where
  "encode_results_snapshot s =
     put_u64 (sr_id s) @ put_u64 (sr_set_id s) @ put_u64 (sr_set_generation s) @ put_u64 (sr_evaluation_generation s) @
     write_counted write_view (sr_entries s) @ put_raw (sr_digest s)"

definition read_view :: "candidate_result_view parser" where
  "read_view =
     rd_bind rd_u64 (\<lambda>path. rd_bind rd_u64 (\<lambda>authority. rd_bind rd_u16 (\<lambda>outcome. rd_bind rd_u16 (\<lambda>reason.
     rd_bind rd_u8 (\<lambda>state. rd_bind rd_u8 (\<lambda>padding8. rd_bind rd_u16 (\<lambda>padding16. rd_bind rd_u64 (\<lambda>evaluation_id.
     rd_bind rd_u64 (\<lambda>evaluation_generation.
     rd_guard (\<not> (padding8 \<noteq> 0 \<or> padding16 \<noteq> 0 \<or> outcome > 10 \<or> state = 0 \<or> state > 5 \<or> path = 0))
     (rd_bind (rd_raw 32) (\<lambda>digest.
     rd_guard (\<not> (authority \<noteq> 0 \<and> \<not> is_representable authority))
     (rd_guard (\<not> (evaluation_generation \<noteq> 0 \<and> \<not> is_representable evaluation_generation))
     (rd_return \<lparr> vw_path = path, vw_authority_generation = authority, vw_outcome = outcome_of outcome,
        vw_primary_reason = reason, vw_state = result_state_of state, vw_evaluation_id = evaluation_id,
        vw_evaluation_generation = evaluation_generation, vw_digest = digest \<rparr>)))))))))))))"

text \<open>The entry loop: the paths must be strictly ascending.\<close>

fun read_views :: "nat \<Rightarrow> candidate_result_view option \<Rightarrow> candidate_result_view list parser" where
  "read_views 0 previous = rd_return []"
| "read_views (Suc n) previous = rd_bind read_view (\<lambda>entry.
     rd_guard (\<not> (case previous of None \<Rightarrow> False | Some p \<Rightarrow> \<not> vw_path p < vw_path entry))
       (rd_bind (read_views n (Some entry)) (\<lambda>rest. rd_return (entry # rest))))"

definition decode_results_snapshot :: "limits \<Rightarrow> results_snapshot parser" where
  "decode_results_snapshot l =
     rd_bind rd_u64 (\<lambda>id. rd_bind rd_u64 (\<lambda>set_id. rd_bind rd_u64 (\<lambda>set_generation.
     rd_bind rd_u64 (\<lambda>evaluation_generation.
     rd_guard (\<not> (set_generation \<noteq> 0 \<and> \<not> is_representable set_generation))
     (rd_guard (\<not> (evaluation_generation \<noteq> 0 \<and> \<not> is_representable evaluation_generation))
     (rd_bind (rd_bounded_length (max_evaluations_retained l)) (\<lambda>count.
     rd_bind (read_views (unat count) None) (\<lambda>entries. rd_bind (rd_raw 32) (\<lambda>digest.
     rd_return \<lparr> sr_id = id, sr_set_id = set_id, sr_set_generation = set_generation,
       sr_evaluation_generation = evaluation_generation, sr_entries = entries, sr_digest = digest \<rparr>)))))))))"

subsection \<open>The snapshot queries of the coordinator\<close>

definition view_of :: "evaluation_record \<Rightarrow> candidate_result_view" where
  "view_of r = \<lparr> vw_path = ev_path r, vw_authority_generation = ev_authority_generation r,
     vw_outcome = ev_outcome r, vw_primary_reason = ev_primary_reason r, vw_state = ev_state r,
     vw_evaluation_id = ev_id r, vw_evaluation_generation = ev_generation r, vw_digest = ev_digest r \<rparr>"

definition coordinator_snapshot_definitions :: "coordinator \<Rightarrow> constraint_set_id \<Rightarrow> definitions_snapshot result" where
  "coordinator_snapshot_definitions c set_id =
     (case find_set (co_sets c) set_id of None \<Rightarrow> Inl NotFound | Some s \<Rightarrow> Inr (snapshot_definitions s))"

definition coordinator_snapshot_results :: "coordinator \<Rightarrow> constraint_set_id \<Rightarrow> results_snapshot result" where
  "coordinator_snapshot_results c set_id =
     (case find_set (co_sets c) set_id of
        None \<Rightarrow> Inl NotFound
      | Some s \<Rightarrow> Inr (snapshot_results set_id (cs_generation s) (co_last_generation c)
          (map view_of (filter (\<lambda>r. ev_set_id r = set_id) (co_evaluations c)))))"

subsection \<open>Round trips\<close>

lemma definitions_snapshot_eta [simp]:
  "\<lparr> sd_id = sd_id p, sd_set_id = sd_set_id p, sd_generation = sd_generation p, sd_state = sd_state p,
     sd_constraints = sd_constraints p, sd_evidence = sd_evidence p, sd_ranking = sd_ranking p, sd_digest = sd_digest p \<rparr> = p"
  by simp

lemma candidate_result_view_eta [simp]:
  "\<lparr> vw_path = vw_path p, vw_authority_generation = vw_authority_generation p, vw_outcome = vw_outcome p, vw_primary_reason = vw_primary_reason p,
     vw_state = vw_state p, vw_evaluation_id = vw_evaluation_id p, vw_evaluation_generation = vw_evaluation_generation p, vw_digest = vw_digest p \<rparr> = p"
  by simp

lemma results_snapshot_eta [simp]:
  "\<lparr> sr_id = sr_id p, sr_set_id = sr_set_id p, sr_set_generation = sr_set_generation p, sr_evaluation_generation = sr_evaluation_generation p,
     sr_entries = sr_entries p, sr_digest = sr_digest p \<rparr> = p"
  by simp

definition definitions_wire :: "limits \<Rightarrow> definitions_snapshot \<Rightarrow> bool" where
  "definitions_wire l s \<longleftrightarrow> gen_ok (sd_generation s) \<and>
     length (sd_constraints s) \<le> unat (max_constraints_per_set l) \<and>
     (\<forall>c\<in>set (sd_constraints s). wire_constraint c l) \<and> requirements_wire (sd_evidence s) \<and>
     length (sd_digest s) = 32"

lemma parses_definitions_snapshot [codec_rt]:
  assumes "definitions_wire l s"
  shows "parses (decode_definitions_snapshot l) (encode_definitions_snapshot s) s"
proof -
  note w = assms [unfolded definitions_wire_def]
  have pc: "parses (read_counted (max_constraints_per_set l) (decode_constraint l))
      (write_counted encode_constraint (sd_constraints s)) (sd_constraints s)"
    using w by (intro parses_counted parses_decode_constraint) auto
  have pr: "parses read_requirements (write_requirements (sd_evidence s)) (sd_evidence s)"
    "parses (rd_raw 32) (put_raw (sd_digest s)) (sd_digest s)"
    using w by (auto intro: parses_requirements parses_raw)
  have g: "\<not> (sd_generation s \<noteq> 0 \<and> \<not> is_representable (sd_generation s))"
    using w by (simp add: gen_ok_def)
  show ?thesis
    unfolding decode_definitions_snapshot_def encode_definitions_snapshot_def
    by (rule codec_steps pc pr g parses_ranking_policy | simp; fail)+
qed

definition view_wire :: "candidate_result_view \<Rightarrow> bool" where
  "view_wire e \<longleftrightarrow> vw_path e \<noteq> 0 \<and> gen_ok (vw_authority_generation e) \<and> gen_ok (vw_evaluation_generation e) \<and>
     length (vw_digest e) = 32"

lemma parses_view:
  assumes "view_wire e"
  shows "parses read_view (write_view e) e"
proof -
  note w = assms [unfolded view_wire_def gen_ok_def]
  have pd: "parses (rd_raw 32) (put_raw (vw_digest e)) (vw_digest e)"
    using w by (simp add: parses_raw)
  show ?thesis
    unfolding read_view_def write_view_def
    by (rule codec_steps pd | use w in \<open>simp; fail\<close>)+
qed

text \<open>The entry loop reads the entries back, or refuses them because the paths do not ascend strictly.\<close>

definition ascending :: "candidate_result_view list \<Rightarrow> bool" where
  "ascending es \<longleftrightarrow> sorted_wrt (<) (map vw_path es)"

lemma read_views_run:
  assumes "list_all view_wire es"
  shows "fst (read_views (length es) prev (at_reader pre (concat (map write_view es) @ rest))) =
    (if adjacent (\<lambda>a b. vw_path a < vw_path b) (case prev of None \<Rightarrow> es | Some p \<Rightarrow> p # es) then Some es else None)"
  using assms
proof (induction es arbitrary: prev pre)
  case Nil
  then show ?case by (cases prev) (simp_all add: rd_return_def)
next
  case (Cons e es)
  let ?lt = "\<lambda>a b. vw_path a < vw_path b"
  have e: "parses read_view (write_view e) e" using Cons.prems by (simp add: parses_view)
  have tail: "fst (read_views (length es) (Some e) (at_reader (pre @ write_view e) (concat (map write_view es) @ rest))) =
      (if adjacent ?lt (e # es) then Some es else None)"
    using Cons.IH [of "Some e"] Cons.prems by simp
  have step: "fst (rd_bind (read_views (length es) (Some e)) (\<lambda>xs. rd_return (e # xs))
        (at_reader (pre @ write_view e) (concat (map write_view es) @ rest))) =
      (if adjacent ?lt (e # es) then Some (e # es) else None)"
    using tail by (auto simp: rd_bind_def rd_return_def split: prod.splits option.splits if_splits)
  have cont: "adjacent ?lt (case prev of None \<Rightarrow> e # es | Some p \<Rightarrow> p # e # es) \<longleftrightarrow>
      (case prev of None \<Rightarrow> True | Some p \<Rightarrow> ?lt p e) \<and> adjacent ?lt (e # es)"
    by (cases prev) simp_all
  have start: "read_views (length (e # es)) prev (at_reader pre (concat (map write_view (e # es)) @ rest)) =
      rd_guard (\<not> (case prev of None \<Rightarrow> False | Some p \<Rightarrow> \<not> vw_path p < vw_path e))
        (rd_bind (read_views (length es) (Some e)) (\<lambda>xs. rd_return (e # xs)))
        (at_reader (pre @ write_view e) (concat (map write_view es) @ rest))"
    using parsesD [OF e, of pre "concat (map write_view es) @ rest"] by (simp add: rd_bind_def)
  show ?case
    unfolding start cont using step by (cases prev) (auto simp: rd_guard_def)
qed

lemma adjacent_ascending: "adjacent (\<lambda>a b. vw_path a < vw_path b) es \<longleftrightarrow> ascending es"
  by (subst adjacent_sorted_wrt) (auto simp: ascending_def sorted_wrt_map transp_def)

definition results_fields_wire :: "limits \<Rightarrow> results_snapshot \<Rightarrow> bool" where
  "results_fields_wire l s \<longleftrightarrow> gen_ok (sr_set_generation s) \<and> gen_ok (sr_evaluation_generation s) \<and>
     length (sr_entries s) \<le> unat (max_evaluations_retained l) \<and> list_all view_wire (sr_entries s) \<and>
     length (sr_digest s) = 32"

lemma parses_views:
  assumes "list_all view_wire es" "ascending es"
  shows "parses (read_views (length es) None) (concat (map write_view es)) es"
proof -
  have "parses (read_views (length es) prev) (concat (map write_view es)) es"
    if "list_all view_wire es" "adjacent (\<lambda>a b. vw_path a < vw_path b) (case prev of None \<Rightarrow> es | Some p \<Rightarrow> p # es)" for prev es
    using that
  proof (induction es arbitrary: prev)
    case (Cons e es)
    then have g: "\<not> (case prev of None \<Rightarrow> False | Some p \<Rightarrow> \<not> vw_path p < vw_path e)"
      and "adjacent (\<lambda>a b. vw_path a < vw_path b) (e # es)"
      by (cases prev; simp)+
    then have "parses (read_views (length es) (Some e)) (concat (map write_view es)) es"
      using Cons by simp
    then have "parses (rd_bind (read_views (length es) (Some e)) (\<lambda>xs. rd_return (e # xs))) (concat (map write_view es)) (e # es)"
      by (rule parses_bind_Nil) simp
    then have "parses (rd_bind read_view (\<lambda>entry. rd_guard (\<not> (case prev of None \<Rightarrow> False | Some p \<Rightarrow> \<not> vw_path p < vw_path entry))
        (rd_bind (read_views (length es) (Some entry)) (\<lambda>xs. rd_return (entry # xs)))))
        (write_view e @ concat (map write_view es)) (e # es)"
      using g Cons.prems(1) by (intro parses_bind [OF parses_view] parses_guard) simp_all
    then show ?case by simp
  qed simp
  from this [of es None] show ?thesis using assms by (simp add: adjacent_ascending)
qed

lemma parses_results_snapshot [codec_rt]:
  assumes "results_fields_wire l s" "ascending (sr_entries s)"
  shows "parses (decode_results_snapshot l) (encode_results_snapshot s) s"
proof -
  note w = assms(1) [unfolded results_fields_wire_def]
  have n: "unat (word_of_nat (length (sr_entries s)) :: u32) = length (sr_entries s)"
    using w unat_u32_less by (intro unat_u32_of_nat) blast
  have bl: "parses (rd_bounded_length (max_evaluations_retained l)) (put_u32 (word_of_nat (length (sr_entries s))))
      (word_of_nat (length (sr_entries s)))"
    using w u32_of_nat_le by (intro parses_bounded_length) (simp add: not_less)
  have pv: "parses (read_views (unat (word_of_nat (length (sr_entries s)) :: u32)) None)
      (concat (map write_view (sr_entries s))) (sr_entries s)"
    unfolding n using w assms(2) by (intro parses_views) simp_all
  have pd: "parses (rd_raw 32) (put_raw (sr_digest s)) (sr_digest s)"
    using w by (simp add: parses_raw)
  have g: "\<not> (sr_set_generation s \<noteq> 0 \<and> \<not> is_representable (sr_set_generation s))"
    "\<not> (sr_evaluation_generation s \<noteq> 0 \<and> \<not> is_representable (sr_evaluation_generation s))"
    using w by (simp_all add: gen_ok_def)
  show ?thesis
    unfolding decode_results_snapshot_def encode_results_snapshot_def write_counted_def append_assoc
    by (rule bl pv pd g codec_steps | simp; fail)+
qed

text \<open>Exactly: a snapshot with well-formed fields is refused when two entries have the same path.\<close>

lemma decode_results_at:
  assumes "results_fields_wire l s"
  shows "fst (decode_results_snapshot l (at_reader pre (encode_results_snapshot s @ rest))) =
    (if ascending (sr_entries s) then Some s else None)"
proof (cases "ascending (sr_entries s)")
  case True
  then show ?thesis using parsesD [OF parses_results_snapshot [OF assms]] by simp
next
  case False
  note w = assms [unfolded results_fields_wire_def]
  have n: "unat (word_of_nat (length (sr_entries s)) :: u32) = length (sr_entries s)"
    using w unat_u32_less by (intro unat_u32_of_nat) blast
  have bl: "parses (rd_bounded_length (max_evaluations_retained l)) (put_u32 (word_of_nat (length (sr_entries s))))
      (word_of_nat (length (sr_entries s)))"
    using w u32_of_nat_le by (intro parses_bounded_length) (simp add: not_less)
  have refuse: "fst (read_views (length (sr_entries s)) None
      (at_reader pre (concat (map write_view (sr_entries s)) @ rest))) = None" for pre rest
    using read_views_run [of "sr_entries s" None pre rest] w False by (simp add: adjacent_ascending)
  have "fst (rd_bind (read_views (length (sr_entries s)) None) k
      (at_reader pre (concat (map write_view (sr_entries s)) @ rest))) = None" for k pre rest
    using refuse [of pre rest] by (auto simp: rd_bind_def split: prod.splits)
  then show ?thesis
    using w False
    unfolding decode_results_snapshot_def encode_results_snapshot_def write_counted_def append_assoc rd_fields
    by (simp add: rd_guard_def rd_bind_parses [OF bl] n gen_ok_def)
qed

lemma decode_results_run:
  "results_fields_wire l s \<Longrightarrow> fst (decode_results_snapshot l (byte_reader_of (encode_results_snapshot s))) =
    (if ascending (sr_entries s) then Some s else None)"
  using decode_results_at [of l s "[]" "[]"] by (simp add: byte_reader_start)

lemma results_fields_wireD: "results_fields_wire l s \<Longrightarrow> e \<in> set (sr_entries s) \<Longrightarrow> view_wire e"
  by (simp add: results_fields_wire_def list_all_iff)

lemma regular_read_views [intro, simp]: "regular (read_views n prev)"
  by (induction n arbitrary: prev) (auto simp: read_view_def intro!: regular_bind regular_guard)

lemma regular_snapshots [intro, simp]:
  "regular (decode_definitions_snapshot l)" "regular (decode_results_snapshot l)"
  unfolding decode_definitions_snapshot_def decode_results_snapshot_def read_counted_def read_requirements_def
    read_generation_field_def decode_ranking_policy_def
  by (auto intro!: regular_bind regular_guard regular_repeat)

subsection \<open>Snapshots of a coordinator\<close>

interpretation view_order: keyed_order view_less "\<lambda>e. (vw_path e, vw_evaluation_generation e)"
  by unfold_locales (auto simp: view_less_def)

lemma snapshot_results_entries:
  "sr_entries (snapshot_results i g e vs) = stable_sort view_less vs"
  by (simp add: snapshot_results_def Let_def)

lemma ascending_snapshot:
  "ascending (sr_entries (snapshot_results i g e vs)) \<longleftrightarrow> distinct (map vw_path vs)"
proof -
  let ?es = "stable_sort view_less vs"
  have "sorted (map (\<lambda>e. (vw_path e, vw_evaluation_generation e)) ?es)" by (rule view_order.sorted_keys)
  then have "sorted (map fst (map (\<lambda>e. (vw_path e, vw_evaluation_generation e)) ?es))"
    by (rule sorted_map_mono) (auto simp: mono_on_def less_eq_prod_def)
  then have "sorted (map vw_path ?es)" by (simp add: comp_def)
  moreover have "distinct (map vw_path ?es) \<longleftrightarrow> distinct (map vw_path vs)"
    by (metis mset_map mset_stable_sort mset_eq_imp_distinct_iff)
  ultimately show ?thesis
    by (simp add: ascending_def snapshot_results_entries strict_sorted_iff)
qed

end
