(* ===== verification/Snapshot_Properties.thy ===== *)
theory Snapshot_Properties
  imports Snapshot Coordinator_Samples
begin

text \<open>
  What the diff of two result snapshots reports, and which snapshots survive the wire. The newest
  result of a path is specified without the map of the code; the diff holds exactly one change for
  every path whose newest result differs, in ascending path order.
\<close>

subsection \<open>The newest result of a path\<close>

definition newer :: "candidate_result_view option \<Rightarrow> candidate_result_view \<Rightarrow> candidate_result_view option" where
  "newer b e = (case b of None \<Rightarrow> Some e
     | Some v \<Rightarrow> if vw_evaluation_generation v < vw_evaluation_generation e then Some e else Some v)"

definition newest_of :: "path_id \<Rightarrow> candidate_result_view list \<Rightarrow> candidate_result_view option" where
  "newest_of p es = foldl newer None (filter (\<lambda>e. vw_path e = p) es)"

lemma newest_of_snoc:
  "newest_of p (es @ [e]) = (if vw_path e = p then newer (newest_of p es) e else newest_of p es)"
  by (simp add: newest_of_def)

lemma newest_entries_snoc: "newest_entries (es @ [e]) = newest_step (newest_entries es) e"
  by (simp add: newest_entries_def)

lemma newest_entries_find:
  "om_sorted (newest_entries es) \<and> om_find (newest_entries es) p = newest_of p es"
proof (induction es arbitrary: p rule: rev_induct)
  case Nil
  then show ?case by (simp add: newest_entries_def newest_of_def)
next
  case (snoc e es)
  let ?m = "newest_entries es"
  have m: "om_sorted ?m" "\<And>q. om_find ?m q = newest_of q es" using snoc by simp_all
  have "om_sorted (newest_step ?m e)"
    unfolding newest_step_def using m(1)
    by (auto simp: om_sorted_emplace om.ordered_insert split: option.split)
  moreover have "om_find (newest_step ?m e) p = newest_of p (es @ [e])"
    unfolding newest_of_snoc
    by (auto simp: newest_step_def newer_def m(2) om_find_emplace om.find_insert split: option.splits)
  ultimately show ?case unfolding newest_entries_snoc by simp
qed

lemma newest_of_spec:
  "newest_of p es = Some v \<Longrightarrow> v \<in> set es \<and> vw_path v = p \<and>
     (\<forall>w\<in>set es. vw_path w = p \<longrightarrow> vw_evaluation_generation w \<le> vw_evaluation_generation v)"
proof (induction es arbitrary: v rule: rev_induct)
  case (snoc e es)
  show ?case
  proof (cases "vw_path e = p")
    case False
    then show ?thesis using snoc by (auto simp: newest_of_snoc)
  next
    case True
    then have n: "newer (newest_of p es) e = Some v" using snoc.prems by (simp add: newest_of_snoc)
    show ?thesis
    proof (cases "newest_of p es")
      case None
      have "\<forall>w\<in>set es. vw_path w \<noteq> p"
      proof (rule ccontr)
        assume "\<not> (\<forall>w\<in>set es. vw_path w \<noteq> p)"
        then have ne: "filter (\<lambda>e. vw_path e = p) es \<noteq> []" by (auto simp: filter_empty_conv)
        have "foldl newer b xs \<noteq> None" if "xs \<noteq> [] \<or> b \<noteq> None" for b xs
          using that by (induction xs arbitrary: b) (auto simp: newer_def split: option.splits)
        with ne None show False by (simp add: newest_of_def)
      qed
      then show ?thesis using n None True by (auto simp: newer_def)
    next
      case (Some u)
      note u = snoc.IH [OF Some]
      show ?thesis
        using n Some True u by (auto simp: newer_def not_less split: if_splits intro: order_trans less_imp_le)
    qed
  qed
qed (simp add: newest_of_def)

lemma newest_entries_path:
  assumes "(k, v) \<in> set (newest_entries es)"
  shows "vw_path v = k"
proof -
  have "om_sorted (newest_entries es)" "om_find (newest_entries es) k = newest_of k es"
    using newest_entries_find by blast+
  then have "newest_of k es = Some v" using assms om_find_iff [of "newest_entries es" k v] by simp
  then show ?thesis using newest_of_spec by blast
qed

subsection \<open>The changes of a path\<close>

definition expected_change ::
  "path_id \<Rightarrow> candidate_result_view list \<Rightarrow> candidate_result_view list \<Rightarrow> result_change list" where
  "expected_change p old new = (case (newest_of p old, newest_of p new) of
      (None, None) \<Rightarrow> []
    | (Some b, None) \<Rightarrow> [default_result_change\<lparr> rh_kind := RH_Disappeared, rh_path := p,
        rh_from_outcome := vw_outcome b, rh_from_reason := vw_primary_reason b, rh_from_state := vw_state b \<rparr>]
    | (None, Some a) \<Rightarrow> [default_result_change\<lparr> rh_kind := RH_Appeared, rh_path := p,
        rh_to_outcome := vw_outcome a, rh_to_reason := vw_primary_reason a, rh_to_state := vw_state a \<rparr>]
    | (Some b, Some a) \<Rightarrow> entry_change b a)"

lemma entry_change_path: "c \<in> set (entry_change b a) \<Longrightarrow> rh_path c = vw_path b"
  by (auto simp: entry_change_def Let_def split: if_splits)

lemma entry_change_length: "length (entry_change b a) \<le> Suc 0"
  by (simp add: entry_change_def Let_def)

definition signature :: "candidate_result_view \<Rightarrow> outcome \<times> reason_code \<times> result_state \<times> generation \<times> digest256" where
  "signature v = (vw_outcome v, vw_primary_reason v, vw_state v, vw_authority_generation v, vw_digest v)"

lemma entry_change_Nil: "entry_change b a = [] \<longleftrightarrow> signature b = signature a"
  by (simp add: entry_change_def Let_def signature_def)

lemma expected_change_Nil:
  "expected_change p old new = [] \<longleftrightarrow>
     map_option signature (newest_of p old) = map_option signature (newest_of p new)"
  by (auto simp: expected_change_def entry_change_Nil split: option.split)

lemma expected_change_length: "length (expected_change p old new) \<le> 1"
  by (auto simp: expected_change_def entry_change_length split: option.split)

lemma filter_concat_key:
  assumes "distinct (map fst m)" "\<And>k v c. (k, v) \<in> set m \<Longrightarrow> c \<in> set (f (k, v)) \<Longrightarrow> key c = k"
  shows "filter (\<lambda>c. key c = p) (concat (map f m)) = (case map_of m p of None \<Rightarrow> [] | Some v \<Rightarrow> f (p, v))"
  using assms
proof (induction m)
  case (Cons x m)
  obtain k v where x: "x = (k, v)" by (metis prod.exhaust)
  have own: "filter (\<lambda>c. key c = p) (f (k, v)) = (if k = p then f (k, v) else [])"
    using Cons.prems(2) [of k v] x by (auto simp: filter_empty_conv intro!: filter_True)
  have rest: "filter (\<lambda>c. key c = p) (concat (map f m)) = (case map_of m p of None \<Rightarrow> [] | Some v \<Rightarrow> f (p, v))"
    using Cons by (metis (no_types, lifting) distinct.simps(2) list.set_intros(2) list.simps(9))
  have "k = p \<Longrightarrow> map_of m p = None"
    using Cons.prems(1) x by (simp add: map_of_eq_None_iff)
  then show ?case using own rest x by (auto split: option.split)
qed simp

lemma newest_entries_distinct: "distinct (map fst (newest_entries es))"
  using newest_entries_find by (metis om_sorted_def strict_sorted_iff)

lemma unsorted_changes_of_path:
  "filter (\<lambda>c. rh_path c = p)
     (concat (map (left_change (newest_entries new)) (newest_entries old)) @
      concat (map (right_change (newest_entries old)) (newest_entries new))) = expected_change p old new"
proof -
  have find: "om_find (newest_entries es) q = newest_of q es" for es q using newest_entries_find by blast
  have mo: "map_of (newest_entries es) q = newest_of q es" for es q using find by (simp add: om_find_def)
  have path: "newest_of p es = Some v \<Longrightarrow> vw_path v = p" for es v using newest_of_spec by blast
  have l: "filter (\<lambda>c. rh_path c = p) (concat (map (left_change (newest_entries new)) (newest_entries old))) =
      (case newest_of p old of None \<Rightarrow> [] | Some v \<Rightarrow> left_change (newest_entries new) (p, v))"
    unfolding mo [symmetric]
    by (rule filter_concat_key [OF newest_entries_distinct])
      (auto simp: left_change_def newest_entries_path dest!: entry_change_path split: option.splits)
  have r: "filter (\<lambda>c. rh_path c = p) (concat (map (right_change (newest_entries old)) (newest_entries new))) =
      (case newest_of p new of None \<Rightarrow> [] | Some v \<Rightarrow> right_change (newest_entries old) (p, v))"
    unfolding mo [symmetric]
    by (rule filter_concat_key [OF newest_entries_distinct])
      (auto simp: right_change_def newest_entries_path split: if_splits)
  show ?thesis
    unfolding filter_append l r expected_change_def left_change_def right_change_def
    by (auto simp: find path split: option.splits)
qed

lemma mset_short: "mset xs = mset ys \<Longrightarrow> length ys \<le> 1 \<Longrightarrow> xs = ys"
  by (cases ys) auto

lemma changes_of_path: "filter (\<lambda>c. rh_path c = p) (result_changes old new) = expected_change p old new"
proof -
  have "mset (filter (\<lambda>c. rh_path c = p) (result_changes old new)) = mset (expected_change p old new)"
    unfolding unsorted_changes_of_path [symmetric] result_changes_def Let_def by simp
  then show ?thesis using expected_change_length by (rule mset_short)
qed

lemma result_change_kind_value_inj [simp]:
  "result_change_kind_value x = result_change_kind_value y \<longleftrightarrow> x = y"
  by (cases x; cases y) simp_all

interpretation change_order: keyed_order result_change_less
  "\<lambda>c. (rh_path c, result_change_kind_value (rh_kind c), rh_to_reason c)"
proof
  show "result_change_less a b \<longleftrightarrow>
      (rh_path a, result_change_kind_value (rh_kind a), rh_to_reason a) <
      (rh_path b, result_change_kind_value (rh_kind b), rh_to_reason b)" for a b
    by (rule linorder_cases [of "result_change_kind_value (rh_kind a)" "result_change_kind_value (rh_kind b)"])
      (auto simp: result_change_less_def)
qed

lemma distinct_by_filter: "(\<And>p. length (filter (\<lambda>x. f x = p) xs) \<le> 1) \<Longrightarrow> distinct (map f xs)"
proof (induction xs)
  case (Cons x xs)
  have "filter (\<lambda>y. f y = f x) xs = []" using Cons.prems [of "f x"] by simp
  moreover have "length (filter (\<lambda>x. f x = p) xs) \<le> 1" for p
    using Cons.prems [of p] by (auto split: if_splits)
  ultimately show ?case using Cons.IH by (auto simp: filter_empty_conv)
qed simp

lemma changes_ascend: "sorted_wrt (<) (map rh_path (result_changes old new))"
proof -
  let ?cs = "result_changes old new"
  have "sorted (map (\<lambda>c. (rh_path c, result_change_kind_value (rh_kind c), rh_to_reason c)) ?cs)"
    unfolding result_changes_def Let_def by (rule change_order.sorted_keys)
  then have "sorted (map fst (map (\<lambda>c. (rh_path c, result_change_kind_value (rh_kind c), rh_to_reason c)) ?cs))"
    by (rule sorted_map_mono) (auto simp: mono_on_def less_eq_prod_def)
  then have "sorted (map rh_path ?cs)" by (simp add: comp_def)
  moreover have "distinct (map rh_path ?cs)"
    by (rule distinct_by_filter) (simp only: changes_of_path expected_change_length)
  ultimately show ?thesis by (simp add: strict_sorted_iff)
qed

subsection \<open>Properties\<close>

text \<open>C30: the diff of two result snapshots is exact. Its changes are in strictly ascending path order, the
  change reported for a path is the one determined by the newest result of the path on either side, and
  nothing is reported exactly when every path has the same outcome, reason, state, authority generation
  and digest on both sides.\<close>

theorem diff_results_exact:
  "sorted_wrt (<) (map rh_path (rd_changes (diff_results s t))) \<and>
   (\<forall>p. filter (\<lambda>c. rh_path c = p) (rd_changes (diff_results s t)) = expected_change p (sr_entries s) (sr_entries t)) \<and>
   (rd_changes (diff_results s t) = [] \<longleftrightarrow>
      (\<forall>p. map_option signature (newest_of p (sr_entries s)) = map_option signature (newest_of p (sr_entries t))))"
proof -
  have rd: "rd_changes (diff_results s t) = result_changes (sr_entries s) (sr_entries t)"
    by (simp add: diff_results_def)
  have "(\<forall>p. filter (\<lambda>c. rh_path c = p) xs = []) \<longleftrightarrow> xs = []" for xs :: "result_change list"
    by (cases xs) (auto simp: filter_empty_conv intro: exI [of _ "rh_path (hd xs)"])
  from this [of "result_changes (sr_entries s) (sr_entries t)"] show ?thesis
    unfolding rd changes_of_path expected_change_Nil by (intro conjI allI refl changes_ascend) (rule sym)
qed

text \<open>Which result snapshots survive the wire. The snapshot of a set whose fields fit the wire is read
  back unchanged when the retained records of the set have distinct paths; when two of them have the
  same path, as after two evaluations of one candidate, the decoder rejects the encoding.\<close>

theorem results_snapshot_wire:
  assumes "results_fields_wire l (snapshot_results i g e vs)"
  shows "fst (decode_results_snapshot l (byte_reader_of (encode_results_snapshot (snapshot_results i g e vs)))) =
    (if distinct (map vw_path vs) then Some (snapshot_results i g e vs) else None)"
  using decode_results_run [OF assms] by (simp add: ascending_snapshot)

definition sample_view :: "path_id \<Rightarrow> generation \<Rightarrow> candidate_result_view" where
  "sample_view p g = \<lparr> vw_path = p, vw_authority_generation = 7, vw_outcome = Out_Admissible,
     vw_primary_reason = RC_None, vw_state = RS_Current, vw_evaluation_id = 1,
     vw_evaluation_generation = g, vw_digest = zero_digest \<rparr>"

lemma sample_results_wire:
  assumes "g \<in> {1, 2}"
  shows "results_fields_wire default_limits (snapshot_results 5 1 2 [sample_view 9 1, sample_view p g]) \<longleftrightarrow> p \<noteq> 0"
proof -
  have "length (sr_digest (snapshot_results 5 1 2 vs)) = 32"
    "sr_set_generation (snapshot_results 5 1 2 vs) = 1" "sr_evaluation_generation (snapshot_results 5 1 2 vs) = 2" for vs
    by (simp_all add: snapshot_results_def Let_def)
  moreover have "list_all view_wire (stable_sort view_less vs) \<longleftrightarrow> list_all view_wire vs"
    "length (stable_sort view_less vs) = length vs" for vs
    by (simp_all add: list_all_iff)
  ultimately show ?thesis
    using assms
    by (auto simp: results_fields_wire_def snapshot_results_entries view_wire_def sample_view_def gen_ok_def
        is_representable_def kMaxGeneration_def default_limits_def zero_digest_def)
qed

theorem results_snapshot_wire_witness:
  "fst (decode_results_snapshot default_limits (byte_reader_of (encode_results_snapshot
     (snapshot_results 5 1 2 [sample_view 9 1, sample_view 8 2])))) = Some (snapshot_results 5 1 2 [sample_view 9 1, sample_view 8 2]) \<and>
   fst (decode_results_snapshot default_limits (byte_reader_of (encode_results_snapshot
     (snapshot_results 5 1 2 [sample_view 9 1, sample_view 9 2])))) = None"
proof -
  have "results_fields_wire default_limits (snapshot_results 5 1 2 [sample_view 9 1, sample_view 8 2])"
    "results_fields_wire default_limits (snapshot_results 5 1 2 [sample_view 9 1, sample_view 9 2])"
    by (simp_all add: sample_results_wire)
  moreover have "distinct (map vw_path [sample_view 9 1, sample_view 8 2])"
    "\<not> distinct (map vw_path [sample_view 9 1, sample_view 9 2])"
    by (simp_all add: sample_view_def)
  ultimately show ?thesis by (simp only: results_snapshot_wire if_True if_False simp_thms)
qed

end
