(* ===== verification/Messages.thy ===== *)
theory Messages
  imports Protocol Snapshot
begin

text \<open>
  The report payload codecs (\<open>messages.hpp\<close>, \<open>messages.cpp\<close>). A report payload is a \<open>found\<close> flag and,
  only when the flag is set, the report: the model is an option, and nothing of the report is
  written or read for \<^const>\<open>None\<close>. The evidence codec of \<open>messages.cpp\<close> has the bodies of
  \<^const>\<open>write_requirements\<close> and \<^const>\<open>read_requirements\<close>.
\<close>

subsection \<open>Payloads\<close>

type_synonym definitions_report_payload = "definitions_snapshot option"
type_synonym results_report_payload = "results_snapshot option"
type_synonym currentness_report_payload = "currentness_report option"

record session_fenced_payload =
  sf_boot :: worker_boot_id
  sf_epoch :: coordinator_epoch

record lifecycle_request_payload =
  lq_set_id :: constraint_set_id
  lq_event :: lifecycle_event

text \<open>The casts from decoded values; the callers have checked their ranges.\<close>

definition currentness_cause_of :: "u8 \<Rightarrow> currentness_cause" where
  "currentness_cause_of v =
     (if v = 0 then CC_None else if v = 1 then CC_ConstraintSetStateChanged else if v = 2 then CC_ConstraintSetSuperseded else
      if v = 3 then CC_ConstraintSetGenerationAdvanced else if v = 4 then CC_PathAuthorityAdvanced else if v = 5 then CC_TopologyAdvanced else
      if v = 6 then CC_LinkStateAdvanced else if v = 7 then CC_CapabilityAdvanced else if v = 8 then CC_FailureDomainAdvanced else
      if v = 9 then CC_PolicyAdvanced else if v = 10 then CC_PlannerAdvanced else if v = 11 then CC_EvidenceRequirementChanged else
      if v = 12 then CC_DependencyInvalidated else if v = 13 then CC_EpochAdvanced else if v = 14 then CC_RecoveredUnproven else
      CC_NoCurrentResult)"

definition lifecycle_event_of :: "u8 \<Rightarrow> lifecycle_event" where
  "lifecycle_event_of v =
     (if v = 1 then Activate else if v = 2 then Suspend else if v = 3 then Resume else if v = 4 then RequireRevalidation else
      if v = 5 then Revalidated else if v = 6 then Revoke else if v = 7 then Supersede else if v = 8 then Retire else
      Reinstate)"

lemma currentness_cause_of_value [simp]: "currentness_cause_of (currentness_cause_value x) = x"
  by (cases x) (simp_all add: currentness_cause_of_def)

lemma currentness_cause_value_range [simp]:
  "\<not> 15 < currentness_cause_value x" "currentness_cause_value x = 0 \<longleftrightarrow> x = CC_None"
  by (cases x; simp)+

lemma lifecycle_event_of_value [simp]: "lifecycle_event_of (lifecycle_event_value x) = x"
  by (cases x) (simp_all add: lifecycle_event_of_def)

lemma lifecycle_event_value_range [simp]: "\<not> 9 < lifecycle_event_value x" "lifecycle_event_value x \<noteq> 0"
  by (cases x; simp)+

subsection \<open>The report prefix\<close>

definition encode_found :: "('a \<Rightarrow> byte list) \<Rightarrow> 'a option \<Rightarrow> byte list" where
  "encode_found enc payload =
     put_bool (payload \<noteq> None) @ put_u8 0 @ put_u16 0 @ put_u32 0 @
     (case payload of None \<Rightarrow> [] | Some x \<Rightarrow> enc x)"

definition decode_found :: "'a parser \<Rightarrow> 'a option parser" where
  "decode_found p = rd_bind rd_boolean (\<lambda>found. rd_bind rd_u8 (\<lambda>padding8. rd_bind rd_u16 (\<lambda>padding16.
     rd_bind rd_u32 (\<lambda>padding32.
     rd_guard (\<not> (padding8 \<noteq> 0 \<or> padding16 \<noteq> 0 \<or> padding32 \<noteq> 0))
       (if \<not> found then rd_return None else rd_bind p (\<lambda>x. rd_return (Some x)))))))"

definition encode_definitions_report :: "definitions_report_payload \<Rightarrow> byte list" where
  "encode_definitions_report p = encode_found encode_definitions_snapshot p"

definition decode_definitions_report :: "limits \<Rightarrow> definitions_report_payload parser" where
  "decode_definitions_report l = decode_found (decode_definitions_snapshot l)"

definition encode_results_report :: "results_report_payload \<Rightarrow> byte list" where
  "encode_results_report p = encode_found encode_results_snapshot p"

definition decode_results_report :: "limits \<Rightarrow> results_report_payload parser" where
  "decode_results_report l = decode_found (decode_results_snapshot l)"

subsection \<open>Currentness reports\<close>

definition write_cause :: "currentness_cause \<Rightarrow> byte list" where
  "write_cause c = put_u8 (currentness_cause_value c) @ put_u8 0 @ put_u16 0 @ put_u32 0"

definition read_cause :: "currentness_cause parser" where
  "read_cause = rd_bind rd_u8 (\<lambda>cause. rd_bind rd_u8 (\<lambda>padding8. rd_bind rd_u16 (\<lambda>padding16. rd_bind rd_u32 (\<lambda>padding32.
     rd_guard (\<not> (cause = 0 \<or> cause > 15 \<or> padding8 \<noteq> 0 \<or> padding16 \<noteq> 0 \<or> padding32 \<noteq> 0))
       (rd_return (currentness_cause_of cause))))))"

definition encode_currentness_body :: "currentness_report \<Rightarrow> byte list" where
  "encode_currentness_body r =
     put_u64 (cu_set_id r) @ put_u64 (cu_set_generation r) @ put_u8 (constraint_set_state_value (cu_state r)) @
     put_u8 0 @ put_u16 0 @ put_u32 0 @ put_u64 (cu_evaluation_generation r) @
     write_requirements (cu_required_evidence r) @ write_requirements (cu_published_evidence r) @
     put_u64 (word_of_nat (cu_current_results r)) @ put_u64 (word_of_nat (cu_revalidation_required r)) @
     put_u64 (word_of_nat (cu_recovered_unproven r)) @ put_bool (cu_publisher_authority_live r) @
     put_u8 0 @ put_u16 0 @ write_counted write_cause (cu_causes r)"

definition encode_currentness_report :: "currentness_report_payload \<Rightarrow> byte list" where
  "encode_currentness_report p = encode_found encode_currentness_body p"

text \<open>The padding after the authority flag is read and not checked.\<close>

definition decode_currentness_body :: "currentness_report parser" where
  "decode_currentness_body =
     rd_bind rd_u64 (\<lambda>set_id. rd_bind rd_u64 (\<lambda>set_generation. rd_bind rd_u8 (\<lambda>state.
     rd_bind rd_u8 (\<lambda>padding8. rd_bind rd_u16 (\<lambda>padding16. rd_bind rd_u32 (\<lambda>padding32.
     rd_guard (\<not> (padding8 \<noteq> 0 \<or> padding16 \<noteq> 0 \<or> padding32 \<noteq> 0 \<or> state = 0 \<or> state > 7))
     (rd_guard (\<not> (set_generation \<noteq> 0 \<and> \<not> is_representable set_generation))
     (rd_bind read_generation_field (\<lambda>evaluation_generation. rd_bind read_requirements (\<lambda>required.
      rd_bind read_requirements (\<lambda>published. rd_bind rd_u64 (\<lambda>count0. rd_bind rd_u64 (\<lambda>count1. rd_bind rd_u64 (\<lambda>count2.
      rd_bind rd_boolean (\<lambda>live. rd_bind rd_u8 (\<lambda>padding8. rd_bind rd_u16 (\<lambda>padding16.
      rd_bind (read_counted 64 read_cause) (\<lambda>causes.
      rd_return \<lparr> cu_set_id = set_id, cu_set_generation = set_generation,
        cu_state = constraint_set_state_of state, cu_evaluation_generation = evaluation_generation,
        cu_required_evidence = required, cu_published_evidence = published, cu_current_results = unat count0,
        cu_revalidation_required = unat count1, cu_recovered_unproven = unat count2,
        cu_publisher_authority_live = live, cu_causes = causes \<rparr>))))))))))))))))))"

definition decode_currentness_report :: "currentness_report_payload parser" where
  "decode_currentness_report = decode_found decode_currentness_body"

subsection \<open>Lifecycle requests and fencing notices\<close>

definition encode_lifecycle_request :: "lifecycle_request_payload \<Rightarrow> byte list" where
  "encode_lifecycle_request p =
     put_u64 (lq_set_id p) @ put_u8 (lifecycle_event_value (lq_event p)) @ put_u8 0 @ put_u16 0 @ put_u32 0"

definition decode_lifecycle_request :: "lifecycle_request_payload parser" where
  "decode_lifecycle_request = rd_bind rd_u64 (\<lambda>set_id. rd_bind rd_u8 (\<lambda>event. rd_bind rd_u8 (\<lambda>padding8.
     rd_bind rd_u16 (\<lambda>padding16. rd_bind rd_u32 (\<lambda>padding32.
     rd_guard (\<not> (set_id = 0 \<or> event = 0 \<or> event > 9 \<or> padding8 \<noteq> 0 \<or> padding16 \<noteq> 0 \<or> padding32 \<noteq> 0))
       (rd_return \<lparr> lq_set_id = set_id, lq_event = lifecycle_event_of event \<rparr>))))))"

definition encode_session_fenced :: "session_fenced_payload \<Rightarrow> byte list" where
  "encode_session_fenced p = put_u64 (sf_boot p) @ put_u64 (sf_epoch p)"

definition decode_session_fenced :: "session_fenced_payload parser" where
  "decode_session_fenced = rd_bind rd_u64 (\<lambda>boot. rd_bind rd_u64 (\<lambda>epoch.
     rd_guard (\<not> (boot = 0 \<or> epoch = 0 \<or> \<not> is_representable epoch))
       (rd_return \<lparr> sf_boot = boot, sf_epoch = epoch \<rparr>)))"

subsection \<open>Round trips\<close>

lemma currentness_report_eta [simp]:
  "\<lparr> cu_set_id = cu_set_id r, cu_set_generation = cu_set_generation r, cu_state = cu_state r,
     cu_evaluation_generation = cu_evaluation_generation r, cu_required_evidence = cu_required_evidence r,
     cu_published_evidence = cu_published_evidence r, cu_current_results = cu_current_results r,
     cu_revalidation_required = cu_revalidation_required r, cu_recovered_unproven = cu_recovered_unproven r,
     cu_publisher_authority_live = cu_publisher_authority_live r, cu_causes = cu_causes r \<rparr> = r"
  by simp

lemma small_eta [simp]:
  "\<lparr> lq_set_id = lq_set_id p, lq_event = lq_event p \<rparr> = p" "\<lparr> sf_boot = sf_boot q, sf_epoch = sf_epoch q \<rparr> = q"
  by simp_all

lemma parses_found:
  assumes "\<And>x. payload = Some x \<Longrightarrow> parses p (enc x) x"
  shows "parses (decode_found p) (encode_found enc payload) payload"
proof -
  have "parses (if \<not> payload \<noteq> None then rd_return None else rd_bind p (\<lambda>x. rd_return (Some x)))
      (case payload of None \<Rightarrow> [] | Some x \<Rightarrow> enc x) payload"
    using assms by (cases payload) (auto intro: parses_bind_Nil)
  then show ?thesis
    unfolding decode_found_def encode_found_def
    by (intro parses_bind [OF parses_boolean] parses_bind [OF parses_u8] parses_bind [OF parses_u16]
        parses_bind [OF parses_u32] parses_guard) simp_all
qed

lemma regular_found [intro]: "regular p \<Longrightarrow> regular (decode_found p)"
  unfolding decode_found_def by (auto intro!: regular_bind regular_guard)

definition currentness_wire :: "currentness_report \<Rightarrow> bool" where
  "currentness_wire r \<longleftrightarrow> gen_ok (cu_set_generation r) \<and> gen_ok (cu_evaluation_generation r) \<and>
     requirements_wire (cu_required_evidence r) \<and> requirements_wire (cu_published_evidence r) \<and>
     cu_current_results r < 2 ^ 64 \<and> cu_revalidation_required r < 2 ^ 64 \<and> cu_recovered_unproven r < 2 ^ 64 \<and>
     length (cu_causes r) \<le> 64 \<and> CC_None \<notin> set (cu_causes r)"

lemma parses_cause: "c \<noteq> CC_None \<Longrightarrow> parses read_cause (write_cause c) c"
  unfolding read_cause_def write_cause_def by (rule codec_steps | simp; fail)+

lemma parses_currentness_body:
  assumes "currentness_wire r"
  shows "parses decode_currentness_body (encode_currentness_body r) r"
proof -
  note w = assms [unfolded currentness_wire_def]
  have pc: "parses (read_counted 64 read_cause) (write_counted write_cause (cu_causes r)) (cu_causes r)"
    using w by (intro parses_counted parses_cause) auto
  have pr: "parses read_requirements (write_requirements (cu_required_evidence r)) (cu_required_evidence r)"
    "parses read_requirements (write_requirements (cu_published_evidence r)) (cu_published_evidence r)"
    "parses read_generation_field (put_u64 (cu_evaluation_generation r)) (cu_evaluation_generation r)"
    using w by (simp_all add: parses_requirements parses_generation_field)
  have g: "\<not> (cu_set_generation r \<noteq> 0 \<and> \<not> is_representable (cu_set_generation r))"
    using w by (simp add: gen_ok_def)
  have n: "unat (word_of_nat (cu_current_results r) :: u64) = cu_current_results r"
    "unat (word_of_nat (cu_revalidation_required r) :: u64) = cu_revalidation_required r"
    "unat (word_of_nat (cu_recovered_unproven r) :: u64) = cu_recovered_unproven r"
    using w by simp_all
  show ?thesis
    unfolding decode_currentness_body_def encode_currentness_body_def
    by (rule parses_bind [OF pr(1)] parses_bind [OF pr(2)] parses_bind [OF pr(3)] parses_bind_Nil [OF pc] g codec_steps
        | simp add: n; fail)+
qed

lemma parses_reports [codec_rt]:
  "(\<And>s. d = Some s \<Longrightarrow> definitions_wire l s) \<Longrightarrow> parses (decode_definitions_report l) (encode_definitions_report d) d"
  "(\<And>s. q = Some s \<Longrightarrow> results_fields_wire l s \<and> ascending (sr_entries s)) \<Longrightarrow>
     parses (decode_results_report l) (encode_results_report q) q"
  "(\<And>s. u = Some s \<Longrightarrow> currentness_wire s) \<Longrightarrow> parses decode_currentness_report (encode_currentness_report u) u"
  unfolding decode_definitions_report_def encode_definitions_report_def decode_results_report_def
    encode_results_report_def decode_currentness_report_def encode_currentness_report_def
  by (rule parses_found, blast intro: parses_definitions_snapshot parses_results_snapshot parses_currentness_body)+

lemma parses_lifecycle_request [codec_rt]:
  "lq_set_id p \<noteq> 0 \<Longrightarrow> parses decode_lifecycle_request (encode_lifecycle_request p) p"
  unfolding decode_lifecycle_request_def encode_lifecycle_request_def
  by (rule codec_steps | simp; fail)+

lemma parses_session_fenced [codec_rt]:
  "sf_boot p \<noteq> 0 \<Longrightarrow> is_representable (sf_epoch p) \<Longrightarrow> parses decode_session_fenced (encode_session_fenced p) p"
  unfolding decode_session_fenced_def encode_session_fenced_def
  by (rule codec_steps | simp add: is_representable_def; fail)+

lemma regular_currentness_body [intro, simp]: "regular decode_currentness_body"
  unfolding decode_currentness_body_def read_counted_def read_requirements_def read_generation_field_def read_cause_def
  by (auto intro!: regular_bind regular_guard regular_repeat)

lemma regular_messages [intro, simp]:
  "regular (decode_definitions_report l)" "regular (decode_results_report l)" "regular decode_currentness_report"
  "regular decode_lifecycle_request" "regular decode_session_fenced"
  unfolding decode_definitions_report_def decode_results_report_def decode_currentness_report_def
    decode_lifecycle_request_def decode_session_fenced_def
  by (auto intro!: regular_bind regular_guard)

end
