(* ===== verification/Server.thy ===== *)
theory Server
  imports Messages Framing
begin

text \<open>
  The coordinator server (\<open>server.hpp\<close>, \<open>server.cpp\<close>): the session of a connection, the handler of
  every message identifier, the receive loop that pushes what arrived and handles the frames it
  completes, and the admission of connections. The clock readings, the outcome of the durable write,
  the outcome of a send and the free text of a failure come from the environment of the frame. A
  sent message is the byte list handed to the socket. The threads of the source share the
  coordinator, whose operations lock it; the model runs the frames of the connections one at a time.
\<close>

subsection \<open>State\<close>

record session_state =
  se_session :: session_id
  se_publisher :: publisher_id
  se_boot :: worker_boot_id
  se_scopes :: authority_scope_mask
  se_registered :: bool

definition new_session :: session_state where
  "new_session = \<lparr> se_session = 0, se_publisher = 0, se_boot = 0, se_scopes = 0, se_registered = False \<rparr>"

text \<open>\<open>CoordinatorServer::Impl\<close>: the map of sessions is its list of keys.\<close>

record server =
  sv_coordinator :: coordinator
  sv_limits :: limits
  sv_next_session :: u64
  sv_sessions_accepted :: nat
  sv_frames_handled :: nat
  sv_sessions :: "u64 list"

record frame_env =
  en_now1 :: u64
  en_now2 :: u64
  en_io :: status
  en_sent :: status
  en_detail :: "byte list"

definition server_epoch :: "server \<Rightarrow> coordinator_epoch" where
  "server_epoch s = au_epoch (co_authority (sv_coordinator s))"

definition active_session_count :: "server \<Rightarrow> nat" where
  "active_session_count s = length (sv_sessions s)"

subsection \<open>Sending\<close>

definition send_frame ::
  "frame_env \<Rightarrow> message_id \<Rightarrow> session_state \<Rightarrow> frame_header \<Rightarrow> byte list \<Rightarrow> server \<Rightarrow> status \<times> byte list list" where
  "send_frame env message state request payload s =
     (let header = default_frame_header\<lparr> fh_message := message, fh_epoch := server_epoch s,
            fh_publisher := se_publisher state, fh_worker_boot := se_boot state, fh_attempt := fh_attempt request,
            fh_request := fh_request request, fh_scopes := se_scopes state \<rparr> in
      case encode_frame \<lparr> fr_header = header, fr_payload = payload \<rparr> (sv_limits s) of
        Inl e \<Rightarrow> (e, [])
      | Inr encoded \<Rightarrow> (en_sent env, [encoded]))"

text \<open>The callers discard the status.\<close>

definition send_error ::
  "frame_env \<Rightarrow> session_state \<Rightarrow> frame_header \<Rightarrow> error_code \<Rightarrow> reason_code \<Rightarrow> byte list \<Rightarrow> server \<Rightarrow> byte list list" where
  "send_error env state request code reason detail s =
     (let text = (if length detail > unat (max_detail_bytes (sv_limits s))
                  then take (unat (max_detail_bytes (sv_limits s))) detail else detail) in
      snd (send_frame env MI_ErrorReport state request
        (encode_error_report \<lparr> rp_code = code, rp_reason = reason, rp_detail = text \<rparr>) s))"

definition context_for :: "session_state \<Rightarrow> frame_header \<Rightarrow> server \<Rightarrow> authority_context" where
  "context_for state header s = \<lparr> ac_epoch = server_epoch s, ac_publisher = se_publisher state,
     ac_worker_boot = se_boot state, ac_attempt = fh_attempt header, ac_request = fh_request header,
     ac_session = se_session state, ac_scopes = se_scopes state \<rparr>"

definition identity_matches :: "session_state \<Rightarrow> frame_header \<Rightarrow> bool" where
  "identity_matches state header \<longleftrightarrow> fh_publisher header = se_publisher state \<and> fh_worker_boot header = se_boot state"

text \<open>\<open>decode(reader, ...) && reader.at_end()\<close>.\<close>

definition decode_whole :: "'a parser \<Rightarrow> byte list \<Rightarrow> 'a option" where
  "decode_whole p payload =
     (case p (byte_reader_of payload) of (None, _) \<Rightarrow> None | (Some x, r) \<Rightarrow> if at_end r then Some x else None)"

text \<open>\<open>reader.u64(set_id)\<close> with \<open>set_id != 0\<close>.\<close>

definition decode_query :: "constraint_set_id parser" where
  "decode_query = rd_bind rd_u64 (\<lambda>set_id. if set_id = 0 then (\<lambda>r. (None, r)) else rd_return set_id)"

subsection \<open>Handlers\<close>

text \<open>What a handler leaves behind: the returned flag, the \<open>running\<close> flag, the session, the server and
  the messages sent.\<close>

record handled =
  hn_continue :: bool
  hn_running :: bool
  hn_state :: session_state
  hn_server :: server
  hn_sent :: "byte list list"

definition answered :: "session_state \<Rightarrow> server \<Rightarrow> byte list list \<Rightarrow> handled" where
  "answered state s out =
     \<lparr> hn_continue = True, hn_running = True, hn_state = state, hn_server = s, hn_sent = out \<rparr>"

definition refused :: "session_state \<Rightarrow> server \<Rightarrow> byte list list \<Rightarrow> handled" where
  "refused state s out = (answered state s out)\<lparr>hn_continue := False\<rparr>"

definition handle_hello :: "frame_env \<Rightarrow> session_state \<Rightarrow> frame \<Rightarrow> server \<Rightarrow> handled" where
  "handle_hello env state f s =
     (let header = fr_header f in
      case decode_whole (decode_hello (sv_limits s)) (fr_payload f) of
        None \<Rightarrow> refused state s
          (send_error env state header Malformed RC_MalformedFrame (ascii ''hello payload is malformed'') s)
      | Some hello \<Rightarrow>
          let s1 = s\<lparr>sv_next_session := sv_next_session s + 1\<rparr>;
              candidate = \<lparr> se_session = sv_next_session s1, se_publisher = he_publisher hello,
                se_boot = he_worker_boot hello, se_scopes = 0, se_registered = False \<rparr>;
              context = \<lparr> ac_epoch = server_epoch s1, ac_publisher = he_publisher hello,
                ac_worker_boot = he_worker_boot hello,
                ac_attempt = (if is_valid (fh_attempt header) then fh_attempt header else 1),
                ac_request = fh_request header, ac_session = se_session candidate, ac_scopes = 0 \<rparr> in
          case coordinator_register_publisher (en_now1 env) (en_io env) context (he_publisher hello)
                 (he_worker_boot hello) (he_requested_scopes hello) (se_session candidate) (sv_coordinator s1) of
            (registration, c) \<Rightarrow>
              let s2 = s1\<lparr>sv_coordinator := c\<rparr>;
                  ack = \<lparr> ha_epoch = server_epoch s2, ha_session = se_session candidate, ha_granted_scopes = 0,
                    ha_protocol_version = kProtocolVersionValue, ha_accepted = False \<rparr> in
              (case registration of
                 Inl code \<Rightarrow> refused state s2
                   (snd (send_frame env MI_HelloAck state header (encode_hello_ack ack) s2) @
                    send_error env state header code
                      (if reason_class_of RC_UnknownPublisher = RK_CallerIdentity then RC_UnknownPublisher
                       else RC_ScopeNotAuthorized) (en_detail env) s2)
               | Inr r \<Rightarrow>
                   let state' = candidate\<lparr>se_scopes := pr_scopes r, se_registered := True\<rparr> in
                   case send_frame env MI_HelloAck state' header
                       (encode_hello_ack (ack\<lparr>ha_accepted := True, ha_granted_scopes := se_scopes state'\<rparr>)) s2 of
                     (sent, out) \<Rightarrow> (answered state' s2 out)\<lparr>hn_continue := (sent = Ok)\<rparr>))"

definition publish_ack_of :: "constraint_set \<Rightarrow> publish_ack_payload" where
  "publish_ack_of s = \<lparr> pk_set_id = cs_id s, pk_generation = cs_generation s, pk_digest = cs_digest s \<rparr>"

definition handle_publish :: "frame_env \<Rightarrow> session_state \<Rightarrow> frame \<Rightarrow> server \<Rightarrow> handled" where
  "handle_publish env state f s =
     (let header = fr_header f in
      case decode_whole (decode_constraint_set (sv_limits s)) (fr_payload f) of
        None \<Rightarrow> answered state s (send_error env state header Malformed RC_MalformedConstraint
          (ascii ''constraint set payload is malformed'') s)
      | Some cset \<Rightarrow>
          (case publish_constraint_set (en_now1 env) (en_now2 env) (en_io env) (context_for state header s) cset
                  (sv_coordinator s) of
             (published, c) \<Rightarrow>
               let s1 = s\<lparr>sv_coordinator := c\<rparr> in
               answered state s1 (case published of
                 Inl code \<Rightarrow> send_error env state header code RC_MalformedConstraint (en_detail env) s1
               | Inr stored \<Rightarrow> snd (send_frame env MI_PublishConstraintSetAck state header
                   (encode_publish_ack (publish_ack_of stored)) s1))))"

definition handle_lifecycle :: "frame_env \<Rightarrow> session_state \<Rightarrow> frame \<Rightarrow> server \<Rightarrow> handled" where
  "handle_lifecycle env state f s =
     (let header = fr_header f in
      case decode_whole decode_lifecycle_request (fr_payload f) of
        None \<Rightarrow> answered state s (send_error env state header Malformed RC_MalformedFrame
          (ascii ''lifecycle payload is malformed'') s)
      | Some request \<Rightarrow>
          (case apply_lifecycle (en_now1 env) (en_io env) (context_for state header s) (lq_set_id request)
                  (lq_event request) (sv_coordinator s) of
             (applied, c) \<Rightarrow>
               let s1 = s\<lparr>sv_coordinator := c\<rparr> in
               answered state s1 (case applied of
                 Inl code \<Rightarrow> send_error env state header code RC_ConstraintSetNotActive (en_detail env) s1
               | Inr stored \<Rightarrow> snd (send_frame env MI_ApplyLifecycleAck state header
                   (encode_publish_ack (publish_ack_of stored)) s1))))"

definition handle_evaluate :: "frame_env \<Rightarrow> session_state \<Rightarrow> frame \<Rightarrow> server \<Rightarrow> handled" where
  "handle_evaluate env state f s =
     (let header = fr_header f in
      case decode_whole (decode_evaluate_request (sv_limits s)) (fr_payload f) of
        None \<Rightarrow> answered state s (send_error env state header Malformed RC_MalformedCandidate
          (ascii ''candidate payload is malformed'') s)
      | Some request \<Rightarrow>
          (case coordinator_evaluate (en_now1 env) (en_now2 env) (en_io env) (context_for state header s)
                  (rq_set_id request) (rq_candidates request) (rq_expected_generation request) (sv_coordinator s) of
             (outcome, c) \<Rightarrow>
               let s1 = s\<lparr>sv_coordinator := c\<rparr> in
               answered state s1 (case outcome of
                 Inl code \<Rightarrow> send_error env state header code RC_None (en_detail env) s1
               | Inr out \<Rightarrow> snd (send_frame env MI_EvaluateCandidatesAck state header
                   (encode_evaluate_response \<lparr> rs_batch = oc_batch out \<rparr>) s1))))"

text \<open>The three queries: a failure of the coordinator is a report that was not found.\<close>

definition found_of :: "'a result \<Rightarrow> 'a option" where
  "found_of r = (case r of Inl _ \<Rightarrow> None | Inr x \<Rightarrow> Some x)"

definition handle_query ::
  "message_id \<Rightarrow> string \<Rightarrow> (coordinator \<Rightarrow> constraint_set_id \<Rightarrow> byte list) \<Rightarrow>
   frame_env \<Rightarrow> session_state \<Rightarrow> frame \<Rightarrow> server \<Rightarrow> handled" where
  "handle_query message malformed report env state f s =
     (case decode_whole decode_query (fr_payload f) of
        None \<Rightarrow> answered state s (send_error env state (fr_header f) Malformed RC_MalformedFrame (ascii malformed) s)
      | Some set_id \<Rightarrow> answered state s
          (snd (send_frame env message state (fr_header f) (report (sv_coordinator s) set_id) s)))"

definition definitions_answer :: "coordinator \<Rightarrow> constraint_set_id \<Rightarrow> byte list" where
  "definitions_answer c set_id = encode_definitions_report (found_of (coordinator_snapshot_definitions c set_id))"

definition results_answer :: "coordinator \<Rightarrow> constraint_set_id \<Rightarrow> byte list" where
  "results_answer c set_id = encode_results_report (found_of (coordinator_snapshot_results c set_id))"

definition currentness_answer :: "coordinator \<Rightarrow> constraint_set_id \<Rightarrow> byte list" where
  "currentness_answer c set_id = encode_currentness_report (found_of (currentness c set_id))"

definition handle_registered :: "frame_env \<Rightarrow> session_state \<Rightarrow> frame \<Rightarrow> server \<Rightarrow> handled" where
  "handle_registered env state f s = (case fh_message (fr_header f) of
      MI_PublishConstraintSet \<Rightarrow> handle_publish env state f s
    | MI_ApplyLifecycle \<Rightarrow> handle_lifecycle env state f s
    | MI_EvaluateCandidates \<Rightarrow> handle_evaluate env state f s
    | MI_QueryDefinitions \<Rightarrow> handle_query MI_DefinitionsReport ''definitions query payload is malformed''
        definitions_answer env state f s
    | MI_QueryResults \<Rightarrow> handle_query MI_ResultsReport ''results query payload is malformed''
        results_answer env state f s
    | MI_QueryCurrentness \<Rightarrow> handle_query MI_CurrentnessReport ''currentness query payload is malformed''
        currentness_answer env state f s
    | MI_Heartbeat \<Rightarrow> answered state s (snd (send_frame env MI_Heartbeat state (fr_header f) [] s))
    | MI_Shutdown \<Rightarrow> (refused state s (snd (send_frame env MI_Shutdown state (fr_header f) [] s)))\<lparr>hn_running := False\<rparr>
    | _ \<Rightarrow> refused state s (send_error env state (fr_header f) ProtocolViolation RC_UnknownMessageId
        (ascii ''message identifier is not valid in the client-to-server direction'') s))"

definition handle_frame :: "frame_env \<Rightarrow> session_state \<Rightarrow> frame \<Rightarrow> server \<Rightarrow> handled" where
  "handle_frame env state f s =
     (if fh_message (fr_header f) = MI_Hello then handle_hello env state f s
      else if \<not> se_registered state then refused state s
        (send_error env state (fr_header f) Unauthorized RC_MissingAuthorityContext
           (ascii ''default deny: the session has not registered a publisher'') s)
      else if \<not> identity_matches state (fr_header f) then refused state s
        (send_error env state (fr_header f) Fenced RC_FencedWorkerBoot
           (ascii ''frame identity does not match the registered session identity'') s)
      else handle_registered env state f s)"

subsection \<open>The receive loop\<close>

record connection =
  cn_state :: session_state
  cn_assembler :: frame_assembler
  cn_running :: bool

definition new_connection :: "limits \<Rightarrow> connection" where
  "new_connection l = \<lparr> cn_state = new_session, cn_assembler = new_assembler l, cn_running = True \<rparr>"

text \<open>\<open>for (;;)\<close> over the complete frames. The environment of a frame is selected by its number. The loop
  ends when no frame is produced, when the assembler fails or when the handler returns \<open>false\<close>; each
  produced frame shortens the buffer.\<close>

function serve_frames ::
  "(nat \<Rightarrow> frame_env) \<Rightarrow> connection \<times> server \<Rightarrow> byte list list \<times> connection \<times> server" where
  "serve_frames envs (cn, s) =
     (case assembler_pop (cn_assembler cn) of
        (st, None, a) \<Rightarrow>
          if st \<noteq> Ok then
            (send_error (envs (sv_frames_handled s)) (cn_state cn) default_frame_header st RC_MalformedFrame
               (en_detail (envs (sv_frames_handled s))) s, cn\<lparr>cn_assembler := a, cn_running := False\<rparr>, s)
          else ([], cn\<lparr>cn_assembler := a\<rparr>, s)
      | (st, Some f, a) \<Rightarrow>
          (let h = handle_frame (envs (sv_frames_handled s)) (cn_state cn) f
                     (s\<lparr>sv_frames_handled := sv_frames_handled s + 1\<rparr>);
               cn' = cn\<lparr>cn_assembler := a, cn_state := hn_state h, cn_running := hn_running h\<rparr> in
           if \<not> hn_continue h then (hn_sent h, cn', hn_server h)
           else case serve_frames envs (cn', hn_server h) of (out, r) \<Rightarrow> (hn_sent h @ out, r)))"
  by pat_completeness auto
termination
  by (relation "measure (\<lambda>(envs, cn, s). length (fa_buffer (cn_assembler cn)))")
    (auto dest!: pop_Some_shorter [OF sym])

declare serve_frames.simps [simp del]

text \<open>One iteration of the outer loop: a chunk was received. \<open>break\<close> is the cleared \<open>running\<close> flag.\<close>

definition serve_chunk ::
  "(nat \<Rightarrow> frame_env) \<Rightarrow> byte list \<Rightarrow> connection \<Rightarrow> server \<Rightarrow> byte list list \<times> connection \<times> server" where
  "serve_chunk envs chunk cn s =
     (case assembler_push chunk (cn_assembler cn) of
        (st, a) \<Rightarrow>
          if st \<noteq> Ok then
            (send_error (envs (sv_frames_handled s)) (cn_state cn) default_frame_header st RC_OversizedVector
               (en_detail (envs (sv_frames_handled s))) s, cn\<lparr>cn_assembler := a, cn_running := False\<rparr>, s)
          else serve_frames envs (cn\<lparr>cn_assembler := a\<rparr>, s))"

text \<open>The outer loop over what \<open>receive_some\<close> returns, as far as it has returned.\<close>

fun serve_run ::
  "(nat \<Rightarrow> frame_env) \<Rightarrow> byte list list \<Rightarrow> connection \<Rightarrow> server \<Rightarrow> byte list list \<times> connection \<times> server" where
  "serve_run envs [] cn s = ([], cn, s)"
| "serve_run envs (chunk # chunks) cn s =
     (case serve_chunk envs chunk cn s of
        (out, cn', s') \<Rightarrow>
          if \<not> cn_running cn' then (out, cn', s')
          else (case serve_run envs chunks cn' s' of (out', r) \<Rightarrow> (out @ out', r)))"

text \<open>What follows the loop: the boot of a registered session is fenced and the session is erased.\<close>

definition serve_end :: "frame_env \<Rightarrow> connection \<Rightarrow> server \<Rightarrow> server" where
  "serve_end env cn s =
     (if se_registered (cn_state cn) then
        (let c = snd (fence_on_session_loss (en_now1 env) (en_io env) (se_session (cn_state cn)) (sv_coordinator s)) in
         s\<lparr>sv_coordinator := c, sv_sessions := filter (\<lambda>k. k \<noteq> se_session (cn_state cn)) (sv_sessions s)\<rparr>)
      else s)"

subsection \<open>Starting and accepting\<close>

text \<open>The status is that of starting the socket runtime and binding the listener.\<close>

definition server_start :: "status \<Rightarrow> coordinator \<Rightarrow> limits \<Rightarrow> server result" where
  "server_start bound c l =
     (if \<not> validate_limits l then Inl InvalidArgument
      else if bound \<noteq> Ok then Inl bound
      else Inr \<lparr> sv_coordinator = c, sv_limits = l, sv_next_session = 0, sv_sessions_accepted = 0,
        sv_frames_handled = 0, sv_sessions = [] \<rparr>)"

text \<open>\<open>run\<close>: an accepted connection is closed at once when the session limit is reached.\<close>

definition server_accept :: "server \<Rightarrow> connection option \<times> server" where
  "server_accept s =
     (if active_session_count s \<ge> unat (max_sessions (sv_limits s)) then (None, s)
      else (Some (new_connection (sv_limits s)), s\<lparr>sv_sessions_accepted := sv_sessions_accepted s + 1\<rparr>))"

text \<open>The server with its open connections, and its steps: a connection arrives, a chunk is received on
  a running connection, a connection ends (the peer closed it, or its loop has ended).\<close>

inductive server_step :: "connection list \<times> server \<Rightarrow> connection list \<times> server \<Rightarrow> bool" where
  accept_step: "server_accept s = (Some cn, s') \<Longrightarrow> server_step (cns, s) (cns @ [cn], s')"
| refuse_step: "server_accept s = (None, s') \<Longrightarrow> server_step (cns, s) (cns, s')"
| chunk_step: "i < length cns \<Longrightarrow> cn_running (cns ! i) \<Longrightarrow> serve_chunk envs chunk (cns ! i) s = (out, cn, s') \<Longrightarrow>
    server_step (cns, s) (cns[i := cn], s')"
| end_step: "i < length cns \<Longrightarrow> server_step (cns, s) (take i cns @ drop (Suc i) cns, serve_end env (cns ! i) s)"

inductive_cases server_stepE: "server_step (cns, s) y"

end
