(* ===== verification/Server_Invariant.thy ===== *)
theory Server_Invariant
  imports Server Coordinator_Commit
begin

text \<open>
  The handlers of the server seen from the coordinator: every handled frame runs operations of the
  coordinator, so the reachable servers hold reachable coordinators; what the handlers keep of the
  server's own fields; and the form of every message that is sent.
\<close>

subsection \<open>What a handler does to the coordinator\<close>

lemma answered_fields [simp]:
  "hn_server (answered st s out) = s" "hn_state (answered st s out) = st" "hn_sent (answered st s out) = out"
  "hn_continue (answered st s out)" "hn_running (answered st s out)"
  "hn_server (refused st s out) = s" "hn_state (refused st s out) = st" "hn_sent (refused st s out) = out"
  "\<not> hn_continue (refused st s out)" "hn_running (refused st s out)"
  by (simp_all add: answered_def refused_def)

text \<open>The four message identifiers that reach a mutating operation, as one case rule.\<close>

lemma handle_frame_cases:
  assumes "h = handle_frame env st f s"
  obtains (unchanged) "hn_server h = s" "hn_state h = st"
  | (hello) hello r c where "fh_message (fr_header f) = MI_Hello"
      "decode_whole (decode_hello (sv_limits s)) (fr_payload f) = Some hello"
      "coordinator_register_publisher (en_now1 env) (en_io env)
         \<lparr> ac_epoch = server_epoch s, ac_publisher = he_publisher hello, ac_worker_boot = he_worker_boot hello,
           ac_attempt = (if is_valid (fh_attempt (fr_header f)) then fh_attempt (fr_header f) else 1),
           ac_request = fh_request (fr_header f), ac_session = sv_next_session s + 1, ac_scopes = 0 \<rparr>
         (he_publisher hello) (he_worker_boot hello) (he_requested_scopes hello) (sv_next_session s + 1)
         (sv_coordinator s) = (r, c)"
      "hn_server h = s\<lparr>sv_next_session := sv_next_session s + 1, sv_coordinator := c\<rparr>"
      "hn_state h = (case r of Inl _ \<Rightarrow> st | Inr reg \<Rightarrow>
         \<lparr> se_session = sv_next_session s + 1, se_publisher = he_publisher hello, se_boot = he_worker_boot hello,
           se_scopes = pr_scopes reg, se_registered = True \<rparr>)"
  | (publish) cset r c where "fh_message (fr_header f) = MI_PublishConstraintSet" "se_registered st"
      "identity_matches st (fr_header f)"
      "publish_constraint_set (en_now1 env) (en_now2 env) (en_io env) (context_for st (fr_header f) s) cset
         (sv_coordinator s) = (r, c)"
      "hn_server h = s\<lparr>sv_coordinator := c\<rparr>" "hn_state h = st"
  | (lifecycle) i ev r c where "fh_message (fr_header f) = MI_ApplyLifecycle" "se_registered st"
      "identity_matches st (fr_header f)"
      "apply_lifecycle (en_now1 env) (en_io env) (context_for st (fr_header f) s) i ev (sv_coordinator s) = (r, c)"
      "hn_server h = s\<lparr>sv_coordinator := c\<rparr>" "hn_state h = st"
  | (evaluate) i cands g r c where "fh_message (fr_header f) = MI_EvaluateCandidates" "se_registered st"
      "identity_matches st (fr_header f)"
      "coordinator_evaluate (en_now1 env) (en_now2 env) (en_io env) (context_for st (fr_header f) s) i cands g
         (sv_coordinator s) = (r, c)"
      "hn_server h = s\<lparr>sv_coordinator := c\<rparr>" "hn_state h = st"
proof (cases "fh_message (fr_header f) = MI_Hello")
  case True
  show thesis
  proof (cases "decode_whole (decode_hello (sv_limits s)) (fr_payload f)")
    case None
    then show thesis using unchanged assms True by (simp add: handle_frame_def handle_hello_def Let_def)
  next
    case (Some hello)
    obtain r c where reg: "coordinator_register_publisher (en_now1 env) (en_io env)
         \<lparr> ac_epoch = server_epoch s, ac_publisher = he_publisher hello, ac_worker_boot = he_worker_boot hello,
           ac_attempt = (if is_valid (fh_attempt (fr_header f)) then fh_attempt (fr_header f) else 1),
           ac_request = fh_request (fr_header f), ac_session = sv_next_session s + 1, ac_scopes = 0 \<rparr>
         (he_publisher hello) (he_worker_boot hello) (he_requested_scopes hello) (sv_next_session s + 1)
         (sv_coordinator s) = (r, c)" by force
    have e: "server_epoch (s\<lparr>sv_next_session := n\<rparr>) = server_epoch s" for n
      by (simp add: server_epoch_def)
    show thesis
      by (rule hello [OF True Some reg])
        (use True Some reg in \<open>simp_all add: assms handle_frame_def handle_hello_def Let_def e split: sum.split prod.split\<close>)
  qed
next
  case False
  note u = unchanged [unfolded assms]
  show thesis
  proof (cases "se_registered st \<and> identity_matches st (fr_header f)")
    case no: False
    then show thesis using False by (intro u) (auto simp: handle_frame_def)
  next
    case reg: True
    then have h: "h = handle_registered env st f s" using False assms by (simp add: handle_frame_def)
    show thesis
    proof (cases "fh_message (fr_header f) \<in> {MI_PublishConstraintSet, MI_ApplyLifecycle, MI_EvaluateCandidates}")
      case False
      then show thesis
        by (intro unchanged; cases "fh_message (fr_header f)")
          (simp_all add: h handle_registered_def handle_query_def split: option.split)
    next
      case True
      then consider "fh_message (fr_header f) = MI_PublishConstraintSet" | "fh_message (fr_header f) = MI_ApplyLifecycle"
        | "fh_message (fr_header f) = MI_EvaluateCandidates" by blast
      then show thesis
      proof cases
        case 1
        show thesis
        proof (cases "decode_whole (decode_constraint_set (sv_limits s)) (fr_payload f)")
          case None
          then show thesis using 1 by (intro unchanged) (simp_all add: h handle_registered_def handle_publish_def Let_def)
        next
          case (Some cset)
          obtain r c where run: "publish_constraint_set (en_now1 env) (en_now2 env) (en_io env)
            (context_for st (fr_header f) s) cset (sv_coordinator s) = (r, c)" by force
          show thesis
            by (rule publish [OF 1 _ _ run]) (use reg Some 1 run in \<open>simp_all add: h handle_registered_def handle_publish_def Let_def\<close>)
        qed
      next
        case 2
        show thesis
        proof (cases "decode_whole decode_lifecycle_request (fr_payload f)")
          case None
          then show thesis using 2 by (intro unchanged) (simp_all add: h handle_registered_def handle_lifecycle_def Let_def)
        next
          case (Some q)
          obtain r c where run: "apply_lifecycle (en_now1 env) (en_io env) (context_for st (fr_header f) s)
            (lq_set_id q) (lq_event q) (sv_coordinator s) = (r, c)" by force
          show thesis
            by (rule lifecycle [OF 2 _ _ run]) (use reg Some 2 run in \<open>simp_all add: h handle_registered_def handle_lifecycle_def Let_def\<close>)
        qed
      next
        case 3
        show thesis
        proof (cases "decode_whole (decode_evaluate_request (sv_limits s)) (fr_payload f)")
          case None
          then show thesis using 3 by (intro unchanged) (simp_all add: h handle_registered_def handle_evaluate_def Let_def)
        next
          case (Some q)
          obtain r c where run: "coordinator_evaluate (en_now1 env) (en_now2 env) (en_io env)
            (context_for st (fr_header f) s) (rq_set_id q) (rq_candidates q) (rq_expected_generation q)
            (sv_coordinator s) = (r, c)" by force
          show thesis
            by (rule evaluate [OF 3 _ _ run]) (use reg Some 3 run in \<open>simp_all add: h handle_registered_def handle_evaluate_def Let_def\<close>)
        qed
      qed
    qed
  qed
qed

lemma handle_frame_steps:
  "coordinator_step\<^sup>*\<^sup>* (sv_coordinator s, ts) (sv_coordinator (hn_server (handle_frame env st f s)), ts)"
  by (rule handle_frame_cases [OF refl, of env st f s])
    (auto intro: r_into_rtranclp [of coordinator_step] coordinator_step.register coordinator_step.publish
      coordinator_step.lifecycle evaluate_steps)

lemma handle_frame_keeps:
  "sv_limits (hn_server (handle_frame env st f s)) = sv_limits s"
  "sv_sessions (hn_server (handle_frame env st f s)) = sv_sessions s"
  by (rule handle_frame_cases [OF refl, of env st f s]; simp)+

subsection \<open>Connections and steps\<close>

lemma serve_frames_keeps:
  "serve_frames envs (cn, s) = (out, cn', s') \<Longrightarrow>
     coordinator_step\<^sup>*\<^sup>* (sv_coordinator s, ts) (sv_coordinator s', ts) \<and>
     sv_limits s' = sv_limits s \<and> sv_sessions s' = sv_sessions s"
proof (induction envs "(cn, s)" arbitrary: cn s out rule: serve_frames.induct)
  case (1 envs cn s)
  obtain st fo a where pop: "assembler_pop (cn_assembler cn) = (st, fo, a)" by (metis prod.exhaust)
  show ?case
  proof (cases fo)
    case None
    then show ?thesis using "1.prems" pop by (auto simp: serve_frames.simps [of envs cn s] split: if_splits)
  next
    case (Some f)
    let ?s1 = "s\<lparr>sv_frames_handled := sv_frames_handled s + 1\<rparr>"
    let ?h = "handle_frame (envs (sv_frames_handled s)) (cn_state cn) f ?s1"
    let ?cn = "cn\<lparr>cn_assembler := a, cn_state := hn_state ?h, cn_running := hn_running ?h\<rparr>"
    have one: "coordinator_step\<^sup>*\<^sup>* (sv_coordinator s, ts) (sv_coordinator (hn_server ?h), ts)"
      "sv_limits (hn_server ?h) = sv_limits s" "sv_sessions (hn_server ?h) = sv_sessions s"
      using handle_frame_steps [of ?s1 ts] by (simp_all add: handle_frame_keeps)
    show ?thesis
    proof (cases "hn_continue ?h")
      case False
      then show ?thesis
        using "1.prems" pop Some one by (simp add: serve_frames.simps [of envs cn s] Let_def)
    next
      case True
      obtain out2 where rest: "serve_frames envs (?cn, hn_server ?h) = (out2, cn', s')"
        using "1.prems" pop Some True
        by (cases "serve_frames envs (?cn, hn_server ?h)") (simp add: serve_frames.simps [of envs cn s] Let_def)
      have "coordinator_step\<^sup>*\<^sup>* (sv_coordinator (hn_server ?h), ts) (sv_coordinator s', ts) \<and>
          sv_limits s' = sv_limits (hn_server ?h) \<and> sv_sessions s' = sv_sessions (hn_server ?h)"
        by (rule "1.hyps" [OF pop [symmetric] refl Some refl refl _ rest]) (use True in simp)
      then show ?thesis using one by auto
    qed
  qed
qed

lemma serve_chunk_keeps:
  assumes "serve_chunk envs chunk cn s = (out, cn', s')"
  shows "coordinator_step\<^sup>*\<^sup>* (sv_coordinator s, ts) (sv_coordinator s', ts) \<and>
     sv_limits s' = sv_limits s \<and> sv_sessions s' = sv_sessions s"
  using assms serve_frames_keeps by (auto simp: serve_chunk_def split: prod.splits if_splits)

lemma serve_end_keeps:
  "coordinator_step\<^sup>*\<^sup>* (sv_coordinator s, ts) (sv_coordinator (serve_end env cn s), ts)"
  "sv_limits (serve_end env cn s) = sv_limits s"
  "sv_sessions s = [] \<Longrightarrow> sv_sessions (serve_end env cn s) = []"
proof -
  have "coordinator_step\<^sup>*\<^sup>* (c, ts) (snd (fence_on_session_loss now io se c), ts)" for now io se c
    by (rule r_into_rtranclp, rule coordinator_step.session_loss, rule prod.collapse [symmetric])
  then show "coordinator_step\<^sup>*\<^sup>* (sv_coordinator s, ts) (sv_coordinator (serve_end env cn s), ts)"
    by (simp add: serve_end_def)
qed (simp_all add: serve_end_def)

lemma server_step_keeps:
  assumes "server_step x y"
  shows "coordinator_step\<^sup>*\<^sup>* (sv_coordinator (snd x), ts) (sv_coordinator (snd y), ts) \<and>
    sv_limits (snd y) = sv_limits (snd x) \<and> (sv_sessions (snd x) = [] \<longrightarrow> sv_sessions (snd y) = [])"
  using assms
proof (induction rule: server_step.induct)
  case (chunk_step i cns envs chunk s out cn s')
  then show ?case using serve_chunk_keeps by fastforce
next
  case (end_step i cns s env)
  then show ?case by (simp add: serve_end_keeps)
qed (auto simp: server_accept_def split: if_splits)

lemma server_steps_keep:
  "server_step\<^sup>*\<^sup>* x y \<Longrightarrow>
     coordinator_step\<^sup>*\<^sup>* (sv_coordinator (snd x), ts) (sv_coordinator (snd y), ts) \<and>
     sv_limits (snd y) = sv_limits (snd x) \<and> (sv_sessions (snd x) = [] \<longrightarrow> sv_sessions (snd y) = [])"
proof (induction rule: rtranclp_induct)
  case (step y z)
  then show ?case using server_step_keeps [OF step.hyps(2), of ts] by auto
qed simp

subsection \<open>What is sent\<close>

text \<open>Every handler sends through \<open>send_frame\<close>; the frames it hands to the socket are encodings that the
  receiver's decoder accepts, carry the request identity of the frame that is answered and the
  epoch of the coordinator.\<close>

definition answers :: "server \<Rightarrow> frame_header \<Rightarrow> byte list \<Rightarrow> bool" where
  "answers s request raw \<longleftrightarrow> (\<exists>g. decode_frame raw (sv_limits s) = Inr g \<and>
     fh_request (fr_header g) = fh_request request \<and> fh_attempt (fr_header g) = fh_attempt request \<and>
     fh_epoch (fr_header g) = server_epoch s)"

lemma send_frame_answers:
  assumes "gen_ok (server_epoch s)" "raw \<in> set (snd (send_frame env message st request payload s))"
  shows "answers s request raw"
proof -
  let ?h = "default_frame_header\<lparr> fh_message := message, fh_epoch := server_epoch s,
            fh_publisher := se_publisher st, fh_worker_boot := se_boot st, fh_attempt := fh_attempt request,
            fh_request := fh_request request, fh_scopes := se_scopes st \<rparr>"
  let ?f = "\<lparr> fr_header = ?h, fr_payload = payload \<rparr>"
  have enc: "encode_frame ?f (sv_limits s) = Inr raw"
    using assms(2) by (auto simp: send_frame_def Let_def split: sum.splits)
  let ?g = "\<lparr> fr_header = stamped ?f, fr_payload = payload \<rparr>"
  have "encode_frame ?g (sv_limits s) = Inr raw"
    using enc by (simp add: encode_frame_iff stamped_def)
  moreover have "frame_wire ?g"
    using assms(1) by (simp add: frame_wire_def stamped_def)
  ultimately have "decode_frame raw (sv_limits s) = Inr ?g" by (simp add: decode_frame_exact)
  then show ?thesis unfolding answers_def by (intro exI [of _ ?g]) (simp add: stamped_def)
qed

lemma send_error_answers:
  "gen_ok (server_epoch s) \<Longrightarrow> raw \<in> set (send_error env st request code reason detail s) \<Longrightarrow> answers s request raw"
  unfolding send_error_def Let_def by (rule send_frame_answers)

subsection \<open>The epoch of an incarnation\<close>

text \<open>No operation of an open coordinator changes its epoch.\<close>

abbreviation epoch_of :: "coordinator \<Rightarrow> coordinator_epoch" where
  "epoch_of c \<equiv> au_epoch (co_authority c)"

lemma epoch_registry:
  "fence_boot b at t l a = (st, a') \<Longrightarrow> au_epoch a' = au_epoch a"
  "drop_session se a = (st, a') \<Longrightarrow> au_epoch a' = au_epoch a"
  "observe_attempt m d t l a = (v, a') \<Longrightarrow> au_epoch a' = au_epoch a"
  by (auto simp: fence_boot_def drop_session_def observe_attempt_def Let_def split: if_splits option.splits)

lemma epoch_fence_previous: "fence_previous r l is a = (st, a') \<Longrightarrow> au_epoch a' = au_epoch a"
  by (induction r l "is" a rule: fence_previous.induct)
    (auto simp: Let_def split: if_splits prod.splits dest: epoch_registry(1))

lemma epoch_register: "register_publisher r l a = (st, a') \<Longrightarrow> au_epoch a' = au_epoch a"
  by (auto simp: register_publisher_def split: if_splits prod.splits dest!: epoch_fence_previous)

lemma epoch_persist: "persist io s c = (st, c') \<Longrightarrow> epoch_of c' = epoch_of c"
  using persist_store by fastforce

lemma epoch_apply: "persist_and_apply io s c = (st, c') \<Longrightarrow> epoch_of c' = epoch_of c"
  by (erule persist_and_apply_cases) (auto simp: apply_state_def)

lemma epoch_guarded:
  assumes "guarded now ctx scope d failure k c = (r, c')"
    and "\<And>b c1 r c'. k b c1 = (r, c') \<Longrightarrow> epoch_of c' = epoch_of c1"
  shows "epoch_of c' = epoch_of c"
proof -
  obtain v a where o: "observe_attempt (ac_attempt ctx) d now (co_limits c) (co_authority c) = (v, a)" by force
  have "au_epoch a = epoch_of c" using epoch_registry(3) [OF o] .
  then show ?thesis
    using assms o unfolding guarded_def Let_def
    by (auto split: if_splits sum.splits replay_verdict.splits)
qed

lemma epoch_change_evidence: "change_evidence io e c = (st, c') \<Longrightarrow> epoch_of c' = epoch_of c"
  by (auto simp: change_evidence_def Let_def split: if_splits prod.splits dest!: epoch_apply)

lemma epoch_set_evidence: "set_evidence_requirements now io ctx e c = (st, c') \<Longrightarrow> epoch_of c' = epoch_of c"
  unfolding set_evidence_requirements_def
  by (erule epoch_guarded) (auto split: if_splits dest: epoch_change_evidence)

lemma epoch_begin: "evaluate_begin now ctx i cands expected c = (r, c') \<Longrightarrow> epoch_of c' = epoch_of c"
  unfolding evaluate_begin_def
  by (erule epoch_guarded) (auto simp: take_snapshot_def split: if_splits option.splits prod.splits sum.splits)

lemma epoch_step: "coordinator_step x y \<Longrightarrow> epoch_of (fst y) = epoch_of (fst x)"
proof (induction rule: coordinator_step.induct)
  case (register now io ctx p b sc se c r c' ts)
  then show ?case
    by (auto simp: coordinator_register_publisher_def Let_def split: if_splits option.splits prod.splits
        dest!: epoch_persist epoch_register)
next
  case (fence now1 now2 io ctx b c st c' ts)
  then have "epoch_of c' = epoch_of c"
    unfolding coordinator_fence_boot_def
    by (rule epoch_guarded) (auto simp: Let_def split: if_splits prod.splits dest!: epoch_persist epoch_registry(1))
  then show ?case by simp
next
  case (session_loss now io se c st c' ts)
  have "au_epoch (snd (drop_session se a)) = au_epoch a" for a
    using epoch_registry(2) [OF prod.collapse [symmetric]] .
  then show ?case
    using session_loss
    by (auto simp: fence_on_session_loss_def Let_def split: if_splits option.splits prod.splits
        dest!: epoch_persist epoch_registry(1))
next
  case (drop ctx se c st c' ts)
  then show ?case
    by (auto simp: coordinator_drop_session_def Let_def split: if_splits prod.splits dest: epoch_registry(2))
next
  case (observe now ctx d c v c' ts)
  then show ?case by (auto simp: coordinator_observe_attempt_def split: prod.splits dest: epoch_registry(3))
next
  case (publish now1 now2 io ctx s c r c' ts)
  then have "epoch_of c' = epoch_of c"
    unfolding publish_constraint_set_def
    by (rule epoch_guarded)
      (auto simp: store_definition_def split: if_splits option.splits prod.splits sum.splits dest!: epoch_apply)
  then show ?case by simp
next
  case (lifecycle now io ctx i ev c r c' ts)
  then have "epoch_of c' = epoch_of c"
    unfolding apply_lifecycle_def
    by (rule epoch_guarded)
      (auto simp: Let_def split: if_splits option.splits prod.splits transition_outcome.splits dest!: epoch_apply)
  then show ?case by simp
next
  case (advance now io ctx f g c st c' ts)
  then show ?case by (auto simp: coordinator_advance_family_def split: if_splits dest: epoch_set_evidence)
next
  case (invalidate now io ctx k c st c' ts)
  then have "epoch_of c' = epoch_of c"
    unfolding invalidate_key_def
    by (rule epoch_guarded) (auto simp: Let_def split: if_splits option.splits dest!: epoch_apply)
  then show ?case by simp
next
  case (flush io c st c' ts)
  then show ?case by (auto simp: coordinator_flush_def dest: epoch_persist)
next
  case (finish t ts now io c r c')
  then show ?case
    by (auto simp: evaluate_finish_def evaluate_commit_def Let_def split: sum.splits if_splits prod.splits dest!: epoch_apply)
qed (auto dest: epoch_set_evidence epoch_begin)

lemma epoch_steps: "coordinator_step\<^sup>*\<^sup>* x y \<Longrightarrow> epoch_of (fst y) = epoch_of (fst x)"
  by (induction rule: rtranclp_induct) (auto dest: epoch_step)

lemma epoch_handled: "server_epoch (hn_server (handle_frame env st f s)) = server_epoch s"
  using epoch_steps [OF handle_frame_steps [where ts = "[]"], of env st f s] by (simp add: server_epoch_def)

text \<open>Every message a handler sends goes through \<open>send_frame\<close> on the server it leaves behind.\<close>

definition sends :: "server \<Rightarrow> frame_header \<Rightarrow> byte list \<Rightarrow> bool" where
  "sends s request raw \<longleftrightarrow> (\<exists>env message st payload. raw \<in> set (snd (send_frame env message st request payload s)))"

lemma sends_frame: "raw \<in> set (snd (send_frame env message st request payload s)) \<Longrightarrow> sends s request raw"
  by (auto simp: sends_def)

lemma sends_pair: "send_frame env message st request payload s = (status, out) \<Longrightarrow> raw \<in> set out \<Longrightarrow> sends s request raw"
  by (rule sends_frame [of raw env message st request payload s]) simp

lemma sends_error: "raw \<in> set (send_error env st request code reason detail s) \<Longrightarrow> sends s request raw"
  unfolding send_error_def Let_def by (rule sends_frame)

lemma hello_sends:
  "raw \<in> set (hn_sent (handle_hello env st f s)) \<Longrightarrow> sends (hn_server (handle_hello env st f s)) (fr_header f) raw"
proof (cases "decode_whole (decode_hello (sv_limits s)) (fr_payload f)")
  case None
  then show "raw \<in> set (hn_sent (handle_hello env st f s)) \<Longrightarrow> ?thesis"
    by (auto simp: handle_hello_def Let_def intro: sends_error)
next
  case (Some hello)
  then show "raw \<in> set (hn_sent (handle_hello env st f s)) \<Longrightarrow> ?thesis"
    by (auto simp: handle_hello_def Let_def split: prod.splits sum.splits intro: sends_error sends_frame sends_pair)
qed

lemma handled_sends:
  assumes "raw \<in> set (hn_sent (handle_frame env st f s))"
  shows "sends (hn_server (handle_frame env st f s)) (fr_header f) raw"
proof -
  have q: "raw \<in> set (hn_sent (handle_query m t report env st f s)) \<Longrightarrow>
      sends (hn_server (handle_query m t report env st f s)) (fr_header f) raw" for m t report
    by (auto simp: handle_query_def split: option.splits intro: sends_error sends_frame)
  have p: "raw \<in> set (hn_sent (handle_publish env st f s)) \<Longrightarrow> sends (hn_server (handle_publish env st f s)) (fr_header f) raw"
    by (auto simp: handle_publish_def Let_def split: option.splits prod.splits sum.splits intro: sends_error sends_frame)
  have l: "raw \<in> set (hn_sent (handle_lifecycle env st f s)) \<Longrightarrow> sends (hn_server (handle_lifecycle env st f s)) (fr_header f) raw"
    by (auto simp: handle_lifecycle_def Let_def split: option.splits prod.splits sum.splits intro: sends_error sends_frame)
  have e: "raw \<in> set (hn_sent (handle_evaluate env st f s)) \<Longrightarrow> sends (hn_server (handle_evaluate env st f s)) (fr_header f) raw"
    by (auto simp: handle_evaluate_def Let_def split: option.splits prod.splits sum.splits intro: sends_error sends_frame)
  have "raw \<in> set (hn_sent (handle_registered env st f s)) \<Longrightarrow> sends (hn_server (handle_registered env st f s)) (fr_header f) raw"
    using q p l e by (cases "fh_message (fr_header f)") (auto simp: handle_registered_def intro: sends_error sends_frame)
  then show ?thesis
    using assms hello_sends by (auto simp: handle_frame_def intro: sends_error split: if_splits)
qed

lemma handled_answers:
  assumes "gen_ok (server_epoch s)" "raw \<in> set (hn_sent (handle_frame env st f s))"
  shows "answers (hn_server (handle_frame env st f s)) (fr_header f) raw"
proof -
  let ?s = "hn_server (handle_frame env st f s)"
  have "gen_ok (server_epoch ?s)" using assms(1) by (simp add: epoch_handled)
  then show ?thesis using handled_sends [OF assms(2)] send_frame_answers by (auto simp: sends_def)
qed

lemma open_epoch:
  assumes "coordinator_open config clk now lk rd rn rd2 io file = Inr c"
  shows "is_representable (epoch_of c)"
proof -
  obtain restored c0 where f: "finish_open now io restored c0 = Inr c"
    using assms by (auto simp: coordinator_open_def Let_def split: if_splits sum.splits)
  have co: "co_authority (restore_definitions restored x) = co_authority x" for x
    by (simp add: restore_definitions_def split: option.splits)
  obtain a where a: "open_authority now restored = Inr a" and "epoch_of c = au_epoch a"
    using f by (auto simp: finish_open_def Let_def co split: sum.splits prod.splits if_splits dest!: epoch_persist)
  moreover have "is_representable (au_epoch a)"
    using a
    by (auto simp: open_authority_def establish_epoch_def is_representable_def kMaxGeneration_def
        split: option.splits if_splits sum.splits prod.splits dest: next_gen_representable)
  ultimately show ?thesis by simp
qed

end
