(* ===== verification/Worker.thy ===== *)
theory Worker
  imports Messages Framing
begin

text \<open>
  The worker client (\<open>worker.hpp\<close>, \<open>worker.cpp\<close>): the handshake, the request and response exchange and
  the typed requests over it. The socket is a parameter: the outcome of each send and the sequence of
  what the receive calls return. A receive loop that has consumed the sequence is still waiting; its
  result is \<^const>\<open>None\<close>. The boot identity drawn when none is configured is a parameter too.
\<close>

subsection \<open>State\<close>

record worker_config =
  wc_publisher :: publisher_id
  wc_requested_scopes :: authority_scope_mask
  wc_client_name :: "byte list"
  wc_boot :: worker_boot_id

record worker =
  wk_limits :: limits
  wk_boot :: worker_boot_id
  wk_session :: session_id
  wk_epoch :: coordinator_epoch
  wk_granted_scopes :: authority_scope_mask
  wk_publisher :: publisher_id
  wk_attempt_counter :: u64
  wk_connected :: bool

text \<open>One receive call: \<open>Received []\<close> is the orderly close of the peer.\<close>

datatype recv = Received "byte list" | RecvFailed error_code

record exchange =
  ex_sent :: status
  ex_received :: "recv list"

subsection \<open>Attempt identities\<close>

definition mix :: "u64 \<Rightarrow> u64" where
  "mix value =
     (let v1 = value + 0x9e3779b97f4a7c15;
          v2 = (v1 XOR drop_bit 30 v1) * 0xbf58476d1ce4e5b9;
          v3 = (v2 XOR drop_bit 27 v2) * 0x94d049bb133111eb
      in v3 XOR drop_bit 31 v3)"

definition attempt_for :: "worker_boot_id \<Rightarrow> u64 \<Rightarrow> mutation_attempt_id" where
  "attempt_for boot counter =
     (let value = mix (boot XOR counter * 0x9e3779b97f4a7c15) in if value = 0 then 1 else value)"

definition next_context :: "worker \<Rightarrow> authority_context \<times> worker" where
  "next_context w =
     (let w1 = w\<lparr>wk_attempt_counter := wk_attempt_counter w + 1\<rparr> in
      (\<lparr> ac_epoch = wk_epoch w1, ac_publisher = wk_publisher w1, ac_worker_boot = wk_boot w1,
         ac_attempt = attempt_for (wk_boot w1) (wk_attempt_counter w1), ac_request = wk_attempt_counter w1,
         ac_session = wk_session w1, ac_scopes = wk_granted_scopes w1 \<rparr>, w1))"

subsection \<open>Receiving\<close>

fun await_frame :: "recv list \<Rightarrow> frame_assembler \<Rightarrow> frame result option" where
  "await_frame rs a =
     (case assembler_pop a of
        (st, Some f, a') \<Rightarrow> Some (Inr f)
      | (st, None, a') \<Rightarrow>
          if st \<noteq> Ok then Some (Inl st)
          else (case rs of
              [] \<Rightarrow> None
            | RecvFailed e # _ \<Rightarrow> Some (Inl e)
            | Received chunk # rest \<Rightarrow>
                if chunk = [] then Some (Inl TransportFailure)
                else (case assembler_push chunk a' of
                    (st', a'') \<Rightarrow> if st' \<noteq> Ok then Some (Inl st') else await_frame rest a'')))"

declare await_frame.simps [simp del]

text \<open>\<open>round_trip\<close>: the bytes handed to the socket are the second component.\<close>

definition response_of :: "limits \<Rightarrow> strong_id \<Rightarrow> frame \<Rightarrow> frame result" where
  "response_of l request response =
     (if fh_request (fr_header response) \<noteq> request then Inl ProtocolViolation
      else if fh_message (fr_header response) = MI_ErrorReport then
        (case decode_error_report l (byte_reader_of (fr_payload response)) of
           (None, _) \<Rightarrow> Inl Malformed
         | (Some report, _) \<Rightarrow> Inl (rp_code report))
      else Inr response)"

definition request_frame :: "message_id \<Rightarrow> byte list \<Rightarrow> worker \<Rightarrow> frame" where
  "request_frame message payload w =
     \<lparr> fr_header = default_frame_header\<lparr> fh_message := message, fh_epoch := wk_epoch w,
         fh_publisher := wk_publisher w, fh_worker_boot := wk_boot w, fh_scopes := wk_granted_scopes w,
         fh_attempt := attempt_for (wk_boot w) (wk_attempt_counter w), fh_request := wk_attempt_counter w \<rparr>,
       fr_payload = payload \<rparr>"

definition round_trip ::
  "message_id \<Rightarrow> byte list \<Rightarrow> exchange \<Rightarrow> worker \<Rightarrow> frame result option \<times> byte list list \<times> worker" where
  "round_trip message payload ex w =
     (if \<not> is_valid (wk_session w) then (Some (Inl Unauthorized), [], w)
      else let w1 = w\<lparr>wk_attempt_counter := wk_attempt_counter w + 1\<rparr> in
      case encode_frame (request_frame message payload w1) (wk_limits w1) of
        Inl e \<Rightarrow> (Some (Inl e), [], w1)
      | Inr encoded \<Rightarrow>
          (if ex_sent ex \<noteq> Ok then Some (Inl (ex_sent ex))
           else (case await_frame (ex_received ex) (new_assembler (wk_limits w1)) of
               None \<Rightarrow> None
             | Some (Inl e) \<Rightarrow> Some (Inl e)
             | Some (Inr response) \<Rightarrow> Some (response_of (wk_limits w1) (wk_attempt_counter w1) response)),
           [encoded], w1))"

subsection \<open>The handshake\<close>

definition hello_of :: "worker_config \<Rightarrow> worker_boot_id \<Rightarrow> hello_payload" where
  "hello_of config boot = \<lparr> he_publisher = wc_publisher config, he_worker_boot = boot,
     he_requested_scopes = wc_requested_scopes config, he_client_name = wc_client_name config \<rparr>"

definition hello_frame :: "worker_config \<Rightarrow> worker_boot_id \<Rightarrow> frame" where
  "hello_frame config boot =
     \<lparr> fr_header = default_frame_header\<lparr> fh_message := MI_Hello, fh_epoch := 0, fh_publisher := wc_publisher config,
         fh_worker_boot := boot, fh_attempt := 1, fh_request := 1, fh_scopes := wc_requested_scopes config \<rparr>,
       fr_payload = encode_hello (hello_of config boot) \<rparr>"

definition accept_ack :: "worker_config \<Rightarrow> limits \<Rightarrow> worker_boot_id \<Rightarrow> frame \<Rightarrow> worker result" where
  "accept_ack config l boot response =
     (if fh_message (fr_header response) \<noteq> MI_HelloAck then Inl ProtocolViolation
      else case decode_hello_ack (byte_reader_of (fr_payload response)) of
        (None, _) \<Rightarrow> Inl Malformed
      | (Some ack, _) \<Rightarrow>
          if \<not> ha_accepted ack then Inl Unauthorized
          else Inr \<lparr> wk_limits = l, wk_boot = boot, wk_session = ha_session ack, wk_epoch = ha_epoch ack,
            wk_granted_scopes = ha_granted_scopes ack, wk_publisher = wc_publisher config,
            wk_attempt_counter = 0, wk_connected = True \<rparr>)"

definition worker_connect ::
  "worker_config \<Rightarrow> limits \<Rightarrow> worker_boot_id \<Rightarrow> status \<Rightarrow> exchange \<Rightarrow> worker result option \<times> byte list list" where
  "worker_connect config l fresh connected ex =
     (if \<not> validate_limits l then (Some (Inl InvalidArgument), [])
      else let boot = (if is_valid (wc_boot config) then wc_boot config else fresh) in
      if connected \<noteq> Ok then (Some (Inl connected), [])
      else case encode_frame (hello_frame config boot) l of
        Inl e \<Rightarrow> (Some (Inl e), [])
      | Inr encoded \<Rightarrow>
          (if ex_sent ex \<noteq> Ok then Some (Inl (ex_sent ex))
           else (case await_frame (ex_received ex) (new_assembler l) of
               None \<Rightarrow> None
             | Some (Inl e) \<Rightarrow> Some (Inl e)
             | Some (Inr response) \<Rightarrow> Some (accept_ack config l boot response)),
           [encoded]))"

subsection \<open>Requests\<close>

text \<open>A request: the exchange, then the payload decoder of the response, which does not require the end
  of the payload. The failure of the decoder is the code \<open>bad\<close>.\<close>

definition request ::
  "message_id \<Rightarrow> byte list \<Rightarrow> 'a parser \<Rightarrow> error_code \<Rightarrow> ('a \<Rightarrow> 'b result) \<Rightarrow> exchange \<Rightarrow> worker \<Rightarrow>
   'b result option \<times> byte list list \<times> worker" where
  "request message payload decode bad k ex w =
     (case round_trip message payload ex w of
        (r, sent, w') \<Rightarrow>
          ((case r of
              None \<Rightarrow> None
            | Some (Inl e) \<Rightarrow> Some (Inl e)
            | Some (Inr response) \<Rightarrow>
                (case decode (byte_reader_of (fr_payload response)) of
                   (None, _) \<Rightarrow> Some (Inl bad)
                 | (Some x, _) \<Rightarrow> Some (k x))), sent, w'))"

definition worker_publish_constraint_set ::
  "constraint_set \<Rightarrow> exchange \<Rightarrow> worker \<Rightarrow> constraint_set result option \<times> byte list list \<times> worker" where
  "worker_publish_constraint_set s =
     request MI_PublishConstraintSet (encode_constraint_set s) decode_publish_ack Malformed
       (\<lambda>ack. Inr (s\<lparr>cs_id := pk_set_id ack, cs_generation := pk_generation ack, cs_digest := pk_digest ack\<rparr>))"

text \<open>The member initialisers of \<open>ConstraintSet\<close> for the fields the acknowledgement does not carry.\<close>

definition default_constraint_set :: constraint_set where
  "default_constraint_set = \<lparr> cs_id = 0, cs_generation = 0, cs_state = Declared, cs_name = [], cs_constraints = [],
     cs_evidence = \<lparr> er_topology = 0, er_link_state = 0, er_capability = 0, er_failure_domain = 0, er_policy = 0,
       er_planner = 0, er_path_authority = 0, er_max_evidence_age_ticks = 0 \<rparr>,
     cs_ranking = default_ranking_policy, cs_digest = zero_digest, cs_declared_tick = 0 \<rparr>"

definition worker_apply_lifecycle ::
  "constraint_set_id \<Rightarrow> lifecycle_event \<Rightarrow> exchange \<Rightarrow> worker \<Rightarrow> constraint_set result option \<times> byte list list \<times> worker" where
  "worker_apply_lifecycle set_id event =
     request MI_ApplyLifecycle (encode_lifecycle_request \<lparr> lq_set_id = set_id, lq_event = event \<rparr>)
       decode_publish_ack Malformed
       (\<lambda>ack. Inr (default_constraint_set\<lparr>cs_id := pk_set_id ack, cs_generation := pk_generation ack,
          cs_digest := pk_digest ack\<rparr>))"

definition worker_evaluate ::
  "constraint_set_id \<Rightarrow> candidate_path list \<Rightarrow> exchange \<Rightarrow> worker \<Rightarrow>
   commit_outcome result option \<times> byte list list \<times> worker" where
  "worker_evaluate set_id candidates ex w =
     request MI_EvaluateCandidates
       (encode_evaluate_request \<lparr> rq_set_id = set_id, rq_expected_generation = 0, rq_candidates = candidates \<rparr>)
       (decode_evaluate_response (wk_limits w)) Malformed
       (\<lambda>ack. Inr \<lparr> oc_batch = rs_batch ack, oc_committed = True, oc_rejection_reason = RC_None,
          oc_mask_at_snapshot = 0, oc_mask_at_commit = 0 \<rparr>) ex w"

definition report_or_missing :: "'a option \<Rightarrow> 'a result" where
  "report_or_missing report = (case report of None \<Rightarrow> Inl NotFound | Some x \<Rightarrow> Inr x)"

definition worker_query_definitions ::
  "constraint_set_id \<Rightarrow> exchange \<Rightarrow> worker \<Rightarrow> definitions_snapshot result option \<times> byte list list \<times> worker" where
  "worker_query_definitions set_id ex w =
     request MI_QueryDefinitions (put_u64 set_id) (decode_definitions_report (wk_limits w)) NotFound report_or_missing ex w"

definition worker_query_results ::
  "constraint_set_id \<Rightarrow> exchange \<Rightarrow> worker \<Rightarrow> results_snapshot result option \<times> byte list list \<times> worker" where
  "worker_query_results set_id ex w =
     request MI_QueryResults (put_u64 set_id) (decode_results_report (wk_limits w)) NotFound report_or_missing ex w"

definition worker_query_currentness ::
  "constraint_set_id \<Rightarrow> exchange \<Rightarrow> worker \<Rightarrow> currentness_report result option \<times> byte list list \<times> worker" where
  "worker_query_currentness set_id ex w =
     request MI_QueryCurrentness (put_u64 set_id) decode_currentness_report NotFound report_or_missing ex w"

definition heartbeat :: "exchange \<Rightarrow> worker \<Rightarrow> status option \<times> byte list list \<times> worker" where
  "heartbeat ex w =
     (case round_trip MI_Heartbeat [] ex w of
        (r, sent, w') \<Rightarrow> (map_option (\<lambda>x. case x of Inl e \<Rightarrow> e | Inr _ \<Rightarrow> Ok) r, sent, w'))"

text \<open>\<open>close\<close> ignores what the exchange returns, but waits for it.\<close>

definition worker_close :: "exchange \<Rightarrow> worker \<Rightarrow> status option \<times> byte list list \<times> worker" where
  "worker_close ex w =
     (if wk_connected w then
        (case round_trip MI_Shutdown [] ex w of
           (None, sent, w') \<Rightarrow> (None, sent, w')
         | (Some _, sent, w') \<Rightarrow> (Some Ok, sent, w'\<lparr>wk_connected := False, wk_session := 0\<rparr>))
      else (Some Ok, [], w\<lparr>wk_session := 0\<rparr>))"

end
