(* ===== verification/Exchange.thy ===== *)
theory Exchange
  imports Server_Invariant Worker
begin

text \<open>
  The client and the server together: a response cut into arbitrary non-empty chunks is assembled by
  the client, a request frame is decoded by the server as it was built, and a query answered from the
  coordinator arrives as the coordinator's own answer. The attempt identities of one client do not
  collide.
\<close>

subsection \<open>The client's receive loop\<close>

text \<open>The first frame of what arrives is delivered as soon as it is complete.\<close>

lemma await_first:
  assumes "encodes (fa_limits a) g e" "fa_buffer a @ concat chunks = e @ rest" "\<not> fa_failed a" "[] \<notin> set chunks"
    and "length (e @ rest) \<le> unat (max_frame_assembly_bytes (fa_limits a))"
  shows "await_frame (map Received chunks @ later) a = Some (Inr g)"
  using assms
proof (induction chunks arbitrary: a)
  case Nil
  then have "assembler_pop a = (Ok, Some g, a\<lparr>fa_buffer := rest\<rparr>)"
    by (intro pop_encoded [of a g e rest]) simp_all
  then show ?case by (simp add: await_frame.simps [of _ a])
next
  case (Cons c cs)
  show ?case
  proof (cases "length e \<le> length (fa_buffer a)")
    case True
    then have "fa_buffer a = e @ drop (length e) (fa_buffer a)"
      using Cons.prems(2) by (metis append_eq_append_conv_if append_take_drop_id)
    then have "assembler_pop a = (Ok, Some g, a\<lparr>fa_buffer := drop (length e) (fa_buffer a)\<rparr>)"
      using Cons.prems(1,3) by (intro pop_encoded)
    then show ?thesis by (simp add: await_frame.simps [of _ a])
  next
    case False
    then have e: "e = fa_buffer a @ drop (length (fa_buffer a)) e"
      using Cons.prems(2) by (metis append_eq_append_conv_if append_take_drop_id nat_le_linear)
    have "drop (length (fa_buffer a)) e \<noteq> []" using False by simp
    then have pop: "assembler_pop a = (Ok, None, a)"
      using Cons.prems(1,3) e by (intro pop_partial [of a g "drop (length (fa_buffer a)) e"]) simp_all
    have "length (fa_buffer a) + length c \<le> length (fa_buffer a @ concat (c # cs))" by simp
    also have "\<dots> = length (e @ rest)" by (simp only: Cons.prems(2))
    finally have push: "assembler_push c a = (Ok, extended a c)"
      using Cons.prems(3,5) by (simp add: assembler_push_def extended_def)
    have "await_frame (map Received cs @ later) (extended a c) = Some (Inr g)"
      by (rule Cons.IH) (use Cons.prems in simp_all)
    moreover have "c \<noteq> []" using Cons.prems(4) by auto
    ultimately show ?thesis using pop push by (simp add: await_frame.simps [of _ a])
  qed
qed

lemma await_response:
  assumes "encodes (fa_limits a) g (fa_buffer a @ concat chunks)" "\<not> fa_failed a" "[] \<notin> set chunks"
    and "96 + length (fr_payload g) \<le> unat (max_frame_assembly_bytes (fa_limits a))"
  shows "await_frame (map Received chunks @ later) a = Some (Inr g)"
proof (rule await_first [OF assms(1) _ assms(2,3)])
  show "length ((fa_buffer a @ concat chunks) @ []) \<le> unat (max_frame_assembly_bytes (fa_limits a))"
    using encodes_header(5) [OF assms(1)] assms(4) by simp
qed simp

subsection \<open>Requests and responses as frames\<close>

lemma encode_stamped:
  "encode_frame f l = Inr raw \<Longrightarrow> gen_ok (fh_epoch (fr_header f)) \<Longrightarrow>
   encodes l (f\<lparr>fr_header := stamped f\<rparr>) raw"
  by (auto simp: encodes_def frame_wire_def encode_frame_iff stamped_def)

text \<open>The frame the server sees for a request of the client.\<close>

definition request_seen :: "message_id \<Rightarrow> byte list \<Rightarrow> worker \<Rightarrow> frame" where
  "request_seen message payload w =
     (let w1 = w\<lparr>wk_attempt_counter := wk_attempt_counter w + 1\<rparr>; f = request_frame message payload w1
      in f\<lparr>fr_header := stamped f\<rparr>)"

lemma request_seen_fields [simp]:
  "fr_payload (request_seen message payload w) = payload"
  "fh_message (fr_header (request_seen message payload w)) = message"
  "fh_publisher (fr_header (request_seen message payload w)) = wk_publisher w"
  "fh_worker_boot (fr_header (request_seen message payload w)) = wk_boot w"
  "fh_request (fr_header (request_seen message payload w)) = wk_attempt_counter w + 1"
  by (simp_all add: request_seen_def request_frame_def stamped_def Let_def)

lemma round_trip_sent:
  assumes "round_trip message payload ex w = (r, [raw], w')" "gen_ok (wk_epoch w)"
  shows "decode_frame raw (wk_limits w) = Inr (request_seen message payload w)"
proof -
  have "encode_frame (request_frame message payload (w\<lparr>wk_attempt_counter := wk_attempt_counter w + 1\<rparr>)) (wk_limits w) = Inr raw"
    using assms(1) by (auto simp: round_trip_def Let_def split: if_splits sum.splits)
  from encode_stamped [OF this] assms(2) show ?thesis
    by (simp add: encodes_def decode_frame_exact request_seen_def request_frame_def Let_def)
qed

text \<open>A response that echoes the request identity and is not an error report reaches the decoder.\<close>

lemma round_trip_response:
  assumes "wk_session w \<noteq> 0" "ex_sent ex = Ok" "ex_received ex = map Received chunks" "[] \<notin> set chunks"
    and "encodes (wk_limits w) g (concat chunks)" "fh_request (fr_header g) = wk_attempt_counter w + 1"
    and "fh_message (fr_header g) \<noteq> MI_ErrorReport"
    and "96 + length (fr_payload g) \<le> unat (max_frame_assembly_bytes (wk_limits w))"
    and "message \<noteq> MI_Invalid" "length payload \<le> unat (max_frame_bytes (wk_limits w))"
  shows "\<exists>raw w'. round_trip message payload ex w = (Some (Inr g), [raw], w')"
proof -
  let ?w = "w\<lparr>wk_attempt_counter := wk_attempt_counter w + 1\<rparr>"
  obtain raw where enc: "encode_frame (request_frame message payload ?w) (wk_limits w) = Inr raw"
    using assms(9,10) by (auto simp: encode_frame_iff request_frame_def)
  have "await_frame (map Received chunks) (new_assembler (wk_limits w)) = Some (Inr g)"
    using await_response [of "new_assembler (wk_limits w)" g chunks "[]"] assms by simp
  then show ?thesis
    using assms(1-3,6,7) enc by (simp add: round_trip_def Let_def is_valid_def response_of_def)
qed

lemma decode_whole_parses: "parses p bs x \<Longrightarrow> decode_whole p bs = Some x"
  using parses_whole [of p bs x] by (simp add: decode_whole_def at_end_def at_reader_def)

lemma send_frame_sent:
  assumes "length payload \<le> unat (max_frame_bytes (sv_limits s))" "message \<noteq> MI_Invalid" "gen_ok (server_epoch s)"
  shows "\<exists>raw g. send_frame env message st req payload s = (en_sent env, [raw]) \<and> encodes (sv_limits s) g raw \<and>
    fr_payload g = payload \<and> fh_message (fr_header g) = message \<and> fh_request (fr_header g) = fh_request req"
proof -
  let ?h = "default_frame_header\<lparr> fh_message := message, fh_epoch := server_epoch s, fh_publisher := se_publisher st,
      fh_worker_boot := se_boot st, fh_attempt := fh_attempt req, fh_request := fh_request req,
      fh_scopes := se_scopes st \<rparr>"
  let ?f = "\<lparr> fr_header = ?h, fr_payload = payload \<rparr>"
  obtain raw where enc: "encode_frame ?f (sv_limits s) = Inr raw"
    using assms(1,2) by (auto simp: encode_frame_iff)
  have "encodes (sv_limits s) (?f\<lparr>fr_header := stamped ?f\<rparr>) raw"
    using encode_stamped [OF enc] assms(3) by simp
  then show ?thesis
    using enc by (intro exI [of _ raw] exI [of _ "?f\<lparr>fr_header := stamped ?f\<rparr>"]) (simp add: send_frame_def Let_def stamped_def)
qed

subsection \<open>Queries end to end\<close>

lemma decode_query_whole: "i \<noteq> 0 \<Longrightarrow> decode_whole decode_query (put_u64 i) = Some i"
proof -
  assume i: "i \<noteq> 0"
  have "parses decode_query (put_u64 i) i"
    unfolding decode_query_def by (rule parses_bind_Nil [OF parses_u64]) (simp add: i)
  then show ?thesis by (rule decode_whole_parses)
qed

text \<open>The server answers a query with one frame, which carries the report.\<close>

lemma query_answer:
  assumes "se_registered st" "identity_matches st (fr_header f)" "fr_payload f = put_u64 i" "i \<noteq> 0"
    and "(fh_message (fr_header f), message, report) \<in>
      {(MI_QueryDefinitions, MI_DefinitionsReport, definitions_answer), (MI_QueryResults, MI_ResultsReport, results_answer),
       (MI_QueryCurrentness, MI_CurrentnessReport, currentness_answer)}"
    and "length (report (sv_coordinator s) i) \<le> unat (max_frame_bytes (sv_limits s))" "gen_ok (server_epoch s)"
  shows "\<exists>raw g. hn_sent (handle_frame env st f s) = [raw] \<and> hn_server (handle_frame env st f s) = s \<and>
    encodes (sv_limits s) g raw \<and> fr_payload g = report (sv_coordinator s) i \<and> fh_message (fr_header g) = message \<and>
    fh_request (fr_header g) = fh_request (fr_header f)"
proof -
  obtain raw g where g: "send_frame env message st (fr_header f) (report (sv_coordinator s) i) s = (en_sent env, [raw])"
    "encodes (sv_limits s) g raw" "fr_payload g = report (sv_coordinator s) i" "fh_message (fr_header g) = message"
    "fh_request (fr_header g) = fh_request (fr_header f)"
    using send_frame_sent [OF assms(6) _ assms(7), of message env st "fr_header f"] assms(5) by auto
  have "handle_frame env st f s = answered st s [raw]"
    using assms(1-5) g(1) decode_query_whole [OF assms(4)]
    by (auto simp: handle_frame_def handle_registered_def handle_query_def)
  then show ?thesis using g(2-5) by auto
qed

text \<open>A request that arrives in pieces is handled once, when the last piece has arrived.\<close>

lemma serve_request:
  assumes "encodes (fa_limits (cn_assembler cn)) g (fa_buffer (cn_assembler cn) @ concat chunks)"
    and "\<not> fa_failed (cn_assembler cn)" "[] \<notin> set chunks" "chunks \<noteq> []" "cn_running cn"
    and "96 + length (fr_payload g) \<le> unat (max_frame_assembly_bytes (fa_limits (cn_assembler cn)))"
    and "h = handle_frame (envs (sv_frames_handled s)) (cn_state cn) g (s\<lparr>sv_frames_handled := sv_frames_handled s + 1\<rparr>)"
  shows "serve_run envs chunks cn s = (hn_sent h, cn\<lparr>cn_assembler := (cn_assembler cn)\<lparr>fa_buffer := []\<rparr>,
    cn_state := hn_state h, cn_running := hn_running h\<rparr>, hn_server h)"
  using assms
proof (induction chunks arbitrary: cn)
  case (Cons c cs)
  let ?a = "cn_assembler cn"
  have "length (fa_buffer ?a) + length c \<le> length (fa_buffer ?a @ concat (c # cs))" by simp
  also have "\<dots> = 96 + length (fr_payload g)" by (rule encodes_header(5) [OF Cons.prems(1)])
  finally have push: "assembler_push c ?a = (Ok, extended ?a c)"
    using Cons.prems(2,6) by (simp add: assembler_push_def extended_def)
  show ?case
  proof (cases "cs = []")
    case True
    have pop: "assembler_pop (extended ?a c) = (Ok, Some g, (extended ?a c)\<lparr>fa_buffer := []\<rparr>)"
      by (rule pop_encoded [of _ _ "fa_buffer ?a @ c"]) (use Cons.prems True in simp_all)
    have idle: "assembler_pop ((extended ?a c)\<lparr>fa_buffer := []\<rparr>) = (Ok, None, (extended ?a c)\<lparr>fa_buffer := []\<rparr>)"
      using Cons.prems(2) by (simp add: assembler_pop_eq)
    have ext: "(extended ?a c)\<lparr>fa_buffer := []\<rparr> = ?a\<lparr>fa_buffer := []\<rparr>" by (simp add: extended_def)
    have "serve_chunk envs c cn s = (hn_sent h, cn\<lparr>cn_assembler := ?a\<lparr>fa_buffer := []\<rparr>,
        cn_state := hn_state h, cn_running := hn_running h\<rparr>, hn_server h)"
      using push pop idle Cons.prems(7)
      by (auto simp: serve_chunk_def serve_frames.simps [of envs "cn\<lparr>cn_assembler := extended ?a c\<rparr>"] Let_def ext
          serve_frames.simps [of _ "_\<lparr>cn_assembler := ?a\<lparr>fa_buffer := []\<rparr>, cn_state := _, cn_running := _\<rparr>"])
    then show ?thesis using True by (auto split: prod.split)
  next
    case False
    then have rest: "concat cs \<noteq> []" using Cons.prems(3) by (cases cs) auto
    have "assembler_pop (extended ?a c) = (Ok, None, extended ?a c)"
      by (rule pop_partial [of _ g "concat cs"]) (use Cons.prems rest in simp_all)
    then have chunk: "serve_chunk envs c cn s = ([], cn\<lparr>cn_assembler := extended ?a c\<rparr>, s)"
      using push by (simp add: serve_chunk_def serve_frames.simps [of envs "cn\<lparr>cn_assembler := extended ?a c\<rparr>"])
    have "serve_run envs cs (cn\<lparr>cn_assembler := extended ?a c\<rparr>) s =
        (hn_sent h, (cn\<lparr>cn_assembler := extended ?a c\<rparr>)\<lparr>cn_assembler := (extended ?a c)\<lparr>fa_buffer := []\<rparr>,
          cn_state := hn_state h, cn_running := hn_running h\<rparr>, hn_server h)"
      using Cons.IH [of "cn\<lparr>cn_assembler := extended ?a c\<rparr>"] Cons.prems False by simp
    then show ?thesis using chunk Cons.prems(5) by (simp add: extended_def)
  qed
qed simp

text \<open>A client and a connection of the server that belong together: the limits agree, the connection is
  idle and its session is the registered one of the client.\<close>

definition in_session :: "worker \<Rightarrow> connection \<Rightarrow> server \<Rightarrow> bool" where
  "in_session w cn s \<longleftrightarrow> wk_limits w = sv_limits s \<and> wk_session w \<noteq> 0 \<and> gen_ok (wk_epoch w) \<and> gen_ok (server_epoch s) \<and>
     cn_running cn \<and> cn_assembler cn = new_assembler (sv_limits s) \<and> se_registered (cn_state cn) \<and>
     se_publisher (cn_state cn) = wk_publisher w \<and> se_boot (cn_state cn) = wk_boot w"

text \<open>A payload that fits a frame and an assembly buffer.\<close>

definition payload_fits :: "nat \<Rightarrow> limits \<Rightarrow> bool" where
  "payload_fits n l \<longleftrightarrow> n \<le> unat (max_frame_bytes l) \<and> 96 + n \<le> unat (max_frame_assembly_bytes l)"

lemma request_bytes:
  assumes "in_session w cn s" "payload_fits (length payload) (sv_limits s)" "message \<noteq> MI_Invalid"
    and "round_trip message payload (ex :: exchange) w = (r, sent, w')"
  obtains raw where "sent = [raw]" "encodes (sv_limits s) (request_seen message payload w) raw"
proof -
  let ?w = "w\<lparr>wk_attempt_counter := wk_attempt_counter w + 1\<rparr>"
  obtain raw where enc: "encode_frame (request_frame message payload ?w) (wk_limits w) = Inr raw"
    using assms(1-3) by (auto simp: encode_frame_iff request_frame_def in_session_def payload_fits_def)
  have "sent = [raw]"
    using assms(1,4) enc by (auto simp: round_trip_def Let_def in_session_def is_valid_def)
  moreover have "encodes (sv_limits s) (request_seen message payload w) raw"
    using encode_stamped [OF enc] assms(1) by (simp add: request_seen_def request_frame_def Let_def in_session_def)
  ultimately show thesis by (rule that)
qed

text \<open>A request that the server answers with one frame, however both directions are cut into pieces: the
  client receives that frame, and the server is left as the handler left it.\<close>

lemma request_served:
  assumes "in_session w cn s" "payload_fits (length payload) (sv_limits s)" "message \<noteq> MI_Invalid"
    and "round_trip message payload \<lparr>ex_sent = Ok, ex_received = map Received down\<rparr> w = (r, sent, w')"
    and "concat up = concat sent" "[] \<notin> set up"
    and "serve_run envs up cn s = (out, cn', s')" "concat down = concat out" "[] \<notin> set down"
    and "h = handle_frame (envs (sv_frames_handled s)) (cn_state cn) (request_seen message payload w)
      (s\<lparr>sv_frames_handled := sv_frames_handled s + 1\<rparr>)"
    and "hn_sent h = [raw]" "encodes (sv_limits s) g raw" "fh_message (fr_header g) \<noteq> MI_ErrorReport"
    and "fh_request (fr_header g) = wk_attempt_counter w + 1" "payload_fits (length (fr_payload g)) (sv_limits s)"
  shows "r = Some (Inr g) \<and> s' = hn_server h"
proof -
  note w = assms(1) [unfolded in_session_def]
  obtain bytes where bytes: "sent = [bytes]" "encodes (sv_limits s) (request_seen message payload w) bytes"
    by (rule request_bytes [OF assms(1-4)])
  have up: "concat up = bytes" "up \<noteq> []"
    using assms(5) bytes encodes_header(5) [OF bytes(2)] by auto
  have "serve_run envs up cn s = (hn_sent h, cn\<lparr>cn_assembler := (cn_assembler cn)\<lparr>fa_buffer := []\<rparr>,
    cn_state := hn_state h, cn_running := hn_running h\<rparr>, hn_server h)"
    by (rule serve_request [where g = "request_seen message payload w" and envs = envs and s = s and cn = cn,
          OF _ _ assms(6) up(2) _ _ assms(10)])
      (use w bytes(2) up(1) assms(2) in \<open>simp_all add: payload_fits_def\<close>)
  then have out: "out = [raw]" "s' = hn_server h" using assms(7,11) by auto
  have "\<exists>b w'. round_trip message payload \<lparr>ex_sent = Ok, ex_received = map Received down\<rparr> w = (Some (Inr g), [b], w')"
    by (rule round_trip_response [of _ _ down])
      (use w assms(2,3,8,9,12-15) out in \<open>simp_all add: payload_fits_def\<close>)
  then show ?thesis using assms(4) out(2) by auto
qed

text \<open>A query leaves the coordinator alone and carries its answer back.\<close>

lemma query_served:
  assumes "in_session w cn s" "payload_fits 8 (sv_limits s)" "i \<noteq> 0"
    and "(message, reply, report) \<in>
      {(MI_QueryDefinitions, MI_DefinitionsReport, definitions_answer), (MI_QueryResults, MI_ResultsReport, results_answer),
       (MI_QueryCurrentness, MI_CurrentnessReport, currentness_answer)}"
    and "payload_fits (length (report (sv_coordinator s) i)) (sv_limits s)"
    and "round_trip message (put_u64 i) \<lparr>ex_sent = Ok, ex_received = map Received down\<rparr> w = (r, sent, w')"
    and "concat up = concat sent" "[] \<notin> set up"
    and "serve_run envs up cn s = (out, cn', s')" "concat down = concat out" "[] \<notin> set down"
  shows "\<exists>g. r = Some (Inr g) \<and> fr_payload g = report (sv_coordinator s) i \<and> sv_coordinator s' = sv_coordinator s"
proof -
  let ?s1 = "s\<lparr>sv_frames_handled := sv_frames_handled s + 1\<rparr>"
  let ?q = "request_seen message (put_u64 i) w"
  let ?h = "handle_frame (envs (sv_frames_handled s)) (cn_state cn) ?q ?s1"
  have "\<exists>raw g. hn_sent ?h = [raw] \<and> hn_server ?h = ?s1 \<and> encodes (sv_limits ?s1) g raw \<and>
      fr_payload g = report (sv_coordinator ?s1) i \<and> fh_message (fr_header g) = reply \<and>
      fh_request (fr_header g) = fh_request (fr_header ?q)"
    by (rule query_answer [where message = reply])
      (use assms(1,3-5) in \<open>simp_all add: in_session_def identity_matches_def payload_fits_def server_epoch_def\<close>)
  then obtain raw g where g: "hn_sent ?h = [raw]" "hn_server ?h = ?s1" "encodes (sv_limits s) g raw"
    "fr_payload g = report (sv_coordinator s) i" "fh_message (fr_header g) = reply"
    "fh_request (fr_header g) = wk_attempt_counter w + 1"
    by auto
  have "r = Some (Inr g) \<and> s' = hn_server ?h"
    by (rule request_served [OF assms(1) _ _ assms(6-11) refl g(1,3)]) (use assms(2,4,5) g(4-6) in auto)
  then show ?thesis using g(2,4) by auto
qed

subsection \<open>The handshake\<close>

text \<open>The context of the registration that the server runs for a first frame of the client.\<close>

definition hello_context :: "worker_config \<Rightarrow> worker_boot_id \<Rightarrow> server \<Rightarrow> authority_context" where
  "hello_context config boot s = \<lparr> ac_epoch = server_epoch s, ac_publisher = wc_publisher config, ac_worker_boot = boot,
     ac_attempt = 1, ac_request = 1, ac_session = sv_next_session s + 1, ac_scopes = 0 \<rparr>"

definition hello_seen :: "worker_config \<Rightarrow> worker_boot_id \<Rightarrow> frame" where
  "hello_seen config boot = (hello_frame config boot)\<lparr>fr_header := stamped (hello_frame config boot)\<rparr>"

lemma hello_seen_fields [simp]:
  "fr_payload (hello_seen config boot) = encode_hello (hello_of config boot)"
  "fh_message (fr_header (hello_seen config boot)) = MI_Hello"
  "fh_attempt (fr_header (hello_seen config boot)) = 1" "fh_request (fr_header (hello_seen config boot)) = 1"
  by (simp_all add: hello_seen_def hello_frame_def stamped_def)

lemma hello_encodes:
  "encode_frame (hello_frame config boot) l = Inr raw \<Longrightarrow> encodes l (hello_seen config boot) raw"
  using encode_stamped [of "hello_frame config boot" l raw]
  by (simp add: hello_seen_def hello_frame_def gen_ok_def)

text \<open>The server answers the first frame with an acknowledgement that reports the outcome of the
  registration; a refusal is followed by an error report.\<close>

lemma length_encode_hello_ack [simp]: "length (encode_hello_ack a) = 24"
  by (simp add: encode_hello_ack_def)

lemma hello_answer:
  assumes "hello_wire (sv_limits s) (hello_of config boot)" "24 \<le> unat (max_frame_bytes (sv_limits s))" "gen_ok (server_epoch s)"
    and "coordinator_register_publisher (en_now1 env) (en_io env) (hello_context config boot s) (wc_publisher config) boot
      (wc_requested_scopes config) (sv_next_session s + 1) (sv_coordinator s) = (reg, c)"
    and "h = handle_frame env st (hello_seen config boot) s"
  shows "hn_server h = s\<lparr>sv_next_session := sv_next_session s + 1, sv_coordinator := c\<rparr> \<and> hn_running h \<and>
    hn_state h = (case reg of Inl _ \<Rightarrow> st | Inr r \<Rightarrow> \<lparr> se_session = sv_next_session s + 1, se_publisher = wc_publisher config,
      se_boot = boot, se_scopes = pr_scopes r, se_registered = True \<rparr>) \<and>
    (\<exists>raw rest g. hn_sent h = raw # rest \<and> (rest = [] \<or> (\<exists>e. reg = Inl e)) \<and> encodes (sv_limits s) g raw \<and>
      fh_message (fr_header g) = MI_HelloAck \<and> fr_payload g = encode_hello_ack \<lparr> ha_epoch = server_epoch s, ha_session = sv_next_session s + 1,
        ha_granted_scopes = (case reg of Inl _ \<Rightarrow> 0 | Inr r \<Rightarrow> pr_scopes r), ha_protocol_version = kProtocolVersionValue,
        ha_accepted = (case reg of Inl _ \<Rightarrow> False | Inr r \<Rightarrow> True) \<rparr>)"
proof -
  let ?s1 = "s\<lparr>sv_next_session := sv_next_session s + 1\<rparr>"
  let ?s2 = "s\<lparr>sv_next_session := sv_next_session s + 1, sv_coordinator := c\<rparr>"
  let ?f = "hello_seen config boot"
  have dec: "decode_whole (decode_hello (sv_limits s)) (encode_hello (hello_of config boot)) = Some (hello_of config boot)"
    by (rule decode_whole_parses) (rule parses_hello [OF assms(1)])
  have e1: "server_epoch ?s1 = server_epoch s" by (simp add: server_epoch_def)
  have "epoch_of c = server_epoch s"
    using epoch_step [OF coordinator_step.register [OF assms(4)]] by (simp add: server_epoch_def)
  then have e2: "server_epoch ?s2 = server_epoch s" by (simp add: server_epoch_def)
  have sent: "\<exists>raw g. send_frame env MI_HelloAck se (fr_header ?f) (encode_hello_ack a) ?s2 = (en_sent env, [raw]) \<and>
      encodes (sv_limits s) g raw \<and> fr_payload g = encode_hello_ack a \<and> fh_message (fr_header g) = MI_HelloAck" for se a
    using send_frame_sent [of "encode_hello_ack a" ?s2 MI_HelloAck env se "fr_header ?f"] assms(2,3) e2 by auto
  have h: "h = handle_hello env st ?f s" using assms(5) by (simp add: handle_frame_def)
  note reg = assms(4) [unfolded hello_context_def]
  show ?thesis
  proof (cases reg)
    case (Inl e)
    let ?a = "\<lparr> ha_epoch = server_epoch s, ha_session = sv_next_session s + 1, ha_granted_scopes = 0,
      ha_protocol_version = kProtocolVersionValue, ha_accepted = False \<rparr>"
    obtain raw g where r: "send_frame env MI_HelloAck st (fr_header ?f) (encode_hello_ack ?a) ?s2 = (en_sent env, [raw])"
      "encodes (sv_limits s) g raw" "fr_payload g = encode_hello_ack ?a" "fh_message (fr_header g) = MI_HelloAck"
      using sent [of st ?a] by blast
    have hn: "h = refused st ?s2 (raw # send_error env st (fr_header ?f) e
        (if reason_class_of RC_UnknownPublisher = RK_CallerIdentity then RC_UnknownPublisher else RC_ScopeNotAuthorized) (en_detail env) ?s2)"
      using reg Inl dec r(1) by (simp add: h handle_hello_def Let_def hello_of_def e1 e2 is_valid_def)
    show ?thesis unfolding hn using r Inl by auto
  next
    case (Inr p)
    let ?a = "\<lparr> ha_epoch = server_epoch s, ha_session = sv_next_session s + 1, ha_granted_scopes = pr_scopes p,
      ha_protocol_version = kProtocolVersionValue, ha_accepted = True \<rparr>"
    let ?st = "\<lparr> se_session = sv_next_session s + 1, se_publisher = wc_publisher config, se_boot = boot,
      se_scopes = pr_scopes p, se_registered = True \<rparr>"
    obtain raw g where r: "send_frame env MI_HelloAck ?st (fr_header ?f) (encode_hello_ack ?a) ?s2 = (en_sent env, [raw])"
      "encodes (sv_limits s) g raw" "fr_payload g = encode_hello_ack ?a" "fh_message (fr_header g) = MI_HelloAck"
      using sent [of ?st ?a] by blast
    have hn: "h = (answered ?st ?s2 [raw])\<lparr>hn_continue := (en_sent env = Ok)\<rparr>"
      using reg Inr dec r(1) by (simp add: h handle_hello_def Let_def hello_of_def e1 e2 is_valid_def)
    show ?thesis unfolding hn using r Inr by auto
  qed
qed

subsection \<open>Evaluations\<close>

text \<open>An evaluation request that the coordinator runs is answered with its batch.\<close>

lemma evaluate_answer:
  assumes "se_registered st" "identity_matches st (fr_header f)" "fh_message (fr_header f) = MI_EvaluateCandidates"
    and "fr_payload f = encode_evaluate_request q" "request_wire (sv_limits s) q"
    and "coordinator_evaluate (en_now1 env) (en_now2 env) (en_io env) (context_for st (fr_header f) s) (rq_set_id q)
      (rq_candidates q) (rq_expected_generation q) (sv_coordinator s) = (Inr out, c)"
    and "length (encode_evaluate_response \<lparr> rs_batch = oc_batch out \<rparr>) \<le> unat (max_frame_bytes (sv_limits s))"
    and "gen_ok (server_epoch s)"
  shows "\<exists>raw g. hn_sent (handle_frame env st f s) = [raw] \<and>
    hn_server (handle_frame env st f s) = s\<lparr>sv_coordinator := c\<rparr> \<and> encodes (sv_limits s) g raw \<and>
    fr_payload g = encode_evaluate_response \<lparr> rs_batch = oc_batch out \<rparr> \<and>
    fh_message (fr_header g) = MI_EvaluateCandidatesAck \<and> fh_request (fr_header g) = fh_request (fr_header f)"
proof -
  let ?s1 = "s\<lparr>sv_coordinator := c\<rparr>"
  have "epoch_of c = server_epoch s"
    using epoch_steps [OF evaluate_steps [OF assms(6), of "[]"]] by (simp add: server_epoch_def)
  then have "gen_ok (server_epoch ?s1)" using assms(8) by (simp add: server_epoch_def)
  then obtain raw g where g: "send_frame env MI_EvaluateCandidatesAck st (fr_header f)
      (encode_evaluate_response \<lparr> rs_batch = oc_batch out \<rparr>) ?s1 = (en_sent env, [raw])"
    "encodes (sv_limits s) g raw" "fr_payload g = encode_evaluate_response \<lparr> rs_batch = oc_batch out \<rparr>"
    "fh_message (fr_header g) = MI_EvaluateCandidatesAck" "fh_request (fr_header g) = fh_request (fr_header f)"
    using send_frame_sent [of "encode_evaluate_response \<lparr> rs_batch = oc_batch out \<rparr>" ?s1 MI_EvaluateCandidatesAck env st "fr_header f"]
      assms(7) by auto
  have dec: "decode_whole (decode_evaluate_request (sv_limits s)) (fr_payload f) = Some q"
    unfolding assms(4) by (rule decode_whole_parses) (rule parses_evaluate_request [OF assms(5)])
  have "handle_frame env st f s = answered st ?s1 [raw]"
    using assms(1-3,6) g(1) dec by (simp add: handle_frame_def handle_registered_def handle_evaluate_def Let_def)
  then show ?thesis using g(2-5) by auto
qed

end
