(* ===== verification/Session_Properties.thy ===== *)
theory Session_Properties
  imports Server_Properties
begin

text \<open>
  Client and server together, over a transport that cuts both directions into arbitrary non-empty
  pieces: the handshake creates the session of both sides exactly when the coordinator registers the
  publisher, and the queries of that session return what the coordinator holds.
\<close>

subsection \<open>The handshake\<close>

text \<open>C16: the handshake. When the first frame of a connecting client reaches the server and the bytes it sends
  back reach the client, the outcome on the client is the outcome of the registration: if the
  coordinator registers the publisher, the client holds the session, epoch and granted scopes of the
  registration and the connection is in session with it; if not, the client fails as unauthorized and
  the connection stays unregistered. Nothing else of the server changes.\<close>

theorem handshake_agrees:
  assumes "validate_limits l" "sv_limits s = l" "gen_ok (server_epoch s)" "sv_next_session s + 1 \<noteq> 0"
    and "boot = (if is_valid (wc_boot config) then wc_boot config else fresh)"
    and "hello_wire l (hello_of config boot)" "payload_fits (length (encode_hello (hello_of config boot))) l" "payload_fits 24 l"
    and "worker_connect config l fresh Ok \<lparr>ex_sent = Ok, ex_received = map Received down\<rparr> = (r, sent)"
    and "concat up = concat sent" "[] \<notin> set up"
    and "serve_run envs up (new_connection l) s = (out, cn, s')"
    and "concat down = concat out" "[] \<notin> set down"
    and "\<And>e. reg = Inl e \<Longrightarrow> length (concat out) \<le> unat (max_frame_assembly_bytes l)"
    and "coordinator_register_publisher (en_now1 (envs (sv_frames_handled s))) (en_io (envs (sv_frames_handled s)))
      (hello_context config boot s) (wc_publisher config) boot (wc_requested_scopes config) (sv_next_session s + 1)
      (sv_coordinator s) = (reg, c)"
  shows "s' = s\<lparr>sv_frames_handled := sv_frames_handled s + 1, sv_next_session := sv_next_session s + 1, sv_coordinator := c\<rparr> \<and>
    (case reg of
       Inl _ \<Rightarrow> r = Some (Inl Unauthorized) \<and> \<not> se_registered (cn_state cn)
     | Inr p \<Rightarrow> (\<exists>w. r = Some (Inr w) \<and> in_session w cn s' \<and> wk_publisher w = wc_publisher config \<and> wk_boot w = boot \<and>
         wk_session w = sv_next_session s + 1 \<and> wk_epoch w = server_epoch s \<and> wk_granted_scopes w = pr_scopes p))"
proof -
  let ?s1 = "s\<lparr>sv_frames_handled := sv_frames_handled s + 1\<rparr>"
  let ?h = "handle_frame (envs (sv_frames_handled s)) new_session (hello_seen config boot) ?s1"
  let ?cn = "new_connection l"
  have cn: "cn_assembler ?cn = new_assembler l" "cn_state ?cn = new_session" "cn_running ?cn"
    by (simp_all add: new_connection_def)
  obtain raw where enc: "encode_frame (hello_frame config boot) l = Inr raw"
    using assms(7) by (auto simp: encode_frame_iff hello_frame_def payload_fits_def)
  have e: "encodes l (hello_seen config boot) raw" using hello_encodes [OF enc] .
  have con: "worker_connect config l fresh Ok \<lparr>ex_sent = Ok, ex_received = map Received down\<rparr> =
      ((case await_frame (map Received down) (new_assembler l) of
          None \<Rightarrow> None | Some (Inl e) \<Rightarrow> Some (Inl e) | Some (Inr response) \<Rightarrow> Some (accept_ack config l boot response)), [raw])"
    using assms(1) enc by (simp add: worker_connect_def Let_def assms(5) [symmetric])
  then have sent: "sent = [raw]" using assms(9) by simp
  have up: "concat up = raw" "up \<noteq> []" using assms(10) sent encodes_header(5) [OF e] by auto
  have run: "serve_run envs up ?cn s = (hn_sent ?h, ?cn\<lparr>cn_assembler := (cn_assembler ?cn)\<lparr>fa_buffer := []\<rparr>,
      cn_state := hn_state ?h, cn_running := hn_running ?h\<rparr>, hn_server ?h)"
    by (rule serve_request [OF _ _ assms(11) up(2)]) (use e up(1) assms(7) cn in \<open>simp_all add: payload_fits_def\<close>)
  have ctx: "hello_context config boot ?s1 = hello_context config boot s" "server_epoch ?s1 = server_epoch s"
    by (simp_all add: hello_context_def server_epoch_def)
  have ans: "hn_server ?h = ?s1\<lparr>sv_next_session := sv_next_session ?s1 + 1, sv_coordinator := c\<rparr> \<and> hn_running ?h \<and>
    hn_state ?h = (case reg of Inl _ \<Rightarrow> new_session | Inr r \<Rightarrow> \<lparr> se_session = sv_next_session ?s1 + 1, se_publisher = wc_publisher config,
      se_boot = boot, se_scopes = pr_scopes r, se_registered = True \<rparr>) \<and>
    (\<exists>raw rest g. hn_sent ?h = raw # rest \<and> (rest = [] \<or> (\<exists>e. reg = Inl e)) \<and> encodes (sv_limits ?s1) g raw \<and>
      fh_message (fr_header g) = MI_HelloAck \<and> fr_payload g = encode_hello_ack \<lparr> ha_epoch = server_epoch ?s1, ha_session = sv_next_session ?s1 + 1,
        ha_granted_scopes = (case reg of Inl _ \<Rightarrow> 0 | Inr r \<Rightarrow> pr_scopes r), ha_protocol_version = kProtocolVersionValue,
        ha_accepted = (case reg of Inl _ \<Rightarrow> False | Inr r \<Rightarrow> True) \<rparr>)"
    by (rule hello_answer [OF _ _ _ _ refl]) (use assms(2,3,6,8,16) ctx in \<open>simp_all add: payload_fits_def\<close>)
  then obtain raw2 rest g where g: "hn_sent ?h = raw2 # rest" "encodes l g raw2" "fh_message (fr_header g) = MI_HelloAck"
    "fr_payload g = encode_hello_ack \<lparr> ha_epoch = server_epoch s, ha_session = sv_next_session s + 1,
        ha_granted_scopes = (case reg of Inl _ \<Rightarrow> 0 | Inr r \<Rightarrow> pr_scopes r), ha_protocol_version = kProtocolVersionValue,
        ha_accepted = (case reg of Inl _ \<Rightarrow> False | Inr r \<Rightarrow> True) \<rparr>"
    and rest: "rest = [] \<or> (\<exists>e. reg = Inl e)"
    using assms(2) ctx(2) by auto
  have out: "out = raw2 # rest" "s' = hn_server ?h" "cn_state cn = hn_state ?h" "cn_running cn"
    "cn_assembler cn = (new_assembler l)\<lparr>fa_buffer := []\<rparr>"
    using assms(12) run g(1) ans cn(1) by auto
  have "length (raw2 @ concat rest) \<le> unat (max_frame_assembly_bytes l)"
  proof (cases "rest = []")
    case True
    then show ?thesis using encodes_header(5) [OF g(2)] g(4) assms(8) by (simp add: payload_fits_def)
  next
    case False
    then show ?thesis using rest assms(15) out(1) by auto
  qed
  then have "await_frame (map Received down @ []) (new_assembler l) = Some (Inr g)"
    by (intro await_first [where e = raw2 and rest = "concat rest"])
      (use g(2) assms(13,14) out(1) in simp_all)
  then have r: "r = Some (accept_ack config l boot g)" using con assms(9) by simp
  have "parses decode_hello_ack (fr_payload g) \<lparr> ha_epoch = server_epoch s, ha_session = sv_next_session s + 1,
        ha_granted_scopes = (case reg of Inl _ \<Rightarrow> 0 | Inr r \<Rightarrow> pr_scopes r), ha_protocol_version = kProtocolVersionValue,
        ha_accepted = (case reg of Inl _ \<Rightarrow> False | Inr r \<Rightarrow> True) \<rparr>"
    unfolding g(4) by (rule parses_hello_ack) (use assms(3) in simp)
  note ack = parses_whole [OF this]
  have server: "s' = s\<lparr>sv_frames_handled := sv_frames_handled s + 1, sv_next_session := sv_next_session s + 1, sv_coordinator := c\<rparr>"
    using ans out(2) by simp
  have "epoch_of c = server_epoch s"
    using epoch_step [OF coordinator_step.register [OF assms(16)]] by (simp add: server_epoch_def)
  then have epoch: "server_epoch s' = server_epoch s" by (simp add: server server_epoch_def)
  show ?thesis
  proof (cases reg)
    case (Inl e)
    then have "r = Some (Inl Unauthorized)" "\<not> se_registered (cn_state cn)"
      using r ack g(3) out(3) ans by (simp_all add: accept_ack_def new_session_def)
    then show ?thesis using server Inl by simp
  next
    case (Inr p)
    let ?w = "\<lparr> wk_limits = l, wk_boot = boot, wk_session = sv_next_session s + 1, wk_epoch = server_epoch s,
            wk_granted_scopes = pr_scopes p, wk_publisher = wc_publisher config, wk_attempt_counter = 0, wk_connected = True \<rparr>"
    have "r = Some (Inr ?w)" using r ack g(3) Inr by (simp add: accept_ack_def)
    moreover have "in_session ?w cn s'"
      using assms(2-4) out(3-5) ans Inr epoch server by (simp add: in_session_def new_assembler_def)
    ultimately show ?thesis using server Inr by simp
  qed
qed

subsection \<open>Queries\<close>

lemma decode_found_results:
  assumes "results_fields_wire l q"
  shows "fst (decode_results_report l (byte_reader_of (encode_results_report (Some q)))) =
    (if ascending (sr_entries q) then Some (Some q) else None)"
proof -
  have body: "fst (rd_bind (decode_results_snapshot l) (\<lambda>x. rd_return (Some x)) (at_reader pre (encode_results_snapshot q))) =
      (if ascending (sr_entries q) then Some (Some q) else None)" for pre
    using decode_results_at [OF assms, of pre "[]"] by (auto simp: rd_bind_def rd_return_def split: prod.splits option.splits if_splits)
  show ?thesis
    unfolding decode_results_report_def encode_results_report_def decode_found_def encode_found_def byte_reader_start
    by (simp add: rd_bind_parses [OF parses_boolean] rd_bind_parses [OF parses_u8] rd_fields rd_guard_def body)
qed

lemma found_report: "report_or_missing (found_of q) = (case q of Inl _ \<Rightarrow> Inl NotFound | Inr x \<Rightarrow> Inr x)"
  by (simp add: report_or_missing_def found_of_def split: sum.split)

text \<open>What a request of the client returns when the response is a frame that its decoder reads.\<close>

lemma request_split:
  assumes "request message payload decode bad k ex w = (r, sent, w')"
  shows "\<exists>q. round_trip message payload ex w = (q, sent, w') \<and> (\<forall>g. q = Some (Inr g) \<longrightarrow>
    r = Some (case fst (decode (byte_reader_of (fr_payload g))) of None \<Rightarrow> Inl bad | Some x \<Rightarrow> k x))"
proof -
  obtain q s1 w1 where q: "round_trip message payload ex w = (q, s1, w1)" by (metis prod.exhaust)
  show ?thesis
    by (rule exI [of _ q]) (use assms q in \<open>auto simp: request_def split: option.splits prod.splits\<close>)
qed

text \<open>C8: a definitions query returns the truth. For a client in session with the server, whatever the pieces
  in which the request and the response travel, the query of a set returns exactly what the coordinator
  answers at that moment: its definitions snapshot, or that the set is not found. The coordinator does
  not change.\<close>

theorem query_definitions_served:
  assumes "in_session w cn s" "payload_fits 8 (sv_limits s)" "i \<noteq> 0"
    and "payload_fits (length (definitions_answer (sv_coordinator s) i)) (sv_limits s)"
    and "\<And>d. coordinator_snapshot_definitions (sv_coordinator s) i = Inr d \<Longrightarrow> definitions_wire (sv_limits s) d"
    and "worker_query_definitions i \<lparr>ex_sent = Ok, ex_received = map Received down\<rparr> w = (r, sent, w')"
    and "concat up = concat sent" "[] \<notin> set up"
    and "serve_run envs up cn s = (out, cn', s')" "concat down = concat out" "[] \<notin> set down"
  shows "r = Some (coordinator_snapshot_definitions (sv_coordinator s) i) \<and> sv_coordinator s' = sv_coordinator s"
proof -
  let ?q = "coordinator_snapshot_definitions (sv_coordinator s) i"
  obtain q where q: "round_trip MI_QueryDefinitions (put_u64 i) \<lparr>ex_sent = Ok, ex_received = map Received down\<rparr> w = (q, sent, w')"
    "\<And>g. q = Some (Inr g) \<Longrightarrow> r = Some (case fst (decode_definitions_report (wk_limits w) (byte_reader_of (fr_payload g))) of
       None \<Rightarrow> Inl NotFound | Some x \<Rightarrow> report_or_missing x)"
    using request_split [OF assms(6) [unfolded worker_query_definitions_def]] by blast
  have "\<exists>g. q = Some (Inr g) \<and> fr_payload g = definitions_answer (sv_coordinator s) i \<and> sv_coordinator s' = sv_coordinator s"
    by (rule query_served [where report = definitions_answer and reply = MI_DefinitionsReport, OF assms(1-3) _ assms(4) q(1) assms(7-11)]) simp
  then obtain g where g: "q = Some (Inr g)" "fr_payload g = encode_definitions_report (found_of ?q)"
    "sv_coordinator s' = sv_coordinator s" by (auto simp: definitions_answer_def)
  have "parses (decode_definitions_report (sv_limits s)) (encode_definitions_report (found_of ?q)) (found_of ?q)"
    by (rule parses_reports(1)) (use assms(5) in \<open>auto simp: found_of_def split: sum.splits\<close>)
  from parses_whole [OF this] have "r = Some (report_or_missing (found_of ?q))"
    using q(2) [OF g(1)] assms(1) by (simp add: g(2) in_session_def)
  then show ?thesis
    using g(3) by (auto simp: found_report coordinator_snapshot_definitions_def split: option.split)
qed

text \<open>C31: a results query returns the results snapshot of the set exactly when the records the coordinator
  retains for the set have distinct paths. When two of them have the same path the client reports the
  set as not found, although the coordinator has its results.\<close>

theorem query_results_served:
  assumes "in_session w cn s" "payload_fits 8 (sv_limits s)" "i \<noteq> 0"
    and "payload_fits (length (results_answer (sv_coordinator s) i)) (sv_limits s)"
    and "coordinator_snapshot_results (sv_coordinator s) i = Inr q" "results_fields_wire (sv_limits s) q"
    and "worker_query_results i \<lparr>ex_sent = Ok, ex_received = map Received down\<rparr> w = (r, sent, w')"
    and "concat up = concat sent" "[] \<notin> set up"
    and "serve_run envs up cn s = (out, cn', s')" "concat down = concat out" "[] \<notin> set down"
  shows "r = Some (if distinct (map ev_path (filter (\<lambda>x. ev_set_id x = i) (co_evaluations (sv_coordinator s))))
    then Inr q else Inl NotFound) \<and> sv_coordinator s' = sv_coordinator s"
proof -
  let ?vs = "map view_of (filter (\<lambda>x. ev_set_id x = i) (co_evaluations (sv_coordinator s)))"
  obtain n e where "q = snapshot_results i n e ?vs"
    using assms(5) by (auto simp: coordinator_snapshot_results_def split: option.splits)
  then have "ascending (sr_entries q) \<longleftrightarrow> distinct (map vw_path ?vs)" by (simp add: ascending_snapshot)
  then have asc: "ascending (sr_entries q) \<longleftrightarrow>
      distinct (map ev_path (filter (\<lambda>x. ev_set_id x = i) (co_evaluations (sv_coordinator s))))"
    by (simp add: comp_def view_of_def)
  obtain t where t: "round_trip MI_QueryResults (put_u64 i) \<lparr>ex_sent = Ok, ex_received = map Received down\<rparr> w = (t, sent, w')"
    "\<And>g. t = Some (Inr g) \<Longrightarrow> r = Some (case fst (decode_results_report (wk_limits w) (byte_reader_of (fr_payload g))) of
       None \<Rightarrow> Inl NotFound | Some x \<Rightarrow> report_or_missing x)"
    using request_split [OF assms(7) [unfolded worker_query_results_def]] by blast
  have "\<exists>g. t = Some (Inr g) \<and> fr_payload g = results_answer (sv_coordinator s) i \<and> sv_coordinator s' = sv_coordinator s"
    by (rule query_served [where report = results_answer and reply = MI_ResultsReport, OF assms(1-3) _ assms(4) t(1) assms(8-12)]) simp
  then obtain g where g: "t = Some (Inr g)" "fr_payload g = encode_results_report (Some q)"
    "sv_coordinator s' = sv_coordinator s" using assms(5) by (auto simp: results_answer_def found_of_def)
  have "fst (decode_results_report (sv_limits s) (byte_reader_of (encode_results_report (Some q)))) =
      (if ascending (sr_entries q) then Some (Some q) else None)"
    by (rule decode_found_results [OF assms(6)])
  then show ?thesis
    using t(2) [OF g(1)] assms(1) g asc by (auto simp: in_session_def report_or_missing_def)
qed

subsection \<open>Evaluations\<close>

text \<open>The authority context the server builds for the next request of a client on a connection.\<close>

definition request_context :: "worker \<Rightarrow> connection \<Rightarrow> server \<Rightarrow> authority_context" where
  "request_context w cn s = \<lparr> ac_epoch = server_epoch s, ac_publisher = se_publisher (cn_state cn),
     ac_worker_boot = se_boot (cn_state cn), ac_attempt = attempt_for (wk_boot w) (wk_attempt_counter w + 1),
     ac_request = wk_attempt_counter w + 1, ac_session = se_session (cn_state cn), ac_scopes = se_scopes (cn_state cn) \<rparr>"

lemma request_seen_attempt:
  "fh_attempt (fr_header (request_seen message payload w)) = attempt_for (wk_boot w) (wk_attempt_counter w + 1)"
  by (simp add: request_seen_def request_frame_def stamped_def Let_def)

text \<open>C9: an evaluation over the wire. For a client in session, whatever the pieces in which request and
  response travel, an evaluation that the coordinator runs returns the batch of the coordinator to the
  client and leaves the coordinator as the evaluation left it. The outcome of the commit does not reach
  the client: it always reads \<open>committed\<close>.\<close>

theorem evaluation_served:
  assumes "in_session w cn s"
    and "q = \<lparr> rq_set_id = i, rq_expected_generation = 0, rq_candidates = cands \<rparr>" "request_wire (sv_limits s) q"
    and "payload_fits (length (encode_evaluate_request q)) (sv_limits s)"
    and "coordinator_evaluate (en_now1 (envs (sv_frames_handled s))) (en_now2 (envs (sv_frames_handled s)))
      (en_io (envs (sv_frames_handled s))) (request_context w cn s) i cands 0 (sv_coordinator s) = (Inr out, c)"
    and "batch_wire (sv_limits s) (oc_batch out)"
    and "payload_fits (length (encode_evaluate_response \<lparr> rs_batch = oc_batch out \<rparr>)) (sv_limits s)"
    and "worker_evaluate i cands \<lparr>ex_sent = Ok, ex_received = map Received down\<rparr> w = (r, sent, w')"
    and "concat up = concat sent" "[] \<notin> set up"
    and "serve_run envs up cn s = (sent_back, cn', s')" "concat down = concat sent_back" "[] \<notin> set down"
  shows "r = Some (Inr \<lparr> oc_batch = oc_batch out, oc_committed = True, oc_rejection_reason = RC_None,
      oc_mask_at_snapshot = 0, oc_mask_at_commit = 0 \<rparr>) \<and> sv_coordinator s' = c"
proof -
  let ?s1 = "s\<lparr>sv_frames_handled := sv_frames_handled s + 1\<rparr>"
  let ?f = "request_seen MI_EvaluateCandidates (encode_evaluate_request q) w"
  let ?h = "handle_frame (envs (sv_frames_handled s)) (cn_state cn) ?f ?s1"
  note w = assms(1) [unfolded in_session_def]
  have q: "rq_set_id q = i" "rq_candidates q = cands" "rq_expected_generation q = 0" by (simp_all add: assms(2))
  have ctx: "context_for (cn_state cn) (fr_header ?f) ?s1 = request_context w cn s"
    by (simp add: context_for_def request_context_def server_epoch_def request_seen_attempt)
  obtain t where t: "round_trip MI_EvaluateCandidates (encode_evaluate_request q) \<lparr>ex_sent = Ok, ex_received = map Received down\<rparr> w = (t, sent, w')"
    "\<And>g. t = Some (Inr g) \<Longrightarrow> r = Some (case fst (decode_evaluate_response (wk_limits w) (byte_reader_of (fr_payload g))) of
       None \<Rightarrow> Inl Malformed | Some x \<Rightarrow> Inr \<lparr> oc_batch = rs_batch x, oc_committed = True, oc_rejection_reason = RC_None,
          oc_mask_at_snapshot = 0, oc_mask_at_commit = 0 \<rparr>)"
    using request_split [OF assms(8) [unfolded worker_evaluate_def]] unfolding assms(2) by blast
  have "\<exists>raw g. hn_sent ?h = [raw] \<and> hn_server ?h = ?s1\<lparr>sv_coordinator := c\<rparr> \<and> encodes (sv_limits ?s1) g raw \<and>
    fr_payload g = encode_evaluate_response \<lparr> rs_batch = oc_batch out \<rparr> \<and>
    fh_message (fr_header g) = MI_EvaluateCandidatesAck \<and> fh_request (fr_header g) = fh_request (fr_header ?f)"
    by (rule evaluate_answer [where q = q])
      (use w assms(3,5,7) q ctx in \<open>simp_all add: identity_matches_def payload_fits_def server_epoch_def\<close>)
  then obtain raw g where g: "hn_sent ?h = [raw]" "hn_server ?h = ?s1\<lparr>sv_coordinator := c\<rparr>" "encodes (sv_limits s) g raw"
    "fr_payload g = encode_evaluate_response \<lparr> rs_batch = oc_batch out \<rparr>"
    "fh_message (fr_header g) = MI_EvaluateCandidatesAck" "fh_request (fr_header g) = wk_attempt_counter w + 1"
    by auto
  have served: "t = Some (Inr g) \<and> s' = hn_server ?h"
    by (rule request_served [OF assms(1) assms(4) _ t(1) assms(9-13) refl g(1,3)]) (use assms(7) g(4-6) in auto)
  have "parses (decode_evaluate_response (sv_limits s)) (fr_payload g) \<lparr> rs_batch = oc_batch out \<rparr>"
    unfolding g(4) by (rule parses_evaluate_response) (simp add: assms(6))
  from parses_whole [OF this] show ?thesis
    using t(2) [of g] served g(2) w by simp
qed

subsection \<open>Lost connections\<close>

lemma session_loss_fences:
  assumes "authority_wf (co_authority c)" "boot_of_session (co_authority c) se = Some b" "b \<noteq> 0"
    and "length (au_fenced (co_authority c)) < unat (max_fenced_boots (co_limits c))"
  shows "is_boot_fenced (co_authority (snd (fence_on_session_loss now io se c))) b"
proof -
  have f: "fst (fence_boot b at now l a) = Ok \<and> is_boot_fenced (snd (fence_boot b at now l a)) b"
    if "length (au_fenced a) < unat (max_fenced_boots l)" for at l a
    using that assms(3) by (auto simp: fence_boot_def is_valid_def is_boot_fenced_def om_find_emplace)
  have d: "is_boot_fenced (snd (drop_session se a)) b \<longleftrightarrow> is_boot_fenced a b" for a
    by (simp add: drop_session_def Let_def is_boot_fenced_def)
  have p: "co_authority (snd (persist io st x)) = co_authority x" for st x
    using persist_store [OF prod.collapse [symmetric], of io st x] by auto
  obtain st a where fb: "fence_boot b (au_epoch (co_authority c)) now (co_limits c) (co_authority c) = (st, a)" by force
  then have "st = Ok" "is_boot_fenced a b"
    using f [OF assms(4), of "au_epoch (co_authority c)"] by simp_all
  then show ?thesis by (simp add: fence_on_session_loss_def assms(2) fb Let_def p d)
qed


subsection \<open>A sample session\<close>

text \<open>Any byte string can be cut into its non-empty messages.\<close>

lemma pieces: "concat (filter (\<lambda>c. c \<noteq> []) cs) = concat cs" "[] \<notin> set (filter (\<lambda>c. c \<noteq> []) cs)"
  by (induction cs) auto

definition sample_worker :: worker where
  "sample_worker = \<lparr> wk_limits = default_limits, wk_boot = 3, wk_session = 9, wk_epoch = 1, wk_granted_scopes = 127,
     wk_publisher = 5, wk_attempt_counter = 0, wk_connected = True \<rparr>"

definition sample_connection :: connection where
  "sample_connection = \<lparr> cn_state = sample_session, cn_assembler = new_assembler default_limits, cn_running = True \<rparr>"

lemma gen_ok_1: "gen_ok 1"
  by (simp add: gen_ok_def is_representable_def kMaxGeneration_def)

lemma sample_in_session:
  "au_epoch (co_authority c) = 1 \<Longrightarrow> in_session sample_worker sample_connection (sample_server c)"
  by (simp add: in_session_def sample_worker_def sample_connection_def sample_server_def sample_session_def
      server_epoch_def gen_ok_1)

lemma default_fits: "payload_fits n default_limits \<longleftrightarrow> n \<le> 0x100000"
  by (auto simp: payload_fits_def default_limits_def)

lemma length_write_list: "length (write_list xs) = 4 + 8 * length xs"
  by (induction xs) (simp_all add: write_list_def)

lemma sample_definitions_fit:
  "payload_fits (length (definitions_answer run_active 5)) default_limits"
proof -
  have "find_set (co_sets run_active) 5 = Some sample_set" by (simp add: run_active_ready)
  then have "definitions_answer run_active 5 = encode_definitions_report (Some (snapshot_definitions sample_set))"
    by (simp add: definitions_answer_def coordinator_snapshot_definitions_def found_of_def)
  moreover have "length (constraint_set_digest sample_set) = 32" by (simp add: constraint_set_digest_def)
  ultimately show ?thesis
    by (simp add: default_fits encode_definitions_report_def encode_found_def encode_definitions_snapshot_def
        snapshot_definitions_def Let_def write_counted_def sample_set_fields encode_constraint_def length_write_list
        write_requirements_def encode_ranking_policy_def sample_required_def sample_hops_def sample_preference_def
        default_constraint_def put_raw_def)
qed

lemma sample_definitions_wire:
  "coordinator_snapshot_definitions run_active 5 = Inr d \<Longrightarrow> definitions_wire default_limits d"
proof -
  assume "coordinator_snapshot_definitions run_active 5 = Inr d"
  then have d: "d = snapshot_definitions sample_set"
    using run_active_ready(5) by (simp add: coordinator_snapshot_definitions_def)
  have "\<forall>c\<in>set [sample_required, sample_hops, sample_preference]. wire_constraint c default_limits" by code_simp
  moreover have "requirements_wire sample_requirements" by code_simp
  moreover have "length (constraint_set_digest sample_set) = 32" by (simp add: constraint_set_digest_def)
  ultimately show ?thesis
    by (simp add: d definitions_wire_def snapshot_definitions_def Let_def sample_set_fields gen_ok_1 default_limits_def)
qed

text \<open>The exchange of a request of the sample worker: what the client sends does not depend on what it receives.\<close>

definition sample_up :: "message_id \<Rightarrow> byte list \<Rightarrow> byte list list" where
  "sample_up message payload = filter (\<lambda>c. c \<noteq> [])
     (fst (snd (round_trip message payload \<lparr>ex_sent = Ok, ex_received = []\<rparr> sample_worker)))"

definition sample_down :: "message_id \<Rightarrow> byte list \<Rightarrow> coordinator \<Rightarrow> byte list list" where
  "sample_down message payload c = filter (\<lambda>b. b \<noteq> [])
     (fst (serve_run (\<lambda>_. sample_env) (sample_up message payload) sample_connection (sample_server c)))"

lemma round_trip_sends:
  "fst (snd (round_trip message payload \<lparr>ex_sent = Ok, ex_received = rs\<rparr> w)) =
   fst (snd (round_trip message payload \<lparr>ex_sent = Ok, ex_received = []\<rparr> w))"
  by (simp add: round_trip_def Let_def split: sum.split)

lemma request_sends: "fst (snd (request message payload decode bad k ex w)) = fst (snd (round_trip message payload ex w))"
  by (simp add: request_def split: prod.split)

lemma sample_exchange:
  assumes "fst (snd q) = fst (snd (round_trip message payload \<lparr>ex_sent = Ok, ex_received = rs\<rparr> sample_worker))"
  shows "\<exists>r sent w' out cn' s'. q = (r, sent, w') \<and> concat (sample_up message payload) = concat sent \<and>
    serve_run (\<lambda>_. sample_env) (sample_up message payload) sample_connection (sample_server c) = (out, cn', s') \<and>
    concat (sample_down message payload c) = concat out"
proof -
  obtain r sent w' where q: "q = (r, sent, w')" by (metis prod.exhaust)
  obtain out cn' s' where run: "serve_run (\<lambda>_. sample_env) (sample_up message payload) sample_connection (sample_server c) = (out, cn', s')"
    by (metis prod.exhaust)
  have "concat (sample_up message payload) = concat sent"
    using assms round_trip_sends [of message payload rs sample_worker] by (simp add: sample_up_def q pieces)
  then show ?thesis using q run by (simp add: sample_down_def pieces)
qed

theorem query_definitions_served_witness:
  "fst (worker_query_definitions 5 \<lparr>ex_sent = Ok, ex_received = map Received (sample_down MI_QueryDefinitions (put_u64 5) run_active)\<rparr>
     sample_worker) = Some (Inr (snapshot_definitions sample_set))"
proof -
  let ?q = "worker_query_definitions 5 \<lparr>ex_sent = Ok, ex_received = map Received (sample_down MI_QueryDefinitions (put_u64 5) run_active)\<rparr> sample_worker"
  have s: "sv_coordinator (sample_server run_active) = run_active" "sv_limits (sample_server run_active) = default_limits"
    by (simp_all add: sample_server_def)
  have in_s: "in_session sample_worker sample_connection (sample_server run_active)"
    by (rule sample_in_session) (simp add: run_active_def run_authority_def)
  obtain r sent w' out cn' s' where x: "?q = (r, sent, w')" "concat (sample_up MI_QueryDefinitions (put_u64 5)) = concat sent"
    "serve_run (\<lambda>_. sample_env) (sample_up MI_QueryDefinitions (put_u64 5)) sample_connection (sample_server run_active) = (out, cn', s')"
    "concat (sample_down MI_QueryDefinitions (put_u64 5) run_active) = concat out"
    using sample_exchange [of ?q MI_QueryDefinitions "put_u64 5" _ run_active]
    by (force simp: worker_query_definitions_def request_sends)
  have "r = Some (coordinator_snapshot_definitions run_active 5)"
    using query_definitions_served [OF in_s _ _ _ _ x(1,2) _ x(3,4)] sample_definitions_fit sample_definitions_wire
    by (simp add: s default_fits sample_up_def sample_down_def)
  then show ?thesis using x(1) run_active_ready(5) by (simp add: coordinator_snapshot_definitions_def)
qed

text \<open>A watermark of path authority has passed the evidence of the sample coordinator: nothing it evaluates
  is committed.\<close>

definition run_overtaken :: coordinator where
  "run_overtaken = run_active\<lparr>co_watermarks := \<lparr>wm_families = [(EF_PathAuthority, 8)], wm_keys = []\<rparr>\<rparr>"

definition no_results :: evaluation_batch where
  "no_results = \<lparr> eb_set_id = 5, eb_set_generation = 1, eb_generation = 1,
     eb_batch_outcome = BO_NoAdmissibleCandidate, eb_has_admissible = False, eb_records = [], eb_admissible_order = [],
     eb_primary_batch_reason = RC_None \<rparr>"

lemma run_overtaken_ready:
  "authorize (co_authority run_overtaken) (attempt_context (attempt_for 3 1)) (scope_bit PublishEvaluation) = Ok"
  "fresh_attempt (attempt_context (attempt_for 3 1)) run_overtaken" "find_set (co_sets run_overtaken) 5 = Some sample_set"
  "co_last_generation run_overtaken = 0" "co_evidence run_overtaken = sample_requirements"
  "co_limits run_overtaken = default_limits" "au_epoch (co_authority run_overtaken) = 1"
  "wm_family (co_watermarks run_overtaken) EF_PathAuthority = 8"
proof -
  have a: "attempt_for 3 1 \<notin> {0, 1, 2}" by code_simp
  show "authorize (co_authority run_overtaken) (attempt_context (attempt_for 3 1)) (scope_bit PublishEvaluation) = Ok"
    using a by (simp add: run_overtaken_def run_active_def authorize_def context_complete_def attempt_context_def
        run_authority_def run_registration_def is_valid_def is_boot_fenced_def)
  show "fresh_attempt (attempt_context (attempt_for 3 1)) run_overtaken"
    using a by (auto simp: run_overtaken_def run_active_def fresh_attempt_def run_authority_def attempt_at_def attempt_context_def)
qed (use run_active_ready(5) in \<open>simp_all add: run_overtaken_def run_active_def run_authority_def wm_family_def om_find_def\<close>)

lemma path_authority_consulted: "consulted_mask s AND family_bit EF_PathAuthority \<noteq> 0"
proof -
  have "consulted_mask s AND family_bit EF_PathAuthority = family_bit EF_PathAuthority"
    by (rule bit_word_eqI) (auto simp: consulted_mask_def Let_def bit_and_iff bit_or_iff)
  moreover have "family_bit EF_PathAuthority \<noteq> 0" by code_simp
  ultimately show ?thesis by simp
qed

lemma run_overtaken_evaluates:
  "\<exists>out c. coordinator_evaluate 1 1 Ok (attempt_context (attempt_for 3 1)) 5 [] 0 run_overtaken = (Inr out, c) \<and>
     oc_batch out = no_results \<and> \<not> oc_committed out"
proof -
  let ?c = "run_overtaken" and ?ctx = "attempt_context (attempt_for 3 1)"
  let ?t = "\<lparr> tk_context = ?ctx, tk_set_id = 5, tk_candidates = [], tk_expected = 0,
     tk_generation = co_last_generation ?c + 1, tk_set = sample_set, tk_evidence = co_evidence ?c,
     tk_mask = consulted_mask sample_set \<rparr>"
  obtain a where begins: "evaluate_begin 1 ?ctx 5 [] 0 ?c =
      (Inr (Inr ?t), ?c\<lparr>co_authority := a, co_last_generation := co_last_generation ?c + 1\<rparr>)"
    by (rule begin_fresh [OF run_overtaken_ready(1-3), of "[]" 1 0])
      (simp_all add: run_overtaken_ready(4) kMaxGeneration_def)
  let ?c1 = "?c\<lparr>co_authority := a, co_last_generation := co_last_generation ?c + 1\<rparr>"
  have empty: "stable_sort candidate_canonical_less [] = []" "\<not> conflicting_duplicates []" "drop_duplicates [] [] = []"
    "order_admissible [] [] p = []" for p
    by (simp_all add: stable_sort_def order_admissible_def)
  have work: "evaluate_work (co_limits ?c) 1 ?t = Inr no_results"
    using empty by (simp add: evaluate_work_def evaluate_batch_def ticket_context_def no_results_def
        sample_set_fields run_overtaken_ready(4,6) Let_def)
  have "consulted_mask sample_set AND family_bit EF_PathAuthority \<noteq> 0" by (rule path_authority_consulted)
  moreover have "generation_for sample_requirements EF_PathAuthority < 8" by code_simp
  moreover have "EF_PathAuthority \<in> set kFamilies" by (simp add: kFamilies_def)
  ultimately have "\<not> undisturbed ?t ?c1"
    by (auto simp: undisturbed_def run_overtaken_ready intro!: bexI [of _ EF_PathAuthority])
  then have "\<exists>out. evaluate_commit 1 Ok no_results ?t ?c1 = (Inr out, ?c1) \<and> oc_batch out = no_results \<and> \<not> oc_committed out"
    by (simp add: evaluate_commit_def Let_def staleness_none_iff no_results_def)
  then show ?thesis using begins work by (auto simp: coordinator_evaluate_def evaluate_finish_def)
qed

theorem evaluation_served_witness:
  "\<exists>out c down. coordinator_evaluate 1 1 Ok (attempt_context (attempt_for 3 1)) 5 [] 0 run_overtaken = (Inr out, c) \<and>
     \<not> oc_committed out \<and>
     fst (worker_evaluate 5 [] \<lparr>ex_sent = Ok, ex_received = map Received down\<rparr> sample_worker) =
       Some (Inr \<lparr> oc_batch = oc_batch out, oc_committed = True, oc_rejection_reason = RC_None,
         oc_mask_at_snapshot = 0, oc_mask_at_commit = 0 \<rparr>)"
proof -
  obtain ev c where ev: "coordinator_evaluate 1 1 Ok (attempt_context (attempt_for 3 1)) 5 [] 0 run_overtaken = (Inr ev, c)"
    "oc_batch ev = no_results" "\<not> oc_committed ev"
    using run_overtaken_evaluates by blast
  let ?p = "\<lparr> rq_set_id = 5, rq_expected_generation = 0, rq_candidates = [] \<rparr>" and ?m = MI_EvaluateCandidates
  let ?down = "sample_down ?m (encode_evaluate_request ?p) run_overtaken"
  let ?q = "worker_evaluate 5 [] \<lparr>ex_sent = Ok, ex_received = map Received ?down\<rparr> sample_worker"
  have s: "sv_coordinator (sample_server run_overtaken) = run_overtaken" "sv_limits (sample_server run_overtaken) = default_limits"
    by (simp_all add: sample_server_def)
  have in_s: "in_session sample_worker sample_connection (sample_server run_overtaken)"
    by (rule sample_in_session) (rule run_overtaken_ready(7))
  have ctx: "request_context sample_worker sample_connection (sample_server run_overtaken) = attempt_context (attempt_for 3 1)"
    by (simp add: request_context_def attempt_context_def sample_worker_def sample_connection_def sample_server_def
        sample_session_def server_epoch_def run_overtaken_ready(7))
  have wire: "request_wire default_limits ?p" "batch_wire default_limits no_results"
    by (simp_all add: request_wire_def batch_wire_def no_results_def gen_ok_def is_representable_def kMaxGeneration_def)
  have fit: "payload_fits (length (encode_evaluate_request ?p)) default_limits"
    "payload_fits (length (encode_evaluate_response \<lparr> rs_batch = no_results \<rparr>)) default_limits"
    by (simp_all add: default_fits encode_evaluate_request_def encode_evaluate_response_def encode_evaluation_batch_def
        write_counted_def no_results_def)
  obtain r sent w' out cn' s' where x: "?q = (r, sent, w')" "concat (sample_up ?m (encode_evaluate_request ?p)) = concat sent"
    "serve_run (\<lambda>_. sample_env) (sample_up ?m (encode_evaluate_request ?p)) sample_connection (sample_server run_overtaken) = (out, cn', s')"
    "concat ?down = concat out"
    using sample_exchange [of ?q ?m "encode_evaluate_request ?p" "map Received ?down" run_overtaken]
    by (auto simp: worker_evaluate_def request_sends)
  have "r = Some (Inr \<lparr> oc_batch = oc_batch ev, oc_committed = True, oc_rejection_reason = RC_None,
      oc_mask_at_snapshot = 0, oc_mask_at_commit = 0 \<rparr>)"
    using evaluation_served [OF in_s refl _ _ _ _ _ x(1,2) _ x(3,4)] ev wire fit
    by (simp add: s sample_env_def sample_up_def sample_down_def ctx)
  then show ?thesis using ev(1,3) x(1) by (intro exI [of _ ev] exI [of _ c] exI [of _ ?down]) simp
qed

text \<open>Two retained records of the sample set with the same path.\<close>

definition sample_result :: "path_id \<Rightarrow> generation \<Rightarrow> evaluation_record" where
  "sample_result p g = (candidate_record sample_context sample_set default_limits (sample_candidate 9)
     \<lparr> es_reasons = [], es_truncated = False \<rparr>)\<lparr> ev_path := p, ev_generation := g \<rparr>"

lemma sample_result_fields [simp]:
  "ev_set_id (sample_result p g) = 5" "ev_path (sample_result p g) = p"
  "vw_path (view_of (sample_result p g)) = p" "vw_evaluation_generation (view_of (sample_result p g)) = g"
  "vw_authority_generation (view_of (sample_result p g)) = 7" "vw_digest (view_of (sample_result p g)) = zero_digest"
  by (simp_all add: sample_result_def view_of_def candidate_record_def Let_def sample_set_fields sample_candidate_def)

definition run_twice :: coordinator where
  "run_twice = run_active\<lparr>co_evaluations := [sample_result 9 1, sample_result 9 2], co_last_generation := 2\<rparr>"

definition twice_views :: "candidate_result_view list" where
  "twice_views = [view_of (sample_result 9 1), view_of (sample_result 9 2)]"

lemma run_twice_results:
  "coordinator_snapshot_results run_twice 5 = Inr (snapshot_results 5 1 2 twice_views)"
proof -
  have "find_set (co_sets run_twice) 5 = Some sample_set" using run_active_ready(5) by (simp add: run_twice_def)
  moreover have "co_evaluations run_twice = [sample_result 9 1, sample_result 9 2]" "co_last_generation run_twice = 2"
    by (simp_all add: run_twice_def)
  ultimately show ?thesis by (simp add: coordinator_snapshot_results_def sample_set_fields twice_views_def)
qed

lemma length_write_views:
  "(\<And>e. e \<in> set es \<Longrightarrow> length (vw_digest e) = 32) \<Longrightarrow> length (concat (map write_view es)) = 72 * length es"
  by (induction es) (auto simp: write_view_def put_raw_def)

lemma twice_wire: "results_fields_wire default_limits (snapshot_results 5 1 2 twice_views)"
proof -
  have "length (sr_digest (snapshot_results 5 1 2 vs)) = 32"
    "sr_set_generation (snapshot_results 5 1 2 vs) = 1" "sr_evaluation_generation (snapshot_results 5 1 2 vs) = 2" for vs
    by (simp_all add: snapshot_results_def Let_def)
  moreover have "gen_ok 2" "gen_ok 7" by (simp_all add: gen_ok_def is_representable_def kMaxGeneration_def)
  ultimately show ?thesis
    by (auto simp: results_fields_wire_def snapshot_results_entries list_all_iff twice_views_def view_wire_def gen_ok_1
        default_limits_def zero_digest_def)
qed

lemma twice_fit: "payload_fits (length (results_answer run_twice 5)) default_limits"
proof -
  have "length (concat (map write_view (stable_sort view_less twice_views))) = 72 * length (stable_sort view_less twice_views)"
    by (rule length_write_views) (auto simp: twice_views_def zero_digest_def)
  moreover have "length (stable_sort view_less twice_views) = 2" by (simp add: twice_views_def)
  moreover have "length (sr_digest (snapshot_results 5 1 2 twice_views)) = 32" by (simp add: snapshot_results_def Let_def)
  ultimately show ?thesis
    by (simp add: default_fits results_answer_def run_twice_results found_of_def encode_results_report_def encode_found_def
        encode_results_snapshot_def write_counted_def snapshot_results_entries put_raw_def)
qed

theorem query_results_served_witness:
  "fst (worker_query_results 5 \<lparr>ex_sent = Ok, ex_received = map Received (sample_down MI_QueryResults (put_u64 5) run_twice)\<rparr>
     sample_worker) = Some (Inl NotFound)"
proof -
  let ?q = "worker_query_results 5 \<lparr>ex_sent = Ok, ex_received = map Received (sample_down MI_QueryResults (put_u64 5) run_twice)\<rparr> sample_worker"
  have s: "sv_coordinator (sample_server run_twice) = run_twice" "sv_limits (sample_server run_twice) = default_limits"
    by (simp_all add: sample_server_def)
  have in_s: "in_session sample_worker sample_connection (sample_server run_twice)"
    by (rule sample_in_session) (simp add: run_twice_def run_active_def run_authority_def)
  obtain r sent w' out cn' s' where x: "?q = (r, sent, w')" "concat (sample_up MI_QueryResults (put_u64 5)) = concat sent"
    "serve_run (\<lambda>_. sample_env) (sample_up MI_QueryResults (put_u64 5)) sample_connection (sample_server run_twice) = (out, cn', s')"
    "concat (sample_down MI_QueryResults (put_u64 5) run_twice) = concat out"
    using sample_exchange [of ?q MI_QueryResults "put_u64 5" _ run_twice]
    by (force simp: worker_query_results_def request_sends)
  have "co_evaluations run_twice = [sample_result 9 1, sample_result 9 2]" by (simp add: run_twice_def)
  then have "r = Some (Inl NotFound)"
    using query_results_served [OF in_s _ _ _ _ _ x(1,2) _ x(3,4)] twice_fit run_twice_results twice_wire
    by (simp add: s default_fits sample_up_def sample_down_def)
  then show ?thesis using x(1) by simp
qed

definition sample_worker_config :: worker_config where
  "sample_worker_config = \<lparr> wc_publisher = 5, wc_requested_scopes = 127, wc_client_name = [], wc_boot = 3 \<rparr>"

theorem handshake_agrees_witness:
  "\<exists>down w. fst (worker_connect sample_worker_config default_limits 3 Ok \<lparr>ex_sent = Ok, ex_received = map Received down\<rparr>) =
     Some (Inr w) \<and> wk_session w = 9 \<and> wk_granted_scopes w = 127 \<and> wk_epoch w = 1"
proof -
  let ?s = "(sample_server sample_opened)\<lparr>sv_next_session := 8\<rparr>"
  have e: "server_epoch ?s = 1" by (simp add: server_epoch_def sample_server_def sample_opened_def)
  have epochs: "ac_epoch ctx = ac_epoch ctx' \<Longrightarrow> coordinator_register_publisher now io ctx p b sc se c =
      coordinator_register_publisher now io ctx' p b sc se c" for now io ctx ctx' p b sc se c
    by (simp add: coordinator_register_publisher_def)
  have reg: "coordinator_register_publisher 1 Ok (hello_context sample_worker_config 3 ?s) 5 3 127 9 sample_opened =
      (Inr run_registration, sample_at [] [])"
    using epochs [of "hello_context sample_worker_config 3 ?s" "attempt_context 1"] run_register e
    by (simp add: hello_context_def attempt_context_def)
  let ?connect = "\<lambda>down. worker_connect sample_worker_config default_limits 3 Ok \<lparr>ex_sent = Ok, ex_received = map Received down\<rparr>"
  have same: "snd (?connect down) = snd (?connect [])" for down
    by (simp add: worker_connect_def Let_def split: sum.split)
  let ?up = "filter (\<lambda>c. c \<noteq> []) (snd (?connect []))"
  obtain out cn s' where run: "serve_run (\<lambda>_. sample_env) ?up (new_connection default_limits) ?s = (out, cn, s')"
    by (metis prod.exhaust)
  let ?down = "filter (\<lambda>c. c \<noteq> []) out"
  obtain r sent where con: "?connect ?down = (r, sent)" by (metis prod.exhaust)
  have up: "concat ?up = concat sent" using same [of ?down] con by (simp add: pieces)
  have hw: "hello_wire default_limits (hello_of sample_worker_config 3)"
    and len: "payload_fits (length (encode_hello (hello_of sample_worker_config 3))) default_limits"
    by (simp_all add: hello_wire_def hello_of_def sample_worker_config_def encode_hello_def put_string_def put_raw_def default_fits)
  have "\<exists>w. r = Some (Inr w) \<and> wk_session w = 9 \<and> wk_epoch w = 1 \<and> wk_granted_scopes w = 127"
    using handshake_agrees [where config = sample_worker_config and boot = 3 and reg = "Inr run_registration" and c = "sample_at [] []",
        OF validate_default_limits _ _ _ _ hw len _ con up pieces(2) run pieces(1) pieces(2)] reg e
    by (auto simp: sample_server_def sample_worker_config_def sample_env_def default_fits gen_ok_1 is_valid_def
        run_registration_def)
  then show ?thesis using con by (intro exI [of _ ?down]) auto
qed

text \<open>The first session of a server over the opened sample coordinator.\<close>

definition first_registration :: publisher_registration where
  "first_registration = run_registration\<lparr>pr_session := 1\<rparr>"

definition first_registered :: coordinator where
  "first_registered = sample_opened\<lparr>co_authority := (run_authority [])\<lparr>au_registrations := [first_registration]\<rparr>\<rparr>"

lemma first_register:
  assumes "ac_epoch ctx = 1"
  shows "coordinator_register_publisher 1 Ok ctx 5 3 127 1 sample_opened = (Inr first_registration, first_registered)"
proof -
  have "register_publisher first_registration default_limits (empty_authority\<lparr>au_epoch := 1\<rparr>) =
      (Ok, (run_authority [])\<lparr>au_registrations := [first_registration]\<rparr>)"
    by (simp add: register_publisher_def first_registration_def run_registration_def run_authority_def empty_authority_def
        is_valid_def is_boot_fenced_def live_publishers_def live_sessions_def live_session_set_def default_limits_def)
  then show ?thesis
    using assms by (simp add: coordinator_register_publisher_def sample_opened_def is_valid_def first_registration_def
        run_registration_def first_registered_def persist_def Let_def)
qed

lemma serve_run_single: "serve_run envs [chunk] cn s = serve_chunk envs chunk cn s"
  by (simp split: prod.split)

lemma first_session:
  "\<exists>cn s. server_step\<^sup>*\<^sup>* ([], sample_server sample_opened) ([cn], s) \<and> sv_coordinator s = first_registered \<and>
     se_registered (cn_state cn) \<and> se_session (cn_state cn) = 1"
proof -
  let ?s = "(sample_server sample_opened)\<lparr>sv_sessions_accepted := 1\<rparr>" and ?cn = "new_connection default_limits"
  let ?s1 = "?s\<lparr>sv_frames_handled := 1\<rparr>"
  let ?h = "handle_frame sample_env new_session (hello_seen sample_worker_config 3) ?s1"
  have len: "payload_fits (length (encode_hello (hello_of sample_worker_config 3))) default_limits"
    and hw: "hello_wire default_limits (hello_of sample_worker_config 3)"
    by (simp_all add: hello_wire_def hello_of_def sample_worker_config_def encode_hello_def put_string_def put_raw_def default_fits)
  obtain raw where "encode_frame (hello_frame sample_worker_config 3) default_limits = Inr raw"
    using len by (auto simp: encode_frame_iff hello_frame_def payload_fits_def)
  then have e: "encodes default_limits (hello_seen sample_worker_config 3) raw" by (rule hello_encodes)
  have epoch: "server_epoch ?s1 = 1" by (simp add: server_epoch_def sample_server_def sample_opened_def)
  have reg: "coordinator_register_publisher 1 Ok (hello_context sample_worker_config 3 ?s1) 5 3 127 1 sample_opened =
      (Inr first_registration, first_registered)"
    by (rule first_register) (use epoch in \<open>simp add: hello_context_def\<close>)
  have run: "serve_chunk (\<lambda>_. sample_env) raw ?cn ?s = (hn_sent ?h, ?cn\<lparr>cn_assembler := (cn_assembler ?cn)\<lparr>fa_buffer := []\<rparr>,
      cn_state := hn_state ?h, cn_running := hn_running ?h\<rparr>, hn_server ?h)"
    unfolding serve_run_single [symmetric]
    by (rule serve_request [where g = "hello_seen sample_worker_config 3" and envs = "\<lambda>_. sample_env" and s = ?s and cn = ?cn])
      (use e len encodes_header(5) [OF e] in \<open>auto simp: payload_fits_def new_connection_def sample_server_def\<close>)
  have h: "hn_server ?h = ?s1\<lparr>sv_next_session := sv_next_session ?s1 + 1, sv_coordinator := first_registered\<rparr>"
    "se_registered (hn_state ?h)" "se_session (hn_state ?h) = 1"
    using hello_answer [where s = ?s1 and st = new_session and config = sample_worker_config and boot = 3 and env = sample_env,
        OF _ _ _ _ refl, of "Inr first_registration" first_registered] hw epoch reg
    by (simp_all add: sample_server_def sample_worker_config_def sample_env_def default_limits_def gen_ok_1)
  let ?cn1 = "?cn\<lparr>cn_assembler := (cn_assembler ?cn)\<lparr>fa_buffer := []\<rparr>, cn_state := hn_state ?h, cn_running := hn_running ?h\<rparr>"
  have "cn_running ?cn" by (simp add: new_connection_def)
  then have "server_step ([?cn], ?s) ([?cn1], hn_server ?h)"
    using chunk_step [where i = 0 and cns = "[?cn]" and envs = "\<lambda>_. sample_env" and chunk = raw and s = ?s] run by simp
  with sample_accept have steps: "server_step\<^sup>*\<^sup>* ([], sample_server sample_opened) ([?cn1], hn_server ?h)"
    by (rule rtranclp.rtrancl_into_rtrancl)
  show ?thesis
    by (rule exI [of _ ?cn1], rule exI [of _ "hn_server ?h"]) (use steps h in simp)
qed


end
