(* ===== verification/Clock.thy ===== *)
theory Clock
  imports Crf_Prelude
begin

text \<open>
  The tick sources (\<open>time.hpp\<close>, \<open>time.cpp\<close>): the steady clock of the process and the manual clock. The
  counter of the platform is a parameter. Nothing is assumed of it: a clock that goes back is held.
\<close>

record steady_clock =
  sc_origin :: u64
  sc_last :: u64

definition new_clock :: "u64 \<Rightarrow> steady_clock" where
  "new_clock counter = \<lparr> sc_origin = counter, sc_last = counter \<rparr>"

definition now_ticks :: "u64 \<Rightarrow> steady_clock \<Rightarrow> u64 \<times> steady_clock" where
  "now_ticks counter c =
     (let c' = (if counter > sc_last c then c\<lparr>sc_last := counter\<rparr> else c) in (sc_last c', c'))"

text \<open>The readings of a clock while the platform counter takes the given values.\<close>

fun clock_readings :: "u64 list \<Rightarrow> steady_clock \<Rightarrow> u64 list" where
  "clock_readings [] c = []"
| "clock_readings (counter # counters) c =
     (case now_ticks counter c of (now, c') \<Rightarrow> now # clock_readings counters c')"

text \<open>A reading is the largest counter seen since the clock was made, so readings never go back.\<close>

lemma clock_readings_nth:
  "i < length counters \<Longrightarrow> clock_readings counters c ! i = Max (insert (sc_last c) (set (take (Suc i) counters)))"
proof (induction counters arbitrary: c i)
  case (Cons x xs)
  have step: "now_ticks x c = (max (sc_last c) x, c\<lparr>sc_last := max (sc_last c) x\<rparr>)"
    by (cases c) (auto simp: now_ticks_def Let_def max_def dest: less_imp_le)
  show ?case
  proof (cases i)
    case 0
    then show ?thesis by (simp add: step)
  next
    case (Suc j)
    then have "clock_readings (x # xs) c ! i = Max (insert (max (sc_last c) x) (set (take (Suc j) xs)))"
      using Cons by (simp add: step)
    also have "\<dots> = Max (insert (sc_last c) (insert x (set (take (Suc j) xs))))"
      by (cases "set (take (Suc j) xs) = {}") (simp_all add: max.assoc)
    finally show ?thesis using Suc by simp
  qed
qed simp

lemma length_clock_readings [simp]: "length (clock_readings counters c) = length counters"
  by (induction counters arbitrary: c) (simp_all split: prod.split)

lemma clock_monotone: "sorted (clock_readings counters c)"
  unfolding sorted_iff_nth_mono_less
proof (intro allI impI)
  fix i j assume "i < j" "j < length (clock_readings counters c)"
  then show "clock_readings counters c ! i \<le> clock_readings counters c ! j"
    using set_take_subset_set_take [of "Suc i" "Suc j" counters]
    by (auto simp: clock_readings_nth intro!: Max_mono)
qed

text \<open>The manual clock is a number; advancing it wraps, as it does in the code.\<close>

definition manual_set :: "u64 \<Rightarrow> u64 \<Rightarrow> u64" where
  "manual_set ticks now = ticks"

definition manual_advance :: "u64 \<Rightarrow> u64 \<Rightarrow> u64" where
  "manual_advance ticks now = now + ticks"

lemma manual_advance_monotone: "unat now + unat ticks < 2 ^ 64 \<Longrightarrow> now \<le> manual_advance ticks now"
  by (simp add: manual_advance_def word_le_nat_alt unat_word_ariths)

end
