(* ===== verification/Transport.thy ===== *)
theory Transport
  imports Framing
begin

text \<open>
  The loopback transport (\<open>net.hpp\<close>, \<open>net.cpp\<close>, POSIX branch): the socket runtime, sockets, the listener and
  the send and receive calls over them. What the calls of the operating system answer is an argument of
  the operation that makes them; the descriptors the process has open are part of the state, so that
  who closes a descriptor is visible. \<open>abort\<close>, \<open>shutdown_send\<close> and the socket options change nothing the
  model holds.
\<close>

subsection \<open>Runtime, sockets and the listener\<close>

type_synonym handle = u32

definition kInvalidSocket :: handle where
  "kInvalidSocket = -1"

record socket_runtime =
  rt_users :: u32
  rt_ready :: bool

definition runtime_initialize :: "socket_runtime \<Rightarrow> status \<times> socket_runtime" where
  "runtime_initialize r =
     (if rt_ready r then (Ok, r\<lparr>rt_users := rt_users r + 1\<rparr>)
      else (Ok, r\<lparr>rt_ready := True, rt_users := rt_users r + 1\<rparr>))"

definition runtime_release :: "socket_runtime \<Rightarrow> socket_runtime" where
  "runtime_release r =
     (let r' = r\<lparr>rt_users := rt_users r - 1\<rparr> in if rt_users r = 1 then r'\<lparr>rt_ready := False\<rparr> else r')"

text \<open>A socket owns its implementation or none (it was moved from, or closed).\<close>

type_synonym tcp_socket = "handle option"

definition tcp_valid :: "tcp_socket \<Rightarrow> bool" where
  "tcp_valid s \<longleftrightarrow> (case s of None \<Rightarrow> False | Some h \<Rightarrow> h \<noteq> kInvalidSocket)"

text \<open>Closing a descriptor takes it from the open ones.\<close>

definition close_socket :: "handle \<Rightarrow> handle list \<Rightarrow> handle list" where
  "close_socket h ds = (if h \<noteq> kInvalidSocket then remove1 h ds else ds)"

definition tcp_close :: "tcp_socket \<Rightarrow> handle list \<Rightarrow> status \<times> tcp_socket \<times> handle list" where
  "tcp_close s ds = (case s of None \<Rightarrow> (Ok, None, ds) | Some h \<Rightarrow> (Ok, None, close_socket h ds))"

text \<open>Move assignment from another socket: the socket and the emptied other one.\<close>

definition tcp_assign :: "tcp_socket \<Rightarrow> tcp_socket \<Rightarrow> handle list \<Rightarrow> tcp_socket \<times> tcp_socket \<times> handle list" where
  "tcp_assign this other ds = (other, None, snd (snd (tcp_close this ds)))"

definition set_no_delay :: "tcp_socket \<Rightarrow> status" where
  "set_no_delay s = (if \<not> tcp_valid s then TransportFailure else Ok)"

text \<open>\<open>initialize\<close> when the runtime is not ready, as \<open>connect_loopback\<close> and \<open>bind_loopback\<close> begin.\<close>

definition runtime_ensure :: "socket_runtime \<Rightarrow> status \<times> socket_runtime" where
  "runtime_ensure r = (if \<not> rt_ready r then runtime_initialize r else (Ok, r))"

text \<open>\<open>fd\<close> is what \<open>socket\<close> returned; the other argument is whether \<open>connect\<close> succeeded. The implementation
  a socket had is replaced, not closed.\<close>

definition tcp_connect ::
  "handle \<Rightarrow> bool \<Rightarrow> tcp_socket \<Rightarrow> socket_runtime \<Rightarrow> handle list \<Rightarrow> status \<times> tcp_socket \<times> socket_runtime \<times> handle list" where
  "tcp_connect fd connected s r ds =
     (case runtime_ensure r of
        (st, r') \<Rightarrow>
          if st \<noteq> Ok then (st, s, r', ds)
          else if fd = kInvalidSocket then (TransportFailure, s, r', ds)
          else if \<not> connected then (TransportFailure, s, r', close_socket fd (fd # ds))
          else (set_no_delay (Some fd), Some fd, r', fd # ds))"

record tcp_listener =
  ls_handle :: u64
  ls_port :: u16

definition listener_valid :: "tcp_listener \<Rightarrow> bool" where
  "listener_valid l \<longleftrightarrow> ls_handle l \<noteq> NOT 0"

definition listener_handle :: "tcp_listener \<Rightarrow> handle" where
  "listener_handle l = ucast (ls_handle l)"

definition new_listener :: tcp_listener where
  "new_listener = \<lparr> ls_handle = NOT 0, ls_port = 0 \<rparr>"

definition listener_close :: "tcp_listener \<Rightarrow> handle list \<Rightarrow> status \<times> tcp_listener \<times> handle list" where
  "listener_close l ds =
     (if listener_valid l then (Ok, l\<lparr>ls_handle := NOT 0\<rparr>, close_socket (listener_handle l) ds) else (Ok, l, ds))"

text \<open>What the calls of \<open>bind_loopback\<close> answer: \<open>socket\<close>, \<open>bind\<close>, \<open>listen\<close>, and the port of \<open>getsockname\<close>.\<close>

record bind_answers =
  ba_socket :: handle
  ba_bound :: bool
  ba_listens :: bool
  ba_name :: "u16 option"

definition bind_loopback ::
  "bind_answers \<Rightarrow> u16 \<Rightarrow> tcp_listener \<Rightarrow> socket_runtime \<Rightarrow> handle list \<Rightarrow>
   status \<times> tcp_listener \<times> socket_runtime \<times> handle list" where
  "bind_loopback ans port l r ds =
     (case runtime_ensure r of
        (st, r') \<Rightarrow>
          if st \<noteq> Ok then (st, l, r', ds)
          else case listener_close l ds of
            (_, l1, ds1) \<Rightarrow>
              let fd = ba_socket ans in
              if fd = kInvalidSocket then (TransportFailure, l1, r', ds1)
              else if \<not> ba_bound ans then (TransportFailure, l1, r', close_socket fd (fd # ds1))
              else if \<not> ba_listens ans then (TransportFailure, l1, r', close_socket fd (fd # ds1))
              else (Ok, \<lparr> ls_handle = scast fd, ls_port = (case ba_name ans of Some bound \<Rightarrow> bound | None \<Rightarrow> port) \<rparr>,
                    r', fd # ds1))"

definition listener_accept ::
  "handle \<Rightarrow> tcp_listener \<Rightarrow> tcp_socket \<Rightarrow> handle list \<Rightarrow> status \<times> tcp_socket \<times> handle list" where
  "listener_accept fd l out ds =
     (if \<not> listener_valid l then (TransportFailure, out, ds)
      else if fd = kInvalidSocket then (TransportFailure, out, ds)
      else case tcp_assign out (Some fd) (fd # ds) of
        (out', _, ds') \<Rightarrow> (set_no_delay out', out', ds'))"

subsection \<open>Sending and receiving\<close>

text \<open>The k-th call of \<open>send\<close>, given the length of the chunk, answers how many bytes it took (or an error,
  not positive). The bytes taken are the messages on the wire. Every call that does not end the loop takes
  at least one byte.\<close>

definition io_chunk :: "nat \<Rightarrow> nat" where
  "io_chunk n = (if n > 0x40000000 then 0x40000000 else n)"

function send_loop :: "(nat \<Rightarrow> nat \<Rightarrow> int) \<Rightarrow> byte list \<Rightarrow> nat \<Rightarrow> nat \<Rightarrow> status \<times> byte list list" where
  "send_loop os data k sent =
     (if sent < length data then
        (let chunk = io_chunk (length data - sent); produced = os k chunk in
         if produced \<le> 0 then (TransportFailure, [])
         else case send_loop os data (Suc k) (sent + nat produced) of
           (st, out) \<Rightarrow> (st, take (nat produced) (take chunk (drop sent data)) # out))
      else (Ok, []))"
  by pat_completeness auto
termination
  by (relation "measure (\<lambda>(os, data, k, sent). length data - sent)") auto

declare send_loop.simps [simp del]

definition tcp_send_all :: "tcp_socket \<Rightarrow> (nat \<Rightarrow> nat \<Rightarrow> int) \<Rightarrow> byte list \<Rightarrow> status \<times> byte list list" where
  "tcp_send_all s os data = (if \<not> tcp_valid s then (TransportFailure, []) else send_loop os data 0 0)"

text \<open>The call of \<open>recv\<close> answers the bytes it put into a buffer of the given length, or an error.\<close>

definition tcp_recv_some :: "tcp_socket \<Rightarrow> (nat \<Rightarrow> byte list option) \<Rightarrow> nat \<Rightarrow> status \<times> byte list" where
  "tcp_recv_some s os capacity =
     (if \<not> tcp_valid s then (TransportFailure, [])
      else if capacity = 0 then (Ok, [])
      else case os (io_chunk capacity) of None \<Rightarrow> (TransportFailure, []) | Some bs \<Rightarrow> (Ok, bs))"

lemma io_chunk_le: "io_chunk n \<le> n" "0 < n \<Longrightarrow> 0 < io_chunk n"
  by (simp_all add: io_chunk_def)

lemma progress: "0 < p \<Longrightarrow> p \<le> n - s \<Longrightarrow> s < n \<Longrightarrow> n - (s + p) < n - s \<and> s + p \<le> n" for n :: nat
  by linarith

text \<open>The bytes taken are a prefix of the data, the whole of it exactly on success.\<close>

lemma send_loop_prefix:
  assumes "\<And>k n. os k n \<le> int n" "sent \<le> length data" "send_loop os data k sent = (st, out)"
  shows "\<exists>rest. drop sent data = concat out @ rest \<and> (st = Ok \<longleftrightarrow> rest = []) \<and> st \<in> {Ok, TransportFailure} \<and> [] \<notin> set out"
  using assms(2,3)
proof (induction "length data - sent" arbitrary: sent k out rule: less_induct)
  case less
  show ?case
  proof (cases "sent < length data")
    case False
    then have "send_loop os data k sent = (Ok, [])" by (simp add: send_loop.simps)
    then show ?thesis using False less.prems by simp
  next
    case True
    let ?c = "io_chunk (length data - sent)" let ?p = "nat (os k ?c)"
    show ?thesis
    proof (cases "os k ?c \<le> 0")
      case True
      then have "st = TransportFailure" "out = []"
        using \<open>sent < length data\<close> less.prems(2) by (auto simp: send_loop.simps [of os data k sent] Let_def)
      then show ?thesis using \<open>sent < length data\<close> by auto
    next
      case False
      have p: "0 < ?p" "?p \<le> ?c" "?p \<le> length data - sent"
        using False assms(1) [of k ?c] io_chunk_le(1) [of "length data - sent"] by linarith+
      obtain out' where out: "send_loop os data (Suc k) (sent + ?p) = (st, out')"
        "out = take ?p (take ?c (drop sent data)) # out'"
        using less.prems(2) False True
        by (subst (asm) send_loop.simps) (auto simp: Let_def split: prod.splits)
      obtain rest where r: "drop (sent + ?p) data = concat out' @ rest" "st = Ok \<longleftrightarrow> rest = []"
        "st \<in> {Ok, TransportFailure}" "[] \<notin> set out'"
      proof -
        have "length data - (sent + ?p) < length data - sent" "sent + ?p \<le> length data"
          using progress [OF p(1,3) True] by blast+
        from less.hyps [OF this out(1)] show thesis using that by blast
      qed
      have "drop sent data = take ?p (drop sent data) @ drop (sent + ?p) data"
        using append_take_drop_id [of ?p "drop sent data"] by (simp add: add.commute)
      moreover have "take ?p (take ?c (drop sent data)) = take ?p (drop sent data)" "take ?p (drop sent data) \<noteq> []"
        using p True by (simp_all add: min_def)
      ultimately show ?thesis using r out(2) by (intro exI [of _ rest]) simp
    qed
  qed
qed

end
