(* ===== verification/Transport_Properties.thy ===== *)
theory Transport_Properties
  imports Transport Protocol_Properties "HOL-Library.Multiset"
begin

text \<open>
  What the transport keeps: every open descriptor has one owner, over every sequence of operations on
  the runtime, any number of sockets and the listener; and a frame that is sent arrives whole or not
  at all, however the operating system cuts the sends and the receives.
\<close>

subsection \<open>Frames over a connection\<close>

lemma drain_partial:
  assumes "list_all2 (encodes l) fs es" "encodes l f (p @ r)" "r \<noteq> []"
  shows "\<exists>a. assembler_drain (extended (new_assembler l) (concat es @ p)) = (Ok, fs, a)"
proof -
  have "(extended (new_assembler l) (concat es))\<lparr>fa_buffer := []\<rparr> = new_assembler l"
    by (simp add: extended_def new_assembler_def)
  then have "assembler_drain (extended (new_assembler l) (concat es)) = (Ok, fs, new_assembler l)"
    using drain_encoded [of "extended (new_assembler l) (concat es)" fs es] assms(1) by simp
  then show ?thesis
    using drain_extended [of "extended (new_assembler l) (concat es)" p] drain_None [OF pop_partial [of "extended (new_assembler l) p" f r]] assms(2,3) by simp
qed

lemma send_loop_progress:
  assumes "\<And>k n. 0 < n \<Longrightarrow> 0 < os k n"
  shows "fst (send_loop os data k sent) = Ok"
proof (induction "length data - sent" arbitrary: sent k rule: less_induct)
  case less
  show ?case
  proof (cases "sent < length data")
    case True
    let ?p = "os k (io_chunk (length data - sent))"
    have p: "0 < ?p" using assms io_chunk_le(2) True by simp
    then have "length data - (sent + nat ?p) < length data - sent" using True by (intro diff_less_mono2) simp_all
    from less.hyps [OF this, of "Suc k"] show ?thesis
      using p True by (simp add: send_loop.simps [of os data k sent] Let_def case_prod_unfold)
  qed (simp add: send_loop.simps)
qed

text \<open>C23: a frame arrives whole or not at all. After any frames already delivered, a frame is sent over a
  socket while the operating system takes any part of what each call of \<open>send\<close> offers, or fails: however
  the receiver reads the bytes that were taken, its assembler delivers the earlier frames, and the frame
  exactly when the send reports success; otherwise it delivers nothing of it. When every call takes at
  least one byte the send succeeds.\<close>

theorem frame_arrives_whole:
  assumes "list_all2 (\<lambda>f e. encode_frame f l = Inr e \<and> decode_frame e l = Inr f) fs es"
    and "encode_frame f l = Inr e" "decode_frame e l = Inr f"
    and "\<And>k n. os k n \<le> int n" "tcp_send_all s os e = (st, out)"
    and "concat chunks = concat es @ concat out"
    and "\<forall>c\<in>set chunks. length c + 96 + unat (max_frame_bytes l) \<le> unat (max_frame_assembly_bytes l)"
  shows "st \<in> {Ok, TransportFailure} \<and>
    (\<exists>a. assembler_feed chunks (new_assembler l) = (Ok, fs @ (if st = Ok then [f] else []), a)) \<and>
    (tcp_valid s \<and> (\<forall>k n. 0 < n \<longrightarrow> 0 < os k n) \<longrightarrow> st = Ok)"
proof -
  have es: "list_all2 (encodes l) fs es"
    using assms(1) by (rule list_all2_mono) (simp add: encodes_def decode_frame_exact)
  have f: "encodes l f e" using assms(2,3) by (simp add: encodes_def decode_frame_exact)
  have "\<exists>rest. drop 0 e = concat out @ rest \<and> (st = Ok \<longleftrightarrow> rest = []) \<and> st \<in> {Ok, TransportFailure} \<and> [] \<notin> set out"
  proof (cases "tcp_valid s")
    case True
    then show ?thesis using send_loop_prefix [OF assms(4), where sent = 0 and data = e and k = 0] assms(5) by (simp add: tcp_send_all_def)
  next
    case False
    then show ?thesis using assms(5) encodes_header(5) [OF f] by (auto simp: tcp_send_all_def)
  qed
  then obtain rest where e: "e = concat out @ rest" "st = Ok \<longleftrightarrow> rest = []" "st \<in> {Ok, TransportFailure}" by auto
  have feed: "assembler_feed chunks (new_assembler l) = assembler_drain (extended (new_assembler l) (concat es @ concat out))"
    using feed_concat [OF new_assembler_quiet, of chunks l] assms(6,7) by simp
  have "\<exists>a. assembler_drain (extended (new_assembler l) (concat es @ concat out)) = (Ok, fs @ (if st = Ok then [f] else []), a)"
  proof (cases "rest = []")
    case True
    then have "list_all2 (encodes l) (fs @ [f]) (es @ [e])" using es f by (simp add: list_all2_appendI)
    then show ?thesis
      using drain_encoded [of "extended (new_assembler l) (concat es @ concat out)" "fs @ [f]" "es @ [e]"] e True by simp
  next
    case False
    then show ?thesis using drain_partial [OF es, of f "concat out" rest] f e by simp
  qed
  moreover have "st = Ok" if "tcp_valid s" "\<forall>k n. 0 < n \<longrightarrow> 0 < os k n"
    using send_loop_progress [of os e 0 0] that assms(5) by (simp add: tcp_send_all_def)
  ultimately show ?thesis using e(3) feed by simp
qed

text \<open>Two heartbeats; the operating system takes at most seven bytes of the second at a time, and the
  receiver reads single bytes.\<close>

theorem frame_arrives_whole_witness:
  "\<exists>e a. assembler_feed (map (\<lambda>b. [b]) (e @ concat (snd (tcp_send_all (Some 3) (\<lambda>k n. min 7 (int n)) e)))) (new_assembler default_limits) =
     (Ok, [sample_heartbeat, sample_heartbeat], a)"
proof -
  let ?os = "\<lambda>k n. min 7 (int n)"
  obtain e where e: "encode_frame sample_heartbeat default_limits = Inr e" "decode_frame e default_limits = Inr sample_heartbeat"
    using sample_heartbeat_wire by blast
  obtain st out where sent: "tcp_send_all (Some 3) ?os e = (st, out)" by force
  have single: "concat (map (\<lambda>b. [b]) bs) = bs" for bs :: "byte list" by (induction bs) simp_all
  have small: "\<forall>c\<in>set (map (\<lambda>b. [b]) bs). length c + 96 + unat (max_frame_bytes default_limits)
      \<le> unat (max_frame_assembly_bytes default_limits)" for bs :: "byte list"
    by (auto simp: default_limits_def)
  have valid: "tcp_valid (Some 3)" by (simp add: tcp_valid_def kInvalidSocket_def)
  have "st = Ok \<and> (\<exists>a. assembler_feed (map (\<lambda>b. [b]) (e @ concat out)) (new_assembler default_limits) =
      (Ok, [sample_heartbeat] @ (if st = Ok then [sample_heartbeat] else []), a))"
    using frame_arrives_whole [of default_limits "[sample_heartbeat]" "[e]" sample_heartbeat e ?os "Some 3" st out
        "map (\<lambda>b. [b]) (e @ concat out)"] e sent single [of "e @ concat out"] small [of "e @ concat out"] valid by auto
  then show ?thesis by (intro exI [of _ e]) (auto simp: sent)
qed

subsection \<open>Descriptors\<close>

text \<open>The process: its open descriptors, the runtime, the sockets made so far and a listener.\<close>

record transport =
  tr_open :: "handle list"
  tr_runtime :: socket_runtime
  tr_sockets :: "tcp_socket list"
  tr_listener :: tcp_listener

definition new_transport :: transport where
  "new_transport = \<lparr> tr_open = [], tr_runtime = \<lparr> rt_users = 0, rt_ready = False \<rparr>, tr_sockets = [], tr_listener = new_listener \<rparr>"

text \<open>The operating system makes descriptors that are not open. \<open>reconnects\<close> says whether \<open>connect_loopback\<close>
  may be called on a socket that is open. A socket that is destroyed is closed.\<close>

inductive transport_step :: "bool \<Rightarrow> transport \<Rightarrow> transport \<Rightarrow> bool" for reconnects where
  new_step: "transport_step reconnects t (t\<lparr>tr_sockets := tr_sockets t @ [None]\<rparr>)"
| release_step: "transport_step reconnects t (t\<lparr>tr_runtime := runtime_release (tr_runtime t)\<rparr>)"
| connect_step: "i < length (tr_sockets t) \<Longrightarrow> reconnects \<or> \<not> tcp_valid (tr_sockets t ! i) \<Longrightarrow> fd \<notin> set (tr_open t) \<Longrightarrow>
    tcp_connect fd connected (tr_sockets t ! i) (tr_runtime t) (tr_open t) = (st, s, r, ds) \<Longrightarrow>
    transport_step reconnects t (t\<lparr>tr_sockets := (tr_sockets t)[i := s], tr_runtime := r, tr_open := ds\<rparr>)"
| close_step: "i < length (tr_sockets t) \<Longrightarrow> tcp_close (tr_sockets t ! i) (tr_open t) = (st, s, ds) \<Longrightarrow>
    transport_step reconnects t (t\<lparr>tr_sockets := (tr_sockets t)[i := s], tr_open := ds\<rparr>)"
| assign_step: "i < length (tr_sockets t) \<Longrightarrow> j < length (tr_sockets t) \<Longrightarrow> i \<noteq> j \<Longrightarrow>
    tcp_assign (tr_sockets t ! i) (tr_sockets t ! j) (tr_open t) = (s, s', ds) \<Longrightarrow>
    transport_step reconnects t (t\<lparr>tr_sockets := (tr_sockets t)[i := s, j := s'], tr_open := ds\<rparr>)"
| bind_step: "ba_socket ans \<notin> set (snd (snd (listener_close (tr_listener t) (tr_open t)))) \<Longrightarrow>
    bind_loopback ans port (tr_listener t) (tr_runtime t) (tr_open t) = (st, l, r, ds) \<Longrightarrow>
    transport_step reconnects t (t\<lparr>tr_listener := l, tr_runtime := r, tr_open := ds\<rparr>)"
| tcp_accept_step: "i < length (tr_sockets t) \<Longrightarrow> fd \<notin> set (tr_open t) \<Longrightarrow>
    listener_accept fd (tr_listener t) (tr_sockets t ! i) (tr_open t) = (st, s, ds) \<Longrightarrow>
    transport_step reconnects t (t\<lparr>tr_sockets := (tr_sockets t)[i := s], tr_open := ds\<rparr>)"
| listener_close_step: "listener_close (tr_listener t) (tr_open t) = (st, l, ds) \<Longrightarrow>
    transport_step reconnects t (t\<lparr>tr_listener := l, tr_open := ds\<rparr>)"

text \<open>The descriptors that sockets and the listener hold.\<close>

definition held_by :: "tcp_socket \<Rightarrow> handle list" where
  "held_by s = (case s of None \<Rightarrow> [] | Some h \<Rightarrow> if h = kInvalidSocket then [] else [h])"

definition listener_held :: "tcp_listener \<Rightarrow> handle list" where
  "listener_held l = (if listener_valid l then [listener_handle l] else [])"

definition held :: "transport \<Rightarrow> handle list" where
  "held t = concat (map held_by (tr_sockets t)) @ listener_held (tr_listener t)"

definition clean :: "handle list \<Rightarrow> bool" where
  "clean ds \<longleftrightarrow> distinct ds \<and> kInvalidSocket \<notin> set ds"

lemma held_by_simps [simp]: "held_by None = []" "h \<noteq> kInvalidSocket \<Longrightarrow> held_by (Some h) = [h]"
  by (simp_all add: held_by_def)

lemma clean_open: "clean ds \<Longrightarrow> fd \<notin> set ds \<Longrightarrow> fd \<noteq> kInvalidSocket \<Longrightarrow> clean (fd # ds)"
  by (simp add: clean_def)

lemma clean_remove1: "clean ds \<Longrightarrow> clean (remove1 h ds)"
  using set_remove1_subset [of h ds] by (auto simp: clean_def)

lemma close_fresh: "fd \<noteq> kInvalidSocket \<Longrightarrow> close_socket fd (fd # ds) = ds"
  by (simp add: close_socket_def)

text \<open>Each operation on its own part of the open descriptors, the rest \<open>R\<close> being held by others.\<close>

lemma close_frame:
  assumes "tcp_close s ds = (st, s', ds')" "clean ds" "mset ds = mset (held_by s) + R"
  shows "clean ds' \<and> mset ds' = mset (held_by s') + R"
  using assms by (auto simp: clean_remove1 tcp_close_def held_by_def close_socket_def split: option.splits if_splits)

lemma assign_frame:
  assumes "tcp_assign s u ds = (s', u', ds')" "clean ds" "mset ds = mset (held_by s) + mset (held_by u) + R"
  shows "clean ds' \<and> mset ds' = mset (held_by s') + mset (held_by u') + R"
proof -
  have c: "tcp_close s ds = (Ok, None, ds')" and u: "s' = u" "u' = None"
    using assms(1) by (auto simp: tcp_assign_def tcp_close_def split: option.splits)
  from close_frame [OF c assms(2), of "mset (held_by u) + R"] show ?thesis
    using assms(3) u by (simp add: add.assoc)
qed

lemma connect_frame:
  assumes "tcp_connect fd connected s r ds = (st, s', r', ds')" "clean ds" "fd \<notin> set ds" "mset ds = mset (held_by s) + R"
  shows "clean ds' \<and> (\<exists>lost. mset ds' = mset (held_by s') + R + lost \<and> (tcp_valid s \<or> lost = {#}))"
proof -
  have "tcp_valid s \<or> held_by s = []" by (auto simp: tcp_valid_def held_by_def split: option.splits)
  then show ?thesis
    using assms clean_open [OF assms(2,3)]
    by (auto simp: tcp_connect_def close_fresh split: prod.splits if_splits intro: exI [of _ "mset (held_by s)"])
qed

lemma accept_frame:
  assumes "listener_accept fd l s ds = (st, s', ds')" "clean ds" "fd \<notin> set ds" "mset ds = mset (held_by s) + R"
  shows "clean ds' \<and> mset ds' = mset (held_by s') + R"
proof (cases "listener_valid l \<and> fd \<noteq> kInvalidSocket")
  case True
  then obtain u where "tcp_assign s (Some fd) (fd # ds) = (s', u, ds')" "u = None"
    using assms(1) by (auto simp: listener_accept_def tcp_assign_def)
  from assign_frame [OF this(1), of R] this(2) show ?thesis
    using clean_open [OF assms(2,3)] assms(4) True by simp
next
  case False
  then show ?thesis using assms by (auto simp: listener_accept_def split: if_splits)
qed

lemma listener_close_frame:
  assumes "listener_close l ds = (st, l', ds')" "clean ds" "mset ds = mset (listener_held l) + R"
  shows "clean ds' \<and> listener_held l' = [] \<and> mset ds' = R"
proof (cases "listener_valid l")
  case True
  have "listener_handle l \<in># mset ds" unfolding assms(3) using True by (simp add: listener_held_def)
  then have "listener_handle l \<noteq> kInvalidSocket" using assms(2) by (auto simp: clean_def)
  then show ?thesis
    using assms True
    by (auto simp: clean_remove1 listener_close_def listener_held_def close_socket_def listener_valid_def)
next
  case False
  then show ?thesis using assms by (auto simp: listener_close_def listener_held_def)
qed

lemma ucast_scast_handle: "ucast (scast fd :: u64) = fd" for fd :: handle
  by (rule bit_word_eqI) (simp add: bit_simps)

lemma ucast_ones: "(ucast (- 1 :: u64) :: handle) = - 1"
  by (rule bit_word_eqI) (simp add: bit_simps)

lemma listener_handle_scast [simp]: "listener_handle \<lparr> ls_handle = scast (fd :: handle), ls_port = p \<rparr> = fd"
  by (simp add: listener_handle_def ucast_scast_handle)

lemma listener_valid_scast: "listener_valid \<lparr> ls_handle = scast (fd :: handle), ls_port = p \<rparr> \<longleftrightarrow> fd \<noteq> kInvalidSocket"
proof -
  have "scast fd = (NOT 0 :: u64) \<longleftrightarrow> fd = kInvalidSocket"
  proof
    assume "scast fd = (NOT 0 :: u64)"
    then have "(ucast (scast fd :: u64) :: handle) = ucast (NOT 0 :: u64)" by simp
    then show "fd = kInvalidSocket" by (simp add: kInvalidSocket_def ucast_scast_handle ucast_ones)
  qed (simp add: kInvalidSocket_def)
  then show ?thesis by (simp add: listener_valid_def)
qed

lemma bind_frame:
  assumes "bind_loopback ans port l r ds = (st, l', r', ds')" "clean ds" "ba_socket ans \<notin> set (snd (snd (listener_close l ds)))"
    and "mset ds = mset (listener_held l) + R"
  shows "clean ds' \<and> mset ds' = mset (listener_held l') + R"
proof -
  obtain st1 l1 ds1 where close: "listener_close l ds = (st1, l1, ds1)" by (metis prod.exhaust)
  note c = listener_close_frame [OF close assms(2,4)]
  have fresh: "ba_socket ans \<notin> set ds1" using assms(3) close by simp
  have init: "runtime_ensure r = (Ok, snd (runtime_ensure r))"
    by (simp add: runtime_ensure_def runtime_initialize_def)
  show ?thesis
    using assms(1) c clean_open [OF _ fresh] close init
    by (auto simp: bind_loopback_def close_fresh Let_def listener_held_def listener_valid_scast split: if_splits prod.splits)
qed

subsection \<open>Ownership\<close>

abbreviation held_all :: "tcp_socket list \<Rightarrow> handle multiset" where
  "held_all ss \<equiv> mset (concat (map held_by ss))"

lemma held_split:
  assumes "i < length ss"
  shows "\<exists>R. held_all ss = mset (held_by (ss ! i)) + R \<and> (\<forall>s. held_all (ss[i := s]) = mset (held_by s) + R)"
proof -
  let ?R = "held_all (take i ss) + held_all (drop (Suc i) ss)"
  have u: "held_all (ss[i := s]) = mset (held_by s) + ?R" for s
    by (simp add: upd_conv_take_nth_drop [OF assms] add.left_commute)
  from u [of "ss ! i"] have "held_all ss = mset (held_by (ss ! i)) + ?R" by simp
  with u show ?thesis by blast
qed

lemma held_split2:
  assumes "i < length ss" "j < length ss" "i \<noteq> j"
  shows "\<exists>R. held_all ss = mset (held_by (ss ! i)) + mset (held_by (ss ! j)) + R \<and>
    (\<forall>s u. held_all (ss[i := s, j := u]) = mset (held_by s) + mset (held_by u) + R)"
proof -
  have j: "\<exists>R. held_all (ss[i := s]) = mset (held_by (ss ! j)) + R \<and> (\<forall>u. held_all (ss[i := s, j := u]) = mset (held_by u) + R)" for s
    using held_split [of j "ss[i := s]"] assms by simp
  obtain R1 where R1: "held_all ss = mset (held_by (ss ! i)) + R1" "\<And>s. held_all (ss[i := s]) = mset (held_by s) + R1"
    using held_split [OF assms(1)] by blast
  obtain R where R: "R1 = mset (held_by (ss ! j)) + R" using j [of None] R1(2) [of None] by auto
  have "held_all (ss[i := s, j := u]) = mset (held_by s) + mset (held_by u) + R" for s u
  proof -
    obtain R3 where R3: "held_all (ss[i := s]) = mset (held_by (ss ! j)) + R3"
      "held_all (ss[i := s, j := u]) = mset (held_by u) + R3" using j by blast
    have "mset (held_by (ss ! j)) + R3 = mset (held_by (ss ! j)) + (mset (held_by s) + R)"
      using R3(1) R1(2) [of s] R by (simp add: add.left_commute)
    then have "R3 = mset (held_by s) + R" by (rule add_left_imp_eq)
    then show ?thesis using R3(2) by (simp add: ac_simps)
  qed
  then show ?thesis using R1(1) R by (intro exI [of _ R]) (simp add: add.assoc)
qed

definition owned :: "bool \<Rightarrow> transport \<Rightarrow> bool" where
  "owned reconnects t \<longleftrightarrow> clean (tr_open t) \<and>
     (\<exists>lost. mset (tr_open t) = mset (held t) + lost \<and> (reconnects \<or> lost = {#}))"

text \<open>A step that changes one socket.\<close>

lemma socket_step_owned:
  assumes "owned reconnects t" "i < length (tr_sockets t)"
    and "\<And>R. mset (tr_open t) = mset (held_by (tr_sockets t ! i)) + R \<Longrightarrow>
      clean ds \<and> (\<exists>lost. mset ds = mset (held_by s) + R + lost \<and> (reconnects \<or> lost = {#}))"
  shows "owned reconnects (t\<lparr>tr_sockets := (tr_sockets t)[i := s], tr_runtime := r, tr_open := ds\<rparr>)"
proof -
  obtain lost where o: "mset (tr_open t) = mset (held t) + lost" "reconnects \<or> lost = {#}"
    using assms(1) by (auto simp: owned_def)
  obtain R where R: "held_all (tr_sockets t) = mset (held_by (tr_sockets t ! i)) + R"
    "\<forall>s. held_all ((tr_sockets t)[i := s]) = mset (held_by s) + R"
    using held_split [OF assms(2)] by blast
  have "mset (tr_open t) = mset (held_by (tr_sockets t ! i)) + (R + mset (listener_held (tr_listener t)) + lost)"
    using o(1) R(1) by (simp add: held_def ac_simps)
  from assms(3) [OF this] obtain lost' where
    "clean ds" "mset ds = mset (held_by s) + (R + mset (listener_held (tr_listener t)) + lost) + lost'" "reconnects \<or> lost' = {#}"
    by blast
  then show ?thesis
    using o(2) spec [OF R(2), of s] unfolding owned_def
    by (intro conjI exI [of _ "lost + lost'"]) (auto simp: held_def ac_simps)
qed

lemma listener_step_owned:
  assumes "owned reconnects t"
    and "\<And>R. mset (tr_open t) = mset (listener_held (tr_listener t)) + R \<Longrightarrow> clean ds \<and> mset ds = mset (listener_held l) + R"
  shows "owned reconnects (t\<lparr>tr_listener := l, tr_runtime := r, tr_open := ds\<rparr>)"
proof -
  obtain lost where o: "mset (tr_open t) = mset (held t) + lost" "reconnects \<or> lost = {#}"
    using assms(1) by (auto simp: owned_def)
  have "mset (tr_open t) = mset (listener_held (tr_listener t)) + (mset (concat (map held_by (tr_sockets t))) + lost)"
    using o(1) by (simp add: held_def ac_simps)
  from assms(2) [OF this] show ?thesis
    using o(2) unfolding owned_def by (intro conjI exI [of _ lost]) (simp_all add: held_def ac_simps)
qed

lemma assign_step_owned:
  assumes "owned reconnects t" "i < length (tr_sockets t)" "j < length (tr_sockets t)" "i \<noteq> j"
    and "tcp_assign (tr_sockets t ! i) (tr_sockets t ! j) (tr_open t) = (s, u, ds)"
  shows "owned reconnects (t\<lparr>tr_sockets := (tr_sockets t)[i := s, j := u], tr_open := ds\<rparr>)"
proof -
  obtain lost where o: "mset (tr_open t) = mset (held t) + lost" "reconnects \<or> lost = {#}" "clean (tr_open t)"
    using assms(1) by (auto simp: owned_def)
  obtain R where R: "held_all (tr_sockets t) = mset (held_by (tr_sockets t ! i)) + mset (held_by (tr_sockets t ! j)) + R"
    "\<forall>s u. held_all ((tr_sockets t)[i := s, j := u]) = mset (held_by s) + mset (held_by u) + R"
    using held_split2 [OF assms(2-4)] by blast
  have "mset (tr_open t) = mset (held_by (tr_sockets t ! i)) + mset (held_by (tr_sockets t ! j)) +
      (R + mset (listener_held (tr_listener t)) + lost)"
    using o(1) R(1) by (simp add: held_def add.assoc)
  from assign_frame [OF assms(5) o(3) this]
  have "clean ds" "mset ds = mset (held_by s) + mset (held_by u) + (R + mset (listener_held (tr_listener t)) + lost)" by simp_all
  then show ?thesis
    using o(2) spec [OF spec [OF R(2), of s], of u] unfolding owned_def
    by (intro conjI exI [of _ lost]) (simp_all add: held_def add.assoc)
qed

lemma step_owned: "transport_step reconnects t t' \<Longrightarrow> owned reconnects t \<Longrightarrow> owned reconnects t'"
proof (induction rule: transport_step.induct)
  case (new_step t)
  then show ?case by (simp add: owned_def held_def)
next
  case (release_step t)
  then show ?case by (simp add: owned_def held_def)
next
  case (connect_step i t fd connected st s r ds)
  then have "clean (tr_open t)" by (simp add: owned_def)
  from socket_step_owned [OF connect_step.prems connect_step.hyps(1), of ds s r]
    connect_frame [OF connect_step.hyps(4) this connect_step.hyps(3)] connect_step.hyps(2)
  show ?case by blast
next
  case (close_step i t st s ds)
  then have "clean (tr_open t)" by (simp add: owned_def)
  from socket_step_owned [OF close_step.prems close_step.hyps(1), of ds s "tr_runtime t"]
    close_frame [OF close_step.hyps(2) this]
  show ?case by simp
next
  case (assign_step i t j s s' ds)
  then show ?case by (intro assign_step_owned)
next
  case (bind_step ans t port st l r ds)
  then have "clean (tr_open t)" by (simp add: owned_def)
  from listener_step_owned [OF bind_step.prems, of ds l r] bind_frame [OF bind_step.hyps(2) this bind_step.hyps(1)]
  show ?case by blast
next
  case (tcp_accept_step i t fd st s ds)
  then have "clean (tr_open t)" by (simp add: owned_def)
  from socket_step_owned [OF tcp_accept_step.prems tcp_accept_step.hyps(1), of ds s "tr_runtime t"]
    accept_frame [OF tcp_accept_step.hyps(3) this tcp_accept_step.hyps(2)]
  show ?case by simp
next
  case (listener_close_step t st l ds)
  then have "clean (tr_open t)" by (simp add: owned_def)
  from listener_step_owned [OF listener_close_step.prems, of ds l "tr_runtime t"]
    listener_close_frame [OF listener_close_step.hyps(1) this]
  show ?case by simp
qed

text \<open>C24: every open descriptor has exactly one owner. In every reachable state the descriptors that the
  sockets and the listener hold are distinct and open, so none is closed twice or used after it was
  closed; and as long as no open socket is connected again, every open descriptor is held by one of
  them, so none is leaked on any path, failures included.\<close>

theorem descriptors_owned:
  assumes "(transport_step reconnects)\<^sup>*\<^sup>* new_transport t"
  shows "distinct (held t) \<and> set (held t) \<subseteq> set (tr_open t) \<and> (\<not> reconnects \<longrightarrow> mset (tr_open t) = mset (held t))"
proof -
  have "owned reconnects new_transport"
    by (simp add: owned_def new_transport_def held_def clean_def listener_held_def listener_valid_def new_listener_def)
  with assms have "owned reconnects t"
    by (induction rule: rtranclp_induct) (blast intro: step_owned)+
  then obtain lost where o: "clean (tr_open t)" "mset (tr_open t) = mset (held t) + lost" "reconnects \<or> lost = {#}"
    by (auto simp: owned_def)
  then have sub: "mset (held t) \<subseteq># mset (tr_open t)" by simp
  obtain xs where "lost = mset xs" using ex_mset by metis
  then have "mset (tr_open t) = mset (held t @ xs)" using o(2) by simp
  from mset_eq_imp_distinct_iff [OF this] have "distinct (held t @ xs)" using o(1) by (simp add: clean_def)
  then have "distinct (held t)" by simp
  moreover have "set (held t) \<subseteq> set (tr_open t)" using set_mset_mono [OF sub] by simp
  ultimately show ?thesis using o(2,3) by auto
qed

text \<open>A listener on descriptor 3 accepts descriptor 4; the socket is then connected again.\<close>

definition one_connection :: transport where
  "one_connection = \<lparr> tr_open = [4, 3], tr_runtime = \<lparr> rt_users = 1, rt_ready = True \<rparr>, tr_sockets = [Some 4],
     tr_listener = \<lparr> ls_handle = 3, ls_port = 7000 \<rparr> \<rparr>"

lemma one_connection_reached: "(transport_step reconnects)\<^sup>*\<^sup>* new_transport one_connection"
proof -
  let ?t1 = "new_transport\<lparr>tr_sockets := [None]\<rparr>"
  let ?t2 = "?t1\<lparr>tr_listener := \<lparr> ls_handle = 3, ls_port = 7000 \<rparr>, tr_runtime := \<lparr> rt_users = 1, rt_ready = True \<rparr>, tr_open := [3]\<rparr>"
  have "(transport_step reconnects)\<^sup>*\<^sup>* new_transport ?t1"
    using r_into_rtranclp [of "transport_step reconnects", OF new_step [of reconnects new_transport]]
    by (simp add: new_transport_def)
  also have "transport_step reconnects ?t1 ?t2"
    by (rule bind_step [where ans = "\<lparr> ba_socket = 3, ba_bound = True, ba_listens = True, ba_name = Some 7000 \<rparr>" and port = 0])
      (simp_all add: bind_loopback_def runtime_ensure_def runtime_initialize_def new_transport_def new_listener_def
        listener_close_def listener_valid_def kInvalidSocket_def Let_def)
  also have "transport_step reconnects ?t2 (?t2\<lparr>tr_sockets := [None][0 := Some 4], tr_open := [4, 3]\<rparr>)"
    using tcp_accept_step [where i = 0 and t = ?t2 and fd = 4]
    by (simp add: listener_accept_def listener_valid_def kInvalidSocket_def tcp_assign_def tcp_close_def new_transport_def
        set_no_delay_def tcp_valid_def)
  finally show ?thesis by (simp add: one_connection_def new_transport_def)
qed

theorem descriptors_owned_witness:
  "distinct (held one_connection) \<and> mset (tr_open one_connection) = {#4, 3#}"
  using descriptors_owned [OF one_connection_reached, of False]
  by (simp add: one_connection_def held_def listener_held_def listener_valid_def listener_handle_def kInvalidSocket_def)

text \<open>Connecting an open socket replaces its implementation without closing it.\<close>

lemma reconnect_leaks:
  "tcp_connect 5 True (Some 4) r [4, 3] = (Ok, Some 5, snd (runtime_ensure r), [5, 4, 3])"
  by (simp add: tcp_connect_def runtime_ensure_def runtime_initialize_def set_no_delay_def tcp_valid_def kInvalidSocket_def)

end
